(* ===== verification/Prelude.thy ===== *)
theory Prelude
  imports Main "HOL-Library.Word" "HOL-Library.AList"
begin

text \<open>
  Shared vocabulary of the development: machine integers at Rust's widths with its
  saturating operations, durations and instants, the list operations of \<open>Vec\<close> and of the
  iterators, and \<open>HashMap\<close> as a list of entries with distinct keys.  Strings and byte buffers are both \<open>char list\<close>: a \<open>char\<close> is one byte, so
  \<open>length\<close> is Rust's \<open>len\<close> on \<open>str\<close> and on \<open>[u8]\<close>.
\<close>

named_theorems word_nat "readings of the saturating word operations as natural numbers"
named_theorems hmap "lookup laws of the HashMap operations"

section \<open>Machine integers\<close>

type_synonym u8 = "8 word"
type_synonym u16 = "16 word"
type_synonym u32 = "32 word"
type_synonym u64 = "64 word"
type_synonym uuid = "128 word"

definition nil_uuid :: uuid where
  "nil_uuid = 0"

definition sat_add :: "'a::len word \<Rightarrow> 'a word \<Rightarrow> 'a word" where
  "sat_add a b = (if unat a + unat b < 2 ^ LENGTH('a) then a + b else - 1)"

definition sat_sub :: "'a::len word \<Rightarrow> 'a word \<Rightarrow> 'a word" where
  "sat_sub a b = (if b \<le> a then a - b else 0)"

definition sat_mul :: "'a::len word \<Rightarrow> 'a word \<Rightarrow> 'a word" where
  "sat_mul a b = (if unat a * unat b < 2 ^ LENGTH('a) then a * b else - 1)"

lemma unat_max_word_eq: "unat (- 1 :: 'a::len word) = 2 ^ LENGTH('a) - 1"
  by (simp only: unsigned_minus_1_eq_mask mask_eq_exp_minus_1)

lemma unat_sat_add [word_nat]:
  "unat (sat_add a (b :: 'a::len word)) = min (unat a + unat b) (2 ^ LENGTH('a) - 1)"
  by (auto simp: sat_add_def unat_word_ariths unat_max_word_eq min_def)

lemma unat_sat_mul [word_nat]:
  "unat (sat_mul a (b :: 'a::len word)) = min (unat a * unat b) (2 ^ LENGTH('a) - 1)"
proof (cases "unat a * unat b < 2 ^ LENGTH('a)")
  case True
  then have "unat (a * b) = unat a * unat b"
    by (simp add: unat_word_ariths)
  moreover from True have "unat a * unat b \<le> 2 ^ LENGTH('a) - 1" by linarith
  ultimately show ?thesis using True by (simp add: sat_mul_def min_absorb1)
next
  case False
  then have "2 ^ LENGTH('a) - 1 \<le> unat a * unat b" by linarith
  with False show ?thesis by (simp add: sat_mul_def unat_max_word_eq min_absorb2)
qed

lemma unat_sat_sub [word_nat]:
  "unat (sat_sub a (b :: 'a::len word)) = unat a - unat b"
  by (auto simp: sat_sub_def unat_sub word_le_nat_alt)

lemma unat_u8_less: "unat (a :: u8) < 256"
proof -
  have "unat a < 2 ^ LENGTH(8)" by (rule unsigned_less)
  then show ?thesis by simp
qed

lemma unat_u64_less: "unat (a :: u64) < 18446744073709551616"
proof -
  have "unat a < 2 ^ LENGTH(64)" by (rule unsigned_less)
  then show ?thesis by simp
qed

text \<open>\<open>x.max(1)\<close>, the guard the retry policy puts on every count read from a configuration.\<close>

definition at_least_one :: "'a::len word \<Rightarrow> 'a word" where
  "at_least_one a = max a 1"

lemma unat_one_word [simp]: "unat (1 :: 'a::len word) = 1"
  by (rule unsigned_1)

lemma unat_at_least_one [word_nat]: "unat (at_least_one (a :: 'a::len word)) = max (unat a) 1"
  by (auto simp: at_least_one_def max_def word_le_nat_alt)

lemma at_least_one_pos [simp]: "0 < unat (at_least_one a)"
  by (simp add: word_nat)

section \<open>Time\<close>

text \<open>
  \<open>Instant\<close> is a point of the monotonic clock and \<open>Duration\<close> a length of time, both in
  nanoseconds.  \<open>saturating_duration_since\<close> is subtraction on \<open>nat\<close>.  \<open>Duration\<close> itself stops
  at \<open>u64::MAX\<close> seconds and 999999999 nanoseconds.
\<close>

type_synonym instant = nat
type_synonym duration = nat

definition from_secs :: "nat \<Rightarrow> duration" where
  "from_secs n = n * 1000000000"

definition from_millis :: "nat \<Rightarrow> duration" where
  "from_millis n = n * 1000000"

definition as_millis :: "duration \<Rightarrow> nat" where
  "as_millis d = d div 1000000"

definition duration_max :: duration where
  "duration_max = (2 ^ 64 - 1) * 1000000000 + 999999999"

definition duration_sat_mul :: "duration \<Rightarrow> nat \<Rightarrow> duration" where
  "duration_sat_mul d n = min (d * n) duration_max"

lemma from_secs_mono: "a \<le> b \<Longrightarrow> from_secs a \<le> from_secs b"
  by (simp add: from_secs_def)

lemma from_millis_mono: "a \<le> b \<Longrightarrow> from_millis a \<le> from_millis b"
  by (simp add: from_millis_def)

lemma from_millis_as_millis: "from_millis (as_millis d) \<le> d"
  by (simp add: from_millis_def as_millis_def)

section \<open>Lists as vectors\<close>

text \<open>
  \<open>sort_by_key\<close> is the library's stable insertion sort \<open>sort_key\<close>, \<open>truncate\<close> is \<open>take\<close>,
  \<open>retain\<close> is \<open>filter\<close>, \<open>rotate_left\<close> is \<open>rotate\<close>.
\<close>

definition position :: "('a \<Rightarrow> bool) \<Rightarrow> 'a list \<Rightarrow> nat option" where
  "position P xs = (let n = length (takeWhile (\<lambda>x. \<not> P x) xs) in if n < length xs then Some n else None)"

lemma position_Some:
  "position P xs = Some n \<Longrightarrow> n < length xs \<and> P (xs ! n) \<and> (\<forall>k<n. \<not> P (xs ! k))"
proof -
  assume "position P xs = Some n"
  then have n: "n = length (takeWhile (\<lambda>x. \<not> P x) xs)" and less: "n < length xs"
    by (auto simp: position_def Let_def split: if_splits)
  have "P (xs ! n)"
    using nth_length_takeWhile [of "\<lambda>x. \<not> P x" xs] less by (simp add: n)
  moreover have "\<not> P (xs ! k)" if "k < n" for k
    using that nth_mem [of k "takeWhile (\<lambda>x. \<not> P x) xs"]
    by (auto simp: n takeWhile_nth dest: set_takeWhileD)
  ultimately show ?thesis using less by blast
qed

lemma position_None: "position P xs = None \<longleftrightarrow> (\<forall>x\<in>set xs. \<not> P x)"
proof -
  have "length (takeWhile (\<lambda>x. \<not> P x) xs) < length xs \<longleftrightarrow> (\<exists>x\<in>set xs. P x)"
    by (induction xs) auto
  then show ?thesis by (auto simp: position_def Let_def)
qed

text \<open>\<open>remove(i)\<close> followed by \<open>insert(0, x)\<close>.\<close>

definition move_to_front :: "nat \<Rightarrow> 'a list \<Rightarrow> 'a list" where
  "move_to_front i xs = xs ! i # (take i xs @ drop (Suc i) xs)"

lemma set_move_to_front [simp]: "i < length xs \<Longrightarrow> set (move_to_front i xs) = set xs"
proof -
  assume i: "i < length xs"
  then have "set xs = set (take i xs @ xs ! i # drop (Suc i) xs)"
    by (simp add: id_take_nth_drop [symmetric])
  then show ?thesis by (auto simp: move_to_front_def)
qed

lemma distinct_move_to_front:
  assumes i: "i < length xs"
  shows "distinct (map f (move_to_front i xs)) = distinct (map f xs)"
proof -
  have "map f xs = map f (take i xs) @ f (xs ! i) # map f (drop (Suc i) xs)"
    by (subst id_take_nth_drop [OF i]) simp
  then show ?thesis by (auto simp: move_to_front_def)
qed

lemma filter_find_hd: "find P xs = (case filter P xs of [] \<Rightarrow> None | x # _ \<Rightarrow> Some x)"
  by (induction xs) auto

lemma find_SomeD: "find P xs = Some x \<Longrightarrow> x \<in> set xs \<and> P x"
  by (auto simp: find_Some_iff)

section \<open>HashMap\<close>

text \<open>
  A \<open>HashMap\<close> is the list of its entries, in the order its iterator yields them, which
  the program never relies on.  \<open>hm_put\<close> is \<open>insert\<close>, \<open>hm_or_insert\<close> is
  \<open>entry(k).or_insert(v)\<close>, \<open>hm_modify\<close> is \<open>get_mut\<close> followed by an assignment.
\<close>

type_synonym ('k, 'v) hmap = "('k \<times> 'v) list"

definition hm_wf :: "('k, 'v) hmap \<Rightarrow> bool" where
  "hm_wf m = distinct (map fst m)"

definition hm_get :: "('k, 'v) hmap \<Rightarrow> 'k \<Rightarrow> 'v option" where
  "hm_get m k = map_of m k"

definition hm_put :: "'k \<Rightarrow> 'v \<Rightarrow> ('k, 'v) hmap \<Rightarrow> ('k, 'v) hmap" where
  "hm_put k v m = AList.update k v m"

definition hm_del :: "'k \<Rightarrow> ('k, 'v) hmap \<Rightarrow> ('k, 'v) hmap" where
  "hm_del k m = filter (\<lambda>e. fst e \<noteq> k) m"

definition hm_retain :: "('k \<Rightarrow> 'v \<Rightarrow> bool) \<Rightarrow> ('k, 'v) hmap \<Rightarrow> ('k, 'v) hmap" where
  "hm_retain P m = filter (\<lambda>(k, v). P k v) m"

definition hm_or_insert :: "'k \<Rightarrow> 'v \<Rightarrow> ('k, 'v) hmap \<Rightarrow> ('k, 'v) hmap" where
  "hm_or_insert k v m = (if hm_get m k = None then hm_put k v m else m)"

definition hm_modify :: "'k \<Rightarrow> ('v \<Rightarrow> 'v) \<Rightarrow> ('k, 'v) hmap \<Rightarrow> ('k, 'v) hmap" where
  "hm_modify k f m = (case hm_get m k of None \<Rightarrow> m | Some v \<Rightarrow> hm_put k (f v) m)"

text \<open>\<open>entry(k).or_insert(d)\<close> followed by an update through the returned reference.\<close>

definition hm_update :: "'k \<Rightarrow> 'v \<Rightarrow> ('v \<Rightarrow> 'v) \<Rightarrow> ('k, 'v) hmap \<Rightarrow> ('k, 'v) hmap" where
  "hm_update k d f m = hm_put k (f (case hm_get m k of None \<Rightarrow> d | Some v \<Rightarrow> v)) m"

lemma hm_get_Nil [simp]: "hm_get [] k = None"
  by (simp add: hm_get_def)

lemma hm_wf_Nil [simp]: "hm_wf []"
  by (simp add: hm_wf_def)

lemma hm_get_put [hmap, simp]: "hm_get (hm_put k v m) j = (if j = k then Some v else hm_get m j)"
  by (simp add: hm_get_def hm_put_def update_conv')

lemma hm_get_del [hmap, simp]: "hm_get (hm_del k m) j = (if j = k then None else hm_get m j)"
  by (induction m) (auto simp: hm_get_def hm_del_def)

lemma hm_get_retain [hmap]:
  assumes "hm_wf m"
  shows "hm_get (hm_retain P m) k =
    (case hm_get m k of None \<Rightarrow> None | Some v \<Rightarrow> if P k v then Some v else None)"
  using assms
proof (induction m)
  case Nil
  show ?case by (simp add: hm_get_def hm_retain_def)
next
  case (Cons e m)
  obtain j w where e: "e = (j, w)" by (cases e)
  from Cons.prems have m: "hm_wf m" and j: "j \<notin> fst ` set m"
    by (auto simp: hm_wf_def e)
  have "map_of (filter (\<lambda>(k, v). P k v) m) j = None"
    using j by (force simp: map_of_eq_None_iff)
  with Cons.IH [OF m] j show ?case
    by (auto simp: hm_get_def hm_retain_def e split: option.splits)
qed

lemma hm_get_or_insert [hmap, simp]:
  "hm_get (hm_or_insert k v m) j =
    (if j = k then Some (case hm_get m k of None \<Rightarrow> v | Some w \<Rightarrow> w) else hm_get m j)"
  by (auto simp: hm_or_insert_def split: option.splits)

lemma hm_get_modify [hmap, simp]:
  "hm_get (hm_modify k f m) j = (if j = k then map_option f (hm_get m k) else hm_get m j)"
  by (auto simp: hm_modify_def split: option.splits)

lemma hm_get_update [hmap, simp]:
  "hm_get (hm_update k d f m) j =
    (if j = k then Some (f (case hm_get m k of None \<Rightarrow> d | Some v \<Rightarrow> v)) else hm_get m j)"
  by (simp add: hm_update_def)

lemma hm_wf_put [simp, intro]: "hm_wf m \<Longrightarrow> hm_wf (hm_put k v m)"
  by (simp add: hm_wf_def hm_put_def distinct_update)

lemma hm_wf_del [simp, intro]: "hm_wf m \<Longrightarrow> hm_wf (hm_del k m)"
  by (simp add: hm_wf_def hm_del_def distinct_map_filter)

lemma hm_wf_retain [simp, intro]: "hm_wf m \<Longrightarrow> hm_wf (hm_retain P m)"
  by (simp add: hm_wf_def hm_retain_def distinct_map_filter)

lemma hm_wf_or_insert [simp, intro]: "hm_wf m \<Longrightarrow> hm_wf (hm_or_insert k v m)"
  by (simp add: hm_or_insert_def)

lemma hm_wf_modify [simp, intro]: "hm_wf m \<Longrightarrow> hm_wf (hm_modify k f m)"
  by (auto simp: hm_modify_def split: option.splits)

lemma hm_wf_update [simp, intro]: "hm_wf m \<Longrightarrow> hm_wf (hm_update k d f m)"
  by (simp add: hm_update_def)

lemma hm_get_Some_in: "hm_get m k = Some v \<Longrightarrow> (k, v) \<in> set m"
  by (simp add: hm_get_def map_of_SomeD)

lemma in_hm_get: "hm_wf m \<Longrightarrow> (k, v) \<in> set m \<Longrightarrow> hm_get m k = Some v"
  by (simp add: hm_get_def hm_wf_def)

lemma set_hm_retain [simp]: "set (hm_retain P m) = {(k, v). (k, v) \<in> set m \<and> P k v}"
  by (auto simp: hm_retain_def)

lemma length_hm_retain: "length (hm_retain P m) \<le> length m"
  by (simp add: hm_retain_def)

lemma length_hm_put: "length (hm_put k v m) \<le> Suc (length m)"
  by (induction m) (auto simp: hm_put_def)

lemma length_hm_or_insert: "length (hm_or_insert k v m) \<le> Suc (length m)"
  by (simp add: hm_or_insert_def length_hm_put)

lemma length_hm_modify [simp]: "length (hm_modify k f m) = length m"
proof -
  have "map_of m k = Some v \<Longrightarrow> length (AList.update k w m) = length m" for v w
    by (induction m) auto
  then show ?thesis
    by (auto simp: hm_modify_def hm_put_def hm_get_def split: option.splits)
qed

lemma length_hm_del_less: "hm_get m k = Some v \<Longrightarrow> length (hm_del k m) < length m"
proof -
  assume "hm_get m k = Some v"
  then have "(k, v) \<in> set m" by (rule hm_get_Some_in)
  then show ?thesis by (auto simp: hm_del_def intro: length_filter_less)
qed

end
