(* ===== verification/Http.thy ===== *)
theory Http
  imports Text
begin

text \<open>
  The parts of the \<open>http\<close> crate the proxy relies on: a \<open>HeaderMap\<close> is the list of its
  (lower-case name, value) entries, \<open>get\<close> reads the first value of a name, \<open>insert\<close> replaces
  all of them, \<open>append\<close> adds one; \<open>to_str\<close> succeeds on visible ASCII and tabs.  Also the
  constant-time comparison of \<open>crates/aipass-proxy/src/util.rs\<close> and its calendar arithmetic.
\<close>

section \<open>Headers\<close>

type_synonym header_map = "(string \<times> bytes) list"

definition header_get :: "header_map \<Rightarrow> string \<Rightarrow> bytes option" where
  "header_get m n = map_of m n"

definition header_get_all :: "header_map \<Rightarrow> string \<Rightarrow> bytes list" where
  "header_get_all m n = map snd (filter (\<lambda>e. fst e = n) m)"

definition header_contains :: "header_map \<Rightarrow> string \<Rightarrow> bool" where
  "header_contains m n = (n \<in> set (map fst m))"

definition header_remove :: "string \<Rightarrow> header_map \<Rightarrow> header_map" where
  "header_remove n m = filter (\<lambda>e. fst e \<noteq> n) m"

definition header_insert :: "string \<Rightarrow> bytes \<Rightarrow> header_map \<Rightarrow> header_map" where
  "header_insert n v m = header_remove n m @ [(n, v)]"

definition header_append :: "string \<Rightarrow> bytes \<Rightarrow> header_map \<Rightarrow> header_map" where
  "header_append n v m = m @ [(n, v)]"

definition to_str :: "bytes \<Rightarrow> string option" where
  "to_str v = (if \<forall>c\<in>set v. 32 \<le> byte_val c \<and> byte_val c < 127 \<or> byte_val c = 9 then Some v else None)"

definition header_text :: "header_map \<Rightarrow> string \<Rightarrow> string option" where
  "header_text m n = Option.bind (header_get m n) to_str"

lemma to_str_SomeD: "to_str v = Some s \<Longrightarrow> s = v"
  by (simp add: to_str_def split: if_splits)

lemma header_get_remove [simp]: "header_get (header_remove n m) k = (if k = n then None else header_get m k)"
  by (induction m) (auto simp: header_get_def header_remove_def)

lemma header_get_insert [simp]: "header_get (header_insert n v m) k = (if k = n then Some v else header_get m k)"
proof -
  have "header_get (a @ b) k = or_else (header_get a k) (header_get b k)" for a b
    by (simp add: header_get_def or_else_def map_add_def split: option.splits)
  then show ?thesis
    by (simp add: header_insert_def or_else_def, simp add: header_get_def or_else_def split: option.split)
qed

lemma header_contains_iff: "header_contains m n \<longleftrightarrow> header_get m n \<noteq> None"
  by (induction m) (auto simp: header_contains_def header_get_def)

section \<open>Status codes\<close>

definition is_redirection :: "nat \<Rightarrow> bool" where
  "is_redirection s = (300 \<le> s \<and> s < 400)"

definition is_client_error :: "nat \<Rightarrow> bool" where
  "is_client_error s = (400 \<le> s \<and> s < 500)"

definition is_server_error :: "nat \<Rightarrow> bool" where
  "is_server_error s = (500 \<le> s \<and> s < 600)"

definition is_success :: "nat \<Rightarrow> bool" where
  "is_success s = (200 \<le> s \<and> s < 300)"

section \<open>Numbers in headers\<close>

definition is_digit :: "char \<Rightarrow> bool" where
  "is_digit c = (48 \<le> byte_val c \<and> byte_val c \<le> 57)"

fun digits_val :: "string \<Rightarrow> nat \<Rightarrow> nat" where
  "digits_val [] acc = acc"
| "digits_val (c # cs) acc = digits_val cs (10 * acc + (byte_val c - 48))"

text \<open>\<open>str::parse::<u64>()\<close>: an optional plus sign and decimal digits, within range.\<close>

definition parse_u64 :: "string \<Rightarrow> u64 option" where
  "parse_u64 s =
    (let d = (if take 1 s = ''+'' then drop 1 s else s) in
     if d \<noteq> [] \<and> list_all is_digit d \<and> digits_val d 0 < 2 ^ 64 then Some (of_nat (digits_val d 0))
     else None)"

section \<open>Utilities\<close>

definition byte_word :: "char \<Rightarrow> u8" where
  "byte_word c = of_nat (byte_val c)"

definition tokens_match :: "string \<Rightarrow> string \<Rightarrow> bool" where
  "tokens_match left right =
    (if length left \<noteq> length right then False
     else fold (\<lambda>(l, r) diff. or diff (xor (byte_word l) (byte_word r))) (zip left right) 0 = 0)"

definition local_day_start :: "int \<Rightarrow> int \<Rightarrow> int" where
  "local_day_start timestamp offset = (timestamp + offset) div 86400 * 86400 - offset"

lemma byte_word_inject: "byte_word a = byte_word b \<longleftrightarrow> a = b"
proof
  assume eq: "byte_word a = byte_word b"
  have less: "byte_val c < 256" for c
    using nat_of_char_less_256 [of c] by (simp add: byte_val_def)
  have "unat (byte_word c) = byte_val c" for c
    using less [of c] by (simp add: byte_word_def unsigned_of_nat take_bit_nat_eq_self)
  with eq have "byte_val a = byte_val b" by metis
  then show "a = b" by (simp add: byte_val_def of_char_eq_iff)
qed simp

lemma or_zero_iff: "or a b = 0 \<longleftrightarrow> a = 0 \<and> b = (0 :: 'a::len word)"
  by (metis or.right_neutral or_eq_0_iff)

lemma fold_diff_zero:
  "fold (\<lambda>(l, r) d. or d (xor (byte_word l) (byte_word r))) ps d = 0 \<longleftrightarrow>
    d = 0 \<and> (\<forall>(l, r)\<in>set ps. l = r)"
proof (induction ps arbitrary: d)
  case Nil
  show ?case by simp
next
  case (Cons p ps)
  obtain l r where p: "p = (l, r)" by (cases p)
  have "xor (byte_word l) (byte_word r) = 0 \<longleftrightarrow> l = r"
    by (metis byte_word_inject xor_self_eq xor.right_neutral xor.left_commute)
  then show ?case by (auto simp: p Cons.IH or_zero_iff)
qed

lemma zip_all_eq: "length xs = length ys \<Longrightarrow> (\<forall>(a, b)\<in>set (zip xs ys). a = b) \<longleftrightarrow> xs = ys"
  by (induction xs ys rule: list_induct2) auto

lemma tokens_match_eq: "tokens_match a b \<longleftrightarrow> a = b"
  by (auto simp: tokens_match_def fold_diff_zero zip_all_eq)

end
