(* ===== verification/Search.thy ===== *)
theory Search
  imports Http
begin

text \<open>
  The settings of the search gateway (\<open>crates/aipass-proxy/src/search/config.rs\<close>) and their
  validation.  Parsing a URL is the \<open>url\<close> crate's: an argument that returns the parts the
  validation reads.
\<close>

section \<open>Settings\<close>

datatype search_vendor = Tavily | Brave | Exa | Firecrawl | You | Deepseek | Searxng | Bocha | Yuanbao

fun vendor_base :: "search_vendor \<Rightarrow> string" where
  "vendor_base Tavily = ''https://api.tavily.com''"
| "vendor_base Brave = ''https://api.search.brave.com''"
| "vendor_base Exa = ''https://api.exa.ai''"
| "vendor_base Firecrawl = ''https://api.firecrawl.dev''"
| "vendor_base You = ''https://ydc-index.io''"
| "vendor_base Deepseek = ''https://api.deepseek.com''"
| "vendor_base Searxng = ''''"
| "vendor_base Bocha = ''https://api.bocha.cn''"
| "vendor_base Yuanbao = ''https://api.wsa.cloud.tencent.com''"

record search_api_config =
  sa_id :: uuid
  sa_vendor :: search_vendor
  sa_provider :: "uuid option"
  sa_secret :: "string option"
  sa_base_url :: "string option"
  sa_enabled :: bool

record search_model_config =
  smc_route :: uuid
  smc_model :: string

record search_config =
  sc_apis :: "search_api_config list"
  sc_model :: "search_model_config option"
  sc_api_first :: bool

definition default_search :: search_config where
  "default_search = \<lparr>sc_apis = [], sc_model = None, sc_api_first = False\<rparr>"

record resolved_search_api =
  rsa_config :: search_api_config
  rsa_api_key :: string

section \<open>Validation\<close>

record url_parts =
  url_scheme :: string
  url_host :: "string option"
  url_username :: string
  url_password :: "string option"
  url_query :: "string option"
  url_fragment :: "string option"

text \<open>\<open>char::is_control\<close>: U+0000 to U+001F and U+007F to U+009F, the latter two bytes from C2 80.\<close>

fun has_control :: "string \<Rightarrow> bool" where
  "has_control [] = False"
| "has_control (c # cs) =
     (byte_val c < 32 \<or> byte_val c = 127
      \<or> byte_val c = 194 \<and> (case cs of [] \<Rightarrow> False | d # _ \<Rightarrow> 128 \<le> byte_val d \<and> byte_val d < 160)
      \<or> has_control cs)"

definition url_plain :: "url_parts \<Rightarrow> bool" where
  "url_plain u =
    (url_scheme u \<in> {''http'', ''https''} \<and> url_host u \<noteq> None \<and> url_username u = ''''
     \<and> url_password u = None \<and> url_query u = None \<and> url_fragment u = None)"

definition credential_ok :: "search_api_config \<Rightarrow> bool" where
  "credential_ok api =
    (\<not> ((sa_provider api \<noteq> None) \<noteq> (sa_secret api \<noteq> None)
        \<or> sa_vendor api \<noteq> Searxng \<and> sa_provider api = None
        \<or> is_some_and (sa_secret api) (\<lambda>s. trim s = '''')))"

fun validate_apis :: "(string \<Rightarrow> url_parts option) \<Rightarrow> uuid list \<Rightarrow> search_api_config list \<Rightarrow> string option" where
  "validate_apis parse ids [] = None"
| "validate_apis parse ids (api # apis) =
     (if sa_id api \<in> set ids then Some ''search API IDs must be unique''
      else case parse (unwrap_or (sa_base_url api) (vendor_base (sa_vendor api))) of
        None \<Rightarrow> Some ''search API requires a valid URL''
      | Some url \<Rightarrow>
          if \<not> url_plain url then Some ''search API URL must be HTTP(S), without credentials, query or fragment''
          else if \<not> credential_ok api then Some ''search API requires a vault credential''
          else validate_apis parse (sa_id api # ids) apis)"

definition validate_search :: "(string \<Rightarrow> url_parts option) \<Rightarrow> search_config \<Rightarrow> string option" where
  "validate_search parse c =
    (if 32 < length (sc_apis c) then Some ''at most 32 search API credentials are supported''
     else case validate_apis parse [] (sc_apis c) of
       Some e \<Rightarrow> Some e
     | None \<Rightarrow>
         if is_some_and (sc_model c) (\<lambda>m. trim (smc_model m) = '''' \<or> 256 < length (smc_model m) \<or> has_control (smc_model m))
         then Some ''search model must be nonempty and at most 256 bytes''
         else None)"

section \<open>Properties\<close>

lemma validate_apis_None:
  "validate_apis parse ids apis = None \<longleftrightarrow>
    distinct (map sa_id apis) \<and> set (map sa_id apis) \<inter> set ids = {}
    \<and> list_all (\<lambda>a. is_some_and (parse (unwrap_or (sa_base_url a) (vendor_base (sa_vendor a)))) url_plain
        \<and> credential_ok a) apis"
  by (induction parse ids apis rule: validate_apis.induct) (auto split: option.split)

text \<open>
  The validation of the search settings accepts exactly the settings with at most 32
  sources of distinct identifiers, each at a plain HTTP(S) address and with a complete
  credential (only SearXNG may have none), and a printable model name of 1 to 256 bytes.
\<close>

theorem search_validation_exact:
  "validate_search parse c = None \<longleftrightarrow>
    length (sc_apis c) \<le> 32 \<and> distinct (map sa_id (sc_apis c))
    \<and> list_all (\<lambda>a. is_some_and (parse (unwrap_or (sa_base_url a) (vendor_base (sa_vendor a)))) url_plain
        \<and> ((sa_provider a = None) = (sa_secret a = None)) \<and> (sa_vendor a = Searxng \<or> sa_provider a \<noteq> None)
        \<and> is_none_or (sa_secret a) (\<lambda>s. trim s \<noteq> '''')) (sc_apis c)
    \<and> is_none_or (sc_model c) (\<lambda>m. trim (smc_model m) \<noteq> '''' \<and> length (smc_model m) \<le> 256 \<and> \<not> has_control (smc_model m))"
proof -
  have cred: "credential_ok a \<longleftrightarrow> ((sa_provider a = None) = (sa_secret a = None)) \<and> (sa_vendor a = Searxng \<or> sa_provider a \<noteq> None)
        \<and> is_none_or (sa_secret a) (\<lambda>s. trim s \<noteq> '''')" for a
    by (auto simp: credential_ok_def is_none_or_def is_some_and_def split: option.split)
  have model: "is_none_or m (\<lambda>m. trim (smc_model m) \<noteq> '''' \<and> length (smc_model m) \<le> 256 \<and> \<not> has_control (smc_model m))
      \<longleftrightarrow> \<not> is_some_and m (\<lambda>m. trim (smc_model m) = '''' \<or> 256 < length (smc_model m) \<or> has_control (smc_model m))" for m
    by (auto simp: is_none_or_def is_some_and_def split: option.split)
  have "validate_search parse c = None \<longleftrightarrow> length (sc_apis c) \<le> 32 \<and> validate_apis parse [] (sc_apis c) = None
      \<and> \<not> is_some_and (sc_model c) (\<lambda>m. trim (smc_model m) = '''' \<or> 256 < length (smc_model m) \<or> has_control (smc_model m))"
    by (simp add: validate_search_def not_less split: option.split)
  then show ?thesis
    unfolding validate_apis_None model cred by (simp only: list.set Int_empty_right conj_assoc simp_thms)
qed

definition sample_url :: url_parts where
  "sample_url = \<lparr>url_scheme = ''https'', url_host = Some ''api.exa.ai'', url_username = '''', url_password = None,
     url_query = None, url_fragment = None\<rparr>"

definition sample_search :: search_config where
  "sample_search = \<lparr>sc_apis = [\<lparr>sa_id = 1, sa_vendor = Exa, sa_provider = Some 2, sa_secret = Some ''k'',
     sa_base_url = None, sa_enabled = True\<rparr>], sc_model = Some \<lparr>smc_route = 3, smc_model = ''m''\<rparr>, sc_api_first = False\<rparr>"

lemma trim_one: "lead_ws [c] = 0 \<Longrightarrow> trail_ws [c] = 0 \<Longrightarrow> trim [c] = [c]"
  by (simp add: trim_def trim_start.simps trim_end.simps)

theorem search_validation_exact_witness:
  "validate_search (\<lambda>_. Some sample_url) sample_search = None"
  unfolding search_validation_exact
  by (simp add: sample_search_def sample_url_def url_plain_def trim_one trail_ws_def byte_val_def ws1_def is_none_or_def)

end
