(* ===== verification/Config.thy ===== *)
theory Config
  imports Search
begin

text \<open>
  The configuration types of the proxy (\<open>crates/aipass-proxy/src/config.rs\<close>) and the targets
  and routes the agent resolves from them (\<open>state.rs\<close>), with the quota windows a target
  carries.  A quota observation counts only while it is at most 300 seconds old and its window
  has not reset.
\<close>

section \<open>Configuration records\<close>

datatype proxy_protocol = OpenAiResponses | OpenAiChatCompletions | AnthropicMessages

record retry_policy =
  max_attempts :: u8
  failure_threshold :: u8
  circuit_open_seconds :: u64
  connect_timeout_ms :: u64
  first_byte_timeout_ms :: u64
  stream_idle_timeout_ms :: u64
  silent_retry :: bool
  max_silent_retries :: u8
  hold_on_failure :: bool
  hold_initial_delay_ms :: u64
  hold_max_delay_ms :: u64
  hold_max_duration_ms :: u64

definition default_max_silent_retries :: u8 where
  "default_max_silent_retries = 3"

definition default_hold_initial_delay_ms :: u64 where
  "default_hold_initial_delay_ms = 500"

definition default_hold_max_delay_ms :: u64 where
  "default_hold_max_delay_ms = 10000"

definition default_hold_max_duration_ms :: u64 where
  "default_hold_max_duration_ms = 300000"

definition default_retry_policy :: retry_policy where
  "default_retry_policy = \<lparr>
     max_attempts = 3,
     failure_threshold = 3,
     circuit_open_seconds = 30,
     connect_timeout_ms = 10000,
     first_byte_timeout_ms = 30000,
     stream_idle_timeout_ms = 120000,
     silent_retry = False,
     max_silent_retries = default_max_silent_retries,
     hold_on_failure = False,
     hold_initial_delay_ms = default_hold_initial_delay_ms,
     hold_max_delay_ms = default_hold_max_delay_ms,
     hold_max_duration_ms = default_hold_max_duration_ms \<rparr>"

definition default_weight :: u32 where
  "default_weight = 1"

record proxy_target_config =
  tc_id :: uuid
  provider_entry_id :: uuid
  secret_id :: string
  label :: string
  base_url :: string
  auth_scheme :: string
  headers :: "(string \<times> string) list"
  group :: "string option"
  priority :: u16
  weight :: u32
  tc_enabled :: bool
  protocol :: "proxy_protocol option"
  prefer_ws :: bool
  tc_model :: "string option"

definition effective_protocol :: "proxy_target_config \<Rightarrow> proxy_protocol \<Rightarrow> proxy_protocol" where
  "effective_protocol c route_fallback = unwrap_or (protocol c) route_fallback"

datatype route_strategy = Fallback | RoundRobin | QuotaAware | ResetSoonest | QuotaPace

record proxy_route_config =
  rc_id :: uuid
  rc_name :: string
  token :: string
  inbound_protocol :: proxy_protocol
  upstream_protocol :: proxy_protocol
  conversion_enabled :: bool
  strategy :: route_strategy
  rc_targets :: "proxy_target_config list"
  retry :: retry_policy
  rc_enabled :: bool

datatype upstream_proxy_mode = System | Direct | Environment | Custom

record upstream_proxy_config =
  proxy_mode :: upstream_proxy_mode
  custom_url :: "string option"

definition default_upstream_proxy :: upstream_proxy_config where
  "default_upstream_proxy = \<lparr> proxy_mode = System, custom_url = None \<rparr>"

record model_pricing =
  mp_model :: string
  input_micros_per_million :: u64
  output_micros_per_million :: u64
  cache_read_micros_per_million :: u64
  cache_creation_micros_per_million :: u64
  cache_creation_1h_micros_per_million :: "u64 option"

text \<open>
  The public model of a group route: \<open>group/\<close> and the route's identifier.  How a \<open>Uuid\<close> is
  printed is the \<open>uuid\<close> crate's and is the argument \<open>show_uuid\<close>.
\<close>

definition group_model_id :: "(uuid \<Rightarrow> string) \<Rightarrow> proxy_route_config \<Rightarrow> string option" where
  "group_model_id show_uuid r =
    (if \<exists>t\<in>set (rc_targets r). tc_enabled t \<and> tc_model t \<noteq> None
     then Some (''group/'' @ show_uuid (rc_id r)) else None)"

section \<open>Resolved targets and routes\<close>

datatype provider_profile =
  Generic | OpenAi | DeepSeek | Kimi | Mistral | GeminiCompatible | Grok

datatype upstream_kind =
    Standard
  | CodexSubscription
  | GeminiNative
  | Copilot
  | CopilotCli
  | ClaudeSubscription
  | CommunitySubscription

definition is_copilot :: "upstream_kind \<Rightarrow> bool" where
  "is_copilot k = (k = Copilot \<or> k = CopilotCli)"

record quota_window =
  model_family :: "string option"
  models :: "string list option"
  not_models :: "string list"
  used_basis_points :: u16
  span_seconds :: "u64 option"
  observed_at :: u64
  resets_at :: "u64 option"

definition current_usage :: "quota_window \<Rightarrow> u64 \<Rightarrow> u16 option" where
  "current_usage w now =
    (if observed_at w \<le> now \<and> now - observed_at w \<le> 300
        \<and> is_none_or (resets_at w) (\<lambda>reset. now < reset)
     then Some (used_basis_points w) else None)"

record resolved_target =
  upstream_proxy :: "upstream_proxy_config option"
  model_override :: "string option"
  profile :: provider_profile
  upstream_kind :: upstream_kind
  quota :: "quota_window list"
  max_concurrent_requests :: "u32 option"
  supports_websockets :: bool
  t_config :: proxy_target_config
  api_key :: string

abbreviation target_id :: "resolved_target \<Rightarrow> uuid" where
  "target_id t \<equiv> tc_id (t_config t)"

abbreviation target_enabled :: "resolved_target \<Rightarrow> bool" where
  "target_enabled t \<equiv> tc_enabled (t_config t)"

abbreviation target_provider :: "resolved_target \<Rightarrow> uuid" where
  "target_provider t \<equiv> provider_entry_id (t_config t)"

record resolved_route =
  r_config :: proxy_route_config
  local_token :: string
  r_targets :: "resolved_target list"

abbreviation route_id :: "resolved_route \<Rightarrow> uuid" where
  "route_id r \<equiv> rc_id (r_config r)"

abbreviation route_enabled :: "resolved_route \<Rightarrow> bool" where
  "route_enabled r \<equiv> rc_enabled (r_config r)"

text \<open>The snapshot the listener runs on.\<close>

record runtime_config =
  cfg_search :: search_config
  cfg_search_apis :: "resolved_search_api list"
  cfg_enabled :: bool
  bind_addr :: string
  cfg_routes :: "resolved_route list"
  cfg_pricing :: "model_pricing list"
  cfg_upstream_proxy :: upstream_proxy_config

definition from_routes :: "string \<Rightarrow> resolved_route list \<Rightarrow> runtime_config" where
  "from_routes addr rs = \<lparr>
     cfg_search = default_search,
     cfg_search_apis = [],
     cfg_enabled = True,
     bind_addr = addr,
     cfg_routes = rs,
     cfg_pricing = [],
     cfg_upstream_proxy = default_upstream_proxy \<rparr>"

definition all_targets :: "runtime_config \<Rightarrow> resolved_target list" where
  "all_targets c = concat (map r_targets (cfg_routes c))"

section \<open>Quota windows of a target\<close>

definition family_matches :: "string \<Rightarrow> string \<Rightarrow> bool" where
  "family_matches model family =
    (eq_ignore_ascii_case model family
     \<or> is_some_and (strip_prefix ''claude-'' (to_ascii_lowercase model))
          (\<lambda>i. \<exists>part\<in>set (split_on (CHR ''-'') i). eq_ignore_ascii_case part family))"

definition window_matches :: "string option \<Rightarrow> quota_window \<Rightarrow> bool" where
  "window_matches model w =
    (case model of
       None \<Rightarrow> models w = None \<and> model_family w = None \<and> not_models w = []
     | Some m \<Rightarrow>
         is_none_or (model_family w) (family_matches m)
         \<and> is_none_or (models w) (\<lambda>ms. \<exists>i\<in>set ms. eq_ignore_ascii_case i m)
         \<and> \<not> (\<exists>i\<in>set (not_models w). eq_ignore_ascii_case i m))"

definition matching_quota :: "resolved_target \<Rightarrow> string option \<Rightarrow> quota_window list" where
  "matching_quota t model = filter (window_matches (or_else (model_override t) model)) (quota t)"

definition quota_usage :: "resolved_target \<Rightarrow> u64 \<Rightarrow> string option \<Rightarrow> u16 option" where
  "quota_usage t now model = list_max (filter_map (\<lambda>w. current_usage w now) (matching_quota t model))"

definition quota_reset :: "resolved_target \<Rightarrow> u64 \<Rightarrow> string option \<Rightarrow> u64 option" where
  "quota_reset t now model =
    list_min (filter_map resets_at
      (filter (\<lambda>w. is_some_and (current_usage w now) (\<lambda>n. 0 < n)) (matching_quota t model)))"

text \<open>
  Remaining allowance of the weekly window per hour, scaled by 1000.  The product
  \<open>10000 * 3600 * 1000\<close> fits in 64 bits, so the multiplication cannot overflow.
\<close>

definition window_pace :: "u64 \<Rightarrow> quota_window \<Rightarrow> u64 option" where
  "window_pace now w =
    Option.bind (current_usage w now) (\<lambda>used.
    Option.bind (resets_at w) (\<lambda>reset.
      if now \<le> reset
      then Some (ucast (sat_sub 10000 used) * 3600 * 1000 div at_least_one (reset - now))
      else None))"

definition quota_pace :: "resolved_target \<Rightarrow> u64 \<Rightarrow> string option \<Rightarrow> u64 option" where
  "quota_pace t now model =
    list_min (filter_map (window_pace now)
      (filter (\<lambda>w. span_seconds w = Some 604800) (matching_quota t model)))"

lemma current_usage_SomeD:
  "current_usage w now = Some u \<Longrightarrow>
    u = used_basis_points w \<and> observed_at w \<le> now \<and> now - observed_at w \<le> 300"
  by (auto simp: current_usage_def split: if_splits)

text \<open>The usage that gates a target is the usage of one of its current, matching windows.\<close>

lemma quota_usage_SomeD:
  "quota_usage t now model = Some u \<Longrightarrow>
    \<exists>w\<in>set (quota t). window_matches (or_else (model_override t) model) w \<and> current_usage w now = Some u"
  by (auto simp: quota_usage_def matching_quota_def set_filter_map dest!: list_max_SomeD)

lemma quota_usage_ge:
  assumes "w \<in> set (quota t)" "window_matches (or_else (model_override t) model) w"
    "current_usage w now = Some u"
  shows "\<exists>v. quota_usage t now model = Some v \<and> u \<le> v"
proof -
  let ?xs = "filter_map (\<lambda>w. current_usage w now) (matching_quota t model)"
  have u: "u \<in> set ?xs"
    using assms by (auto simp: set_filter_map matching_quota_def)
  then have "?xs \<noteq> []" by auto
  then obtain v where v: "list_max ?xs = Some v" by (metis list_max_None not_None_eq)
  with u have "u \<le> v" by (auto dest: list_max_SomeD)
  with v show ?thesis by (simp add: quota_usage_def)
qed

end
