(* ===== verification/Health.thy ===== *)
theory Health
  imports Config
begin

text \<open>
  The circuit breaker of one target and the admission of recovery probes
  (\<open>crates/aipass-proxy/src/routing.rs\<close> and \<open>TargetHealth\<close> of \<open>state.rs\<close>).  A method that
  takes \<open>&mut self\<close> returns the new record; the clock reading it makes is its argument
  \<open>now\<close>.  The breaker is shown to refine a three-phase machine (closed, open until an
  instant, half-open).
\<close>

section \<open>Target health\<close>

record target_health =
  last_status :: "u16 option"
  consecutive_failures :: u8
  consecutive_successes :: u8
  open_until :: "instant option"
  last_failure_at :: "instant option"
  recovering :: bool
  reopen_count :: u8
  probe_id :: "uuid option"

definition default_health :: target_health where
  "default_health = \<lparr>
     last_status = None,
     consecutive_failures = 0,
     consecutive_successes = 0,
     open_until = None,
     last_failure_at = None,
     recovering = False,
     reopen_count = 0,
     probe_id = None \<rparr>"

definition STABILITY_WINDOW :: duration where
  "STABILITY_WINDOW = from_secs (10 * 60)"

definition MAX_CIRCUIT_COOLDOWN :: duration where
  "MAX_CIRCUIT_COOLDOWN = from_secs (15 * 60)"

definition RECOVERY_SUCCESS_THRESHOLD :: u8 where
  "RECOVERY_SUCCESS_THRESHOLD = 2"

definition degraded :: "target_health \<Rightarrow> bool" where
  "degraded h = (recovering h \<or> 0 < consecutive_failures h \<or> open_until h \<noteq> None)"

definition stability_rank :: "target_health \<Rightarrow> instant \<Rightarrow> u8" where
  "stability_rank h now =
    (if degraded h then 2
     else if is_some_and (last_failure_at h) (\<lambda>at. now - at < STABILITY_WINDOW) then 1
     else 0)"

definition circuit_open :: "instant \<Rightarrow> target_health \<Rightarrow> bool \<times> target_health" where
  "circuit_open now h =
    (case open_until h of
       None \<Rightarrow> (False, h)
     | Some until \<Rightarrow>
         if now < until then (True, h)
         else (False, h\<lparr>open_until := None, consecutive_successes := 0, recovering := True\<rparr>))"

definition circuit_cooldown :: "retry_policy \<Rightarrow> u8 \<Rightarrow> duration" where
  "circuit_cooldown policy reopen =
    min (duration_sat_mul (from_secs (unat (at_least_one (circuit_open_seconds policy))))
           (2 ^ unat (min reopen 10)))
      MAX_CIRCUIT_COOLDOWN"

definition health_fail :: "retry_policy \<Rightarrow> instant \<Rightarrow> target_health \<Rightarrow> target_health" where
  "health_fail policy now h =
    (let h0 = (if stability_rank h now = 0 then h\<lparr>reopen_count := 0\<rparr> else h);
         h1 = h0\<lparr>last_failure_at := Some now,
                 consecutive_successes := 0,
                 consecutive_failures := sat_add (consecutive_failures h0) 1\<rparr>
     in if is_some_and (open_until h1) (\<lambda>until. now < until) then h1
        else if recovering h1 \<or> at_least_one (failure_threshold policy) \<le> consecutive_failures h1
        then h1\<lparr>open_until := Some (now + circuit_cooldown policy (reopen_count h1)),
                reopen_count := sat_add (reopen_count h1) 1,
                recovering := True\<rparr>
        else h1)"

definition health_succeed :: "instant \<Rightarrow> instant \<Rightarrow> target_health \<Rightarrow> bool \<times> target_health" where
  "health_succeed started now h =
    (if is_some_and (last_failure_at h) (\<lambda>failure. started \<le> failure) then (False, h)
     else (case circuit_open now h of
         (True, h') \<Rightarrow> (False, h')
       | (False, h') \<Rightarrow>
           if degraded h'
           then (let n = sat_add (consecutive_successes h') 1 in
             if RECOVERY_SUCCESS_THRESHOLD \<le> n
             then (True, h'\<lparr>consecutive_failures := 0, consecutive_successes := 0, recovering := False\<rparr>)
             else (True, h'\<lparr>consecutive_successes := n\<rparr>))
           else (True, h')))"

text \<open>The effect of an HTTP 429 on a target's health, with the duration it asks for.\<close>

definition health_rate_limited :: "duration \<Rightarrow> instant \<Rightarrow> target_health \<Rightarrow> target_health" where
  "health_rate_limited duration now h =
    h\<lparr>last_failure_at := Some now,
      consecutive_successes := 0,
      recovering := True,
      open_until := Some (max (unwrap_or (open_until h) now) (now + duration))\<rparr>"

section \<open>Well-formed health\<close>

text \<open>
  An open circuit is recovering, every trace of failure has its instant, and a counted
  success stays below the threshold that clears it.
\<close>

definition health_wf :: "target_health \<Rightarrow> bool" where
  "health_wf h =
    ((open_until h \<noteq> None \<longrightarrow> recovering h)
     \<and> (degraded h \<longrightarrow> last_failure_at h \<noteq> None)
     \<and> consecutive_successes h < RECOVERY_SUCCESS_THRESHOLD)"

lemmas health_defs = degraded_def RECOVERY_SUCCESS_THRESHOLD_def health_wf_def

lemma health_wf_default: "health_wf default_health"
  by (simp add: health_defs default_health_def)

lemma circuit_open_wf: "health_wf h \<Longrightarrow> health_wf (snd (circuit_open now h))"
  by (auto simp: circuit_open_def health_defs split: option.splits)

lemma health_fail_wf: "health_wf h \<Longrightarrow> health_wf (health_fail policy now h)"
  by (auto simp: health_fail_def Let_def health_defs)

lemma circuit_open_closed:
  "circuit_open now h = (False, h') \<Longrightarrow> open_until h' = None \<and> last_failure_at h' = last_failure_at h
    \<and> consecutive_failures h' = consecutive_failures h \<and> probe_id h' = probe_id h"
  by (auto simp: circuit_open_def split: option.splits if_splits)

lemma circuit_open_True: "circuit_open now h = (True, h') \<Longrightarrow> h' = h \<and> (\<exists>u. open_until h = Some u \<and> now < u)"
  by (auto simp: circuit_open_def split: option.splits if_splits)

lemma health_succeed_wf:
  assumes "health_wf h"
  shows "health_wf (snd (health_succeed started now h))"
proof -
  obtain b h' where co: "circuit_open now h = (b, h')" by (cases "circuit_open now h")
  have h': "health_wf h'" using circuit_open_wf [OF assms, of now] by (simp add: co)
  show ?thesis
  proof (cases b)
    case True
    with co assms h' show ?thesis by (auto simp: health_succeed_def)
  next
    case False
    with co circuit_open_closed [of now h h'] have "open_until h' = None" by simp
    with co False assms h' show ?thesis
      by (auto simp: health_succeed_def Let_def health_defs not_le)
  qed
qed

lemma health_rate_limited_wf: "health_wf h \<Longrightarrow> health_wf (health_rate_limited d now h)"
  by (auto simp: health_rate_limited_def health_defs)

section \<open>Refinement of a three-phase breaker\<close>

text \<open>
  The abstract breaker counts failures and successes while closed, knows the instant an open
  circuit ends, and counts successes while half-open.
\<close>

datatype phase = Closed nat nat | Open instant | HalfOpen nat

definition phase_of :: "instant \<Rightarrow> target_health \<Rightarrow> phase" where
  "phase_of now h =
    (case open_until h of
       Some until \<Rightarrow> if now < until then Open until else HalfOpen 0
     | None \<Rightarrow>
         if recovering h then HalfOpen (unat (consecutive_successes h))
         else Closed (unat (consecutive_failures h)) (unat (consecutive_successes h)))"

fun breaker_fail :: "nat \<Rightarrow> instant \<Rightarrow> phase \<Rightarrow> phase" where
  "breaker_fail threshold until (Closed f s) =
     (let f' = min (f + 1) 255 in if threshold \<le> f' then Open until else Closed f' 0)"
| "breaker_fail threshold until (Open u) = Open u"
| "breaker_fail threshold until (HalfOpen s) = Open until"

fun breaker_succeed :: "phase \<Rightarrow> bool \<times> phase" where
  "breaker_succeed (Closed f s) =
     (if f = 0 then (True, Closed f s)
      else if 2 \<le> s + 1 then (True, Closed 0 0) else (True, Closed f (s + 1)))"
| "breaker_succeed (Open u) = (False, Open u)"
| "breaker_succeed (HalfOpen s) =
     (if 2 \<le> s + 1 then (True, Closed 0 0) else (True, HalfOpen (s + 1)))"

text \<open>The count of re-openings a failure uses: it starts again once the target has been stable.\<close>

definition effective_reopen :: "target_health \<Rightarrow> instant \<Rightarrow> u8" where
  "effective_reopen h now = (if stability_rank h now = 0 then 0 else reopen_count h)"

lemma unat_sat_add_u8: "unat (sat_add (a :: u8) 1) = min (unat a + 1) 255"
  by (simp add: word_nat)

lemma word_le_unat: "a \<le> b \<longleftrightarrow> unat a \<le> unat b"
  by (rule word_le_nat_alt)

lemma circuit_cooldown_secs:
  "circuit_cooldown policy r =
    from_secs (min (max (unat (circuit_open_seconds policy)) 1 * 2 ^ min (unat r) 10) 900)"
proof -
  have "unat (min r 10 :: u8) = min (unat r) 10"
    by (simp add: min_def word_le_nat_alt)
  then show ?thesis
    by (simp add: circuit_cooldown_def duration_sat_mul_def duration_max_def from_secs_def
        MAX_CIRCUIT_COOLDOWN_def unat_at_least_one min_def)
qed

lemma circuit_cooldown_pos [simp]: "0 < circuit_cooldown policy r"
  by (simp add: circuit_cooldown_secs from_secs_def)

lemma fail_refines_breaker:
  assumes "health_wf h"
  shows "phase_of now (health_fail policy now h) =
    breaker_fail (unat (at_least_one (failure_threshold policy)))
      (now + circuit_cooldown policy (effective_reopen h now)) (phase_of now h)"
  using assms
  by (cases "open_until h")
     (auto simp: health_fail_def Let_def phase_of_def effective_reopen_def word_le_unat
       unat_sat_add_u8 health_wf_def stability_rank_def degraded_def)

lemma succeed_refines_breaker:
  assumes "health_wf h" and "\<not> is_some_and (last_failure_at h) (\<lambda>failure. started \<le> failure)"
  shows "(\<lambda>(ok, h'). (ok, phase_of now h')) (health_succeed started now h) =
    breaker_succeed (phase_of now h)"
  using assms
  by (cases "open_until h")
     (auto simp: health_succeed_def circuit_open_def Let_def phase_of_def word_le_unat
       unat_sat_add_u8 health_defs word_less_nat_alt unat_eq_zero)

section \<open>Runs of failures\<close>

fun fail_run :: "retry_policy \<Rightarrow> instant list \<Rightarrow> target_health \<Rightarrow> target_health" where
  "fail_run policy [] h = h"
| "fail_run policy (t # ts) h = fail_run policy ts (health_fail policy t h)"

lemma fail_below_threshold:
  assumes "open_until h = None" "\<not> recovering h"
    and "unat (consecutive_failures h) + 1 < unat (at_least_one (failure_threshold policy))"
  shows "open_until (health_fail policy t h) = None \<and> \<not> recovering (health_fail policy t h)
    \<and> unat (consecutive_failures (health_fail policy t h)) = unat (consecutive_failures h) + 1"
proof -
  have "unat (at_least_one (failure_threshold policy)) < 256"
    by (rule unat_u8_less)
  with assms(3) have "unat (sat_add (consecutive_failures h) 1) = unat (consecutive_failures h) + 1"
    by (simp add: unat_sat_add_u8)
  with assms show ?thesis
    by (auto simp: health_fail_def Let_def word_le_unat)
qed

lemma fail_at_threshold:
  assumes "open_until h = None"
    and "unat (at_least_one (failure_threshold policy)) \<le> unat (consecutive_failures h) + 1"
  shows "\<exists>c>0. open_until (health_fail policy t h) = Some (t + c)"
proof -
  have "unat (at_least_one (failure_threshold policy)) < 256"
    by (rule unat_u8_less)
  with assms show ?thesis
    by (auto simp: health_fail_def Let_def word_le_unat unat_sat_add_u8)
qed

lemma fail_run_opens:
  assumes "open_until h = None" "\<not> recovering h"
    and "unat (consecutive_failures h) < unat (at_least_one (failure_threshold policy))"
  shows "length ts + unat (consecutive_failures h) < unat (at_least_one (failure_threshold policy)) \<Longrightarrow>
      open_until (fail_run policy ts h) = None"
    and "length ts + unat (consecutive_failures h) + 1 = unat (at_least_one (failure_threshold policy)) \<Longrightarrow>
      \<exists>c>0. open_until (fail_run policy (ts @ [t]) h) = Some (t + c)"
  using assms
proof (induction ts arbitrary: h)
  case Nil
  { case 1 then show ?case by simp
  next
    case 2 then show ?case by (auto intro: fail_at_threshold) }
next
  case (Cons u us)
  { case 1
    then have b: "unat (consecutive_failures h) + 1 < unat (at_least_one (failure_threshold policy))"
      by simp
    from fail_below_threshold [OF 1(2,3) b, of u] 1 show ?case by (simp add: Cons.IH(1))
  next
    case 2
    then have b: "unat (consecutive_failures h) + 1 < unat (at_least_one (failure_threshold policy))"
      by simp
    from fail_below_threshold [OF 2(2,3) b, of u] 2 show ?case by (simp add: Cons.IH(2)) }
qed

section \<open>Properties\<close>

text \<open>
  The cooldown of an opened circuit is at least one second, at most fifteen minutes, and
  never shorter after more re-openings, whatever the configured seconds and the counter.
\<close>

theorem cooldown_bounded:
  "from_secs 1 \<le> circuit_cooldown policy r \<and> circuit_cooldown policy r \<le> from_secs 900
    \<and> circuit_cooldown policy r \<le> circuit_cooldown policy (max r r')"
proof -
  have "unat (max r r') = max (unat r) (unat r')" by (simp add: max_def word_le_nat_alt)
  then have "(2 :: nat) ^ min (unat r) 10 \<le> 2 ^ min (unat (max r r')) 10" by (intro power_increasing) auto
  then have "max (unat (circuit_open_seconds policy)) 1 * 2 ^ min (unat r) 10
      \<le> max (unat (circuit_open_seconds policy)) 1 * 2 ^ min (unat (max r r')) 10"
    by (rule mult_le_mono2)
  then show ?thesis
    unfolding circuit_cooldown_secs by (auto intro!: from_secs_mono simp: min_le_iff_disj Suc_le_eq)
qed

text \<open>The outcomes of attempts on one target, with the instants they are recorded at.\<close>

datatype outcome = Failed retry_policy | Succeeded instant

fun outcome_run :: "(instant \<times> outcome) list \<Rightarrow> target_health \<Rightarrow> target_health" where
  "outcome_run [] h = h"
| "outcome_run ((now, Failed policy) # es) h = outcome_run es (health_fail policy now h)"
| "outcome_run ((now, Succeeded started) # es) h = outcome_run es (snd (health_succeed started now h))"

text \<open>
  While a circuit is open, no number of failures and successes recorded before its end
  moves that end: attempts in flight neither extend the ban nor lift it.
\<close>

theorem ban_is_fixed:
  assumes "open_until h = Some until" and "\<forall>(t, e)\<in>set es. t < until"
  shows "open_until (outcome_run es h) = Some until"
  using assms
  by (induction es h rule: outcome_run.induct)
     (auto simp: health_fail_def health_succeed_def circuit_open_def Let_def split: if_splits)

theorem ban_is_fixed_witness:
  "open_until (outcome_run [(5, Failed default_retry_policy), (7, Succeeded 6)]
     (default_health\<lparr>open_until := Some 10, recovering := True\<rparr>)) = Some 10"
  by (rule ban_is_fixed) (simp_all add: default_health_def)

text \<open>
  A healthy target opens its circuit exactly at the configured number of consecutive
  failures (at least one): every shorter run leaves it closed, the last failure bans it for a
  positive time.
\<close>

theorem opens_at_threshold:
  assumes "open_until h = None" "\<not> recovering h" "consecutive_failures h = 0"
    and "length ts + 1 = unat (at_least_one (failure_threshold policy))"
  shows "open_until (fail_run policy ts h) = None
    \<and> (\<exists>c>0. open_until (fail_run policy (ts @ [t]) h) = Some (t + c))"
proof -
  have less: "unat (consecutive_failures h) < unat (at_least_one (failure_threshold policy))"
    using assms by simp
  show ?thesis
    using fail_run_opens [OF assms(1,2) less, of ts] assms(3,4) by simp
qed

theorem opens_at_threshold_witness:
  "open_until (fail_run default_retry_policy [1, 2] default_health) = None
    \<and> (\<exists>c>0. open_until (fail_run default_retry_policy ([1, 2] @ [3]) default_health) = Some (3 + c))"
  by (rule opens_at_threshold) (simp_all add: default_health_def default_retry_policy_def at_least_one_def max_def word_le_nat_alt)

text \<open>
  C32. The record of counters, flags and instants behaves as the three-phase breaker: an
  outcome recorded on a well-formed record is one step of the abstract machine, and the
  record stays well formed.  A success that started before the last failure is no step at all.
\<close>

theorem health_refines_breaker:
  assumes "health_wf h"
  shows "health_wf (health_fail policy now h) \<and> health_wf (snd (health_succeed started now h))
    \<and> phase_of now (health_fail policy now h) =
      breaker_fail (unat (at_least_one (failure_threshold policy)))
        (now + circuit_cooldown policy (effective_reopen h now)) (phase_of now h)
    \<and> (case health_succeed started now h of (ok, h') \<Rightarrow> (ok, phase_of now h')) =
      (if is_some_and (last_failure_at h) (\<lambda>failure. started \<le> failure) then (False, phase_of now h)
       else breaker_succeed (phase_of now h))"
proof -
  have "(case health_succeed started now h of (ok, h') \<Rightarrow> (ok, phase_of now h')) =
      (if is_some_and (last_failure_at h) (\<lambda>failure. started \<le> failure) then (False, phase_of now h)
       else breaker_succeed (phase_of now h))"
  proof (cases "is_some_and (last_failure_at h) (\<lambda>failure. started \<le> failure)")
    case True
    then show ?thesis by (simp add: health_succeed_def)
  next
    case False
    from succeed_refines_breaker [OF assms False] False show ?thesis by simp
  qed
  with fail_refines_breaker [OF assms] health_fail_wf [OF assms] health_succeed_wf [OF assms]
  show ?thesis by blast
qed

theorem health_refines_breaker_witness:
  "phase_of 4 (health_fail default_retry_policy 4 default_health) =
    breaker_fail 3 (4 + circuit_cooldown default_retry_policy (effective_reopen default_health 4))
      (phase_of 4 default_health)"
  using health_refines_breaker [OF health_wf_default, of default_retry_policy 4 0]
  by (simp add: default_retry_policy_def at_least_one_def max_def word_le_nat_alt)

end
