(* ===== verification/Recovery.thy ===== *)
theory Recovery
  imports Health
begin

text \<open>
  Admission of recovery probes (\<open>RecoveryPermit\<close> in \<open>crates/aipass-proxy/src/routing.rs\<close>).
  Each operation runs under the lock of the health map, so one operation is one step; the
  permits concurrent requests hold are part of the state.  A target that recovers from an
  open circuit serves one request at a time until it is trusted again.
\<close>

section \<open>Permits\<close>

type_synonym health_map = "(uuid, target_health) hmap"

record recovery_permit =
  permit_target :: uuid
  permit_probe :: "uuid option"

text \<open>\<open>fresh\<close> is the \<open>Uuid::new_v4\<close> the code draws when it registers a probe.\<close>

definition recovery_acquire ::
  "instant \<Rightarrow> uuid \<Rightarrow> uuid \<Rightarrow> health_map \<Rightarrow> recovery_permit option \<times> health_map" where
  "recovery_acquire now fresh target m =
    (case hm_get m target of
       None \<Rightarrow> (Some \<lparr>permit_target = target, permit_probe = None\<rparr>, m)
     | Some h \<Rightarrow>
         (case circuit_open now h of
            (True, h') \<Rightarrow> (None, hm_put target h' m)
          | (False, h') \<Rightarrow>
              if recovering h'
              then (if probe_id h' \<noteq> None then (None, hm_put target h' m)
                    else (Some \<lparr>permit_target = target, permit_probe = Some fresh\<rparr>,
                          hm_put target (h'\<lparr>probe_id := Some fresh\<rparr>) m))
              else (Some \<lparr>permit_target = target, permit_probe = None\<rparr>, hm_put target h' m)))"

definition recovery_release :: "recovery_permit \<Rightarrow> health_map \<Rightarrow> health_map" where
  "recovery_release p m =
    (case permit_probe p of
       None \<Rightarrow> m
     | Some i \<Rightarrow>
         hm_modify (permit_target p) (\<lambda>h. if probe_id h = Some i then h\<lparr>probe_id := None\<rparr> else h) m)"

section \<open>Interleavings\<close>

text \<open>
  The steps of the requests sharing one health map: acquiring (granted or refused) and
  dropping permits, the outcomes of attempts, a 429, and a reload of the configuration that
  drops the entries of the targets it does not preserve (only in runs with \<open>reloads\<close> set).
\<close>

type_synonym probe_state = "health_map \<times> recovery_permit list"

definition live_probes :: "recovery_permit list \<Rightarrow> uuid list" where
  "live_probes ps = filter_map permit_probe ps"

inductive probe_step :: "bool \<Rightarrow> probe_state \<Rightarrow> probe_state \<Rightarrow> bool" for reloads where
  acquire: "recovery_acquire now fresh target m = (Some p, m') \<Longrightarrow> fresh \<notin> set (live_probes ps) \<Longrightarrow>
    probe_step reloads (m, ps) (m', p # ps)"
| refuse: "recovery_acquire now fresh target m = (None, m') \<Longrightarrow> probe_step reloads (m, ps) (m', ps)"
| release: "p \<in> set ps \<Longrightarrow> probe_step reloads (m, ps) (recovery_release p m, remove1 p ps)"
| fail: "probe_step reloads (m, ps) (hm_update target default_health (health_fail policy now) m, ps)"
| rate_limit:
    "probe_step reloads (m, ps) (hm_update target default_health (health_rate_limited d now) m, ps)"
| succeed: "probe_step reloads (m, ps) (hm_modify target (snd \<circ> health_succeed started now) m, ps)"
| expire: "probe_step reloads (m, ps) (hm_modify target (snd \<circ> circuit_open now) m, ps)"
| reload: "reloads \<Longrightarrow> probe_step reloads (m, ps) (hm_retain (\<lambda>k _. keep k) m, ps)"

inductive probe_reachable :: "bool \<Rightarrow> probe_state \<Rightarrow> bool" for reloads where
  start: "probe_reachable reloads ([], [])"
| step: "probe_reachable reloads s \<Longrightarrow> probe_step reloads s t \<Longrightarrow> probe_reachable reloads t"

text \<open>The probe registered in the map for a target.\<close>

definition registered :: "health_map \<Rightarrow> uuid \<Rightarrow> uuid option" where
  "registered m t = Option.bind (hm_get m t) probe_id"

definition probe_inv :: "bool \<Rightarrow> probe_state \<Rightarrow> bool" where
  "probe_inv reloads s =
    (hm_wf (fst s)
     \<and> (\<forall>t h. hm_get (fst s) t = Some h \<longrightarrow> health_wf h)
     \<and> distinct (live_probes (snd s))
     \<and> (\<forall>t i. registered (fst s) t = Some i \<longrightarrow> \<lparr>permit_target = t, permit_probe = Some i\<rparr> \<in> set (snd s))
     \<and> (\<not> reloads \<longrightarrow> (\<forall>p\<in>set (snd s). \<forall>i. permit_probe p = Some i \<longrightarrow>
          registered (fst s) (permit_target p) = Some i)))"

lemma probe_id_frame:
  "probe_id (health_fail policy now h) = probe_id h"
  "probe_id (health_rate_limited d now h) = probe_id h"
  "probe_id (snd (circuit_open now h)) = probe_id h"
  "probe_id (snd (health_succeed started now h)) = probe_id h"
  by (auto simp: health_fail_def health_rate_limited_def circuit_open_def health_succeed_def Let_def
      split: option.splits prod.splits bool.splits)

lemma registered_update:
  assumes "\<And>h. probe_id (f h) = probe_id h" and "probe_id d = None"
  shows "registered (hm_update k d f m) t = registered m t"
  using assms by (auto simp: registered_def split: option.splits)

lemma registered_modify:
  assumes "\<And>h. probe_id (f h) = probe_id h"
  shows "registered (hm_modify k f m) t = registered m t"
  using assms by (cases "hm_get m k") (auto simp: registered_def)

lemma registered_retain:
  "hm_wf m \<Longrightarrow> registered (hm_retain (\<lambda>k _. keep k) m) t = (if keep t then registered m t else None)"
  by (auto simp: registered_def hm_get_retain split: option.splits)

lemma probe_inv_frame:
  assumes "probe_inv r (m, ps)" and "hm_wf m'" and "\<And>t. registered m' t = registered m t"
    and "\<And>t h. hm_get m' t = Some h \<Longrightarrow> health_wf h"
  shows "probe_inv r (m', ps)"
  using assms by (simp add: probe_inv_def)

lemma all_wf_update:
  assumes "\<And>h. health_wf h \<Longrightarrow> health_wf (f h)" "\<forall>t h. hm_get m t = Some h \<longrightarrow> health_wf h"
    and "hm_get (hm_update k default_health f m) t = Some h"
  shows "health_wf h"
  using assms health_wf_default by (cases "hm_get m k") (auto split: if_splits)

lemma all_wf_modify:
  assumes "\<And>h. health_wf h \<Longrightarrow> health_wf (f h)" "\<forall>t h. hm_get m t = Some h \<longrightarrow> health_wf h"
    and "hm_get (hm_modify k f m) t = Some h"
  shows "health_wf h"
  using assms by (cases "hm_get m k") (auto split: if_splits)

text \<open>What an acquisition does to the map, in its three outcomes.\<close>

lemma recovery_acquire_cases:
  assumes "recovery_acquire now fresh target m = (r, m')"
  obtains (absent) "hm_get m target = None" "m' = m" "r = Some \<lparr>permit_target = target, permit_probe = None\<rparr>"
  | (same) h where "hm_get m target = Some h" "m' = hm_modify target (snd \<circ> circuit_open now) m"
      "r = None \<or> r = Some \<lparr>permit_target = target, permit_probe = None\<rparr>"
  | (probe) h h' where "hm_get m target = Some h" "circuit_open now h = (False, h')" "recovering h'"
      "probe_id h = None" "m' = hm_put target (h'\<lparr>probe_id := Some fresh\<rparr>) m"
      "r = Some \<lparr>permit_target = target, permit_probe = Some fresh\<rparr>"
proof (cases "hm_get m target")
  case None
  with assms show ?thesis by (intro absent) (auto simp: recovery_acquire_def)
next
  case (Some h)
  obtain b h' where co: "circuit_open now h = (b, h')" by (cases "circuit_open now h")
  have pid: "probe_id h' = probe_id h"
    using probe_id_frame(3) [of now h] by (simp add: co)
  have m': "hm_modify target (snd \<circ> circuit_open now) m = hm_put target h' m"
    by (simp add: hm_modify_def Some co)
  show ?thesis
  proof (cases "\<not> b \<and> recovering h' \<and> probe_id h' = None")
    case True
    with assms Some co pid show ?thesis by (intro probe) (auto simp: recovery_acquire_def)
  next
    case False
    with assms Some co m' show ?thesis
      by (intro same [of h]) (auto simp: recovery_acquire_def split: bool.splits if_splits)
  qed
qed

lemma live_probes_simps [simp]:
  "live_probes [] = []"
  "live_probes (p # ps) = (case permit_probe p of None \<Rightarrow> live_probes ps | Some i \<Rightarrow> i # live_probes ps)"
  by (simp_all add: live_probes_def split: option.split)

lemma live_probesI: "p \<in> set ps \<Longrightarrow> permit_probe p = Some i \<Longrightarrow> i \<in> set (live_probes ps)"
  by (auto simp: live_probes_def set_filter_map)

lemma set_live_probes_remove1: "set (live_probes (remove1 p ps)) \<subseteq> set (live_probes ps)"
  by (auto simp: live_probes_def set_filter_map dest: set_remove1_subset [THEN subsetD])

lemma distinct_live_remove1: "distinct (live_probes ps) \<Longrightarrow> distinct (live_probes (remove1 p ps))"
  using set_live_probes_remove1 by (induction ps) (auto split: option.splits)

lemma distinct_live_unique:
  assumes "distinct (live_probes ps)" "p \<in> set ps" "q \<in> set ps"
    "permit_probe p = Some i" "permit_probe q = Some i"
  shows "p = q"
  using assms by (induction ps) (auto split: option.splits dest: live_probesI)

lemma distinct_live_removed:
  assumes "distinct (live_probes ps)" "p \<in> set ps" "permit_probe p = Some i"
  shows "p \<notin> set (remove1 p ps)"
  using assms by (induction ps) (auto split: option.splits if_splits dest: live_probesI)

subsection \<open>Every step keeps the invariant\<close>

lemma probe_inv_acquire:
  assumes inv: "probe_inv r (m, ps)" and acq: "recovery_acquire now fresh target m = (res, m')"
    and fresh: "fresh \<notin> set (live_probes ps)"
  shows "probe_inv r (m', case res of None \<Rightarrow> ps | Some p \<Rightarrow> p # ps)"
proof -
  have wf: "hm_wf m" and hw: "\<forall>t h. hm_get m t = Some h \<longrightarrow> health_wf h"
    using inv by (simp_all add: probe_inv_def)
  show ?thesis
    using acq
  proof (cases rule: recovery_acquire_cases)
    case absent
    with inv show ?thesis by (auto simp: probe_inv_def)
  next
    case (same h)
    have "probe_inv r (m', ps)"
      unfolding same(2)
      using all_wf_modify [of "snd \<circ> circuit_open now", OF _ hw]
      by (intro probe_inv_frame [OF inv])
         (auto simp: wf registered_modify probe_id_frame circuit_open_wf simp del: hm_get_modify)
    with same(3) show ?thesis by (auto simp: probe_inv_def)
  next
    case (probe h h')
    have none: "registered m target = None" using probe by (simp add: registered_def)
    have "health_wf h'" using hw probe circuit_open_wf [of h now] by (metis snd_conv)
    then have "health_wf (h'\<lparr>probe_id := Some fresh\<rparr>)" by (simp add: health_defs)
    moreover have "registered m' t = (if t = target then Some fresh else registered m t)" for t
      using probe by (simp add: registered_def)
    ultimately show ?thesis
      using inv fresh none probe wf
      by (auto simp: probe_inv_def split: if_splits)
  qed
qed

lemma registered_release:
  "registered (recovery_release p m) t =
    (if t = permit_target p \<and> permit_probe p \<noteq> None \<and> registered m t = permit_probe p
     then None else registered m t)"
  by (cases "hm_get m (permit_target p)")
     (auto simp: recovery_release_def registered_def split: option.splits)

lemma probe_inv_release:
  assumes inv: "probe_inv r (m, ps)" and p: "p \<in> set ps"
  shows "probe_inv r (recovery_release p m, remove1 p ps)"
proof -
  have wf: "hm_wf (recovery_release p m)"
    using inv by (auto simp: probe_inv_def recovery_release_def split: option.splits)
  have hw: "health_wf h" if "hm_get (recovery_release p m) t = Some h" for t h
    using inv that by (auto simp: probe_inv_def recovery_release_def health_defs split: option.splits if_splits)
  have sub: "set (remove1 p ps) \<subseteq> set ps" by (rule set_remove1_subset)
  have held: "\<lparr>permit_target = t, permit_probe = Some i\<rparr> \<in> set (remove1 p ps)"
    if "registered (recovery_release p m) t = Some i" for t i
  proof -
    have reg: "registered m t = Some i" and neq: "p \<noteq> \<lparr>permit_target = t, permit_probe = Some i\<rparr>"
      using that by (auto simp: registered_release split: if_splits)
    have "\<lparr>permit_target = t, permit_probe = Some i\<rparr> \<in> set ps"
      using inv reg by (simp add: probe_inv_def)
    with neq show ?thesis by (simp add: in_set_remove1)
  qed
  have kept: "registered (recovery_release p m) (permit_target q) = Some i"
    if "\<not> r" "q \<in> set (remove1 p ps)" "permit_probe q = Some i" for q i
  proof -
    have "registered m (permit_target q) = Some i"
      using inv that sub by (auto simp: probe_inv_def)
    moreover have "permit_probe p \<noteq> Some i"
      using inv that sub p distinct_live_unique [of ps q p i] distinct_live_removed [of ps p i]
      by (auto simp: probe_inv_def)
    ultimately show ?thesis by (simp add: registered_release)
  qed
  show ?thesis
    unfolding probe_inv_def fst_conv snd_conv
    using inv wf hw held kept distinct_live_remove1 [of ps p] by (simp add: probe_inv_def)
qed

lemma probe_inv_reload:
  assumes inv: "probe_inv True (m, ps)"
  shows "probe_inv True (hm_retain (\<lambda>k _. keep k) m, ps)"
proof -
  have wf: "hm_wf m" using inv by (simp add: probe_inv_def)
  have "health_wf h" if "hm_get (hm_retain (\<lambda>k _. keep k) m) t = Some h" for t h
    using that inv by (simp add: hm_get_retain [OF wf] probe_inv_def split: option.splits if_splits)
  moreover have "registered m t = Some i"
    if "registered (hm_retain (\<lambda>k _. keep k) m) t = Some i" for t i
    using that by (simp add: registered_retain [OF wf] split: if_splits)
  ultimately show ?thesis
    using inv unfolding probe_inv_def fst_conv snd_conv by (simp add: wf)
qed

lemma probe_inv_modify:
  assumes inv: "probe_inv r (m, ps)" and pid: "\<And>h. probe_id (f h) = probe_id h"
    and hw: "\<And>h. health_wf h \<Longrightarrow> health_wf (f h)"
  shows "probe_inv r (hm_modify k f m, ps)"
proof (rule probe_inv_frame [OF inv])
  show "hm_wf (hm_modify k f m)" using inv by (simp add: probe_inv_def)
  show "registered (hm_modify k f m) t = registered m t" for t
    by (rule registered_modify [OF pid])
  show "health_wf h" if "hm_get (hm_modify k f m) t = Some h" for t h
    using inv by (intro all_wf_modify [OF hw _ that]) (simp_all add: probe_inv_def)
qed

lemma probe_inv_update:
  assumes inv: "probe_inv r (m, ps)" and pid: "\<And>h. probe_id (f h) = probe_id h"
    and hw: "\<And>h. health_wf h \<Longrightarrow> health_wf (f h)"
  shows "probe_inv r (hm_update k default_health f m, ps)"
proof (rule probe_inv_frame [OF inv])
  show "hm_wf (hm_update k default_health f m)" using inv by (simp add: probe_inv_def)
  show "registered (hm_update k default_health f m) t = registered m t" for t
    by (rule registered_update [OF pid]) (simp add: default_health_def)
  show "health_wf h" if "hm_get (hm_update k default_health f m) t = Some h" for t h
    using inv by (intro all_wf_update [OF hw _ that]) (simp_all add: probe_inv_def)
qed

lemma probe_inv_step: "probe_step r s t \<Longrightarrow> probe_inv r s \<Longrightarrow> probe_inv r t"
proof (induction rule: probe_step.induct)
  case (acquire now fresh target m p m' ps)
  then show ?case using probe_inv_acquire [of r m ps now fresh target "Some p" m'] by simp
next
  case (refuse now fresh target m m' ps)
  from refuse(1) have "m' = hm_modify target (snd \<circ> circuit_open now) m"
    by (cases rule: recovery_acquire_cases) auto
  with probe_inv_modify [OF refuse(2)] show ?case by (simp add: probe_id_frame circuit_open_wf)
next
  case (release p ps m)
  then show ?case by (simp add: probe_inv_release)
next
  case (fail m ps target policy now)
  then show ?case by (rule probe_inv_update) (simp_all add: probe_id_frame health_fail_wf)
next
  case (rate_limit m ps target d now)
  then show ?case by (rule probe_inv_update) (simp_all add: probe_id_frame health_rate_limited_wf)
next
  case (succeed m ps target started now)
  then show ?case by (rule probe_inv_modify) (simp_all add: probe_id_frame health_succeed_wf)
next
  case (expire m ps target now)
  then show ?case by (rule probe_inv_modify) (simp_all add: probe_id_frame circuit_open_wf)
next
  case (reload m ps keep)
  then show ?case using probe_inv_reload by simp
qed

lemma probe_reachable_inv: "probe_reachable r s \<Longrightarrow> probe_inv r s"
proof (induction rule: probe_reachable.induct)
  case start
  show ?case by (simp add: probe_inv_def registered_def)
next
  case (step s t)
  then show ?case by (simp add: probe_inv_step)
qed

inductive_cases probe_stepE: "probe_step reloads (m, ps) t"

text \<open>Two live permits that both carry a probe never share their target, without reloads.\<close>

lemma probes_exclusive:
  assumes "probe_reachable False (m, ps)" "p \<in> set ps" "q \<in> set ps"
    "permit_target p = permit_target q" "permit_probe p \<noteq> None" "permit_probe q \<noteq> None"
  shows "p = q"
proof -
  have inv: "probe_inv False (m, ps)" using assms(1) by (rule probe_reachable_inv)
  obtain i j where i: "permit_probe p = Some i" and j: "permit_probe q = Some j"
    using assms by auto
  have "registered m (permit_target p) = Some i"
    using inv i assms(2) by (simp add: probe_inv_def)
  moreover have "registered m (permit_target q) = Some j"
    using inv j assms(3) by (simp add: probe_inv_def)
  ultimately have "i = j" by (simp add: assms(4))
  with inv i j assms(2,3) show ?thesis
    by (intro distinct_live_unique [of ps p q i]) (simp_all add: probe_inv_def)
qed

section \<open>Properties\<close>

text \<open>
  C31. However requests, failures, rate limits, successes and reloads interleave, a probe that
  is registered for a target is held by a live permit: when no permit is live, no target is
  blocked by a probe.
\<close>

theorem probes_never_leak:
  assumes "probe_reachable reloads (m, ps)"
  shows "(case registered m t of
      None \<Rightarrow> True
    | Some i \<Rightarrow> ps \<noteq> [] \<and> \<lparr>permit_target = t, permit_probe = Some i\<rparr> \<in> set ps)"
proof -
  have held: "\<forall>t i. registered m t = Some i \<longrightarrow> \<lparr>permit_target = t, permit_probe = Some i\<rparr> \<in> set ps"
    using probe_reachable_inv [OF assms] by (simp add: probe_inv_def)
  then show ?thesis by (cases "registered m t") force+
qed

lemma reachable_rate_limited: "probe_reachable reloads (hm_update t default_health (health_rate_limited 5 0) [], [])"
  by (rule probe_reachable.step [OF probe_reachable.start probe_step.rate_limit])

text \<open>A run: a rate-limited target, its circuit expires, and a request takes the probe.\<close>

lemma reachable_probe:
  "probe_reachable reloads
    (hm_put 1 (default_health\<lparr>last_failure_at := Some 0, recovering := True, probe_id := Some 9\<rparr>) [],
     [\<lparr>permit_target = 1, permit_probe = Some 9\<rparr>])"
proof -
  have "recovery_acquire 7 9 1 (hm_update 1 default_health (health_rate_limited 5 0) []) =
      (Some \<lparr>permit_target = 1, permit_probe = Some 9\<rparr>,
       hm_put 1 (default_health\<lparr>last_failure_at := Some 0, recovering := True, probe_id := Some 9\<rparr>) [])"
    by (simp add: recovery_acquire_def hm_update_def circuit_open_def health_rate_limited_def default_health_def
        hm_put_def hm_get_def)
  then have "probe_step reloads (hm_update 1 default_health (health_rate_limited 5 0) [], [])
      (hm_put 1 (default_health\<lparr>last_failure_at := Some 0, recovering := True, probe_id := Some 9\<rparr>) [],
       [\<lparr>permit_target = 1, permit_probe = Some 9\<rparr>])"
    by (intro probe_step.acquire) simp_all
  with reachable_rate_limited show ?thesis by (rule probe_reachable.step)
qed

theorem probes_never_leak_witness:
  "\<lparr>permit_target = 1, permit_probe = Some 9\<rparr> \<in> set [\<lparr>permit_target = 1, permit_probe = Some (9 :: uuid)\<rparr>]"
  using probes_never_leak [OF reachable_probe, of 1] by (simp add: registered_def)



end
