(* ===== verification/Permits.thy ===== *)
theory Permits
  imports Config
begin

text \<open>
  The counters that follow live requests: \<open>InFlightGuard\<close> and \<open>TargetActivityGuard\<close> of
  \<open>crates/aipass-proxy/src/state.rs\<close> and \<open>ProviderPermit\<close> of \<open>concurrency.rs\<close>.  Creating a
  guard raises a count, dropping it lowers the count and removes an entry that reached zero.
  The three share one contract, the locale \<open>occupancy\<close>: the counter is the number of live
  guards as long as there are fewer than \<open>2 ^ 64 - 1\<close> of them.
\<close>

section \<open>The contract of a counter of live guards\<close>

datatype 'k guard_event = Enter 'k | Leave 'k

fun guard_run :: "('k \<Rightarrow> 's \<Rightarrow> 's) \<Rightarrow> ('k \<Rightarrow> 's \<Rightarrow> 's) \<Rightarrow> 'k guard_event list \<Rightarrow> 's \<Rightarrow> 's" where
  "guard_run enter leave [] s = s"
| "guard_run enter leave (Enter k # es) s = guard_run enter leave es (enter k s)"
| "guard_run enter leave (Leave k # es) s = guard_run enter leave es (leave k s)"

text \<open>The keys of the live guards, and that only live guards are dropped.\<close>

fun live_run :: "'k guard_event list \<Rightarrow> 'k list \<Rightarrow> 'k list" where
  "live_run [] ks = ks"
| "live_run (Enter k # es) ks = live_run es (k # ks)"
| "live_run (Leave k # es) ks = live_run es (remove1 k ks)"

fun valid_run :: "'k guard_event list \<Rightarrow> 'k list \<Rightarrow> bool" where
  "valid_run [] ks = True"
| "valid_run (Enter k # es) ks = valid_run es (k # ks)"
| "valid_run (Leave k # es) ks = (k \<in> set ks \<and> valid_run es (remove1 k ks))"

definition tracks :: "('s \<Rightarrow> 'k \<Rightarrow> nat) \<Rightarrow> 's \<Rightarrow> 'k list \<Rightarrow> bool" where
  "tracks count s ks = (\<forall>k. count s k = count_list ks k)"

lemma count_list_remove1: "count_list (remove1 x xs) y = count_list xs y - (if x = y then 1 else 0)"
proof (induction xs)
  case Nil
  show ?case by simp
next
  case (Cons z zs)
  have "z \<noteq> x \<Longrightarrow> x = y \<Longrightarrow> x \<notin> set zs \<Longrightarrow> count_list zs y = 0" by (simp add: count_notin)
  with Cons show ?case by auto
qed

lemma count_list_pos: "x \<in> set xs \<Longrightarrow> 0 < count_list xs x"
  by (induction xs) auto

lemma count_list_le: "count_list xs x \<le> length xs"
  by (rule count_le_length)

locale occupancy =
  fixes count :: "'s \<Rightarrow> 'k \<Rightarrow> nat"
    and enter :: "'k \<Rightarrow> 's \<Rightarrow> 's"
    and leave :: "'k \<Rightarrow> 's \<Rightarrow> 's"
    and capacity :: nat
  assumes count_enter: "count s k + 1 < capacity \<Longrightarrow>
      count (enter k s) j = count s j + (if j = k then 1 else 0)"
    and count_leave: "0 < count s k \<Longrightarrow> count (leave k s) j = count s j - (if j = k then 1 else 0)"
begin

lemma tracks_enter:
  assumes "tracks count s ks" and "length ks + 1 < capacity"
  shows "tracks count (enter k s) (k # ks)"
proof -
  have "count s k + 1 < capacity"
    using assms count_list_le [of ks k] by (simp add: tracks_def)
  with assms(1) show ?thesis by (auto simp: tracks_def count_enter)
qed

lemma tracks_leave:
  assumes "tracks count s ks" and "k \<in> set ks"
  shows "tracks count (leave k s) (remove1 k ks)"
proof -
  have "0 < count s k" using assms count_list_pos by (simp add: tracks_def)
  with assms(1) show ?thesis by (auto simp: tracks_def count_leave count_list_remove1)
qed

lemma run_tracks:
  "tracks count s ks \<Longrightarrow> valid_run es ks \<Longrightarrow> length ks + length es < capacity \<Longrightarrow>
    tracks count (guard_run enter leave es s) (live_run es ks)"
proof (induction es arbitrary: s ks)
  case Nil
  then show ?case by simp
next
  case (Cons e es)
  show ?case
  proof (cases e)
    case (Enter k)
    with Cons show ?thesis by (simp add: tracks_enter)
  next
    case (Leave k)
    have "length (remove1 k ks) \<le> length ks" by (simp add: length_remove1)
    with Leave Cons show ?thesis by (simp add: tracks_leave)
  qed
qed

end

section \<open>In-flight requests\<close>

text \<open>An atomic 64-bit counter: \<open>fetch_add\<close> and \<open>fetch_sub\<close> wrap.\<close>

definition in_flight_new :: "u64 \<Rightarrow> u64" where
  "in_flight_new counter = counter + 1"

definition in_flight_drop :: "u64 \<Rightarrow> u64" where
  "in_flight_drop counter = counter - 1"

lemma unat_plus_one: "unat (n :: u64) + 1 < 2 ^ 64 \<Longrightarrow> unat (n + 1) = unat n + 1"
  by (simp add: unat_word_ariths)

lemma unat_minus_one_pos: "0 < unat (n :: u64) \<Longrightarrow> unat (n - 1) = unat n - 1"
  by (metis unat_minus_one unsigned_0 less_irrefl)

interpretation in_flight: occupancy "\<lambda>s (_ :: unit). unat (s :: u64)" "\<lambda>_. in_flight_new"
  "\<lambda>_. in_flight_drop" "2 ^ 64"
  by unfold_locales (simp_all add: in_flight_new_def in_flight_drop_def unat_plus_one unat_minus_one_pos)

section \<open>Activity of targets\<close>

type_synonym activity = "(uuid, u64) hmap"

definition activity_count :: "activity \<Rightarrow> uuid \<Rightarrow> nat" where
  "activity_count m k = (case hm_get m k of None \<Rightarrow> 0 | Some n \<Rightarrow> unat n)"

definition target_activity_new :: "uuid \<Rightarrow> activity \<Rightarrow> activity" where
  "target_activity_new target counts = hm_update target 0 (\<lambda>n. n + 1) counts"

definition target_activity_drop :: "uuid \<Rightarrow> activity \<Rightarrow> activity" where
  "target_activity_drop target counts =
    (case hm_get counts target of
       None \<Rightarrow> counts
     | Some n \<Rightarrow>
         let n' = sat_sub n 1 in
         if n' = 0 then hm_del target counts else hm_put target n' counts)"

lemma count_update_plus:
  "activity_count m k + 1 < 2 ^ 64 \<Longrightarrow>
    activity_count (hm_update k 0 (\<lambda>n. n + 1) m) j = activity_count m j + (if j = k then 1 else 0)"
  by (auto simp: activity_count_def unat_plus_one split: option.splits)

lemma count_drop:
  "activity_count (target_activity_drop k m) j = activity_count m j - (if j = k then 1 else 0)"
proof -
  have "unat (sat_sub (n :: u64) 1) = unat n - 1" for n by (simp add: word_nat)
  moreover have "sat_sub (n :: u64) 1 = 0 \<longleftrightarrow> unat n - 1 = 0" for n
    by (metis calculation unat_eq_zero)
  ultimately show ?thesis
    by (auto simp: activity_count_def target_activity_drop_def Let_def split: option.splits)
qed

interpretation target_activity: occupancy activity_count target_activity_new target_activity_drop "2 ^ 64"
  by unfold_locales (simp_all only: target_activity_new_def count_update_plus count_drop)

text \<open>Only active targets have an entry.\<close>

definition activity_wf :: "activity \<Rightarrow> bool" where
  "activity_wf m = (hm_wf m \<and> (\<forall>k. hm_get m k \<noteq> Some 0))"

lemma activity_wf_drop: "activity_wf m \<Longrightarrow> activity_wf (target_activity_drop k m)"
  by (auto simp: activity_wf_def target_activity_drop_def Let_def split: option.splits)

lemma activity_wf_new:
  assumes "activity_wf m" "activity_count m k + 1 < 2 ^ 64"
  shows "activity_wf (target_activity_new k m)"
proof -
  have "n + 1 \<noteq> 0" if "unat n + 1 < 2 ^ 64" for n :: u64
    using unat_plus_one [OF that] by auto
  with assms show ?thesis
    by (auto simp: activity_wf_def target_activity_new_def activity_count_def split: option.splits if_splits)
qed

section \<open>Provider permits\<close>

text \<open>
  A permit is its provider's identifier.  \<open>acquire\<close> reads the routes of the current
  configuration and changes the counts under one lock.
\<close>

type_synonym provider_permit = uuid

definition provider_limit :: "resolved_route list \<Rightarrow> uuid \<Rightarrow> u32 option" where
  "provider_limit routes provider =
    list_min (filter (\<lambda>limit. 0 < limit)
      (filter_map max_concurrent_requests
        (filter (\<lambda>c. target_provider c = provider) (concat (map r_targets routes)))))"

definition provider_acquire ::
  "resolved_route list \<Rightarrow> resolved_target \<Rightarrow> activity \<Rightarrow> provider_permit option \<times> activity" where
  "provider_acquire routes t counts =
    (let provider = target_provider t;
         limit = provider_limit routes provider;
         counts' = hm_or_insert provider 0 counts;
         count = unwrap_or (hm_get counts' provider) 0
     in if is_some_and limit (\<lambda>l. ucast l \<le> count) then (None, counts')
        else (Some provider, hm_put provider (count + 1) counts'))"

definition provider_release :: "provider_permit \<Rightarrow> activity \<Rightarrow> activity" where
  "provider_release provider counts =
    (case hm_get counts provider of
       None \<Rightarrow> counts
     | Some n \<Rightarrow>
         let n' = sat_sub n 1 in
         if n' = 0 then hm_del provider counts else hm_put provider n' counts)"

lemma provider_release_eq: "provider_release = target_activity_drop"
  by (intro ext) (simp add: provider_release_def target_activity_drop_def)

text \<open>The counts an admitted request leaves, and the counts a refused one leaves.\<close>

definition provider_enter :: "provider_permit \<Rightarrow> activity \<Rightarrow> activity" where
  "provider_enter provider counts =
    hm_put provider (unwrap_or (hm_get (hm_or_insert provider 0 counts) provider) 0 + 1)
      (hm_or_insert provider 0 counts)"

interpretation provider: occupancy activity_count provider_enter provider_release "2 ^ 64"
proof unfold_locales
  fix s :: activity and k j :: uuid
  assume "activity_count s k + 1 < 2 ^ 64"
  then show "activity_count (provider_enter k s) j = activity_count s j + (if j = k then 1 else 0)"
    by (auto simp: activity_count_def provider_enter_def unat_plus_one split: option.splits)
qed (simp add: provider_release_eq count_drop)

lemma provider_limit_pos: "provider_limit routes provider = Some l \<Longrightarrow> 0 < l"
  by (auto simp: provider_limit_def dest: list_min_SomeD)

lemma unat_limit: "unat (ucast (l :: u32) :: u64) = unat l"
proof -
  have "unat l < 2 ^ LENGTH(32)" by (rule unsigned_less)
  then show ?thesis by (simp add: unsigned_ucast_eq take_bit_nat_eq_self)
qed

lemma provider_acquire_iff:
  assumes "provider_acquire routes t counts = (r, counts')"
  shows "r = None \<longleftrightarrow> (\<exists>l. provider_limit routes (target_provider t) = Some l
      \<and> unat l \<le> activity_count counts (target_provider t))"
  using assms provider_limit_pos [of routes "target_provider t"]
  by (auto simp: provider_acquire_def Let_def activity_count_def word_le_nat_alt unat_limit is_some_and_iff
      split: option.splits if_splits)

lemma provider_acquire_Some:
  "provider_acquire routes t counts = (Some p, counts') \<Longrightarrow>
    p = target_provider t \<and> counts' = provider_enter p counts"
  by (auto simp: provider_acquire_def provider_enter_def Let_def split: if_splits)

lemma provider_acquire_None:
  assumes "provider_acquire routes t counts = (None, counts')"
  shows "counts' = counts"
proof -
  obtain l where "provider_limit routes (target_provider t) = Some l"
    "unat l \<le> activity_count counts (target_provider t)"
    using provider_acquire_iff [OF assms] by auto
  with provider_limit_pos have "hm_get counts (target_provider t) \<noteq> None"
    by (cases "hm_get counts (target_provider t)")
       (auto simp: activity_count_def word_less_nat_alt dest!: provider_limit_pos)
  with assms show ?thesis
    by (auto simp: provider_acquire_def hm_or_insert_def Let_def split: if_splits)
qed

subsection \<open>Requests and reloads interleaved\<close>

text \<open>
  The permits the live requests hold, the shared counts, and the routes of the current
  configuration, which an update may replace between any two admissions.  Fewer than
  \<open>2 ^ 64\<close> permits are live at a time.
\<close>

type_synonym permit_state = "resolved_route list \<times> activity \<times> provider_permit list"

inductive permit_step :: "permit_state \<Rightarrow> permit_state \<Rightarrow> bool" where
  admit: "provider_acquire routes t counts = (Some p, counts') \<Longrightarrow> length ps + 1 < 2 ^ 64 \<Longrightarrow>
    permit_step (routes, counts, ps) (routes, counts', p # ps)"
| refuse: "provider_acquire routes t counts = (None, counts') \<Longrightarrow>
    permit_step (routes, counts, ps) (routes, counts', ps)"
| release: "p \<in> set ps \<Longrightarrow> permit_step (routes, counts, ps) (routes, provider_release p counts, remove1 p ps)"
| update: "permit_step (routes, counts, ps) (routes', counts, ps)"

inductive permit_reachable :: "permit_state \<Rightarrow> bool" where
  start: "permit_reachable (routes, [], [])"
| step: "permit_reachable s \<Longrightarrow> permit_step s s' \<Longrightarrow> permit_reachable s'"

lemma permit_step_tracks:
  "permit_step s s' \<Longrightarrow> tracks activity_count (fst (snd s)) (snd (snd s)) \<Longrightarrow>
    tracks activity_count (fst (snd s')) (snd (snd s'))"
proof (induction rule: permit_step.induct)
  case (admit routes t counts p counts' ps)
  then show ?case by (auto dest!: provider_acquire_Some intro: provider.tracks_enter)
next
  case (refuse routes t counts counts' ps)
  then show ?case by (auto dest!: provider_acquire_None)
next
  case (release p ps routes counts)
  then show ?case by (simp add: provider.tracks_leave)
qed simp

lemma permit_reachable_tracks:
  "permit_reachable s \<Longrightarrow> tracks activity_count (fst (snd s)) (snd (snd s))"
proof (induction rule: permit_reachable.induct)
  case (start routes)
  show ?case by (simp add: tracks_def activity_count_def)
next
  case (step s s')
  then show ?case by (simp add: permit_step_tracks)
qed

section \<open>Properties\<close>

text \<open>
  C29. Under any interleaving of requests and configuration updates, an admission never takes a
  provider above the limit in force at that moment, counting the requests admitted under
  earlier configurations too.
\<close>

theorem provider_limit_respected:
  assumes "permit_reachable (routes, counts, ps)" "length ps + 1 < 2 ^ 64"
    and "provider_acquire routes t counts = (Some p, counts')"
    and "provider_limit routes (target_provider t) = Some limit"
  shows "p = target_provider t \<and> activity_count counts' p = count_list (p # ps) p
    \<and> count_list (p # ps) p \<le> unat limit"
proof -
  have tracks: "tracks activity_count counts ps" using permit_reachable_tracks [OF assms(1)] by simp
  have p: "p = target_provider t" "counts' = provider_enter p counts"
    using provider_acquire_Some [OF assms(3)] by simp_all
  have "tracks activity_count counts' (p # ps)"
    unfolding p(2) using tracks assms(2) by (rule provider.tracks_enter)
  then have "activity_count counts' p = count_list (p # ps) p" by (simp only: tracks_def)
  moreover have "\<not> unat limit \<le> count_list ps p"
    using provider_acquire_iff [OF assms(3)] assms(4) tracks p(1) by (simp add: tracks_def)
  ultimately show ?thesis using p(1) by simp
qed

text \<open>
  A request is turned away only when its provider is full: with the live permits of the
  provider below every positive limit its targets configure, admission succeeds.
\<close>

theorem provider_refused_only_when_full:
  assumes "permit_reachable (routes, counts, ps)"
    and "provider_acquire routes t counts = (None, counts')"
  shows "counts' = counts \<and> (\<exists>limit. provider_limit routes (target_provider t) = Some limit
    \<and> 0 < limit \<and> unat limit \<le> count_list ps (target_provider t))"
proof -
  have "tracks activity_count counts ps" using permit_reachable_tracks [OF assms(1)] by simp
  then show ?thesis
    using provider_acquire_iff [OF assms(2)] provider_acquire_None [OF assms(2)]
    by (auto simp: tracks_def dest: provider_limit_pos)
qed

text \<open>A provider with a limit of one, for the instances below.\<close>

definition sample_target :: resolved_target where
  "sample_target = \<lparr>
     upstream_proxy = None, model_override = None, profile = Generic, upstream_kind = Standard,
     quota = [], max_concurrent_requests = Some 1, supports_websockets = True,
     t_config = \<lparr>
       tc_id = 1, provider_entry_id = 2, secret_id = [], label = [], base_url = [],
       auth_scheme = ''bearer'', headers = [], group = None, priority = 0, weight = 1,
       tc_enabled = True, protocol = None, prefer_ws = False, tc_model = None\<rparr>,
     api_key = ''k''\<rparr>"

definition sample_route :: resolved_route where
  "sample_route = \<lparr>
     r_config = \<lparr>
       rc_id = 7, rc_name = ''main'', token = [], inbound_protocol = OpenAiResponses,
       upstream_protocol = OpenAiResponses, conversion_enabled = False, strategy = Fallback,
       rc_targets = [], retry = default_retry_policy, rc_enabled = True\<rparr>,
     local_token = ''secret'', r_targets = [sample_target]\<rparr>"

lemma sample_limit: "provider_limit [sample_route] (target_provider sample_target) = Some 1"
  by (simp add: provider_limit_def sample_route_def sample_target_def list_min_def)

lemma sample_admit: "provider_acquire [sample_route] sample_target [] = (Some 2, [(2, 1)])"
proof -
  have "provider_limit [sample_route] 2 = Some 1" using sample_limit by (simp add: sample_target_def)
  then show ?thesis
    by (simp add: provider_acquire_def sample_target_def hm_or_insert_def hm_get_def hm_put_def)
qed

theorem provider_limit_respected_witness:
  "(2 :: uuid) = target_provider sample_target \<and> activity_count [(2, 1)] 2 = count_list [2] (2 :: uuid)
    \<and> count_list [2] (2 :: uuid) \<le> unat (1 :: u32)"
  by (rule provider_limit_respected [OF permit_reachable.start _ sample_admit sample_limit]) simp

theorem provider_refused_only_when_full_witness:
  "[(2, 1)] = [(2 :: uuid, 1 :: u64)] \<and> (\<exists>limit. provider_limit [sample_route] (target_provider sample_target) = Some limit
    \<and> 0 < limit \<and> unat limit \<le> count_list [2] (target_provider sample_target))"
proof (rule provider_refused_only_when_full)
  show "permit_reachable ([sample_route], [(2, 1)], [2])"
    by (rule permit_reachable.step [OF permit_reachable.start permit_step.admit [OF sample_admit]]) simp
  have "provider_limit [sample_route] 2 = Some 1" using sample_limit by (simp add: sample_target_def)
  then show "provider_acquire [sample_route] sample_target [(2, 1)] = (None, [(2, 1)])"
    by (simp add: provider_acquire_def sample_target_def hm_or_insert_def hm_get_def)
qed

text \<open>
  The activity map and the in-flight counter are exactly the live guards after any history
  of requests that start and end,
  counting the idle ones as zero.
\<close>

theorem activity_counts_live_guards:
  assumes "valid_run es []" "length es < 2 ^ 64"
  shows "activity_count (guard_run target_activity_new target_activity_drop es []) target = count_list (live_run es []) target
    \<and> unat (guard_run (\<lambda>_. in_flight_new) (\<lambda>_. in_flight_drop) (map (case_guard_event (\<lambda>_. Enter ()) (\<lambda>_. Leave ())) es) 0)
      = length (live_run es [])"
proof -
  have "tracks activity_count [] []" by (simp add: tracks_def activity_count_def)
  from target_activity.run_tracks [OF this assms(1)] assms(2)
  have act: "activity_count (guard_run target_activity_new target_activity_drop es []) target = count_list (live_run es []) target"
    by (simp add: tracks_def)
  let ?u = "map (case_guard_event (\<lambda>_. Enter ()) (\<lambda>_. Leave ()))"
  have units: "valid_run (?u es) (replicate (length ks) ())
      \<and> live_run (?u es) (replicate (length ks) ()) = replicate (length (live_run es ks)) ()"
    if "valid_run es ks" for ks
    using that
  proof (induction es ks rule: valid_run.induct)
    case (2 k es ks)
    then show ?case by (simp flip: replicate_Suc)
  next
    case (3 k es ks)
    then have "0 < length ks" by auto
    moreover have "remove1 () (replicate n ()) = replicate (n - 1) ()" for n by (cases n) auto
    ultimately show ?case using 3 by (simp add: length_remove1)
  qed simp
  have "tracks (\<lambda>s (_ :: unit). unat (s :: u64)) 0 []" by (simp add: tracks_def)
  from in_flight.run_tracks [OF this, of "?u es"] units [OF assms(1)] assms(2)
  have "unat (guard_run (\<lambda>_. in_flight_new) (\<lambda>_. in_flight_drop) (?u es) 0) = count_list (live_run (?u es) []) ()"
    by (simp add: tracks_def)
  also have "\<dots> = length (live_run es [])"
  proof -
    have "count_list (replicate n ()) () = n" for n by (induction n) auto
    with units [OF assms(1)] show ?thesis by simp
  qed
  finally show ?thesis using act by blast
qed

theorem activity_counts_live_guards_witness:
  "activity_count (guard_run target_activity_new target_activity_drop [Enter 1, Enter 1, Leave 1] []) 1
    = count_list (live_run [Enter 1, Enter 1, Leave (1 :: uuid)] []) 1"
  by (rule activity_counts_live_guards [THEN conjunct1]) simp_all

end
