(* ===== verification/Sessions.thy ===== *)
theory Sessions
  imports Health
begin

text \<open>
  Bounded, expiring session maps.  Session affinity (\<open>crates/aipass-proxy/src/selection.rs\<close>)
  binds a route and a client session key to the target that served it; the HTTP sessions of
  \<open>websocket/capability.rs\<close> use the same bounds.  Both forget an entry 30 minutes after
  its last use and hold at most 4096 entries; the locale \<open>session_store\<close> states this once.
\<close>

section \<open>Eviction\<close>

text \<open>\<open>min_by_key\<close> of an iterator: the first element with the least key.\<close>

fun min_by_key :: "('a \<Rightarrow> 'b::linorder) \<Rightarrow> 'a list \<Rightarrow> 'a option" where
  "min_by_key f [] = None"
| "min_by_key f (x # xs) =
     (case min_by_key f xs of None \<Rightarrow> Some x | Some y \<Rightarrow> if f x \<le> f y then Some x else Some y)"

lemma min_by_key_None [simp]: "min_by_key f xs = None \<longleftrightarrow> xs = []"
  by (cases xs) (auto split: option.splits)

lemma min_by_key_SomeD: "min_by_key f xs = Some x \<Longrightarrow> x \<in> set xs \<and> (\<forall>y\<in>set xs. f x \<le> f y)"
proof (induction xs arbitrary: x)
  case Nil
  then show ?case by simp
next
  case (Cons y ys)
  show ?case
  proof (cases "min_by_key f ys")
    case None
    with Cons.prems show ?thesis by simp
  next
    case (Some z)
    with Cons.prems Cons.IH [OF Some] show ?thesis by (auto split: if_splits)
  qed
qed

lemma length_hm_del_mem: "e \<in> set m \<Longrightarrow> length (hm_del (fst e) m) < length m"
  by (auto simp: hm_del_def intro: length_filter_less)

function evict_to :: "nat \<Rightarrow> ('v \<Rightarrow> instant) \<Rightarrow> ('k, 'v) hmap \<Rightarrow> ('k, 'v) hmap" where
  "evict_to cap used m =
    (if cap < length m
     then (case min_by_key (\<lambda>e. used (snd e)) m of
         None \<Rightarrow> m
       | Some e \<Rightarrow> evict_to cap used (hm_del (fst e) m))
     else m)"
  by pat_completeness auto

termination
proof (relation "measure (\<lambda>(_, _, m). length m)")
  fix cap :: nat and used :: "'v \<Rightarrow> instant" and m :: "('k, 'v) hmap" and e :: "'k \<times> 'v"
  assume "min_by_key (\<lambda>e. used (snd e)) m = Some e"
  then have "e \<in> set m" by (simp add: min_by_key_SomeD)
  then show "((cap, used, hm_del (fst e) m), cap, used, m) \<in> measure (\<lambda>(_, _, m). length m)"
    by (simp add: length_hm_del_mem)
qed simp

declare evict_to.simps [simp del]

lemma evict_to_small [simp]: "length m \<le> cap \<Longrightarrow> evict_to cap used m = m"
  by (simp add: evict_to.simps)

lemma evict_to_bound: "length (evict_to cap used m) \<le> cap"
proof (induction cap used m rule: evict_to.induct)
  case (1 cap used m)
  then show ?case
    by (cases "cap < length m") (auto simp: evict_to.simps [of cap used m] split: option.splits)
qed

lemma evict_to_subset: "set (evict_to cap used m) \<subseteq> set m"
proof (induction cap used m rule: evict_to.induct)
  case (1 cap used m)
  then show ?case
    by (cases "cap < length m")
       (auto simp: evict_to.simps [of cap used m] hm_del_def split: option.splits)
qed

lemma evict_to_wf: "hm_wf m \<Longrightarrow> hm_wf (evict_to cap used m)"
proof (induction cap used m rule: evict_to.induct)
  case (1 cap used m)
  then show ?case
    by (cases "cap < length m") (auto simp: evict_to.simps [of cap used m] split: option.splits)
qed

text \<open>An entry used later than every other one is not evicted.\<close>

lemma evict_to_keeps:
  assumes "hm_wf m" "0 < cap" "(k, v) \<in> set m" "\<forall>(j, w)\<in>set m. j \<noteq> k \<longrightarrow> used w < used v"
  shows "(k, v) \<in> set (evict_to cap used m)"
  using assms
proof (induction cap used m rule: evict_to.induct)
  case (1 cap used m)
  show ?case
  proof (cases "cap < length m")
    case True
    then obtain e where e: "min_by_key (\<lambda>e. used (snd e)) m = Some e"
      by (cases "min_by_key (\<lambda>e. used (snd e)) m") auto
    have mem: "e \<in> set m" and least: "\<forall>y\<in>set m. used (snd e) \<le> used (snd y)"
      using min_by_key_SomeD [OF e] by auto
    have "\<exists>y\<in>set m. y \<noteq> (k, v)"
    proof (rule ccontr)
      assume "\<not> ?thesis"
      then have "set m \<subseteq> {(k, v)}" by auto
      then have "card (set m) \<le> 1" by (metis card.empty card_insert_le_m1 card_mono empty_iff finite.emptyI finite_insert is_singletonI is_singleton_altdef le_refl)
      moreover have "distinct m" using 1(2) by (simp add: hm_wf_def distinct_map)
      ultimately show False using True 1(3) by (simp add: distinct_card)
    qed
    then obtain j w where y: "(j, w) \<in> set m" "(j, w) \<noteq> (k, v)" by auto
    with 1(2,4) have "j \<noteq> k" by (auto simp: hm_wf_def dest: eq_key_imp_eq_value)
    with y 1(5) have "used w < used v" by auto
    with least y have "fst e \<noteq> k"
      using mem 1(2,4) by (cases e) (fastforce simp: hm_wf_def dest: eq_key_imp_eq_value)
    then have "(k, v) \<in> set (hm_del (fst e) m)" using 1(4) by (simp add: hm_del_def)
    moreover have "\<forall>(j, w)\<in>set (hm_del (fst e) m). j \<noteq> k \<longrightarrow> used w < used v"
      using 1(5) by (auto simp: hm_del_def)
    ultimately show ?thesis
      using 1(1) [OF True e] 1(2,3) True e by (simp add: evict_to.simps [of cap used m])
  next
    case False
    with 1 show ?thesis by simp
  qed
qed

section \<open>The contract of a session map\<close>

definition SESSION_AFFINITY_TTL :: duration where
  "SESSION_AFFINITY_TTL = from_secs (30 * 60)"

definition MAX_SESSION_AFFINITY_ENTRIES :: nat where
  "MAX_SESSION_AFFINITY_ENTRIES = 4096"

definition MAX_SESSION_AFFINITY_KEY_BYTES :: nat where
  "MAX_SESSION_AFFINITY_KEY_BYTES = 512"

definition purge :: "('v \<Rightarrow> instant) \<Rightarrow> instant \<Rightarrow> ('k, 'v) hmap \<Rightarrow> ('k, 'v) hmap" where
  "purge used now m = hm_retain (\<lambda>_ v. now - used v < SESSION_AFFINITY_TTL) m"

definition all_fresh :: "('v \<Rightarrow> instant) \<Rightarrow> instant \<Rightarrow> ('k, 'v) hmap \<Rightarrow> bool" where
  "all_fresh used now m = (\<forall>(k, v)\<in>set m. now - used v < SESSION_AFFINITY_TTL)"

lemma all_fresh_Nil [simp]: "all_fresh used now []"
  by (simp add: all_fresh_def)

lemma purge_fresh: "all_fresh used now (purge used now m)"
  by (simp add: all_fresh_def purge_def)

lemma purge_wf [simp]: "hm_wf m \<Longrightarrow> hm_wf (purge used now m)"
  by (simp add: purge_def)

lemma length_purge: "length (purge used now m) \<le> length m"
  by (simp add: purge_def length_hm_retain)

lemma set_hm_put: "set (hm_put k v m) \<subseteq> insert (k, v) (set m)"
  by (induction m) (auto simp: hm_put_def)

lemma all_fresh_put:
  "all_fresh used now m \<Longrightarrow> now - used v < SESSION_AFFINITY_TTL \<Longrightarrow> all_fresh used now (hm_put k v m)"
  using set_hm_put [of k v m] by (fastforce simp: all_fresh_def)

lemma all_fresh_subset: "all_fresh used now m \<Longrightarrow> set m' \<subseteq> set m \<Longrightarrow> all_fresh used now m'"
  by (auto simp: all_fresh_def)

lemma ttl_pos [simp]: "0 < SESSION_AFFINITY_TTL"
  by (simp add: SESSION_AFFINITY_TTL_def from_secs_def)

text \<open>
  \<open>store k x now\<close> records \<open>x\<close> for a key; every other operation, a lookup that refreshes the
  entry or a removal, neither adds a key nor makes an entry older.  A history is a list of
  recordings and of such operations with their instants.
\<close>

datatype ('k, 'x, 's) store_event = Store 'k 'x instant | Other "'s \<Rightarrow> 's" instant

fun store_run ::
  "('k \<Rightarrow> 'x \<Rightarrow> instant \<Rightarrow> 's \<Rightarrow> 's) \<Rightarrow> ('k, 'x, 's) store_event list \<Rightarrow> 's \<Rightarrow> 's" where
  "store_run store [] m = m"
| "store_run store (Store k x now # es) m = store_run store es (store k x now m)"
| "store_run store (Other f now # es) m = store_run store es (f m)"

definition shrinking :: "(('k, 'v) hmap \<Rightarrow> ('k, 'v) hmap) \<Rightarrow> bool" where
  "shrinking f = (\<forall>m. hm_wf m \<longrightarrow> hm_wf (f m) \<and> length (f m) \<le> length m)"

locale session_store =
  fixes store :: "'k \<Rightarrow> 'x \<Rightarrow> instant \<Rightarrow> ('k, 'v) hmap \<Rightarrow> ('k, 'v) hmap"
    and used :: "'v \<Rightarrow> instant"
    and capacity :: nat
  assumes store_wf: "hm_wf m \<Longrightarrow> hm_wf (store k x now m)"
    and store_bound: "hm_wf m \<Longrightarrow> length m \<le> capacity \<Longrightarrow> length (store k x now m) \<le> capacity"
    and store_fresh: "hm_wf m \<Longrightarrow> all_fresh used now (store k x now m)"
begin

lemma run_bound:
  assumes "\<forall>e\<in>set es. \<forall>f now. e = Other f now \<longrightarrow> shrinking f"
  shows "hm_wf m \<Longrightarrow> length m \<le> capacity \<Longrightarrow>
    hm_wf (store_run store es m) \<and> length (store_run store es m) \<le> capacity"
  using assms
proof (induction es arbitrary: m)
  case Nil
  then show ?case by simp
next
  case (Cons e es)
  show ?case
  proof (cases e)
    case (Store k x now)
    with Cons show ?thesis by (simp add: store_wf store_bound)
  next
    case (Other f now)
    then have "shrinking f" using Cons.prems(3) by simp
    with Cons.prems(1,2) have "hm_wf (f m)" "length (f m) \<le> capacity"
      by (auto simp: shrinking_def intro: order_trans)
    with Other Cons show ?thesis by simp
  qed
qed

lemma run_store_fresh:
  assumes "\<forall>e\<in>set es. \<forall>f now. e = Other f now \<longrightarrow> shrinking f" "hm_wf m" "length m \<le> capacity"
  shows "all_fresh used now (store k x now (store_run store es m))"
  using run_bound [OF assms] by (simp add: store_fresh)

end

section \<open>Session affinity\<close>

record session_affinity =
  aff_target :: uuid
  aff_last_used :: instant

type_synonym affinity_map = "(uuid \<times> string, session_affinity) hmap"

definition normalize_session_affinity_key :: "string \<Rightarrow> string option" where
  "normalize_session_affinity_key s =
    (let v = trim s in
     if v \<noteq> [] \<and> length v \<le> MAX_SESSION_AFFINITY_KEY_BYTES then Some v else None)"

text \<open>
  \<open>affinity_target\<close> in its three locked sections: forget expired entries and look the key up,
  ask whether the target may still serve, and refresh or remove the entry.  \<open>open_circuit\<close> is
  the circuit of the bound target as the health map has it at that moment.
\<close>

definition affinity_lookup ::
  "uuid \<Rightarrow> string option \<Rightarrow> instant \<Rightarrow> affinity_map \<Rightarrow> uuid option \<times> affinity_map" where
  "affinity_lookup route session now m =
    (case Option.bind session normalize_session_affinity_key of
       None \<Rightarrow> (None, m)
     | Some k \<Rightarrow>
         let m' = purge aff_last_used now m in
         (map_option aff_target (hm_get m' (route, k)), m'))"

definition affinity_target ::
  "(uuid \<Rightarrow> bool) \<Rightarrow> uuid \<Rightarrow> string option \<Rightarrow> resolved_target list \<Rightarrow> instant \<Rightarrow> affinity_map
    \<Rightarrow> uuid option \<times> affinity_map" where
  "affinity_target open_circuit route session targets now m =
    (case affinity_lookup route session now m of
       (None, m') \<Rightarrow> (None, m')
     | (Some target, m') \<Rightarrow>
         (case Option.bind session normalize_session_affinity_key of
            None \<Rightarrow> (None, m')
          | Some k \<Rightarrow>
              if \<not> (\<exists>t\<in>set targets. target_enabled t \<and> target_id t = target) \<or> open_circuit target
              then (None, hm_del (route, k) m')
              else (Some target, hm_modify (route, k) (\<lambda>a. a\<lparr>aff_last_used := now\<rparr>) m')))"

definition remember_entry :: "uuid \<times> string \<Rightarrow> uuid \<Rightarrow> instant \<Rightarrow> affinity_map \<Rightarrow> affinity_map" where
  "remember_entry key target now m =
    evict_to MAX_SESSION_AFFINITY_ENTRIES aff_last_used
      (hm_update key \<lparr>aff_target = target, aff_last_used = now\<rparr>
        (\<lambda>a. if aff_target a = target then a\<lparr>aff_last_used := now\<rparr> else a)
        (purge aff_last_used now m))"

definition remember_affinity_target ::
  "uuid \<Rightarrow> string option \<Rightarrow> uuid \<Rightarrow> instant \<Rightarrow> affinity_map \<Rightarrow> affinity_map" where
  "remember_affinity_target route session target now m =
    (case Option.bind session normalize_session_affinity_key of
       None \<Rightarrow> m
     | Some k \<Rightarrow> remember_entry (route, k) target now m)"

definition clear_affinity_for_target :: "uuid \<Rightarrow> affinity_map \<Rightarrow> affinity_map" where
  "clear_affinity_for_target target m = hm_retain (\<lambda>_ a. aff_target a \<noteq> target) m"

definition clear_rejected_session :: "uuid \<Rightarrow> string option \<Rightarrow> uuid \<Rightarrow> affinity_map \<Rightarrow> affinity_map" where
  "clear_rejected_session route session target m =
    (case session of
       None \<Rightarrow> m
     | Some key \<Rightarrow>
         hm_retain (\<lambda>(r, s) a. r \<noteq> route \<or> s \<noteq> key \<or> aff_target a \<noteq> target) m)"

lemma remember_entry_wf: "hm_wf m \<Longrightarrow> hm_wf (remember_entry key target now m)"
  by (simp add: remember_entry_def evict_to_wf)

lemma purged_get_fresh:
  "hm_get (purge used now m) k = Some v \<Longrightarrow> now - used v < SESSION_AFFINITY_TTL"
  using purge_fresh [of used now m] by (fastforce simp: all_fresh_def dest: hm_get_Some_in)

lemma remember_entry_fresh: "all_fresh aff_last_used now (remember_entry key target now m)"
  unfolding remember_entry_def
  by (rule all_fresh_subset [OF _ evict_to_subset])
     (auto simp: hm_update_def dest: purged_get_fresh intro!: all_fresh_put purge_fresh split: option.splits)

interpretation affinity: session_store remember_entry aff_last_used MAX_SESSION_AFFINITY_ENTRIES
  by unfold_locales
     (simp_all add: remember_entry_wf remember_entry_fresh, simp add: remember_entry_def evict_to_bound)

text \<open>The two removals and the lookup only shrink the map.\<close>

lemma clear_affinity_shrinking: "shrinking (clear_affinity_for_target target)"
  by (simp add: shrinking_def clear_affinity_for_target_def length_hm_retain)

lemma clear_rejected_shrinking: "shrinking (clear_rejected_session route session target)"
  by (auto simp: shrinking_def clear_rejected_session_def length_hm_retain split: option.splits)

lemma affinity_lookup_shrinking: "shrinking (\<lambda>m. snd (affinity_lookup route session now m))"
  by (auto simp: shrinking_def affinity_lookup_def Let_def length_purge split: option.splits)

lemma length_hm_del: "length (hm_del k m) \<le> length m"
  by (simp add: hm_del_def)

lemma affinity_target_shrinking:
  "shrinking (\<lambda>m. snd (affinity_target open_circuit route session targets now m))"
proof -
  have "hm_wf (snd (affinity_target open_circuit route session targets now m))
      \<and> length (snd (affinity_target open_circuit route session targets now m)) \<le> length m"
    if wf: "hm_wf m" for m
  proof -
    obtain r m' where l: "affinity_lookup route session now m = (r, m')"
      by (cases "affinity_lookup route session now m")
    have m': "hm_wf m'" "length m' \<le> length m"
      using affinity_lookup_shrinking [of route session now, unfolded shrinking_def, THEN spec, THEN mp, OF wf] l by simp_all
    show ?thesis
    proof (cases "r = None \<or> Option.bind session normalize_session_affinity_key = None")
      case True
      then show ?thesis using m' by (auto simp: affinity_target_def l split: option.splits)
    next
      case False
      then obtain target k where r: "r = Some target" and k: "Option.bind session normalize_session_affinity_key = Some k"
        by auto
      have "length (hm_del (route, k) m') \<le> length m" by (rule order_trans [OF length_hm_del m'(2)])
      with m' show ?thesis by (simp add: affinity_target_def l r k)
    qed
  qed
  then show ?thesis by (simp add: shrinking_def)
qed

text \<open>What a lookup returns, and that a binding is not taken over by another target.\<close>

lemma affinity_lookup_Some:
  assumes "hm_wf m" "affinity_lookup route session now m = (Some target, m')"
  obtains k a where "Option.bind session normalize_session_affinity_key = Some k"
    "hm_get m (route, k) = Some a" "aff_target a = target" "now - aff_last_used a < SESSION_AFFINITY_TTL"
  using assms
  by (auto simp: affinity_lookup_def Let_def purge_def hm_get_retain split: option.splits if_splits)

lemma affinity_target_Some:
  assumes "affinity_target open_circuit route session targets now m = (Some target, m')"
  shows "\<exists>t\<in>set targets. target_enabled t \<and> target_id t = target" and "\<not> open_circuit target"
    and "fst (affinity_lookup route session now m) = Some target"
  using assms by (auto simp: affinity_target_def split: option.splits prod.splits if_splits)

lemma remember_entry_no_steal:
  assumes wf: "hm_wf m" and a: "hm_get m key = Some a" "aff_target a \<noteq> target"
    and fresh: "now - aff_last_used a < SESSION_AFFINITY_TTL"
    and get: "hm_get (remember_entry key target now m) key = Some b"
  shows "b = a"
proof -
  let ?m = "hm_update key \<lparr>aff_target = target, aff_last_used = now\<rparr>
      (\<lambda>a. if aff_target a = target then a\<lparr>aff_last_used := now\<rparr> else a) (purge aff_last_used now m)"
  have "hm_get (purge aff_last_used now m) key = Some a"
    using wf a fresh by (simp add: purge_def hm_get_retain)
  then have "hm_get ?m key = Some a" using a by simp
  moreover have "(key, b) \<in> set ?m"
    using get evict_to_subset unfolding remember_entry_def by (blast dest: hm_get_Some_in)
  ultimately show ?thesis using wf by (auto dest: in_hm_get [rotated])
qed

text \<open>
  A binding made when every other entry is older survives its own eviction pass.
\<close>

lemma remember_entry_get:
  assumes wf: "hm_wf m" and new: "hm_get (purge aff_last_used now m) key = None"
    and older: "\<forall>(k, a)\<in>set m. aff_last_used a < now"
  shows "hm_get (remember_entry key target now m) key = Some \<lparr>aff_target = target, aff_last_used = now\<rparr>"
proof -
  let ?p = "purge aff_last_used now m" and ?a = "\<lparr>aff_target = target, aff_last_used = now\<rparr>"
  have eq: "hm_update key ?a (\<lambda>a. if aff_target a = target then a\<lparr>aff_last_used := now\<rparr> else a) ?p
      = hm_put key ?a ?p"
    using new by (simp add: hm_update_def)
  have "(key, ?a) \<in> set (hm_put key ?a ?p)" by (rule hm_get_Some_in) simp
  moreover have "\<forall>(j, w)\<in>set (hm_put key ?a ?p). j \<noteq> key \<longrightarrow> aff_last_used w < aff_last_used ?a"
    using set_hm_put [of key ?a ?p] older by (fastforce simp: purge_def)
  ultimately have "(key, ?a) \<in> set (remember_entry key target now m)"
    unfolding remember_entry_def eq
    using wf by (intro evict_to_keeps) (simp_all add: MAX_SESSION_AFFINITY_ENTRIES_def)
  then show ?thesis using wf by (simp add: in_hm_get remember_entry_wf)
qed

section \<open>Properties\<close>

text \<open>The operations other than a recording: clearing a target or a session, and looking up.\<close>

definition affinity_other :: "(affinity_map \<Rightarrow> affinity_map) \<Rightarrow> bool" where
  "affinity_other f =
    ((\<exists>target. f = clear_affinity_for_target target)
     \<or> (\<exists>route session target. f = clear_rejected_session route session target)
     \<or> (\<exists>open_circuit route session targets now.
          f = (\<lambda>m. snd (affinity_target open_circuit route session targets now m))))"

lemma affinity_other_shrinking: "affinity_other f \<Longrightarrow> shrinking f"
  unfolding affinity_other_def
  by (elim disjE exE) (simp_all only: clear_affinity_shrinking clear_rejected_shrinking affinity_target_shrinking)

text \<open>
  Whatever sessions come and go, the affinity map holds at most 4096 entries with distinct
  keys, and right after a binding is recorded no entry is older than thirty minutes.
\<close>

theorem affinity_bounded_and_fresh:
  assumes "\<forall>e\<in>set es. \<forall>f t. e = Other f t \<longrightarrow> affinity_other f"
  shows "hm_wf (store_run remember_entry es []) \<and> length (store_run remember_entry es []) \<le> 4096
    \<and> all_fresh aff_last_used later (remember_entry key target later (store_run remember_entry es []))"
proof -
  have shr: "\<forall>e\<in>set es. \<forall>f t. e = Other f t \<longrightarrow> shrinking f"
    using assms affinity_other_shrinking by blast
  have "hm_wf ([] :: affinity_map)" "length ([] :: affinity_map) \<le> MAX_SESSION_AFFINITY_ENTRIES" by simp_all
  from affinity.run_bound [OF shr this] affinity.run_store_fresh [OF shr this]
  show ?thesis by (simp add: MAX_SESSION_AFFINITY_ENTRIES_def)
qed

theorem affinity_bounded_and_fresh_witness:
  "length (store_run remember_entry
     [Store (1, ''s'') 2 0, Other (clear_affinity_for_target 2) 1, Store (1, ''s'') 3 2] []) \<le> 4096"
proof -
  have "\<forall>e\<in>set [Store (1 :: uuid, ''s'') (2 :: uuid) 0, Other (clear_affinity_for_target 2) 1, Store (1, ''s'') 3 2].
      \<forall>f t. e = Other f t \<longrightarrow> affinity_other f"
    by (auto simp: affinity_other_def)
  from affinity_bounded_and_fresh [OF this] show ?thesis by blast
qed

text \<open>
  C33. A completed fallback is not undone: while a session's binding is fresh, a request that
  finishes on another target leaves the binding as it is, or evicts it, but never redirects
  the session to its own target.
\<close>

theorem affinity_is_not_stolen:
  assumes "hm_wf m" "normalize_session_affinity_key key = Some k"
    and "hm_get m (route, k) = Some a" "aff_target a \<noteq> target"
    and "now - aff_last_used a < SESSION_AFFINITY_TTL"
  shows "hm_get (remember_affinity_target route (Some key) target now m) (route, k) \<in> {None, Some a}"
proof -
  have "remember_affinity_target route (Some key) target now m = remember_entry (route, k) target now m"
    by (simp add: remember_affinity_target_def assms(2))
  with remember_entry_no_steal [OF assms(1,3,4,5)] show ?thesis
    by (cases "hm_get (remember_entry (route, k) target now m) (route, k)") auto
qed

lemma trim_s: "trim ''s'' = ''s''" by code_simp

lemma normalize_s: "normalize_session_affinity_key ''s'' = Some ''s''"
  by (simp add: normalize_session_affinity_key_def trim_s MAX_SESSION_AFFINITY_KEY_BYTES_def)

theorem affinity_is_not_stolen_witness:
  "hm_get (remember_affinity_target 1 (Some ''s'') 8 60 [((1, ''s''), \<lparr>aff_target = 5, aff_last_used = 50\<rparr>)]) (1, ''s'')
    \<in> {None, Some \<lparr>aff_target = 5, aff_last_used = 50\<rparr>}"
  by (rule affinity_is_not_stolen [OF _ normalize_s])
     (simp_all add: hm_wf_def hm_get_def SESSION_AFFINITY_TTL_def from_secs_def)

text \<open>
  A binding is used only while it is fresh and only for a target the request may try: the
  target returned was recorded for this route and normalised key less than thirty minutes
  ago, is among the enabled candidates, and its circuit is closed.
\<close>

theorem affinity_target_is_usable:
  assumes "hm_wf m"
    and "affinity_target open_circuit route session targets now m = (Some target, m')"
  shows "\<exists>k a. Option.bind session normalize_session_affinity_key = Some k \<and> hm_get m (route, k) = Some a
      \<and> aff_target a = target \<and> now - aff_last_used a < SESSION_AFFINITY_TTL
      \<and> (\<exists>t\<in>set targets. target_enabled t \<and> target_id t = target) \<and> \<not> open_circuit target"
proof -
  obtain m1 where "affinity_lookup route session now m = (Some target, m1)"
    using affinity_target_Some(3) [OF assms(2)] by (cases "affinity_lookup route session now m") auto
  from affinity_lookup_Some [OF assms(1) this] affinity_target_Some(1,2) [OF assms(2)] show ?thesis
    by metis
qed

text \<open>A route with one target, for the instance below.\<close>

definition bound_target :: resolved_target where
  "bound_target = \<lparr>
     upstream_proxy = None, model_override = None, profile = Generic, upstream_kind = Standard,
     quota = [], max_concurrent_requests = None, supports_websockets = True,
     t_config = \<lparr>
       tc_id = 5, provider_entry_id = 2, secret_id = [], label = [], base_url = [],
       auth_scheme = ''bearer'', headers = [], group = None, priority = 0, weight = 1,
       tc_enabled = True, protocol = None, prefer_ws = False, tc_model = None\<rparr>,
     api_key = ''k''\<rparr>"

theorem affinity_target_is_usable_witness:
  "\<exists>k a. Option.bind (Some ''s'') normalize_session_affinity_key = Some k
      \<and> hm_get [((1 :: uuid, ''s''), \<lparr>aff_target = 5, aff_last_used = 50\<rparr>)] (1, k) = Some a
      \<and> aff_target a = 5 \<and> 60 - aff_last_used a < SESSION_AFFINITY_TTL
      \<and> (\<exists>t\<in>set [bound_target]. target_enabled t \<and> target_id t = 5)"
proof -
  have "affinity_target (\<lambda>_. False) 1 (Some ''s'') [bound_target] 60
      [((1, ''s''), \<lparr>aff_target = 5, aff_last_used = 50\<rparr>)]
    = (Some 5, [((1, ''s''), \<lparr>aff_target = 5, aff_last_used = 60\<rparr>)])"
    by (simp add: affinity_target_def affinity_lookup_def normalize_s purge_def hm_retain_def hm_get_def
        SESSION_AFFINITY_TTL_def from_secs_def bound_target_def hm_modify_def hm_put_def)
  from affinity_target_is_usable [OF _ this] show ?thesis by (simp only: hm_wf_def) simp
qed

end
