(* ===== verification/Capability.thy ===== *)
theory Capability
  imports Sessions Http
begin

text \<open>
  Evidence that an upstream does not support WebSockets
  (\<open>crates/aipass-proxy/src/websocket/capability.rs\<close>).  Two handshakes refused with 404, 405
  or 501 make a candidate, an HTTP success of the same request confirms it, and a WebSocket
  success of the same connection generation clears it.  A transport is identified by the
  SHA-256 of its framed configuration; the hash and the JSON printer are arguments.
\<close>

section \<open>Identity of a transport\<close>

type_synonym ws_key = "256 word"

definition le_bytes :: "nat \<Rightarrow> nat \<Rightarrow> bytes" where
  "le_bytes k n = map (\<lambda>i. char_of (n div 256 ^ i mod 256)) [0..<k]"

definition uuid_bytes :: "uuid \<Rightarrow> bytes" where
  "uuid_bytes u = rev (le_bytes 16 (unat u))"

definition framed :: "bytes \<Rightarrow> bytes" where
  "framed b = le_bytes 8 (length b mod 2 ^ 64) @ b"

text \<open>The bytes fed to the hash: four framed fields and the JSON of the remaining settings.\<close>

definition key_material :: "(resolved_target \<Rightarrow> upstream_proxy_config \<Rightarrow> bytes) \<Rightarrow>
    resolved_target \<Rightarrow> upstream_proxy_config \<Rightarrow> bytes" where
  "key_material metadata t outbound =
    concat (map framed [uuid_bytes (target_provider t), base_url (t_config t), auth_scheme (t_config t), api_key t])
      @ metadata t outbound"

definition websocket_config_key :: "(bytes \<Rightarrow> ws_key) \<Rightarrow> (resolved_target \<Rightarrow> upstream_proxy_config \<Rightarrow> bytes) \<Rightarrow>
    resolved_target \<Rightarrow> upstream_proxy_config \<Rightarrow> ws_key" where
  "websocket_config_key sha256 metadata t outbound = sha256 (key_material metadata t outbound)"

lemma length_le_bytes [simp]: "length (le_bytes k n) = k"
  by (simp add: le_bytes_def)

lemma digits_inject:
  "(\<forall>i<k. a div b ^ i mod b = c div b ^ i mod b) \<Longrightarrow> a < b ^ k \<Longrightarrow> c < b ^ k \<Longrightarrow> a = (c :: nat)"
proof (induction k arbitrary: a c)
  case 0
  then show ?case by simp
next
  case (Suc k)
  have "a div b = c div b"
  proof (rule Suc.IH)
    show "\<forall>i<k. a div b div b ^ i mod b = c div b div b ^ i mod b"
      using Suc.prems(1) by (auto simp: div_mult2_eq [symmetric] mult.commute dest: spec [of _ "Suc _"])
  next
    show "a div b < b ^ k" "c div b < b ^ k"
      using Suc.prems(2,3) by (simp_all add: less_mult_imp_div_less mult.commute)
  qed
  moreover have "a mod b = c mod b" using Suc.prems(1) by (auto dest: spec [of _ 0])
  ultimately show ?case by (metis div_mult_mod_eq)
qed

lemma le_bytes_inject:
  assumes "le_bytes k a = le_bytes k c" "a < 256 ^ k" "c < 256 ^ k"
  shows "a = c"
proof (rule digits_inject [OF _ assms(2,3)])
  have same: "\<forall>i\<in>set [0..<k]. (char_of (a div 256 ^ i mod 256) :: char) = char_of (c div 256 ^ i mod 256)"
    using assms(1) by (simp only: le_bytes_def map_eq_conv)
  show "\<forall>i<k. a div 256 ^ i mod 256 = c div 256 ^ i mod 256"
  proof (intro allI impI)
    fix i
    assume "i < k"
    with same have "(of_char (char_of (a div 256 ^ i mod 256) :: char) :: nat) =
        of_char (char_of (c div 256 ^ i mod 256) :: char)"
      by (simp del: char_of_mod_256)
    then show "a div 256 ^ i mod 256 = c div 256 ^ i mod 256" by (simp add: of_char_of)
  qed
qed

lemma framed_append_inject:
  assumes "framed a @ r = framed b @ s" "length a < 2 ^ 64" "length b < 2 ^ 64"
  shows "a = b \<and> r = s"
proof -
  have eq: "le_bytes 8 (length a) @ (a @ r) = le_bytes 8 (length b) @ (b @ s)"
    using assms by (simp add: framed_def)
  then have "le_bytes 8 (length a) = le_bytes 8 (length b)" "a @ r = b @ s"
    by (simp_all add: append_eq_append_conv)
  moreover from this(1) assms(2,3) have "length a = length b"
    by (intro le_bytes_inject [of 8]) simp_all
  ultimately show ?thesis by simp
qed

lemma uuid_bytes_inject: "uuid_bytes a = uuid_bytes b \<Longrightarrow> a = b"
proof -
  have less: "unat u < 256 ^ 16" for u :: uuid
  proof -
    have "unat u < 2 ^ LENGTH(128)" by (rule unsigned_less)
    then show ?thesis by simp
  qed
  assume "uuid_bytes a = uuid_bytes b"
  then have "le_bytes 16 (unat a) = le_bytes 16 (unat b)" by (simp add: uuid_bytes_def)
  then have "unat a = unat b" by (rule le_bytes_inject [OF _ less less])
  then show ?thesis by (simp add: word_unat_eq_iff)
qed

section \<open>Records\<close>

record ws_event =
  ev_id :: uuid
  ev_provider :: uuid
  ev_key :: ws_key
  ev_status :: u16
  ev_detected_at :: "64 word"

record evidence =
  event :: ws_event
  created :: instant

record observation =
  obs_key :: ws_key
  obs_epoch :: uuid

record ws_health =
  epoch :: uuid
  last_success :: "instant option"
  candidate_of :: "evidence option"
  confirmed :: bool

type_synonym ws_map = "(ws_key, ws_health) hmap"

definition default_ws_health :: "uuid \<Rightarrow> ws_health" where
  "default_ws_health fresh = \<lparr>epoch = fresh, last_success = None, candidate_of = None, confirmed = False\<rparr>"

text \<open>\<open>fresh k\<close> is the epoch drawn for the key \<open>k\<close>.\<close>

definition initial_health ::
  "(resolved_target \<Rightarrow> upstream_proxy_config \<Rightarrow> ws_key) \<Rightarrow> (ws_key \<Rightarrow> uuid) \<Rightarrow> runtime_config \<Rightarrow> ws_map" where
  "initial_health key fresh c =
    fold (\<lambda>t. hm_put (key t (cfg_upstream_proxy c)) (default_ws_health (fresh (key t (cfg_upstream_proxy c)))))
      (all_targets c) []"

definition observe :: "ws_map \<Rightarrow> ws_key \<Rightarrow> observation option" where
  "observe m k = map_option (\<lambda>h. \<lparr>obs_key = k, obs_epoch = epoch h\<rparr>) (hm_get m k)"

section \<open>Handshakes\<close>

datatype handshake_error = UnsupportedCandidate nat | Transport nat | Rejected nat

definition handshake_from_status :: "nat \<Rightarrow> handshake_error" where
  "handshake_from_status s =
    (if s = 404 \<or> s = 405 \<or> s = 501 then UnsupportedCandidate s
     else if s = 426 then Transport s
     else if is_server_error s then Transport s
     else Rejected s)"

fun handshake_status :: "handshake_error \<Rightarrow> nat" where
  "handshake_status (UnsupportedCandidate s) = s"
| "handshake_status (Transport s) = s"
| "handshake_status (Rejected s) = s"

fun permits_fallback :: "handshake_error \<Rightarrow> bool" where
  "permits_fallback (Rejected _) = False"
| "permits_fallback _ = True"

fun is_unsupported :: "handshake_error \<Rightarrow> bool" where
  "is_unsupported (UnsupportedCandidate _) = True"
| "is_unsupported _ = False"

text \<open>
  \<open>connect_twice\<close>: \<open>clock i\<close> is the time before dial \<open>i\<close>, \<open>dial i\<close> its result (a timeout is
  the transport error 504).  The result comes with the attempt counter and the failed dials
  that were recorded.
\<close>

fun connect_loop ::
  "(nat \<Rightarrow> instant) \<Rightarrow> instant option \<Rightarrow> (nat \<Rightarrow> 'c + handshake_error) \<Rightarrow> nat list \<Rightarrow> nat \<Rightarrow> handshake_error \<Rightarrow> u8
    \<Rightarrow> ('c + handshake_error \<times> bool) \<times> u8 \<times> handshake_error list" where
  "connect_loop clock hold dial [] rejected prev attempts = (Inr (prev, rejected = 2), attempts, [])"
| "connect_loop clock hold dial (i # ixs) rejected prev attempts =
    (if is_some_and hold (\<lambda>d. d \<le> clock i) then (Inr (prev, rejected = 2), attempts, [])
     else
       let attempts' = (if 0 < i then sat_add attempts 1 else attempts) in
       (case dial i of
          Inl c \<Rightarrow> (Inl c, attempts', [])
        | Inr e \<Rightarrow>
            let rejected' = (if is_unsupported e then rejected + 1 else 0) in
            if permits_fallback e
            then (case connect_loop clock hold dial ixs rejected' e attempts' of
                (r, a, log) \<Rightarrow> (r, a, e # log))
            else (Inr (e, rejected' = 2), attempts', [e])))"

definition connect_twice ::
  "(nat \<Rightarrow> instant) \<Rightarrow> instant option \<Rightarrow> (nat \<Rightarrow> 'c + handshake_error) \<Rightarrow> u8
    \<Rightarrow> ('c + handshake_error \<times> bool) \<times> u8 \<times> handshake_error list" where
  "connect_twice clock hold dial attempts =
    connect_loop clock hold dial [0, 1] 0 (Transport 504) attempts"

lemma connect_twice_unsupported:
  "connect_twice clock hold dial attempts = (Inr (e, True), a, log) \<Longrightarrow>
    (\<exists>s0 s1. dial 0 = Inr (UnsupportedCandidate s0) \<and> dial 1 = Inr (UnsupportedCandidate s1)
      \<and> log = [UnsupportedCandidate s0, UnsupportedCandidate s1] \<and> e = UnsupportedCandidate s1)"
  by (cases "dial 0"; cases "dial 1"; simp add: connect_twice_def Let_def split: if_splits)
     (auto elim!: is_unsupported.elims)

lemma connect_twice_log:
  "connect_twice clock hold dial attempts = (r, a, log) \<Longrightarrow>
    length log \<le> 2 \<and> (\<forall>e\<in>set (butlast log). permits_fallback e)"
  by (cases "dial 0"; cases "dial 1"; auto simp: connect_twice_def Let_def split: if_splits)

section \<open>Evidence\<close>

definition candidate ::
  "resolved_target \<Rightarrow> observation option \<Rightarrow> instant \<Rightarrow> nat \<Rightarrow> uuid \<Rightarrow> 64 word \<Rightarrow> instant \<Rightarrow> ws_map
    \<Rightarrow> evidence option \<times> ws_map" where
  "candidate t obs started status fresh unix now m =
    (case obs of
       None \<Rightarrow> (None, m)
     | Some o' \<Rightarrow>
         (case hm_get m (obs_key o') of
            None \<Rightarrow> (None, m)
          | Some h \<Rightarrow>
              if epoch h \<noteq> obs_epoch o' \<or> SESSION_AFFINITY_TTL \<le> now - started then (None, m)
              else if is_some_and (last_success h) (\<lambda>s. started \<le> s) then (None, m)
              else
                let e = \<lparr>event = \<lparr>ev_id = fresh, ev_provider = target_provider t, ev_key = obs_key o',
                                  ev_status = of_nat status, ev_detected_at = unix\<rparr>,
                         created = now\<rparr>;
                    h' = (if is_none_or (candidate_of h)
                               (\<lambda>e. \<not> confirmed h \<and> SESSION_AFFINITY_TTL \<le> now - created e)
                          then h\<lparr>candidate_of := Some e\<rparr> else h)
                in (candidate_of h', hm_put (obs_key o') h' m)))"

definition valid_completion :: "json \<Rightarrow> bool" where
  "valid_completion e =
    ((get_str e ''type'' = Some ''response.completed'' \<or> get_str e ''type'' = Some ''response.incomplete'')
     \<and> is_some_and (Option.bind (json_pointer e [''response'', ''id'']) as_str) (\<lambda>i. trim i \<noteq> [])
     \<and> is_some_and (json_pointer e [''response'', ''output'']) (\<lambda>v. as_array v \<noteq> None))"

definition ws_success :: "observation option \<Rightarrow> instant \<Rightarrow> ws_map \<Rightarrow> ws_map" where
  "ws_success obs now m =
    (case obs of
       None \<Rightarrow> m
     | Some o' \<Rightarrow>
         hm_modify (obs_key o')
           (\<lambda>h. if epoch h \<noteq> obs_epoch o' then h
                else h\<lparr>last_success := Some now, candidate_of := None, confirmed := False\<rparr>) m)"

definition http_success :: "evidence option \<Rightarrow> instant \<Rightarrow> ws_map \<Rightarrow> ws_map" where
  "http_success ev now m =
    (case ev of
       None \<Rightarrow> m
     | Some e \<Rightarrow>
         if now - created e < SESSION_AFFINITY_TTL
         then hm_modify (ev_key (event e))
           (\<lambda>h. if is_some_and (candidate_of h) (\<lambda>c. ev_id (event c) = ev_id (event e)) \<and> \<not> confirmed h
                then h\<lparr>confirmed := True\<rparr> else h) m
         else m)"

definition allowed ::
  "(resolved_target \<Rightarrow> upstream_proxy_config \<Rightarrow> ws_key) \<Rightarrow> runtime_config \<Rightarrow> ws_map \<Rightarrow> ws_key \<Rightarrow> bool" where
  "allowed key c m k =
    (if \<exists>t\<in>set (all_targets c). \<not> supports_websockets t \<and> key t (cfg_upstream_proxy c) = k
     then False
     else \<not> is_some_and (hm_get m k) confirmed)"

definition restore_event :: "ws_event \<Rightarrow> instant \<Rightarrow> ws_map \<Rightarrow> ws_map" where
  "restore_event e now m =
    hm_modify (ev_key e)
      (\<lambda>h. if last_success h = None \<and> \<not> confirmed h
           then h\<lparr>candidate_of := Some \<lparr>event = e, created = now\<rparr>, confirmed := True\<rparr> else h) m"

definition capability_events :: "ws_map \<Rightarrow> ws_event list" where
  "capability_events m =
    filter_map (\<lambda>h. map_option event (candidate_of h)) (filter confirmed (map snd m))"

definition with_event :: "ws_map \<Rightarrow> ws_event \<Rightarrow> (unit \<Rightarrow> 'a) \<Rightarrow> 'a option" where
  "with_event m e apply =
    Option.bind (hm_get m (ev_key e)) (\<lambda>h.
      if \<not> confirmed h \<or> \<not> is_some_and (candidate_of h) (\<lambda>c. event c = e) then None
      else Some (apply ()))"

definition acknowledge_event :: "ws_event \<Rightarrow> ws_map \<Rightarrow> ws_map" where
  "acknowledge_event e m =
    hm_modify (ev_key e)
      (\<lambda>h. if is_some_and (candidate_of h) (\<lambda>c. ev_id (event c) = ev_id e)
           then h\<lparr>candidate_of := None\<rparr> else h) m"

section \<open>HTTP sessions\<close>

record http_session =
  hs_used :: instant
  hs_evidence :: "evidence option"

type_synonym http_sessions = "(uuid \<times> string \<times> ws_key, http_session) hmap"

definition http_store ::
  "uuid \<times> string \<times> ws_key \<Rightarrow> evidence option \<Rightarrow> instant \<Rightarrow> http_sessions \<Rightarrow> http_sessions" where
  "http_store ident ev now m =
    (let m1 = purge hs_used now m;
         m2 = (if MAX_SESSION_AFFINITY_ENTRIES \<le> length m1
               then (case min_by_key (\<lambda>e. hs_used (snd e)) m1 of
                   None \<Rightarrow> m1 | Some oldest \<Rightarrow> hm_del (fst oldest) m1)
               else m1)
     in hm_put ident \<lparr>hs_used = now, hs_evidence = ev\<rparr> m2)"

definition http_fallback ::
  "uuid \<Rightarrow> string option \<Rightarrow> ws_key \<Rightarrow> evidence option option \<Rightarrow> instant \<Rightarrow> http_sessions
    \<Rightarrow> evidence option option \<times> http_sessions" where
  "http_fallback route session key assign now m =
    (case session of
       None \<Rightarrow> (None, m)
     | Some s \<Rightarrow>
         (case assign of
            Some ev \<Rightarrow> (Some ev, http_store (route, s, key) ev now m)
          | None \<Rightarrow>
              let m1 = purge hs_used now m in
              (map_option hs_evidence (hm_get m1 (route, s, key)),
               hm_modify (route, s, key) (\<lambda>e. e\<lparr>hs_used := now\<rparr>) m1)))"

lemma http_store_trimmed:
  assumes "length m \<le> MAX_SESSION_AFFINITY_ENTRIES"
  shows "length (http_store k ev now m) \<le> MAX_SESSION_AFFINITY_ENTRIES"
proof -
  let ?m1 = "purge hs_used now m"
  have m1: "length ?m1 \<le> MAX_SESSION_AFFINITY_ENTRIES"
    using assms length_purge [of hs_used now m] by linarith
  show ?thesis
  proof (cases "MAX_SESSION_AFFINITY_ENTRIES \<le> length ?m1")
    case True
    then have "?m1 \<noteq> []" by (auto simp: MAX_SESSION_AFFINITY_ENTRIES_def)
    then obtain e where e: "min_by_key (\<lambda>e. hs_used (snd e)) ?m1 = Some e"
      by (cases "min_by_key (\<lambda>e. hs_used (snd e)) ?m1") auto
    then have "length (hm_del (fst e) ?m1) < length ?m1"
      by (simp add: length_hm_del_mem min_by_key_SomeD)
    with m1 True e length_hm_put [of k "\<lparr>hs_used = now, hs_evidence = ev\<rparr>" "hm_del (fst e) ?m1"]
    show ?thesis by (simp add: http_store_def)
  next
    case False
    with length_hm_put [of k "\<lparr>hs_used = now, hs_evidence = ev\<rparr>" ?m1] show ?thesis
      by (simp add: http_store_def)
  qed
qed

lemma http_store_wf: "hm_wf m \<Longrightarrow> hm_wf (http_store k ev now m)"
  by (auto simp: http_store_def Let_def split: option.splits)

lemma http_store_fresh: "all_fresh hs_used now (http_store k ev now m)"
proof -
  have "all_fresh hs_used now (hm_del j (purge hs_used now m))" for j
    by (rule all_fresh_subset [OF purge_fresh]) (auto simp: hm_del_def)
  then show ?thesis
    by (auto simp: http_store_def Let_def intro!: all_fresh_put purge_fresh split: option.splits)
qed

interpretation http_sessions: session_store http_store hs_used MAX_SESSION_AFFINITY_ENTRIES
  by unfold_locales (simp_all add: http_store_wf http_store_trimmed http_store_fresh)

section \<open>What evidence stands for\<close>

lemma candidate_SomeD:
  assumes "candidate t obs started status fresh unix now m = (Some e, m')"
  obtains o' h where "obs = Some o'" "hm_get m (obs_key o') = Some h" "epoch h = obs_epoch o'"
    "now - started < SESSION_AFFINITY_TTL" "\<forall>s. last_success h = Some s \<longrightarrow> s < started"
proof (cases obs)
  case (Some o')
  show ?thesis
  proof (cases "hm_get m (obs_key o')")
    case (Some h)
    with assms \<open>obs = Some o'\<close> show ?thesis
      by (intro that [of o' h]) (auto simp: candidate_def Let_def is_some_and_iff not_le split: if_splits)
  qed (use assms \<open>obs = Some o'\<close> in \<open>simp add: candidate_def\<close>)
qed (use assms in \<open>simp add: candidate_def\<close>)

lemma success_clears:
  assumes "hm_get m (obs_key o') = Some h" "epoch h = obs_epoch o'"
  shows "hm_get (ws_success (Some o') now m) (obs_key o') =
    Some (h\<lparr>last_success := Some now, candidate_of := None, confirmed := False\<rparr>)"
  using assms by (simp add: ws_success_def)

text \<open>An observation of another generation of the connection changes nothing.\<close>

lemma success_stale:
  assumes "hm_get m (obs_key o') = Some h" "epoch h \<noteq> obs_epoch o'"
  shows "hm_get (ws_success (Some o') now m) k = hm_get m k"
  using assms by (simp add: ws_success_def)

lemma http_success_confirms:
  assumes "hm_get (http_success ev now m) k = Some h'" "confirmed h'"
    "hm_get m k = Some h" "\<not> confirmed h"
  shows "\<exists>e c. ev = Some e \<and> k = ev_key (event e) \<and> candidate_of h = Some c
    \<and> ev_id (event c) = ev_id (event e) \<and> now - created e < SESSION_AFFINITY_TTL"
proof (cases ev)
  case None
  with assms show ?thesis by (simp add: http_success_def)
next
  case (Some e)
  with assms show ?thesis
    by (auto simp: http_success_def is_some_and_iff split: if_splits)
qed

section \<open>Histories of one transport\<close>

datatype ws_op =
    Refused resolved_target "observation option" instant nat uuid "64 word" instant
  | WsOk "observation option" instant
  | HttpOk "evidence option" instant
  | Restored ws_event instant
  | Acknowledged ws_event

fun ws_apply :: "ws_op \<Rightarrow> ws_map \<Rightarrow> ws_map" where
  "ws_apply (Refused t obs started status fresh unix now) m = snd (candidate t obs started status fresh unix now m)"
| "ws_apply (WsOk obs now) m = ws_success obs now m"
| "ws_apply (HttpOk ev now) m = http_success ev now m"
| "ws_apply (Restored e now) m = restore_event e now m"
| "ws_apply (Acknowledged e) m = acknowledge_event e m"

text \<open>A handshake is refused after it started.\<close>

fun ws_op_ok :: "ws_op \<Rightarrow> bool" where
  "ws_op_ok (Refused t obs started status fresh unix now) = (started \<le> now)"
| "ws_op_ok _ = True"

definition evidence_newer :: "ws_map \<Rightarrow> bool" where
  "evidence_newer m =
    (\<forall>k h. hm_get m k = Some h \<longrightarrow>
      (\<forall>e s. candidate_of h = Some e \<longrightarrow> last_success h = Some s \<longrightarrow> s < created e))"

lemma evidence_newer_modify:
  assumes "evidence_newer m"
    and "\<And>h e s. hm_get m k = Some h \<Longrightarrow> candidate_of (f h) = Some e \<Longrightarrow> last_success (f h) = Some s \<Longrightarrow> s < created e"
  shows "evidence_newer (hm_modify k f m)"
  using assms by (auto simp: evidence_newer_def split: if_splits)

lemma evidence_newer_put:
  assumes "evidence_newer m"
    and "\<And>e s. candidate_of h = Some e \<Longrightarrow> last_success h = Some s \<Longrightarrow> s < created e"
  shows "evidence_newer (hm_put k h m)"
  using assms by (auto simp: evidence_newer_def split: if_splits)

lemma candidate_newer:
  assumes "evidence_newer m" "started \<le> now"
  shows "evidence_newer (snd (candidate t obs started status fresh unix now m))"
proof (cases "fst (candidate t obs started status fresh unix now m)")
  case None
  with assms show ?thesis
    by (auto simp: candidate_def Let_def is_none_or_iff split: option.splits if_splits intro!: evidence_newer_put)
next
  case (Some e)
  then obtain m' where c: "candidate t obs started status fresh unix now m = (Some e, m')"
    by (cases "candidate t obs started status fresh unix now m") auto
  from candidate_SomeD [OF c] obtain o' h where o': "obs = Some o'" and h: "hm_get m (obs_key o') = Some h"
    and ep: "epoch h = obs_epoch o'" and ttl: "now - started < SESSION_AFFINITY_TTL"
    and last: "\<forall>s. last_success h = Some s \<longrightarrow> s < started" by metis
  have old: "s < created e'" if "candidate_of h = Some e'" "last_success h = Some s" for e' s
    using assms(1) h that by (auto simp: evidence_newer_def)
  show ?thesis
    using o' h ep ttl last assms old
    by (auto simp: candidate_def Let_def is_some_and_iff split: if_splits intro!: evidence_newer_put)
qed

lemma ws_apply_newer: "evidence_newer m \<Longrightarrow> ws_op_ok op' \<Longrightarrow> evidence_newer (ws_apply op' m)"
proof (cases op')
  case (Refused t obs started status fresh unix now)
  then show "evidence_newer m \<Longrightarrow> ws_op_ok op' \<Longrightarrow> evidence_newer (ws_apply op' m)"
    by (simp add: candidate_newer)
next
  case (WsOk obs now)
  then show "evidence_newer m \<Longrightarrow> ws_op_ok op' \<Longrightarrow> evidence_newer (ws_apply op' m)"
    by (auto simp: ws_success_def evidence_newer_def split: option.splits if_splits)
next
  case (HttpOk ev now)
  then show "evidence_newer m \<Longrightarrow> ws_op_ok op' \<Longrightarrow> evidence_newer (ws_apply op' m)"
    by (auto simp: http_success_def evidence_newer_def split: option.splits if_splits)
next
  case (Restored e now)
  then show "evidence_newer m \<Longrightarrow> ws_op_ok op' \<Longrightarrow> evidence_newer (ws_apply op' m)"
    by (auto simp: restore_event_def intro!: evidence_newer_modify split: if_splits)
       (auto simp: evidence_newer_def)
next
  case (Acknowledged e)
  then show "evidence_newer m \<Longrightarrow> ws_op_ok op' \<Longrightarrow> evidence_newer (ws_apply op' m)"
    by (auto simp: acknowledge_event_def intro!: evidence_newer_modify split: if_splits)
       (auto simp: evidence_newer_def)
qed

section \<open>Properties\<close>

text \<open>
  The bytes hashed into a transport's identity determine the provider, the endpoint, the
  authentication scheme, the credential and the remaining settings: the framing keeps two
  different transports apart, whatever their strings contain.
\<close>

theorem transport_material_injective:
  assumes "length (base_url (t_config t)) < 2 ^ 64" "length (base_url (t_config u)) < 2 ^ 64"
    and "length (auth_scheme (t_config t)) < 2 ^ 64" "length (auth_scheme (t_config u)) < 2 ^ 64"
    and "length (api_key t) < 2 ^ 64" "length (api_key u) < 2 ^ 64"
    and "key_material metadata t p = key_material metadata u q"
  shows "target_provider t = target_provider u \<and> base_url (t_config t) = base_url (t_config u)
    \<and> auth_scheme (t_config t) = auth_scheme (t_config u) \<and> api_key t = api_key u
    \<and> metadata t p = metadata u q"
proof -
  have len: "length (uuid_bytes x) < 2 ^ 64" for x by (simp add: uuid_bytes_def)
  have eq: "framed (uuid_bytes (target_provider t)) @ framed (base_url (t_config t))
        @ framed (auth_scheme (t_config t)) @ framed (api_key t) @ metadata t p
      = framed (uuid_bytes (target_provider u)) @ framed (base_url (t_config u))
        @ framed (auth_scheme (t_config u)) @ framed (api_key u) @ metadata u q"
    using assms(7) by (simp add: key_material_def)
  from framed_append_inject [OF eq len len]
  have p: "target_provider t = target_provider u" and eq: "framed (base_url (t_config t))
        @ framed (auth_scheme (t_config t)) @ framed (api_key t) @ metadata t p
      = framed (base_url (t_config u)) @ framed (auth_scheme (t_config u)) @ framed (api_key u) @ metadata u q"
    by (simp_all add: uuid_bytes_inject)
  from framed_append_inject [OF eq assms(1,2)]
  have b: "base_url (t_config t) = base_url (t_config u)" and eq: "framed (auth_scheme (t_config t))
        @ framed (api_key t) @ metadata t p
      = framed (auth_scheme (t_config u)) @ framed (api_key u) @ metadata u q" by simp_all
  from framed_append_inject [OF eq assms(3,4)]
  have a: "auth_scheme (t_config t) = auth_scheme (t_config u)"
    and eq: "framed (api_key t) @ metadata t p = framed (api_key u) @ metadata u q" by simp_all
  from p b a framed_append_inject [OF eq assms(5,6)] show ?thesis by simp
qed

theorem transport_material_injective_witness:
  "target_provider bound_target = target_provider bound_target \<and> base_url (t_config bound_target) = base_url (t_config bound_target)
    \<and> auth_scheme (t_config bound_target) = auth_scheme (t_config bound_target) \<and> api_key bound_target = api_key bound_target
    \<and> (\<lambda>t p. label (t_config t)) bound_target default_upstream_proxy = (\<lambda>t p. label (t_config t)) bound_target default_upstream_proxy"
  by (rule transport_material_injective) (simp_all add: bound_target_def)

text \<open>
  A transport is reported as lacking WebSockets only when both handshakes were made and
  both were refused with 404, 405 or 501; at most two handshakes are made, and none after a
  rejection that forbids the fallback.
\<close>

theorem unsupported_after_two_refusals:
  assumes "connect_twice clock hold dial attempts = (r, a, log)"
  shows "length log \<le> 2 \<and> (\<forall>e\<in>set (butlast log). permits_fallback e)
    \<and> (\<forall>e. r = Inr (e, True) \<longrightarrow>
        (\<exists>s0 s1. dial 0 = Inr (UnsupportedCandidate s0) \<and> dial 1 = Inr (UnsupportedCandidate s1)
          \<and> log = [UnsupportedCandidate s0, UnsupportedCandidate s1] \<and> e = UnsupportedCandidate s1))"
proof -
  have "\<exists>s0 s1. dial 0 = Inr (UnsupportedCandidate s0) \<and> dial 1 = Inr (UnsupportedCandidate s1)
      \<and> log = [UnsupportedCandidate s0, UnsupportedCandidate s1] \<and> e = UnsupportedCandidate s1"
    if "r = Inr (e, True)" for e
    using assms that by (intro connect_twice_unsupported [of clock hold dial attempts e a log]) simp
  with connect_twice_log [OF assms] show ?thesis by blast
qed

theorem unsupported_after_two_refusals_witness:
  "length [UnsupportedCandidate 404, UnsupportedCandidate 405] \<le> 2"
proof -
  have "connect_twice (\<lambda>_. 0) None
      (\<lambda>i. if i = 0 then Inr (handshake_from_status 404) else Inr (handshake_from_status 405) :: unit + handshake_error) 1
    = (Inr (UnsupportedCandidate 405, True), 2, [UnsupportedCandidate 404, UnsupportedCandidate 405])"
    by (simp add: connect_twice_def handshake_from_status_def sat_add_def)
  from unsupported_after_two_refusals [OF this] show ?thesis by blast
qed

text \<open>
  Evidence against WebSockets is always newer than the last WebSocket success of the same
  connection: whatever handshakes, successes, restarts and acknowledgements happen, a late
  refusal of an attempt that started before a success is not recorded.
\<close>

theorem evidence_is_newer_than_success:
  assumes "\<forall>op'\<in>set ops. ws_op_ok op'"
    and "hm_get (fold ws_apply ops (initial_health key fresh c)) k = Some h"
  shows "case (candidate_of h, last_success h) of (Some e, Some s) \<Rightarrow> s < created e | _ \<Rightarrow> True"
proof -
  have put: "evidence_newer (hm_put k (default_ws_health e) m)" if "evidence_newer m" for k e m
    using that by (rule evidence_newer_put) (simp add: default_ws_health_def)
  have "evidence_newer (fold (\<lambda>t. hm_put (g t) (default_ws_health (f t))) ts m)" if "evidence_newer m"
    for g f and ts :: "resolved_target list" and m
    using that by (induction ts arbitrary: m) (simp_all add: put)
  moreover have "evidence_newer []" by (simp add: evidence_newer_def)
  ultimately have "evidence_newer (initial_health key fresh c)" by (simp add: initial_health_def)
  moreover have "evidence_newer (fold ws_apply ops m)" if "evidence_newer m" for m
    using that assms(1) by (induction ops arbitrary: m) (auto simp: ws_apply_newer)
  ultimately have "evidence_newer (fold ws_apply ops (initial_health key fresh c))" by blast
  with assms(2) show ?thesis by (auto simp: evidence_newer_def split: option.splits)
qed

lemma sample_initial:
  "initial_health (\<lambda>_ _. 3) (\<lambda>_. 4)
     (from_routes ''127.0.0.1:1'' [\<lparr>r_config = undefined, local_token = [], r_targets = [bound_target]\<rparr>])
   = [(3, default_ws_health 4)]"
  by (simp add: initial_health_def from_routes_def all_targets_def hm_put_def)

theorem evidence_is_newer_than_success_witness:
  "case (candidate_of (default_ws_health 4\<lparr>last_success := Some 5\<rparr>),
      last_success (default_ws_health 4\<lparr>last_success := Some 5\<rparr>)) of
    (Some e, Some s) \<Rightarrow> s < created e | _ \<Rightarrow> True"
proof (rule evidence_is_newer_than_success)
  show "\<forall>op'\<in>set [WsOk (Some \<lparr>obs_key = 3, obs_epoch = 4\<rparr>) 5,
      Refused bound_target (Some \<lparr>obs_key = 3, obs_epoch = 4\<rparr>) 2 404 9 0 6]. ws_op_ok op'"
    by simp
  show "hm_get (fold ws_apply [WsOk (Some \<lparr>obs_key = 3, obs_epoch = 4\<rparr>) 5,
      Refused bound_target (Some \<lparr>obs_key = 3, obs_epoch = 4\<rparr>) 2 404 9 0 6]
      (initial_health (\<lambda>_ _. 3) (\<lambda>_. 4)
        (from_routes ''127.0.0.1:1'' [\<lparr>r_config = undefined, local_token = [], r_targets = [bound_target]\<rparr>]))) 3
    = Some (default_ws_health 4\<lparr>last_success := Some 5\<rparr>)"
    unfolding sample_initial
    by (simp add: ws_success_def candidate_def hm_modify_def hm_put_def hm_get_def default_ws_health_def
        SESSION_AFFINITY_TTL_def from_secs_def)
qed

end
