(* ===== verification/History.thy ===== *)
theory History
  imports Config
begin

text \<open>
  The history of hidden search rounds (\<open>crates/aipass-proxy/src/search/history.rs\<close>): what a
  client has seen of a conversation, stored beside what the model has seen, so that the next
  request can be completed with the hidden rounds.  The digest of the context and the JSON
  printer and parser are arguments.  JSON objects list their members in key order, as
  \<open>serde_json\<close> keeps them.
\<close>

section \<open>Messages\<close>

definition history_field :: "proxy_protocol \<Rightarrow> string" where
  "history_field p = (if p = OpenAiResponses then ''input'' else ''messages'')"

definition history_context :: "(json \<Rightarrow> 256 word) \<Rightarrow> json \<Rightarrow> 256 word" where
  "history_context digest body = digest (JArray (map (json_index body)
     [''model'', ''system'', ''instructions'', ''reasoning'', ''thinking'', ''output_config'']))"

definition history_messages :: "proxy_protocol \<Rightarrow> json \<Rightarrow> json list option" where
  "history_messages p body =
    (let value = json_index body (history_field p) in
     case as_str value of
       Some s \<Rightarrow> Some [JObject [(''content'', JString s), (''role'', JString ''user'')]]
     | None \<Rightarrow> as_array value)"

text \<open>\<open>v[0]\<close> is \<open>Null\<close> where there is no element.\<close>

definition json_first :: "json \<Rightarrow> json" where
  "json_first v = (case as_array v of Some (x # _) \<Rightarrow> x | _ \<Rightarrow> JNull)"

definition append_reply :: "proxy_protocol \<Rightarrow> json list \<Rightarrow> json \<Rightarrow> json list" where
  "append_reply p ms response =
    (case p of
       AnthropicMessages \<Rightarrow> ms @ [JObject [(''content'', json_index response ''content''), (''role'', JString ''assistant'')]]
     | OpenAiChatCompletions \<Rightarrow> ms @ [json_index (json_first (json_index response ''choices'')) ''message'']
     | OpenAiResponses \<Rightarrow> ms @ unwrap_or (as_array (json_index response ''output'')) [])"

section \<open>The history\<close>

definition HISTORY_LIMIT :: nat where
  "HISTORY_LIMIT = 8 * 1024 * 1024"

record history_entry =
  he_context :: "256 word"
  he_route :: uuid
  he_target :: uuid
  he_public :: bytes
  he_private :: bytes
  he_at :: instant

record history =
  h_entries :: "history_entry list"
  h_bytes :: nat

definition empty_history :: history where
  "empty_history = \<lparr>h_entries = [], h_bytes = 0\<rparr>"

definition entry_bytes :: "history_entry \<Rightarrow> nat" where
  "entry_bytes e = length (he_public e) + length (he_private e)"

definition history_recount :: "history \<Rightarrow> history" where
  "history_recount h = h\<lparr>h_bytes := sum_list (map entry_bytes (h_entries h))\<rparr>"

definition history_retain :: "(uuid \<times> uuid) list \<Rightarrow> history \<Rightarrow> history" where
  "history_retain valid h =
    history_recount (h\<lparr>h_entries := filter (\<lambda>e. (he_route e, he_target e) \<in> set valid) (h_entries h)\<rparr>)"

definition history_expire :: "instant \<Rightarrow> history \<Rightarrow> history" where
  "history_expire now h =
    history_recount (h\<lparr>h_entries := filter (\<lambda>e. now - he_at e < from_secs 3600) (h_entries h)\<rparr>)"

text \<open>The loop of \<open>restore\<close> over the matching entries, newest first; a stored value that does not parse ends it.\<close>

fun restore_scan :: "(bytes \<Rightarrow> json list option) \<Rightarrow> json list \<Rightarrow> history_entry list \<Rightarrow> (json list \<times> uuid) option" where
  "restore_scan parse incoming [] = None"
| "restore_scan parse incoming (e # es) =
     (case parse (he_public e) of
        None \<Rightarrow> None
      | Some shown \<Rightarrow>
          if starts_with shown incoming then
            (case parse (he_private e) of
               None \<Rightarrow> None
             | Some hidden \<Rightarrow> Some (hidden @ drop (length shown) incoming, he_target e))
          else restore_scan parse incoming es)"

text \<open>\<open>body[field] = v\<close> for a member that exists.\<close>

fun json_set :: "string \<Rightarrow> json \<Rightarrow> json \<Rightarrow> json" where
  "json_set k v (JObject ms) = JObject (AList.update k v ms)"
| "json_set k v w = w"

definition history_restore ::
  "(json \<Rightarrow> 256 word) \<Rightarrow> (bytes \<Rightarrow> json list option) \<Rightarrow> uuid \<Rightarrow> proxy_protocol \<Rightarrow> json \<Rightarrow> json \<Rightarrow> instant
    \<Rightarrow> history \<Rightarrow> history \<times> json \<times> uuid option" where
  "history_restore digest parse route p original body now h =
    (let h1 = history_expire now h in
     case history_messages p body of
       None \<Rightarrow> (h1, body, None)
     | Some incoming \<Rightarrow>
         (case restore_scan parse incoming
             (filter (\<lambda>e. he_route e = route \<and> he_context e = history_context digest original) (rev (h_entries h1))) of
            None \<Rightarrow> (h1, body, None)
          | Some (ms, t) \<Rightarrow> (h1, json_set (history_field p) (JArray ms) body, Some t)))"

text \<open>The loop that makes room, oldest entry first.\<close>

fun history_evict :: "nat \<Rightarrow> history_entry list \<Rightarrow> nat \<Rightarrow> history_entry list \<times> nat" where
  "history_evict room [] total_bytes = ([], total_bytes)"
| "history_evict room (e # es) total_bytes =
     (if HISTORY_LIMIT < total_bytes + room \<or> 64 \<le> length (e # es)
      then history_evict room es (total_bytes - entry_bytes e)
      else (e # es, total_bytes))"

definition history_remember ::
  "(json \<Rightarrow> 256 word) \<Rightarrow> (json list \<Rightarrow> bytes option) \<Rightarrow> uuid \<Rightarrow> uuid \<Rightarrow> proxy_protocol \<Rightarrow> json \<Rightarrow> json \<Rightarrow> json
    \<Rightarrow> instant \<Rightarrow> history \<Rightarrow> history" where
  "history_remember digest print route target p original hidden response now h =
    (case (history_messages p original, history_messages p hidden) of
       (Some pub, Some prv) \<Rightarrow>
         (case (print (append_reply p pub response), print (append_reply p prv response)) of
            (Some public_bytes, Some private_bytes) \<Rightarrow>
              let room = length public_bytes + length private_bytes in
              if HISTORY_LIMIT < room then h
              else
                (case history_evict room (h_entries h) (h_bytes h) of
                   (es, n) \<Rightarrow> \<lparr>h_entries = es @ [\<lparr>
                       he_context = history_context digest original, he_route = route, he_target = target,
                       he_public = public_bytes, he_private = private_bytes, he_at = now\<rparr>],
                     h_bytes = n + room\<rparr>)
          | _ \<Rightarrow> h)
     | _ \<Rightarrow> h)"

section \<open>Bounds\<close>

definition history_wf :: "history \<Rightarrow> bool" where
  "history_wf h =
    (h_bytes h = sum_list (map entry_bytes (h_entries h)) \<and> h_bytes h \<le> HISTORY_LIMIT \<and> length (h_entries h) \<le> 64)"

lemma evict_spec:
  "history_evict room es n = (es', n') \<Longrightarrow> n = sum_list (map entry_bytes es) \<Longrightarrow> room \<le> HISTORY_LIMIT \<Longrightarrow>
    n' = sum_list (map entry_bytes es') \<and> n' + room \<le> HISTORY_LIMIT \<and> length es' < 64"
  by (induction room es n rule: history_evict.induct) (auto split: if_splits)

lemma sum_filter_le: "sum_list (map f (filter P xs)) \<le> sum_list (map (f :: 'a \<Rightarrow> nat) xs)"
  by (induction xs) auto

lemma wf_empty_history: "history_wf empty_history"
  by (simp add: history_wf_def empty_history_def)

lemma wf_filter: "history_wf h \<Longrightarrow> history_wf (history_recount (h\<lparr>h_entries := filter P (h_entries h)\<rparr>))"
  using sum_filter_le [of entry_bytes P "h_entries h"] length_filter_le [of P "h_entries h"]
  by (auto simp: history_wf_def history_recount_def simp del: length_filter_le)

lemma wf_remember:
  "history_wf h \<Longrightarrow> history_wf (history_remember digest print route target p original hidden response now h)"
  by (auto simp: history_remember_def history_wf_def entry_bytes_def Let_def
      dest!: evict_spec [OF _ refl] split: option.split prod.split if_splits)

datatype history_op =
    Retain "(uuid \<times> uuid) list"
  | Restore uuid proxy_protocol json json instant
  | Remember uuid uuid proxy_protocol json json json instant

fun history_apply ::
  "(json \<Rightarrow> 256 word) \<Rightarrow> (json list \<Rightarrow> bytes option) \<Rightarrow> (bytes \<Rightarrow> json list option) \<Rightarrow> history_op \<Rightarrow> history \<Rightarrow> history" where
  "history_apply digest print parse (Retain valid) h = history_retain valid h"
| "history_apply digest print parse (Restore r p original body now) h =
     fst (history_restore digest parse r p original body now h)"
| "history_apply digest print parse (Remember r t p original hidden response now) h =
     history_remember digest print r t p original hidden response now h"

lemma wf_apply: "history_wf h \<Longrightarrow> history_wf (history_apply digest print parse oper h)"
  by (cases oper)
     (auto simp: history_retain_def history_restore_def history_expire_def Let_def wf_filter wf_remember
       split: option.split)

lemma wf_fold: "history_wf h \<Longrightarrow> history_wf (fold (history_apply digest print parse) ops h)"
  by (induction ops arbitrary: h) (simp_all add: wf_apply)

text \<open>
  The hidden history is bounded whatever is remembered, restored and revoked: its byte
  counter is exactly the bytes it holds, at most 8 MiB, in at most 64 conversations; so the
  counter never falls below zero.
\<close>

theorem history_bounded:
  "let h = fold (history_apply digest print parse) ops empty_history in
    h_bytes h = sum_list (map entry_bytes (h_entries h)) \<and> h_bytes h \<le> 8388608 \<and> length (h_entries h) \<le> 64"
  using wf_fold [OF wf_empty_history, of digest print parse ops]
  by (simp add: history_wf_def HISTORY_LIMIT_def Let_def)

section \<open>Round trip\<close>

lemma remember_stores:
  assumes "history_messages p original = Some pub" "history_messages p hidden = Some prv"
    and "print (append_reply p pub response) = Some a" "print (append_reply p prv response) = Some b"
    and "length a + length b \<le> HISTORY_LIMIT"
  obtains es where "h_entries (history_remember digest print route target p original hidden response now h)
    = es @ [\<lparr>he_context = history_context digest original, he_route = route, he_target = target,
        he_public = a, he_private = b, he_at = now\<rparr>]"
  using assms by (cases "history_evict (length a + length b) (h_entries h) (h_bytes h)")
    (auto simp: history_remember_def Let_def)

text \<open>
  C36. The hidden rounds come back: when a conversation of at most 8 MiB has been remembered and
  the client continues it within an hour, on the same route and with the same settings, then
  the next request reaches the model with the hidden messages in place of what the client saw,
  followed by exactly the client's new messages, and is bound to the same target.
\<close>

theorem history_roundtrip:
  assumes "history_messages p original = Some pub" "history_messages p hidden = Some prv"
    and "print (append_reply p pub response) = Some a" "parse a = Some (append_reply p pub response)"
    and "print (append_reply p prv response) = Some b" "parse b = Some (append_reply p prv response)"
    and "length a + length b \<le> HISTORY_LIMIT"
    and "history_messages p body = Some (append_reply p pub response @ new)"
    and "history_context digest followup = history_context digest original"
    and "later - now < from_secs 3600"
  shows "snd (history_restore digest parse route p followup body later
      (history_remember digest print route target p original hidden response now h))
    = (json_set (history_field p) (JArray (append_reply p prv response @ new)) body, Some target)"
proof -
  obtain es where "h_entries (history_remember digest print route target p original hidden response now h)
    = es @ [\<lparr>he_context = history_context digest original, he_route = route, he_target = target,
        he_public = a, he_private = b, he_at = now\<rparr>]"
    using remember_stores [OF assms(1,2,3,5,7)] by blast
  then show ?thesis
    using assms by (simp add: history_restore_def history_expire_def history_recount_def Let_def)
qed

definition sample_body :: "string \<Rightarrow> json" where
  "sample_body s = JObject [(''messages'', JArray [JString s])]"

theorem history_roundtrip_witness:
  "snd (history_restore (\<lambda>_. 0) (\<lambda>b. if b = ''a'' then Some [JString ''q'', JNull] else Some [JString ''p'', JNull])
      1 OpenAiChatCompletions (sample_body ''q'') (JObject [(''messages'', JArray [JString ''q'', JNull, JString ''n''])]) 7
      (history_remember (\<lambda>_. 0) (\<lambda>ms. if hd ms = JString ''q'' then Some ''a'' else Some ''b'') 1 2
        OpenAiChatCompletions (sample_body ''q'') (sample_body ''p'') JNull 5 empty_history))
    = (json_set (history_field OpenAiChatCompletions) (JArray (append_reply OpenAiChatCompletions [JString ''p''] JNull @ [JString ''n'']))
        (JObject [(''messages'', JArray [JString ''q'', JNull, JString ''n''])]), Some 2)"
  by (rule history_roundtrip [where a = "''a''" and b = "''b''" and pub = "[JString ''q'']"])
     (simp_all add: sample_body_def history_messages_def history_field_def json_index_def append_reply_def
       json_first_def HISTORY_LIMIT_def history_context_def from_secs_def)

end
