(* ===== verification/State.thy ===== *)
theory State
  imports Recovery Permits Capability History
begin

text \<open>
  The shared runtime state (\<open>RuntimeState\<close>, \<open>crates/aipass-proxy/src/state.rs\<close>) and its
  statistics.  Each \<open>Arc<Mutex<_>>\<close> the requests share is a field; a function that locks
  fields takes the state and returns it updated.  Left out are the
  subscription backend, the Copilot, Gemini and image ledgers, the client cache and the usage
  database.  The statistics keep at most 100 samples and the instants of the last minute.
\<close>

section \<open>Statistics\<close>

record runtime_stats =
  requests :: u64
  failures :: u64
  last_error :: "string option"
  first_token_samples :: "u64 option list"
  recent_request_times :: "instant list"
  recent_failure_times :: "instant list"
  recent_token_totals :: "(instant \<times> u64) list"

definition default_stats :: runtime_stats where
  "default_stats = \<lparr>
     requests = 0,
     failures = 0,
     last_error = None,
     first_token_samples = [],
     recent_request_times = [],
     recent_failure_times = [],
     recent_token_totals = [] \<rparr>"

text \<open>\<open>while front is before the cutoff, pop_front\<close>.\<close>

definition recent :: "instant \<Rightarrow> instant list \<Rightarrow> instant list" where
  "recent now = dropWhile (\<lambda>t. t < now - from_secs 60)"

definition stats_record :: "bool \<Rightarrow> u64 option \<Rightarrow> instant \<Rightarrow> runtime_stats \<Rightarrow> runtime_stats" where
  "stats_record success first_token now s =
    (let s1 = s\<lparr>requests := sat_add (requests s) 1\<rparr>;
         s2 = (if \<not> success then s1\<lparr>failures := sat_add (failures s1) 1\<rparr> else s1\<lparr>last_error := None\<rparr>);
         samples = first_token_samples s2 @ [first_token];
         times = recent_request_times s2 @ [now];
         fails = (if \<not> success then recent_failure_times s2 @ [now] else recent_failure_times s2)
     in s2\<lparr>first_token_samples := drop (length samples - 100) samples,
           recent_request_times := recent now times,
           recent_failure_times := recent now fails\<rparr>)"

definition stats_tokens :: "u64 \<Rightarrow> instant \<Rightarrow> runtime_stats \<Rightarrow> runtime_stats" where
  "stats_tokens tokens now s =
    s\<lparr>recent_token_totals :=
        dropWhile (\<lambda>(t, _). t < now - from_secs 60) (recent_token_totals s @ [(now, tokens)])\<rparr>"

text \<open>
  Failures never exceed requests, the samples are bounded, and the instants are in order and
  not later than the clock.
\<close>

definition stats_wf :: "instant \<Rightarrow> runtime_stats \<Rightarrow> bool" where
  "stats_wf now s =
    (failures s \<le> requests s
     \<and> length (first_token_samples s) \<le> 100
     \<and> sorted (recent_request_times s @ [now])
     \<and> sorted (recent_failure_times s @ [now])
     \<and> sorted (map fst (recent_token_totals s) @ [now]))"

lemma stats_wf_default: "stats_wf now default_stats"
  by (simp add: stats_wf_def default_stats_def)

lemma sat_add_mono: "a \<le> b \<Longrightarrow> sat_add a 1 \<le> sat_add (b :: u64) 1"
  by (simp add: word_le_nat_alt word_nat)

lemma sat_add_ge: "a \<le> sat_add (a :: u64) 1"
proof -
  have "unat a < 2 ^ LENGTH(64)" by (rule unsigned_less)
  then show ?thesis by (simp add: word_le_nat_alt word_nat)
qed

lemma sorted_snoc_mono:
  "sorted (xs @ [a]) \<Longrightarrow> a \<le> b \<Longrightarrow> sorted ((xs @ [b]) @ [b :: nat]) \<and> sorted (xs @ [b])"
  by (fastforce simp: sorted_append)

lemma sorted_dropWhile_snoc: "sorted (xs @ [b]) \<Longrightarrow> sorted (dropWhile P xs @ [b :: 'a::linorder])"
  using set_dropWhileD by (fastforce simp: sorted_append sorted_dropWhile)

lemma recent_ge: "sorted xs \<Longrightarrow> t \<in> set (recent now xs) \<Longrightarrow> now - from_secs 60 \<le> t"
  unfolding recent_def
  by (induction xs) (auto split: if_splits)

lemma map_fst_dropWhile: "map fst (dropWhile (\<lambda>(t, _). P t) xs) = dropWhile P (map fst xs)"
  by (induction xs) auto

lemma stats_wf_record:
  assumes "stats_wf before s" "before \<le> now"
  shows "stats_wf now (stats_record success ft now s)"
proof -
  have times: "sorted (recent now (ts @ [now]) @ [now])" "sorted (recent now ts @ [now])" "sorted (ts @ [now])"
    if "sorted (ts @ [before])" for ts
    using sorted_snoc_mono [OF that assms(2)] by (simp_all only: recent_def sorted_dropWhile_snoc)
  have counts: "failures s \<le> requests s" and len: "length (first_token_samples s) \<le> 100"
    and t1: "sorted (recent_request_times s @ [before])" and t2: "sorted (recent_failure_times s @ [before])"
    and t3: "sorted (map fst (recent_token_totals s) @ [before])"
    using assms(1) by (simp_all add: stats_wf_def)
  have "failures s \<le> sat_add (requests s) 1"
    using counts sat_add_ge by (rule order_trans)
  moreover have "length xs - (length xs - 99) \<le> 99" for xs :: "u64 option list" by simp
  ultimately show ?thesis
    using counts len times(1) [OF t1] times [OF t2] times(3) [OF t3]
    by (simp add: stats_wf_def stats_record_def Let_def sat_add_mono)
qed

lemma stats_wf_tokens:
  assumes "stats_wf before s" "before \<le> now"
  shows "stats_wf now (stats_tokens n now s)"
proof -
  have later: "sorted (ts @ [now])" if "sorted (ts @ [before])" for ts
    using sorted_snoc_mono [OF that assms(2)] by simp
  have "sorted (map fst (recent_token_totals s @ [(now, n)]) @ [now])"
    using assms sorted_snoc_mono [of "map fst (recent_token_totals s)" before now] by (simp add: stats_wf_def)
  then have "sorted (dropWhile (\<lambda>t. t < now - from_secs 60) (map fst (recent_token_totals s @ [(now, n)])) @ [now])"
    by (rule sorted_dropWhile_snoc)
  with assms later show ?thesis
    by (simp add: stats_wf_def stats_tokens_def map_fst_dropWhile)
qed

section \<open>The shared state\<close>

record proxy_state =
  st_config :: runtime_config
  st_stats :: runtime_stats
  st_health :: health_map
  st_ws_health :: ws_map
  st_ws_sessions :: http_sessions
  st_rr_counters :: "(uuid, u64) hmap"
  st_affinity :: affinity_map
  st_generations :: "(uuid, u64) hmap"
  st_in_flight :: u64
  st_target_activity :: activity
  st_provider_activity :: activity
  st_search_history :: history

definition set_error :: "string \<Rightarrow> proxy_state \<Rightarrow> proxy_state" where
  "set_error e s = s\<lparr>st_stats := (st_stats s)\<lparr>last_error := Some e\<rparr>\<rparr>"

definition record_request :: "bool \<Rightarrow> u64 option \<Rightarrow> instant \<Rightarrow> proxy_state \<Rightarrow> proxy_state" where
  "record_request success first_token now s =
    s\<lparr>st_stats := stats_record success first_token now (st_stats s)\<rparr>"

definition record_recent_tokens :: "u64 \<Rightarrow> instant \<Rightarrow> proxy_state \<Rightarrow> proxy_state" where
  "record_recent_tokens tokens now s = s\<lparr>st_stats := stats_tokens tokens now (st_stats s)\<rparr>"

section \<open>Watching the configuration\<close>

text \<open>
  A request remembers the generations it started with and the route it is scoped to; it is
  revoked when the generation of that route differs.  The nil identifier counts every change.
\<close>

record config_watch =
  baseline :: "(uuid, u64) hmap"
  watch_route :: uuid

definition watch_subscribe :: "proxy_state \<Rightarrow> config_watch" where
  "watch_subscribe s = \<lparr>baseline = st_generations s, watch_route = nil_uuid\<rparr>"

definition watch_scope :: "uuid \<Rightarrow> config_watch \<Rightarrow> config_watch" where
  "watch_scope route w = w\<lparr>watch_route := route\<rparr>"

definition generation :: "(uuid, u64) hmap \<Rightarrow> uuid \<Rightarrow> u64" where
  "generation g r = unwrap_or (hm_get g r) 0"

definition watch_has_changed :: "config_watch \<Rightarrow> proxy_state \<Rightarrow> bool" where
  "watch_has_changed w s =
    (generation (st_generations s) (watch_route w) \<noteq> generation (baseline w) (watch_route w))"

section \<open>Properties\<close>

datatype stats_op = Request bool "u64 option" instant | Tokens u64 instant

fun stats_apply :: "stats_op \<Rightarrow> runtime_stats \<Rightarrow> runtime_stats" where
  "stats_apply (Request ok ft now) = stats_record ok ft now"
| "stats_apply (Tokens n now) = stats_tokens n now"

fun op_time :: "stats_op \<Rightarrow> instant" where
  "op_time (Request _ _ now) = now"
| "op_time (Tokens _ now) = now"

lemma stats_run_wf:
  "sorted (now # map op_time ops) \<Longrightarrow> stats_wf now s \<Longrightarrow>
    stats_wf (last (now # map op_time ops)) (fold stats_apply ops s)"
proof (induction ops arbitrary: now s)
  case Nil
  then show ?case by simp
next
  case (Cons e ops)
  have "stats_wf (op_time e) (stats_apply e s)"
    using Cons.prems by (cases e) (auto intro: stats_wf_record stats_wf_tokens)
  with Cons.IH [of "op_time e" "stats_apply e s"] Cons.prems show ?case by simp
qed

text \<open>
  Under a monotonic clock the statistics stay consistent over any run: failures never
  exceed requests, at most 100 samples are kept, the recorded instants are in order, and after
  a request only instants of the last minute remain.
\<close>

theorem stats_consistent:
  assumes "sorted (map op_time ops @ [now])"
  shows "let s = stats_record ok ft now (fold stats_apply ops default_stats) in
    failures s \<le> requests s \<and> length (first_token_samples s) \<le> 100
    \<and> (\<forall>t\<in>set (recent_request_times s). now - from_secs 60 \<le> t \<and> t \<le> now)
    \<and> sorted (recent_request_times s) \<and> sorted (recent_failure_times s)"
proof -
  let ?s = "fold stats_apply ops default_stats"
  have "sorted (0 # map op_time ops)" using assms by (simp add: sorted_append)
  then have wf: "stats_wf (last (0 # map op_time ops)) ?s"
    by (rule stats_run_wf) (rule stats_wf_default)
  have le: "last (0 # map op_time ops) \<le> now"
    using assms(1) last_in_set [of "map op_time ops"] by (auto simp: sorted_append)
  from stats_wf_record [OF wf le, of ok ft] have wf': "stats_wf now (stats_record ok ft now ?s)" .
  have "sorted (recent_request_times ?s @ [now])"
    using wf le by (auto simp: stats_wf_def dest: sorted_snoc_mono)
  then have "\<forall>t\<in>set (recent_request_times (stats_record ok ft now ?s)). now - from_secs 60 \<le> t"
    by (auto simp: stats_record_def Let_def dest: recent_ge)
  with wf' show ?thesis by (auto simp: stats_wf_def Let_def sorted_append)
qed

theorem stats_consistent_witness:
  "failures (stats_record True None 9 (fold stats_apply [Request False None 3, Tokens 5 4] default_stats))
    \<le> requests (stats_record True None 9 (fold stats_apply [Request False None 3, Tokens 5 4] default_stats))"
  using stats_consistent [of "[Request False None 3, Tokens 5 4]" 9 True None] by (simp add: Let_def)

end
