(* ===== verification/Selection.thy ===== *)
theory Selection
  imports State "HOL-Library.Multiset"
begin

text \<open>
  Choosing a route and ordering its targets (\<open>crates/aipass-proxy/src/selection.rs\<close>): the
  delays of silent and held retries, the session key of a request, the route it selects, and
  where the weighted and round-robin strategies start.
\<close>

section \<open>Retry delays\<close>

definition silent_retry_rounds :: "retry_policy \<Rightarrow> u8" where
  "silent_retry_rounds p =
    (if silent_retry p then at_least_one (sat_add (max_silent_retries p) 1) else 1)"

fun backoff_loop :: "nat \<Rightarrow> u64 \<Rightarrow> u64 \<Rightarrow> u64" where
  "backoff_loop 0 limit delay = delay"
| "backoff_loop (Suc n) limit delay =
     (if limit \<le> delay then delay else backoff_loop n limit (sat_mul delay 2))"

definition hold_backoff_delay :: "retry_policy \<Rightarrow> u32 \<Rightarrow> duration" where
  "hold_backoff_delay p hold_round =
    from_millis (unat (min
      (backoff_loop (unat hold_round) (hold_max_delay_ms p) (at_least_one (hold_initial_delay_ms p)))
      (at_least_one (hold_max_delay_ms p))))"

definition hold_deadline :: "retry_policy \<Rightarrow> instant \<Rightarrow> instant option" where
  "hold_deadline p started =
    (if hold_on_failure p \<and> 0 < hold_max_duration_ms p
     then Some (started + from_millis (unat (hold_max_duration_ms p))) else None)"

definition bounded_deadline :: "duration \<Rightarrow> instant option \<Rightarrow> instant \<Rightarrow> instant" where
  "bounded_deadline timeout hold now =
    (case hold of None \<Rightarrow> now + timeout | Some h \<Rightarrow> min (now + timeout) h)"

lemma unat_sat_mul2: "unat (sat_mul (d :: u64) 2) = min (unat d * 2) (2 ^ 64 - 1)"
  by (simp add: word_nat)

lemma min_double_step:
  assumes "d < (m :: nat)" "m \<le> M"
  shows "min (min (d * 2) M * 2 ^ n) m = min (d * 2 ^ Suc n) m"
proof (cases "d * 2 \<le> M")
  case True
  then show ?thesis by (simp add: mult.assoc)
next
  case False
  have "M \<le> M * 2 ^ n" by simp
  with assms(2) have a: "m \<le> M * 2 ^ n" by (rule order_trans)
  moreover have "M * 2 ^ n \<le> d * 2 * 2 ^ n" using False by (intro mult_right_mono) simp_all
  ultimately have "m \<le> d * 2 * 2 ^ n" by (rule order_trans)
  with a False show ?thesis by (simp only: min_absorb2 power_Suc mult.assoc not_le less_imp_le)
qed

lemma backoff_loop_min:
  "1 \<le> unat d \<Longrightarrow>
    min (unat (backoff_loop n limit d)) (max (unat limit) 1) = min (unat d * 2 ^ n) (max (unat limit) 1)"
proof (induction n arbitrary: d)
  case 0
  show ?case by simp
next
  case (Suc n)
  show ?case
  proof (cases "limit \<le> d")
    case True
    then have "max (unat limit) 1 \<le> unat d" using Suc.prems by (simp add: word_le_nat_alt)
    moreover have "unat d \<le> unat d * 2 ^ Suc n" by simp
    ultimately have "max (unat limit) 1 \<le> unat d * 2 ^ Suc n" by (rule order_trans)
    with \<open>max (unat limit) 1 \<le> unat d\<close> True show ?thesis by (simp only: min_absorb2 backoff_loop.simps if_True)
  next
    case False
    then have less: "unat d < max (unat limit) 1" by (simp add: word_le_nat_alt)
    have le: "max (unat limit) 1 \<le> 2 ^ 64 - 1" using unat_u64_less [of limit] by simp
    have "1 \<le> unat (sat_mul d 2)" using Suc.prems by (simp add: unat_sat_mul2)
    from Suc.IH [OF this] False show ?thesis
      using min_double_step [OF less le] by (simp add: unat_sat_mul2)
  qed
qed

lemma unat_min: "unat (min a b) = min (unat a) (unat (b :: 'a::len word))"
  by (simp add: min_def word_le_nat_alt)

lemma hold_backoff_millis:
  "hold_backoff_delay p n =
    from_millis (min (max (unat (hold_initial_delay_ms p)) 1 * 2 ^ unat n) (max (unat (hold_max_delay_ms p)) 1))"
proof -
  have "1 \<le> unat (at_least_one (hold_initial_delay_ms p))" by (simp add: word_nat)
  from backoff_loop_min [OF this, of "unat n" "hold_max_delay_ms p"] show ?thesis
    by (simp add: hold_backoff_delay_def unat_min unat_at_least_one)
qed

section \<open>The session key of a request\<close>

record request_metadata =
  md_stream :: bool
  md_model :: "string option"
  prompt_cache_key :: "string option"
  session_id :: "string option"
  session :: "string option"
  conversation_id :: "string option"
  previous_response_id :: "string option"
  conversation :: "json option"

definition SESSION_AFFINITY_HEADERS :: "string list" where
  "SESSION_AFFINITY_HEADERS = [
    ''x-aipass-session-id'', ''x-aipass-session'', ''x-session-id'', ''x-client-session-id'',
    ''x-codex-session-id'', ''x-openai-session-id'', ''x-anthropic-session-id'',
    ''x-claude-session-id'', ''session-id'', ''session_id'', ''prompt-cache-key'',
    ''x-deepseek-harness-session-id'', ''x-conversation-id'']"

definition SESSION_AFFINITY_FIELDS :: "string list" where
  "SESSION_AFFINITY_FIELDS = [
    ''prompt_cache_key'', ''promptCacheKey'', ''session_id'', ''sessionId'', ''session'',
    ''sessionKey'', ''conversation_id'', ''conversationId'', ''previous_response_id'',
    ''previousResponseId'']"

definition conversation_key :: "json \<Rightarrow> string option" where
  "conversation_key c = Option.bind (or_else (as_str c) (get_str c ''id'')) normalize_session_affinity_key"

definition session_affinity_key :: "header_map \<Rightarrow> request_metadata option \<Rightarrow> string option" where
  "session_affinity_key hs md =
    or_else
      (find_map (\<lambda>n. Option.bind (header_text hs n) normalize_session_affinity_key) SESSION_AFFINITY_HEADERS)
      (or_else
        (Option.bind
          (Option.bind md (\<lambda>m.
            or_else (prompt_cache_key m) (or_else (session_id m) (or_else (session m)
              (or_else (conversation_id m) (previous_response_id m))))))
          normalize_session_affinity_key)
        (Option.bind (Option.bind md conversation) conversation_key))"

definition session_affinity_key_from_value :: "json \<Rightarrow> string option" where
  "session_affinity_key_from_value v =
    (case as_object v of
       None \<Rightarrow> None
     | Some ms \<Rightarrow>
         or_else
           (Option.bind (find_map (\<lambda>f. Option.bind (map_of ms f) as_str) SESSION_AFFINITY_FIELDS)
             normalize_session_affinity_key)
           (Option.bind (map_of ms ''conversation'') conversation_key))"

lemma normalized_key_bounds:
  "normalize_session_affinity_key s = Some k \<Longrightarrow> k \<noteq> [] \<and> length k \<le> 512 \<and> k = trim s"
  by (auto simp: normalize_session_affinity_key_def Let_def MAX_SESSION_AFFINITY_KEY_BYTES_def split: if_splits)

lemma conversation_key_normal:
  "conversation_key c = Some k \<Longrightarrow> \<exists>s. normalize_session_affinity_key s = Some k"
  by (auto simp: conversation_key_def bind_eq_Some_conv)

lemma session_affinity_key_normal:
  assumes "session_affinity_key hs md = Some k"
  shows "\<exists>s. normalize_session_affinity_key s = Some k"
  using assms unfolding session_affinity_key_def or_else_def
  by (auto split: option.splits simp: bind_eq_Some_conv dest!: find_map_Some conversation_key_normal)

section \<open>Choosing the route\<close>

definition route_accepts_inbound_protocol :: "proxy_route_config \<Rightarrow> proxy_protocol \<Rightarrow> bool" where
  "route_accepts_inbound_protocol r p = (inbound_protocol r = p)"

definition select_route ::
  "runtime_config \<Rightarrow> string option \<Rightarrow> string option \<Rightarrow> proxy_protocol option
    \<Rightarrow> (resolved_route \<times> model_pricing list) option" where
  "select_route c bearer api_key_token inbound =
    (if cfg_enabled c
     then map_option (\<lambda>r. (r, cfg_pricing c))
       (find (\<lambda>r. route_enabled r
          \<and> is_none_or inbound (route_accepts_inbound_protocol (r_config r))
          \<and> (is_some_and bearer (tokens_match (local_token r))
             \<or> is_some_and api_key_token (tokens_match (local_token r))))
        (cfg_routes c))
     else None)"

section \<open>Weighted round robin\<close>

fun weighted_walk :: "u64 \<Rightarrow> nat \<Rightarrow> u32 list \<Rightarrow> nat" where
  "weighted_walk pos index [] = 0"
| "weighted_walk pos index (w # ws) =
     (if pos < ucast w then index else weighted_walk (pos - ucast w) (index + 1) ws)"

definition weighted_start_index :: "u64 \<Rightarrow> u32 list \<Rightarrow> nat" where
  "weighted_start_index counter weights =
    (if weights = [] then 0
     else
       let total = sum_list (map ucast weights) :: u64 in
       if total = 0 then unat (counter mod of_nat (length weights))
       else weighted_walk (counter mod total) 0 weights)"

definition round_robin_start :: "uuid \<Rightarrow> u32 list \<Rightarrow> proxy_state \<Rightarrow> nat \<times> proxy_state" where
  "round_robin_start route weights s =
    (let counter = unwrap_or (hm_get (st_rr_counters s) route) 0 in
     (weighted_start_index counter weights,
      s\<lparr>st_rr_counters := hm_update route 0 (\<lambda>c. c + 1) (st_rr_counters s)\<rparr>))"

subsection \<open>The walk on natural numbers\<close>

fun walk :: "nat \<Rightarrow> nat list \<Rightarrow> nat option" where
  "walk p [] = None"
| "walk p (w # ws) = (if p < w then Some 0 else map_option Suc (walk (p - w) ws))"

lemma walk_bound: "walk p ws = Some i \<Longrightarrow> i < length ws \<and> 0 < ws ! i"
  by (induction p ws arbitrary: i rule: walk.induct) (auto split: if_splits)

lemma walk_total: "p < sum_list ws \<longleftrightarrow> walk p ws \<noteq> None"
  by (induction p ws rule: walk.induct) auto

lemma walk_count: "i < length ws \<Longrightarrow> card {p. p < sum_list ws \<and> walk p ws = Some i} = ws ! i"
proof (induction ws arbitrary: i)
  case Nil
  then show ?case by simp
next
  case (Cons w ws)
  show ?case
  proof (cases i)
    case 0
    have "{p. p < sum_list (w # ws) \<and> walk p (w # ws) = Some i} = {..<w}"
      using 0 by (auto split: if_splits)
    then show ?thesis using 0 by simp
  next
    case (Suc j)
    have "{p. p < sum_list (w # ws) \<and> walk p (w # ws) = Some i}
        = (+) w ` {p. p < sum_list ws \<and> walk p ws = Some j}" (is "?A = _ ` ?B")
    proof (intro set_eqI iffI)
      fix p
      assume "p \<in> ?A"
      then have "w \<le> p" "p - w \<in> ?B" using Suc by (auto split: if_splits)
      then show "p \<in> (+) w ` ?B" by (auto intro: rev_image_eqI)
    qed (use Suc in auto)
    then have "card {p. p < sum_list (w # ws) \<and> walk p (w # ws) = Some i} = card ?B"
      by (simp add: card_image)
    also have "\<dots> = ws ! j" using Cons Suc by (intro Cons.IH) simp
    finally show ?thesis using Suc by simp
  qed
qed

lemma unat_sum_weights:
  "length ws < 2 ^ 32 \<Longrightarrow> unat (sum_list (map ucast (ws :: u32 list)) :: u64) = sum_list (map unat ws)
    \<and> sum_list (map unat ws) \<le> length ws * (2 ^ 32 - 1)"
proof (induction ws)
  case Nil
  show ?case by simp
next
  case (Cons w ws)
  have w: "unat w < 2 ^ 32"
  proof -
    have "unat w < 2 ^ LENGTH(32)" by (rule unsigned_less)
    then show ?thesis by simp
  qed
  have ih: "unat (sum_list (map ucast ws) :: u64) = sum_list (map unat ws)"
    "sum_list (map unat ws) \<le> length ws * (2 ^ 32 - 1)"
    using Cons by simp_all
  have len: "length ws < 2 ^ 32 - 1" using Cons.prems by simp
  have bound: "unat w + sum_list (map unat ws) \<le> Suc (length ws) * (2 ^ 32 - 1)"
    using ih(2) w by simp
  also have "\<dots> \<le> (2 ^ 32 - 1) * (2 ^ 32 - 1)" using len by (intro mult_right_mono) simp_all
  finally have "unat w + sum_list (map unat ws) < 2 ^ 64" by simp
  with ih bound show ?case by (simp add: unat_word_ariths unat_limit)
qed

lemma weighted_walk_eq:
  "weighted_walk p n ws = (case walk (unat p) (map unat ws) of None \<Rightarrow> 0 | Some i \<Rightarrow> n + i)"
proof (induction p n ws rule: weighted_walk.induct)
  case (2 p n w ws)
  have "unat (p - ucast w) = unat p - unat w" if "\<not> p < ucast w"
    using that by (simp add: unat_sub word_le_nat_alt not_less unat_limit)
  with 2 show ?case by (auto simp: word_less_nat_alt unat_limit split: option.splits)
qed simp

lemma weighted_start_index_walk:
  assumes "length ws < 2 ^ 32" "0 < sum_list (map unat ws)"
  shows "walk (unat c mod sum_list (map unat ws)) (map unat ws) = Some (weighted_start_index c ws)"
proof -
  let ?t = "sum_list (map ucast ws) :: u64"
  have t: "unat ?t = sum_list (map unat ws)" using unat_sum_weights [OF assms(1)] by simp
  then have nz: "?t \<noteq> 0" using assms(2) by (metis less_irrefl unsigned_0)
  have ne: "ws \<noteq> []" using assms(2) by auto
  have "walk (unat c mod sum_list (map unat ws)) (map unat ws) \<noteq> None"
    using walk_total [THEN iffD1, OF mod_less_divisor [OF assms(2)]] .
  with nz ne show ?thesis
    by (auto simp: weighted_start_index_def weighted_walk_eq unat_mod t)
qed

lemma weighted_start_index_bound:
  assumes "length ws < 2 ^ 32" "ws \<noteq> []"
  shows "weighted_start_index c ws < length ws"
proof (cases "sum_list (map unat ws) = 0")
  case True
  then have "(sum_list (map ucast ws) :: u64) = 0"
    using unat_sum_weights [OF assms(1)] by (metis unat_eq_zero)
  moreover have "unat (of_nat (length ws) :: u64) = length ws"
    using assms(1) by (simp add: unsigned_of_nat take_bit_nat_eq_self)
  ultimately show ?thesis using assms(2) by (simp add: weighted_start_index_def unat_mod)
next
  case False
  then have "0 < sum_list (map unat ws)" by (rule neq0_conv [THEN iffD1])
  from walk_bound [OF weighted_start_index_walk [OF assms(1) this]] show ?thesis by simp
qed

text \<open>
  One cycle of the counter, from \<open>k * total\<close> to \<open>(k + 1) * total\<close>, starts at each peer as
  often as its weight says.
\<close>

lemma weighted_cycle_count:
  assumes len: "length ws < 2 ^ 32" and T: "T = sum_list (map unat ws)" "0 < T"
    and cycle: "(k + 1) * T \<le> 2 ^ 64" and i: "i < length ws"
  shows "card {c. k * T \<le> c \<and> c < (k + 1) * T \<and> weighted_start_index (of_nat c) ws = i} = unat (ws ! i)"
proof -
  have idx: "walk (c mod T) (map unat ws) = Some (weighted_start_index (of_nat c) ws)" if "c < (k + 1) * T" for c
  proof -
    have "c < 2 ^ 64" using that cycle by simp
    then have "unat (of_nat c :: u64) = c" by (simp add: unsigned_of_nat take_bit_nat_eq_self)
    with weighted_start_index_walk [OF len, of "of_nat c"] T show ?thesis by simp
  qed
  let ?B = "{p. p < T \<and> walk p (map unat ws) = Some i}"
  have "{c. k * T \<le> c \<and> c < (k + 1) * T \<and> weighted_start_index (of_nat c) ws = i} = (+) (k * T) ` ?B"
    (is "?A = _")
  proof (intro set_eqI iffI)
    fix c
    assume c: "c \<in> ?A"
    then have "c - k * T < T" "c = k * T + (c - k * T)" by auto
    moreover from this have "c mod T = c - k * T" by (metis mod_less mod_mult_self3)
    ultimately show "c \<in> (+) (k * T) ` ?B" using idx [of c] c by (auto intro!: rev_image_eqI [of "c - k * T"])
  next
    fix c
    assume "c \<in> (+) (k * T) ` ?B"
    then obtain p where p: "p < T" "walk p (map unat ws) = Some i" "c = k * T + p" by auto
    then have "c < (k + 1) * T" "c mod T = p" by simp_all
    with idx [of c] p show "c \<in> ?A" by simp
  qed
  then have "card ?A = card ?B" by (simp add: card_image)
  also have "\<dots> = map unat ws ! i"
    unfolding T(1) using i by (intro walk_count) simp
  finally show ?thesis using i by simp
qed

section \<open>Properties\<close>

text \<open>
  The hold delay is exactly the doubling of the initial delay, at least a millisecond,
  capped by the configured maximum (read as at least one), with no overflow
  whatever the round.
\<close>

theorem hold_backoff_exact:
  "hold_backoff_delay p n =
     from_millis (min (max (unat (hold_initial_delay_ms p)) 1 * 2 ^ unat n) (max (unat (hold_max_delay_ms p)) 1))
   \<and> 0 < hold_backoff_delay p n"
  unfolding hold_backoff_millis from_millis_def by (simp add: max_def min_def)

text \<open>
  Round robin is fair by weight: in every full cycle of the route's counter a peer is
  chosen first exactly as often as its weight says, and the chosen index is always within the
  list, so the rotation cannot fail.
\<close>

theorem round_robin_is_fair:
  assumes "length ws < 2 ^ 32" "0 < sum_list (map unat ws)" "i < length ws"
    and "(k + 1) * sum_list (map unat ws) \<le> 2 ^ 64"
  shows "card {c. k * sum_list (map unat ws) \<le> c \<and> c < (k + 1) * sum_list (map unat ws)
      \<and> weighted_start_index (of_nat c) ws = i} = unat (ws ! i)
    \<and> (\<forall>c. weighted_start_index c ws < length ws)"
proof -
  have "ws \<noteq> []" using assms(3) by auto
  from weighted_start_index_bound [OF assms(1) this] weighted_cycle_count [OF assms(1) refl assms(2,4,3)]
  show ?thesis by blast
qed

theorem round_robin_is_fair_witness:
  "card {c. 2 * sum_list (map unat [1, 3 :: u32]) \<le> c \<and> c < (2 + 1) * sum_list (map unat [1, 3 :: u32])
      \<and> weighted_start_index (of_nat c) [1, 3] = 1} = unat ([1, 3 :: u32] ! 1)
    \<and> (\<forall>c. weighted_start_index c [1, 3 :: u32] < length [1, 3 :: u32])"
  by (rule round_robin_is_fair) simp_all

text \<open>
  A request is served by a route only if the proxy and the route are enabled, the route
  accepts the request's protocol, and the client presented the route's token, as a bearer or
  as an API key; with no such route the request is refused.
\<close>

theorem route_requires_its_token:
  "case select_route c bearer key inbound of
     Some (r, pricing) \<Rightarrow> cfg_enabled c \<and> r \<in> set (cfg_routes c) \<and> route_enabled r
       \<and> (case inbound of None \<Rightarrow> True | Some p \<Rightarrow> inbound_protocol (r_config r) = p)
       \<and> (bearer = Some (local_token r) \<or> key = Some (local_token r)) \<and> pricing = cfg_pricing c
   | None \<Rightarrow> \<not> (cfg_enabled c \<and> (\<exists>r\<in>set (cfg_routes c). route_enabled r
       \<and> (case inbound of None \<Rightarrow> True | Some p \<Rightarrow> inbound_protocol (r_config r) = p)
       \<and> (bearer = Some (local_token r) \<or> key = Some (local_token r))))"
proof -
  have tok: "is_some_and x (tokens_match y) \<longleftrightarrow> x = Some y" for x y
    by (auto simp: is_some_and_iff tokens_match_eq)
  have inb: "is_none_or inbound (route_accepts_inbound_protocol (r_config r)) \<longleftrightarrow>
      (case inbound of None \<Rightarrow> True | Some p \<Rightarrow> inbound_protocol (r_config r) = p)" for r
    by (simp add: route_accepts_inbound_protocol_def split: option.split)
  show ?thesis
    unfolding select_route_def tok inb
    by (auto split: option.split simp: find_None_iff dest!: find_SomeD)
qed

text \<open>
  A session key taken from a request, from a header or from its body, is never blank and
  never longer than 512 bytes, so a client cannot grow the keys of the affinity map.
\<close>

theorem session_key_bounded:
  "case session_affinity_key hs md of None \<Rightarrow> True | Some k \<Rightarrow> k \<noteq> [] \<and> length k \<le> 512"
proof (cases "session_affinity_key hs md")
  case (Some k)
  from session_affinity_key_normal [OF this] obtain s where "normalize_session_affinity_key s = Some k" ..
  from normalized_key_bounds [OF this] have "k \<noteq> [] \<and> length k \<le> 512" by blast
  with Some show ?thesis by simp
qed simp

end
