(* ===== verification/Ordering.thy ===== *)
theory Ordering
  imports Selection
begin

text \<open>
  The targets a request may try, in order (\<open>ordered_route_targets_for_model\<close> and its callers in
  \<open>crates/aipass-proxy/src/selection.rs\<close>), and what the outcome of an attempt does to the shared
  health and affinity (\<open>mark_failure\<close>, \<open>mark_rate_limited\<close>, \<open>complete_target_success\<close>).  The
  wall clock (\<open>unix\<close>, in seconds) and the monotonic clock (\<open>now\<close>) are read once per call.
\<close>

section \<open>The circuit of a target in the shared map\<close>

definition circuit_open_at :: "uuid \<Rightarrow> instant \<Rightarrow> health_map \<Rightarrow> bool \<times> health_map" where
  "circuit_open_at target now m =
    (case hm_get m target of
       None \<Rightarrow> (False, m)
     | Some h \<Rightarrow> (case circuit_open now h of (b, h') \<Rightarrow> (b, hm_put target h' m)))"

fun retain_closed :: "instant \<Rightarrow> resolved_target list \<Rightarrow> health_map \<Rightarrow> resolved_target list \<times> health_map" where
  "retain_closed now [] m = ([], m)"
| "retain_closed now (t # ts) m =
     (case circuit_open_at (target_id t) now m of (b, m1) \<Rightarrow>
        (case retain_closed now ts m1 of (ts', m2) \<Rightarrow> (if b then ts' else t # ts', m2)))"

definition rank_of :: "health_map \<Rightarrow> instant \<Rightarrow> uuid \<Rightarrow> u8" where
  "rank_of m now target = (case hm_get m target of None \<Rightarrow> 0 | Some h \<Rightarrow> stability_rank h now)"

definition has_probe :: "health_map \<Rightarrow> uuid \<Rightarrow> bool" where
  "has_probe m target = is_some_and (hm_get m target) (\<lambda>h. probe_id h \<noteq> None)"

section \<open>Ordering the targets\<close>

definition bind_member_model :: "resolved_target \<Rightarrow> resolved_target" where
  "bind_member_model t =
    (if tc_model (t_config t) \<noteq> None then t\<lparr>model_override := tc_model (t_config t)\<rparr> else t)"

definition admissible :: "u64 \<Rightarrow> string option \<Rightarrow> resolved_target \<Rightarrow> bool" where
  "admissible unix model t =
    (target_enabled t \<and> is_none_or (quota_usage t unix model) (\<lambda>used. used < 10000))"

text \<open>
  The key each strategy sorts by after the priority.  \<open>QuotaPace\<close> sorts by the reverse of an
  optional pace: the fastest first and an unknown pace last.
\<close>

definition strategy_key :: "route_strategy \<Rightarrow> u64 \<Rightarrow> string option \<Rightarrow> resolved_target \<Rightarrow> nat" where
  "strategy_key st unix model t =
    (case st of
       QuotaAware \<Rightarrow> unat (unwrap_or (quota_usage t unix model) 5000)
     | ResetSoonest \<Rightarrow> unat (unwrap_or (quota_reset t unix model) (- 1))
     | QuotaPace \<Rightarrow> (case quota_pace t unix model of None \<Rightarrow> 2 ^ 64 | Some p \<Rightarrow> 2 ^ 64 - 1 - unat p)
     | _ \<Rightarrow> 0)"

definition strategy_sort :: "route_strategy \<Rightarrow> u64 \<Rightarrow> string option \<Rightarrow> resolved_target list \<Rightarrow> resolved_target list" where
  "strategy_sort st unix model ts =
    (if st = QuotaAware \<or> st = ResetSoonest \<or> st = QuotaPace
     then sort_key (strategy_key st unix model) ts else ts)"

text \<open>Rotation of the peers that share the best stability tier.\<close>

definition rotate_peers ::
  "(resolved_target \<Rightarrow> u8 option) \<Rightarrow> uuid \<Rightarrow> resolved_target list \<Rightarrow> proxy_state \<Rightarrow> resolved_target list \<times> proxy_state" where
  "rotate_peers rank route ts s =
    (let peers = length (takeWhile (\<lambda>t. rank t = rank (hd ts)) ts);
         (start, s') = round_robin_start route (map (\<lambda>t. weight (t_config t)) (take peers ts)) s
     in (rotate start (take peers ts) @ drop peers ts, s'))"

definition affinity_first ::
  "uuid \<Rightarrow> string option \<Rightarrow> instant \<Rightarrow> resolved_target list \<Rightarrow> proxy_state \<Rightarrow> resolved_target list \<times> proxy_state" where
  "affinity_first route key now ts s =
    (let bound = fst (affinity_lookup route key now (st_affinity s));
         asked = is_some_and bound (\<lambda>i. \<exists>t\<in>set ts. target_enabled t \<and> target_id t = i);
         health' = (if asked then snd (circuit_open_at (the bound) now (st_health s)) else st_health s);
         (chosen, aff') = affinity_target (\<lambda>i. fst (circuit_open_at i now (st_health s))) route key ts now (st_affinity s);
         ts' = (case Option.bind chosen (\<lambda>i. position (\<lambda>t. target_id t = i) ts) of
             None \<Rightarrow> ts | Some n \<Rightarrow> move_to_front n ts)
     in (ts', s\<lparr>st_health := health', st_affinity := aff'\<rparr>))"

definition ordered_route_targets_for_model ::
  "resolved_route \<Rightarrow> string option \<Rightarrow> string option \<Rightarrow> u64 \<Rightarrow> instant \<Rightarrow> proxy_state
    \<Rightarrow> resolved_target list \<times> proxy_state" where
  "ordered_route_targets_for_model route key model unix now s =
    (let ts1 = filter (admissible unix model) (map bind_member_model (r_targets route));
         ts2 = strategy_sort (strategy (r_config route)) unix model
                 (sort_key (\<lambda>t. priority (t_config t)) ts1);
         (ts3, health') = retain_closed now ts2 (st_health s);
         ts4 = filter (\<lambda>t. \<not> has_probe health' (target_id t)) ts3;
         ranks = map (\<lambda>t. (target_id t, rank_of health' now (target_id t))) ts4;
         rank = (\<lambda>t. map_of ranks (target_id t));
         ts5 = sort_key (\<lambda>t. unwrap_or (rank t) 0) ts4;
         s1 = s\<lparr>st_health := health'\<rparr>;
         (ts6, s2) = (if strategy (r_config route) = RoundRobin \<and> ts5 \<noteq> []
             then rotate_peers rank (route_id route) ts5 s1 else (ts5, s1))
     in affinity_first (route_id route) key now ts6 s2)"

definition ordered_route_targets where
  "ordered_route_targets route key unix now s = ordered_route_targets_for_model route key None unix now s"

definition select_route_targets_with_affinity where
  "select_route_targets_with_affinity route key unix now s =
    (case ordered_route_targets route key unix now s of
       (ts, s') \<Rightarrow> (take (unat (at_least_one (max_attempts (retry (r_config route))))) ts, s'))"

text \<open>A held request keeps its snapshot but reads quotas, limits and weights afresh.\<close>

definition refresh_target :: "resolved_target list \<Rightarrow> resolved_target \<Rightarrow> resolved_target" where
  "refresh_target current t =
    (case find (\<lambda>l. target_id l = target_id t \<and> target_provider l = target_provider t
          \<and> secret_id (t_config l) = secret_id (t_config t) \<and> tokens_match (api_key l) (api_key t)) current of
       None \<Rightarrow> t
     | Some l \<Rightarrow> t\<lparr>quota := quota l,
                   max_concurrent_requests := max_concurrent_requests l,
                   t_config := (t_config t)\<lparr>priority := priority (t_config l), weight := weight (t_config l)\<rparr>\<rparr>)"

definition live_route_targets_for_model ::
  "resolved_route \<Rightarrow> string option \<Rightarrow> string option \<Rightarrow> u64 \<Rightarrow> instant \<Rightarrow> proxy_state
    \<Rightarrow> resolved_target list \<times> proxy_state" where
  "live_route_targets_for_model route key model unix now s =
    (let snapshot =
       (case find (\<lambda>r. route_id r = route_id route) (cfg_routes (st_config s)) of
          None \<Rightarrow> route
        | Some current \<Rightarrow> route\<lparr>r_targets := map (refresh_target (r_targets current)) (r_targets route)\<rparr>)
     in ordered_route_targets_for_model snapshot key model unix now s)"

section \<open>Outcomes of an attempt\<close>

definition mark_failure :: "uuid \<Rightarrow> retry_policy \<Rightarrow> instant \<Rightarrow> proxy_state \<Rightarrow> proxy_state" where
  "mark_failure target policy now s =
    s\<lparr>st_health := hm_update target default_health (health_fail policy now) (st_health s),
      st_affinity := clear_affinity_for_target target (st_affinity s)\<rparr>"

text \<open>
  \<open>http_date v\<close> is the time left until the HTTP date \<open>v\<close>, as the \<open>httpdate\<close> crate and the
  clock give it, or nothing for another text or a date in the past.
\<close>

definition retry_after :: "(string \<Rightarrow> duration option) \<Rightarrow> header_map \<Rightarrow> retry_policy \<Rightarrow> duration" where
  "retry_after http_date hs policy =
    (let asked = Option.bind (header_text hs ''retry-after'')
           (\<lambda>v. or_else (map_option (\<lambda>n. from_secs (unat n)) (parse_u64 v)) (http_date v));
         d = unwrap_or asked (from_secs (unat (at_least_one (circuit_open_seconds policy))))
     in min (max d (from_secs 1)) (from_secs (24 * 3600)))"

definition mark_rate_limited ::
  "(string \<Rightarrow> duration option) \<Rightarrow> uuid \<Rightarrow> header_map \<Rightarrow> retry_policy \<Rightarrow> instant \<Rightarrow> proxy_state \<Rightarrow> proxy_state" where
  "mark_rate_limited http_date target hs policy now s =
    s\<lparr>st_health := hm_update target default_health
         (health_rate_limited (retry_after http_date hs policy) now) (st_health s),
      st_affinity := clear_affinity_for_target target (st_affinity s)\<rparr>"

definition is_retryable_status :: "nat \<Rightarrow> bool" where
  "is_retryable_status s = (is_redirection s \<or> is_client_error s \<or> is_server_error s)"

definition status_affects_circuit :: "nat \<Rightarrow> bool" where
  "status_affects_circuit s = (is_server_error s \<or> s = 401 \<or> s = 403 \<or> s = 408 \<or> s = 429)"

definition complete_target_success ::
  "uuid \<Rightarrow> string option \<Rightarrow> uuid \<Rightarrow> instant \<Rightarrow> string option \<Rightarrow> instant \<Rightarrow> proxy_state \<Rightarrow> proxy_state" where
  "complete_target_success route key target started response_id now s =
    (let (ok, health') =
       (case hm_get (st_health s) target of
          None \<Rightarrow> (True, st_health s)
        | Some h \<Rightarrow> (case health_succeed started now h of (b, h') \<Rightarrow> (b, hm_put target h' (st_health s))))
     in if ok
        then s\<lparr>st_health := health',
               st_affinity := remember_affinity_target route response_id target now
                 (remember_affinity_target route key target now (st_affinity s))\<rparr>
        else s\<lparr>st_health := health'\<rparr>)"

section \<open>Stable sorting\<close>

lemma sorted_wrt_filter_imp:
  "sorted_wrt R (filter P ys) \<Longrightarrow> sorted_wrt (\<lambda>a b. P a \<longrightarrow> P b \<longrightarrow> R a b) ys"
  by (induction ys) (auto split: if_splits)

lemma sorted_wrt_all:
  "(\<And>k. sorted_wrt (R k) ys) \<Longrightarrow> sorted_wrt (\<lambda>a b. \<forall>k. R k a b) ys"
  by (simp add: sorted_wrt_iff_nth_less)

lemma sorted_wrt_conj:
  "sorted_wrt R ys \<Longrightarrow> sorted_wrt S ys \<Longrightarrow> sorted_wrt (\<lambda>a b. R a b \<and> S a b) ys"
  by (simp add: sorted_wrt_iff_nth_less)

text \<open>A stable sort refines the order its input had.\<close>

lemma sorted_wrt_sort_key:
  assumes "sorted_wrt R xs"
  shows "sorted_wrt (\<lambda>a b. f a < f b \<or> f a = f b \<and> R a b) (sort_key f xs)"
proof -
  have "sorted_wrt R (filter (\<lambda>y. f y = k) (sort_key f xs))" for k
    using assms by (simp add: sort_key_stable sorted_wrt_filter)
  then have "sorted_wrt (\<lambda>a b. \<forall>k. f a = k \<longrightarrow> f b = k \<longrightarrow> R a b) (sort_key f xs)"
    by (intro sorted_wrt_all sorted_wrt_filter_imp)
  moreover have "sorted_wrt (\<lambda>a b. f a \<le> f b) (sort_key f xs)"
    using sorted_sort_key [of f xs] by (simp add: sorted_map)
  ultimately have "sorted_wrt (\<lambda>a b. f a \<le> f b \<and> (\<forall>k. f a = k \<longrightarrow> f b = k \<longrightarrow> R a b)) (sort_key f xs)"
    by (intro sorted_wrt_conj)
  then show ?thesis
    by (rule sorted_wrt_mono_rel [rotated]) (auto simp: order.strict_iff_order)
qed

section \<open>What the health map is after an ordering\<close>

definition expire :: "instant \<Rightarrow> target_health \<Rightarrow> target_health" where
  "expire now h = snd (circuit_open now h)"

lemma circuit_open_expire [simp]: "circuit_open now (expire now h) = (fst (circuit_open now h), expire now h)"
  by (auto simp: expire_def circuit_open_def split: option.splits)

lemma expire_frame [simp]: "probe_id (expire now h) = probe_id h" "stability_rank (expire now h) now = stability_rank h now"
  by (auto simp: expire_def circuit_open_def stability_rank_def degraded_def split: option.splits)

lemma circuit_open_at_get:
  "hm_get (snd (circuit_open_at i now m)) j = (if j = i then map_option (expire now) (hm_get m j) else hm_get m j)"
  by (auto simp: circuit_open_at_def expire_def split: option.splits prod.splits)

lemma circuit_open_at_fst:
  "fst (circuit_open_at i now m) = is_some_and (hm_get m i) (\<lambda>h. fst (circuit_open now h))"
  by (auto simp: circuit_open_at_def split: option.splits prod.splits)

text \<open>Two maps agree when they differ only in circuits whose time has run out.\<close>

definition same_health :: "instant \<Rightarrow> health_map \<Rightarrow> health_map \<Rightarrow> bool" where
  "same_health now m m' = (\<forall>i. map_option (expire now) (hm_get m' i) = map_option (expire now) (hm_get m i))"

lemma expire_idem [simp]: "expire now (expire now h) = expire now h"
  by (metis circuit_open_expire expire_def snd_conv)

lemma same_health_refl [simp]: "same_health now m m"
  by (simp add: same_health_def)

lemma same_health_trans: "same_health now m m' \<Longrightarrow> same_health now m' m'' \<Longrightarrow> same_health now m m''"
  by (simp add: same_health_def)

lemma same_health_open_at: "same_health now m (snd (circuit_open_at i now m))"
  by (simp add: same_health_def circuit_open_at_get option.map_comp comp_def)

lemma same_healthD:
  assumes "same_health now m m'"
  shows "fst (circuit_open_at i now m') = fst (circuit_open_at i now m)"
    and "rank_of m' now i = rank_of m now i"
    and "has_probe m' i = has_probe m i"
proof -
  have eq: "map_option (expire now) (hm_get m' i) = map_option (expire now) (hm_get m i)"
    using assms by (simp add: same_health_def)
  have view: "fst (circuit_open_at i now n) = is_some_and (map_option (expire now) (hm_get n i)) (\<lambda>h. fst (circuit_open now h))"
    "rank_of n now i = (case map_option (expire now) (hm_get n i) of None \<Rightarrow> 0 | Some h \<Rightarrow> stability_rank h now)"
    "has_probe n i = is_some_and (map_option (expire now) (hm_get n i)) (\<lambda>h. probe_id h \<noteq> None)" for n
    by (cases "hm_get n i"; simp add: circuit_open_at_fst rank_of_def has_probe_def)+
  show "fst (circuit_open_at i now m') = fst (circuit_open_at i now m)"
    "rank_of m' now i = rank_of m now i" "has_probe m' i = has_probe m i"
    unfolding view eq by (rule refl)+
qed

lemma retain_closed_spec:
  "retain_closed now ts m = (ts', m') \<Longrightarrow>
    ts' = filter (\<lambda>t. \<not> fst (circuit_open_at (target_id t) now m)) ts \<and> same_health now m m'"
proof (induction ts arbitrary: m ts' m')
  case Nil
  then show ?case by simp
next
  case (Cons t ts)
  obtain b m1 where b: "circuit_open_at (target_id t) now m = (b, m1)"
    by (cases "circuit_open_at (target_id t) now m")
  obtain us m2 where us: "retain_closed now ts m1 = (us, m2)"
    by (cases "retain_closed now ts m1")
  have m1: "same_health now m m1" using same_health_open_at [of now m "target_id t"] by (simp add: b)
  from Cons.IH [OF us] have "us = filter (\<lambda>t. \<not> fst (circuit_open_at (target_id t) now m1)) ts"
    "same_health now m1 m2" by simp_all
  with Cons.prems b us m1 show ?case
    by (auto simp: same_healthD(1) [OF m1] intro: same_health_trans)
qed

section \<open>The result is a permutation of the eligible targets\<close>

definition eligible :: "u64 \<Rightarrow> string option \<Rightarrow> instant \<Rightarrow> health_map \<Rightarrow> resolved_target \<Rightarrow> bool" where
  "eligible unix model now m t =
    (admissible unix model t \<and> \<not> fst (circuit_open_at (target_id t) now m) \<and> \<not> has_probe m (target_id t))"

text \<open>The candidates sorted by stability, before rotation and affinity.\<close>

definition ranked :: "resolved_route \<Rightarrow> string option \<Rightarrow> u64 \<Rightarrow> instant \<Rightarrow> health_map \<Rightarrow> resolved_target list" where
  "ranked route model unix now m =
    sort_key (\<lambda>t. rank_of m now (target_id t))
      (filter (\<lambda>t. \<not> fst (circuit_open_at (target_id t) now m) \<and> \<not> has_probe m (target_id t))
        (strategy_sort (strategy (r_config route)) unix model
          (sort_key (\<lambda>t. priority (t_config t))
            (filter (admissible unix model) (map bind_member_model (r_targets route))))))"

lemma mset_strategy_sort [simp]: "mset (strategy_sort st unix model ts) = mset ts"
  by (simp add: strategy_sort_def)

lemma mset_ranked:
  "mset (ranked route model unix now m) =
    mset (filter (eligible unix model now m) (map bind_member_model (r_targets route)))"
proof -
  have "mset (ranked route model unix now m) =
      filter_mset (\<lambda>t. \<not> fst (circuit_open_at (target_id t) now m) \<and> \<not> has_probe m (target_id t))
        (filter_mset (admissible unix model) (mset (map bind_member_model (r_targets route))))"
    by (simp only: ranked_def mset_sort mset_filter mset_strategy_sort)
  also have "\<dots> = filter_mset (eligible unix model now m) (mset (map bind_member_model (r_targets route)))"
    by (rule multiset_eqI) (simp add: eligible_def)
  finally show ?thesis by (simp only: mset_filter)
qed

lemma sort_key_cong: "(\<And>x. x \<in> set xs \<Longrightarrow> f x = g x) \<Longrightarrow> sort_key f xs = sort_key g xs"
proof (induction xs)
  case Nil
  show ?case by simp
next
  case (Cons x xs)
  have "insort_key f x ys = insort_key g x ys" if "\<forall>y\<in>set ys. f y = g y" for ys
    using that Cons.prems by (induction ys) auto
  with Cons show ?case by simp
qed

lemma rotate_peers_mset: "mset (fst (rotate_peers rank route ts s)) = mset ts"
proof -
  have "mset (rotate n xs) = mset xs" for n :: nat and xs :: "resolved_target list"
    by (metis add.commute append_take_drop_id mset_append rotate_drop_take)
  then have "mset (rotate k (take n ts) @ drop n ts) = mset ts" for k n
    by (simp only: mset_append) (metis append_take_drop_id mset_append)
  then show ?thesis
    by (simp add: rotate_peers_def Let_def split: prod.split)
qed

lemma rotate_peers_state:
  "st_health (snd (rotate_peers rank route ts s)) = st_health s"
  "st_affinity (snd (rotate_peers rank route ts s)) = st_affinity s"
  by (simp_all add: rotate_peers_def Let_def round_robin_start_def)

lemma mset_move_to_front: "i < length xs \<Longrightarrow> mset (move_to_front i xs) = mset xs"
proof -
  assume i: "i < length xs"
  have "mset xs = mset (take i xs @ xs ! i # drop (Suc i) xs)"
    using i by (simp add: id_take_nth_drop [symmetric])
  then show ?thesis by (simp add: move_to_front_def)
qed

lemma affinity_first_mset: "mset (fst (affinity_first route key now ts s)) = mset ts"
  by (auto simp: affinity_first_def Let_def bind_eq_Some_conv mset_move_to_front dest: position_Some
      split: prod.splits option.splits)

lemma affinity_first_health: "same_health now (st_health s) (st_health (snd (affinity_first route key now ts s)))"
  by (simp add: affinity_first_def Let_def same_health_open_at split: prod.split)

text \<open>The list before rotation is \<open>ranked\<close> on the health map the request started with.\<close>

lemma ordered_unfold:
  obtains health' rank where
    "same_health now (st_health s) health'"
    "\<And>t. t \<in> set (ranked route model unix now (st_health s)) \<Longrightarrow> rank t = Some (rank_of (st_health s) now (target_id t))"
    "ordered_route_targets_for_model route key model unix now s =
      (case if strategy (r_config route) = RoundRobin \<and> ranked route model unix now (st_health s) \<noteq> []
            then rotate_peers rank (route_id route) (ranked route model unix now (st_health s)) (s\<lparr>st_health := health'\<rparr>)
            else (ranked route model unix now (st_health s), s\<lparr>st_health := health'\<rparr>)
       of (ts6, s2) \<Rightarrow> affinity_first (route_id route) key now ts6 s2)"
proof -
  let ?m = "st_health s"
  define ts2 where "ts2 = strategy_sort (strategy (r_config route)) unix model
    (sort_key (\<lambda>t. priority (t_config t)) (filter (admissible unix model) (map bind_member_model (r_targets route))))"
  obtain ts3 health' where r: "retain_closed now ts2 ?m = (ts3, health')" by (cases "retain_closed now ts2 ?m")
  from retain_closed_spec [OF r] have ts3: "ts3 = filter (\<lambda>t. \<not> fst (circuit_open_at (target_id t) now ?m)) ts2"
    and same: "same_health now ?m health'" by simp_all
  define ts4 where "ts4 = filter (\<lambda>t. \<not> has_probe health' (target_id t)) ts3"
  define rank where "rank t = map_of (map (\<lambda>t. (target_id t, rank_of health' now (target_id t))) ts4) (target_id t)"
    for t :: resolved_target
  have mem: "rank t = Some (rank_of ?m now (target_id t))" if "t \<in> set ts4" for t
  proof -
    have "map_of (map (\<lambda>t. (target_id t, f (target_id t))) us) i = Some (f i)" if "i \<in> target_id ` set us"
      for us i and f :: "uuid \<Rightarrow> u8"
      using that by (induction us) auto
    then show ?thesis using that by (simp add: rank_def same_healthD(2) [OF same])
  qed
  have ts4: "ts4 = filter (\<lambda>t. \<not> fst (circuit_open_at (target_id t) now ?m) \<and> \<not> has_probe ?m (target_id t)) ts2"
    by (simp add: ts4_def ts3 same_healthD(3) [OF same] conj_commute)
  have "sort_key (\<lambda>t. unwrap_or (rank t) 0) ts4 = sort_key (\<lambda>t. rank_of ?m now (target_id t)) ts4"
    by (rule sort_key_cong) (simp add: mem)
  then have ts5: "sort_key (\<lambda>t. unwrap_or (rank t) 0) ts4 = ranked route model unix now ?m"
    by (simp add: ranked_def ts4 ts2_def)
  have "t \<in> set ts4" if "t \<in> set (ranked route model unix now ?m)" for t
    using that by (simp flip: ts5)
  then have mem': "rank t = Some (rank_of ?m now (target_id t))"
    if "t \<in> set (ranked route model unix now ?m)" for t using that mem by blast
  have rank_eq: "(\<lambda>t. map_of (map (\<lambda>t. (target_id t, rank_of health' now (target_id t))) ts4) (target_id t)) = rank"
    by (simp add: rank_def fun_eq_iff)
  have ts5': "sort_key (\<lambda>t. unwrap_or (map_of (map (\<lambda>t. (target_id t, rank_of health' now (target_id t))) ts4)
      (target_id t)) 0) ts4 = ranked route model unix now ?m"
    using ts5 by (simp add: rank_def)
  show thesis
  proof (rule that [OF same mem'])
    show "ordered_route_targets_for_model route key model unix now s =
      (case if strategy (r_config route) = RoundRobin \<and> ranked route model unix now ?m \<noteq> []
            then rotate_peers rank (route_id route) (ranked route model unix now ?m) (s\<lparr>st_health := health'\<rparr>)
            else (ranked route model unix now ?m, s\<lparr>st_health := health'\<rparr>)
       of (ts6, s2) \<Rightarrow> affinity_first (route_id route) key now ts6 s2)"
      unfolding ordered_route_targets_for_model_def Let_def ts2_def [symmetric] r prod.case
        ts4_def [symmetric] rank_eq ts5' by (rule refl)
  qed
qed

lemma mset_ordered:
  "mset (fst (ordered_route_targets_for_model route key model unix now s)) =
    mset (filter (eligible unix model now (st_health s)) (map bind_member_model (r_targets route)))"
proof -
  obtain health' rank where eq: "ordered_route_targets_for_model route key model unix now s =
      (case if strategy (r_config route) = RoundRobin \<and> ranked route model unix now (st_health s) \<noteq> []
            then rotate_peers rank (route_id route) (ranked route model unix now (st_health s)) (s\<lparr>st_health := health'\<rparr>)
            else (ranked route model unix now (st_health s), s\<lparr>st_health := health'\<rparr>)
       of (ts6, s2) \<Rightarrow> affinity_first (route_id route) key now ts6 s2)"
    using ordered_unfold [of now s route model unix key] by metis
  show ?thesis
    unfolding eq mset_ranked [symmetric]
    using rotate_peers_mset
    by (simp add: affinity_first_mset split: prod.split) (metis fst_conv)
qed

section \<open>The order of the result\<close>

text \<open>Stability first, then the strategy's key, then the configured priority.\<close>

definition precedes :: "route_strategy \<Rightarrow> u64 \<Rightarrow> string option \<Rightarrow> instant \<Rightarrow> health_map
    \<Rightarrow> resolved_target \<Rightarrow> resolved_target \<Rightarrow> bool" where
  "precedes st unix model now m a b =
    (let ra = rank_of m now (target_id a); rb = rank_of m now (target_id b);
         ka = strategy_key st unix model a; kb = strategy_key st unix model b
     in ra < rb \<or> ra = rb \<and> (ka < kb \<or> ka = kb \<and> priority (t_config a) \<le> priority (t_config b)))"

lemma strategy_sort_sorted:
  assumes "sorted_wrt R ts"
  shows "sorted_wrt (\<lambda>a b. strategy_key st unix model a < strategy_key st unix model b
      \<or> strategy_key st unix model a = strategy_key st unix model b \<and> R a b) (strategy_sort st unix model ts)"
proof (cases "st = QuotaAware \<or> st = ResetSoonest \<or> st = QuotaPace")
  case True
  with sorted_wrt_sort_key [OF assms] show ?thesis by (simp add: strategy_sort_def)
next
  case False
  then have "strategy_key st unix model t = 0" for t by (cases st) (auto simp: strategy_key_def)
  with False assms show ?thesis by (simp add: strategy_sort_def)
qed

lemma ranked_sorted:
  "sorted_wrt (precedes (strategy (r_config route)) unix model now m) (ranked route model unix now m)"
proof -
  have "sorted_wrt (\<lambda>a b. priority (t_config a) \<le> priority (t_config b))
      (sort_key (\<lambda>t. priority (t_config t)) xs)" for xs
    using sorted_sort_key [of "\<lambda>t. priority (t_config t)" xs] by (simp add: sorted_map)
  then show ?thesis
    unfolding ranked_def precedes_def Let_def
    by (intro sorted_wrt_sort_key sorted_wrt_filter strategy_sort_sorted)
qed

lemma precedes_rank: "precedes st unix model now m a b \<Longrightarrow> rank_of m now (target_id a) \<le> rank_of m now (target_id b)"
  by (auto simp: precedes_def Let_def)

lemma ranked_rank_sorted: "sorted (map (\<lambda>t. rank_of m now (target_id t)) (ranked route model unix now m))"
  using ranked_sorted [of route unix model now m] unfolding sorted_map
  by (rule sorted_wrt_mono_rel [rotated]) (rule precedes_rank)

lemma takeWhile_eq_take: "take (length (takeWhile P xs)) xs = takeWhile P xs"
  by (metis takeWhile_eq_take)

text \<open>Rotating the peers of the best tier leaves the list sorted by tier.\<close>

lemma rotate_peers_sorted:
  assumes sorted: "sorted (map f ts)" and rank: "\<And>t. t \<in> set ts \<Longrightarrow> rank t = Some (f t)"
  shows "sorted (map f (fst (rotate_peers rank route ts s)))"
proof (cases ts)
  case Nil
  then show ?thesis by (simp add: rotate_peers_def Let_def split: prod.split)
next
  case (Cons t0 us)
  define n where "n = length (takeWhile (\<lambda>t. rank t = rank (hd ts)) ts)"
  have peers: "f t = f t0" if "t \<in> set (take n ts)" for t
  proof -
    have "t \<in> set (takeWhile (\<lambda>t. rank t = rank (hd ts)) ts)"
      using that by (simp add: n_def takeWhile_eq_take)
    then have "t \<in> set ts" "rank t = rank t0" using Cons by (auto dest: set_takeWhileD)
    with rank [of t] rank [of t0] Cons show ?thesis by simp
  qed
  have all: "sorted (map f (drop n ts))" using sorted by (simp add: sorted_wrt_drop flip: drop_map)
  have "sorted (map f (rotate k (take n ts) @ drop n ts))" for k
  proof -
    have "\<forall>x\<in>set (rotate k (take n ts)). f x = f t0" using peers by simp
    moreover have "sorted (map f ys)" if "\<forall>x\<in>set ys. f x = f t0" for ys
      using that by (induction ys) auto
    moreover have "\<forall>y\<in>set (drop n ts). f t0 \<le> f y"
    proof
      fix y
      assume "y \<in> set (drop n ts)"
      then have "y \<in> set ts" by (rule in_set_dropD)
      with sorted Cons show "f t0 \<le> f y" by auto
    qed
    ultimately show ?thesis using all by (auto simp: sorted_append)
  qed
  then show ?thesis by (simp add: rotate_peers_def Let_def n_def [symmetric] split: prod.split)
qed

lemma affinity_target_fst:
  "fst (affinity_target open_circuit route key ts now m) = Some i \<Longrightarrow> fst (affinity_lookup route key now m) = Some i"
  using affinity_target_Some(3) by (cases "affinity_target open_circuit route key ts now m") simp

lemma affinity_first_cases:
  obtains (unbound) "fst (affinity_first route key now ts s) = ts"
      "fst (affinity_target (\<lambda>i. fst (circuit_open_at i now (st_health s))) route key ts now (st_affinity s)) = None"
  | (bound) i n where
      "fst (affinity_target (\<lambda>i. fst (circuit_open_at i now (st_health s))) route key ts now (st_affinity s)) = Some i"
      "n < length ts" "target_id (ts ! n) = i" "fst (affinity_first route key now ts s) = move_to_front n ts"
proof -
  obtain c a where at: "affinity_target (\<lambda>i. fst (circuit_open_at i now (st_health s))) route key ts now (st_affinity s) = (c, a)"
    by (cases "affinity_target (\<lambda>i. fst (circuit_open_at i now (st_health s))) route key ts now (st_affinity s)")
  show thesis
  proof (cases c)
    case None
    with at show thesis by (intro unbound) (simp_all add: affinity_first_def Let_def)
  next
    case (Some i)
    with at have "\<exists>t\<in>set ts. target_id t = i" using affinity_target_Some(1) by blast
    then obtain n where "position (\<lambda>t. target_id t = i) ts = Some n"
      by (cases "position (\<lambda>t. target_id t = i) ts") (auto simp: position_None)
    with at Some show thesis
      by (intro bound [of i n]) (auto simp: affinity_first_def Let_def dest: position_Some)
  qed
qed

lemma sorted_move_to_front_tl: "sorted (map (f :: 'a \<Rightarrow> 'b::linorder) ts) \<Longrightarrow> sorted (map (f :: 'a \<Rightarrow> 'b::linorder) (tl (move_to_front n ts)))"
proof -
  assume s: "sorted (map f ts)"
  have key: "sorted (take n xs @ drop (Suc n) xs)" if "sorted xs" for xs :: "'b list"
  proof -
    have "\<forall>x\<in>set (take n xs). \<forall>y\<in>set (drop n xs). x \<le> y" "sorted (take n xs)"
      using that sorted_append [of "take n xs" "drop n xs"] by simp_all
    moreover have "set (drop (Suc n) xs) \<subseteq> set (drop n xs)" by (simp add: set_drop_subset_set_drop)
    moreover have "sorted (drop (Suc n) xs)" using that by (rule sorted_wrt_drop)
    ultimately show ?thesis by (auto simp: sorted_append)
  qed
  from key [OF s] show ?thesis by (simp add: move_to_front_def take_map drop_map)
qed

text \<open>
  Apart from a session's own target in front, the list is sorted by stability tier.
\<close>

lemma ordered_tiers:
  assumes "ordered_route_targets_for_model route key model unix now s = (ts, s')"
  shows "sorted (map (\<lambda>t. rank_of (st_health s) now (target_id t)) ts)
    \<or> (ts \<noteq> [] \<and> sorted (map (\<lambda>t. rank_of (st_health s) now (target_id t)) (tl ts))
       \<and> fst (affinity_lookup (route_id route) key now (st_affinity s)) = Some (target_id (hd ts)))"
proof -
  let ?f = "\<lambda>t. rank_of (st_health s) now (target_id t)"
  obtain health' rank where same: "same_health now (st_health s) health'" and
    rank: "\<And>t. t \<in> set (ranked route model unix now (st_health s)) \<Longrightarrow> rank t = Some (?f t)" and
    eq: "ordered_route_targets_for_model route key model unix now s =
      (case if strategy (r_config route) = RoundRobin \<and> ranked route model unix now (st_health s) \<noteq> []
            then rotate_peers rank (route_id route) (ranked route model unix now (st_health s)) (s\<lparr>st_health := health'\<rparr>)
            else (ranked route model unix now (st_health s), s\<lparr>st_health := health'\<rparr>)
       of (ts6, s2) \<Rightarrow> affinity_first (route_id route) key now ts6 s2)"
    using ordered_unfold [of now s route model unix key] by metis
  obtain us s2 where us: "(if strategy (r_config route) = RoundRobin \<and> ranked route model unix now (st_health s) \<noteq> []
            then rotate_peers rank (route_id route) (ranked route model unix now (st_health s)) (s\<lparr>st_health := health'\<rparr>)
            else (ranked route model unix now (st_health s), s\<lparr>st_health := health'\<rparr>)) = (us, s2)"
    by fastforce
  have sorted: "sorted (map ?f us)"
  proof (cases "strategy (r_config route) = RoundRobin \<and> ranked route model unix now (st_health s) \<noteq> []")
    case True
    with us have "us = fst (rotate_peers rank (route_id route) (ranked route model unix now (st_health s)) (s\<lparr>st_health := health'\<rparr>))"
      by (simp only: if_True) simp
    then show ?thesis by (simp only: rotate_peers_sorted [OF ranked_rank_sorted rank])
  next
    case False
    with us have "us = ranked route model unix now (st_health s)" by auto
    then show ?thesis by (simp add: ranked_rank_sorted)
  qed
  have aff: "st_affinity s2 = st_affinity s"
    using us by (auto simp: rotate_peers_state split: if_splits dest!: arg_cong [of _ _ "\<lambda>p. st_affinity (snd p)"])
  have ts: "ts = fst (affinity_first (route_id route) key now us s2)"
    using assms unfolding eq us by simp
  show ?thesis
  proof (cases rule: affinity_first_cases [of "route_id route" key now us s2])
    case unbound
    with ts sorted show ?thesis by simp
  next
    case (bound i n)
    have "ts = move_to_front n us" using ts bound by simp
    moreover have "fst (affinity_lookup (route_id route) key now (st_affinity s)) = Some i"
      using affinity_target_fst [OF bound(1)] aff by simp
    ultimately show ?thesis
      using sorted_move_to_front_tl [OF sorted, of n] bound by (simp add: move_to_front_def)
  qed
qed

lemma ordered_unrotated:
  assumes "ordered_route_targets_for_model route key model unix now s = (ts, s')"
    and "strategy (r_config route) \<noteq> RoundRobin"
    and "fst (affinity_lookup (route_id route) key now (st_affinity s)) = None"
  shows "ts = ranked route model unix now (st_health s)"
proof -
  obtain health' rank where
    eq: "ordered_route_targets_for_model route key model unix now s =
      (case if strategy (r_config route) = RoundRobin \<and> ranked route model unix now (st_health s) \<noteq> []
            then rotate_peers rank (route_id route) (ranked route model unix now (st_health s)) (s\<lparr>st_health := health'\<rparr>)
            else (ranked route model unix now (st_health s), s\<lparr>st_health := health'\<rparr>)
       of (ts6, s2) \<Rightarrow> affinity_first (route_id route) key now ts6 s2)"
    using ordered_unfold [of now s route model unix key] by metis
  let ?us = "ranked route model unix now (st_health s)"
  have ts: "ts = fst (affinity_first (route_id route) key now ?us (s\<lparr>st_health := health'\<rparr>))"
    using assms(1,2) unfolding eq by simp
  show ?thesis
  proof (cases rule: affinity_first_cases [of "route_id route" key now ?us "s\<lparr>st_health := health'\<rparr>"])
    case unbound
    with ts show ?thesis by simp
  next
    case (bound i n)
    from affinity_target_fst [OF bound(1)]
    have "fst (affinity_lookup (route_id route) key now (st_affinity s)) = Some i" by simp
    with assms(3) show ?thesis by simp
  qed
qed

section \<open>Properties\<close>

text \<open>
  C28. The targets offered to a request are exactly the eligible ones, each as often as the
  route lists it: enabled, below the quota ceiling where a quota is known, with a closed or
  expired circuit and without a live probe.  Sorting, rotation and affinity lose nothing and
  add nothing.
\<close>

theorem ordering_is_permutation_of_eligible:
  "mset (fst (ordered_route_targets_for_model route key model unix now s)) =
    mset (filter (eligible unix model now (st_health s)) (map bind_member_model (r_targets route)))"
  by (rule mset_ordered)

text \<open>
  Stability comes first: apart from the target a live session is bound to, which may be
  in front, the offered targets are sorted by stability tier (stable, recently failed,
  degraded), whatever the strategy.
\<close>

theorem ordering_sorted_by_stability:
  assumes "ordered_route_targets_for_model route key model unix now s = (ts, s')"
  shows "sorted (map (\<lambda>t. rank_of (st_health s) now (target_id t)) ts)
    \<or> (ts \<noteq> [] \<and> sorted (map (\<lambda>t. rank_of (st_health s) now (target_id t)) (tl ts))
       \<and> fst (affinity_lookup (route_id route) key now (st_affinity s)) = Some (target_id (hd ts)))"
  using assms by (rule ordered_tiers)

definition sample_state :: proxy_state where
  "sample_state = \<lparr>
     st_config = from_routes ''127.0.0.1:8080'' [sample_route], st_stats = default_stats,
     st_health = [], st_ws_health = [], st_ws_sessions = [], st_rr_counters = [], st_affinity = [],
     st_generations = [], st_in_flight = 0, st_target_activity = [], st_provider_activity = [],
     st_search_history = empty_history\<rparr>"

lemma sample_ordered_in:
  assumes "hm_get (st_health s) (target_id sample_target) = None"
  shows "ordered_route_targets_for_model sample_route None None 0 now s = ([sample_target], s)"
proof -
  have adm: "admissible 0 None sample_target"
    by (simp add: admissible_def quota_usage_def matching_quota_def sample_target_def list_max_def)
  have same: "bind_member_model sample_target = sample_target"
    by (simp add: bind_member_model_def sample_target_def)
  have route: "r_targets sample_route = [sample_target]" "strategy (r_config sample_route) = Fallback"
    by (simp_all add: sample_route_def)
  have closed: "circuit_open_at (target_id sample_target) now (st_health s) = (False, st_health s)"
    using assms by (simp add: circuit_open_at_def)
  have probe: "\<not> has_probe (st_health s) (target_id sample_target)"
    using assms by (simp add: has_probe_def)
  have first: "affinity_first (route_id sample_route) None now [sample_target] s = ([sample_target], s)"
    by (simp add: affinity_first_def affinity_lookup_def affinity_target_def Let_def)
  show ?thesis
    by (simp add: ordered_route_targets_for_model_def route adm same strategy_sort_def closed probe first Let_def)
qed

lemma sample_ordered:
  "ordered_route_targets_for_model sample_route None None 0 5 sample_state = ([sample_target], sample_state)"
  by (rule sample_ordered_in) (simp add: sample_state_def)

theorem ordering_sorted_by_stability_witness:
  "sorted (map (\<lambda>t. rank_of (st_health sample_state) 5 (target_id t)) [sample_target])
    \<or> ([sample_target] \<noteq> [] \<and> sorted (map (\<lambda>t. rank_of (st_health sample_state) 5 (target_id t)) (tl [sample_target]))
       \<and> fst (affinity_lookup (route_id sample_route) None 5 (st_affinity sample_state)) = Some (target_id (hd [sample_target])))"
  by (rule ordering_sorted_by_stability [OF sample_ordered])

text \<open>
  For a request without a bound session, every strategy but round robin offers the targets
  in lexicographic order of stability tier, the strategy's own key (quota used, soonest reset,
  fastest pace) and the configured priority.
\<close>

theorem ordering_follows_strategy:
  assumes "ordered_route_targets_for_model route key model unix now s = (ts, s')"
    and "strategy (r_config route) \<noteq> RoundRobin"
    and "fst (affinity_lookup (route_id route) key now (st_affinity s)) = None"
  shows "sorted_wrt (precedes (strategy (r_config route)) unix model now (st_health s)) ts"
  using ordered_unrotated [OF assms] ranked_sorted by simp

theorem ordering_follows_strategy_witness:
  "sorted_wrt (precedes (strategy (r_config sample_route)) 0 None 5 (st_health sample_state)) [sample_target]"
  by (rule ordering_follows_strategy [OF sample_ordered])
     (simp_all add: sample_route_def affinity_lookup_def)

lemma offered_eligible:
  assumes "t \<in> set (fst (ordered_route_targets_for_model route key model unix now s))"
  shows "\<not> fst (circuit_open_at (target_id t) now (st_health s))"
proof -
  have "t \<in># mset (fst (ordered_route_targets_for_model route key model unix now s))" using assms by simp
  then show ?thesis unfolding mset_ordered by (auto simp: eligible_def)
qed

text \<open>
  A target that answered 429 is offered to no request before the time it asked for has
  passed (at least one second, at most a day), and every session bound to it is released.
\<close>

theorem rate_limited_target_rests:
  assumes "later < now + retry_after http_date hs policy"
    and "t \<in> set (fst (ordered_route_targets_for_model route key model unix later
      (mark_rate_limited http_date target hs policy now s)))"
  shows "target_id t \<noteq> target
    \<and> (\<forall>(k, a)\<in>set (st_affinity (mark_rate_limited http_date target hs policy now s)). aff_target a \<noteq> target)"
proof -
  have "fst (circuit_open_at target later (st_health (mark_rate_limited http_date target hs policy now s)))"
    using assms(1)
    by (auto simp: circuit_open_at_fst mark_rate_limited_def health_rate_limited_def circuit_open_def
        split: option.split)
  with offered_eligible [OF assms(2)] show ?thesis
    by (auto simp: mark_rate_limited_def clear_affinity_for_target_def)
qed

lemma sample_rate_limited:
  "ordered_route_targets_for_model sample_route None None 0 5
     (mark_rate_limited http_date 99 hs default_retry_policy 4 sample_state)
   = ([sample_target], mark_rate_limited http_date 99 hs default_retry_policy 4 sample_state)"
  by (rule sample_ordered_in) (simp add: sample_state_def mark_rate_limited_def sample_target_def)

theorem rate_limited_target_rests_witness: "target_id sample_target \<noteq> 99"
proof (rule rate_limited_target_rests [THEN conjunct1])
  have "header_text [(''retry-after'', ''60'')] ''retry-after'' = Some ''60''" "parse_u64 ''60'' = Some 60"
    by (simp_all add: header_text_def to_str_def byte_val_def header_get_def parse_u64_def is_digit_def)
  then show "5 < 4 + retry_after (\<lambda>_. None) [(''retry-after'', ''60'')] default_retry_policy"
    by (simp add: retry_after_def from_secs_def)
  show "sample_target \<in> set (fst (ordered_route_targets_for_model sample_route None None 0 5
      (mark_rate_limited (\<lambda>_. None) 99 [(''retry-after'', ''60'')] default_retry_policy 4 sample_state)))"
    by (simp add: sample_rate_limited)
qed

text \<open>
  A request that finishes well but started before the target's latest failure changes
  neither the target's health nor any session binding: an old success cannot undo a failure.
\<close>

theorem late_success_is_ignored:
  assumes "hm_get (st_health s) target = Some h" "last_failure_at h = Some failure" "started \<le> failure"
  shows "st_affinity (complete_target_success route key target started response_id now s) = st_affinity s
    \<and> hm_get (st_health (complete_target_success route key target started response_id now s)) i = hm_get (st_health s) i"
  using assms by (simp add: complete_target_success_def health_succeed_def)

theorem late_success_is_ignored_witness:
  "st_affinity (complete_target_success 7 (Some ''s'') 1 4 None 6
      (sample_state\<lparr>st_health := [(1, health_fail default_retry_policy 5 default_health)]\<rparr>))
    = st_affinity (sample_state\<lparr>st_health := [(1, health_fail default_retry_policy 5 default_health)]\<rparr>)
   \<and> hm_get (st_health (complete_target_success 7 (Some ''s'') 1 4 None 6
      (sample_state\<lparr>st_health := [(1, health_fail default_retry_policy 5 default_health)]\<rparr>))) 1
    = hm_get (st_health (sample_state\<lparr>st_health := [(1, health_fail default_retry_policy 5 default_health)]\<rparr>)) 1"
  by (rule late_success_is_ignored [of _ _ "health_fail default_retry_policy 5 default_health" 5])
     (simp_all add: hm_get_def health_fail_def Let_def)

end
