(* ===== verification/Reload.thy ===== *)
theory Reload
  imports Ordering
begin

text \<open>
  Reloading the configuration and reporting the status
  (\<open>preserved_targets\<close> of \<open>crates/aipass-proxy/src/routing.rs\<close>, \<open>ProxyHandle\<close> of
  \<open>runtime.rs\<close>).  A reload keeps the health, affinity and sessions of the targets whose
  transport and credentials are unchanged, and advances the generation of every route that
  lost one.  The key function of transports, the epochs it draws and the subscription
  backend's rotation are arguments; the vendor ledgers are left out.
\<close>

section \<open>Validation\<close>

text \<open>Every pair of protocols is supported (\<open>aipass_proxy_conversion::supports\<close>).\<close>

definition supports :: "proxy_protocol \<Rightarrow> proxy_protocol \<Rightarrow> bool" where
  "supports from target = True"

datatype config_error =
    InvalidSearch string
  | NeedsConversion string string
  | Unsupported string string
  | InvalidBindAddress

definition target_error :: "resolved_route \<Rightarrow> resolved_target \<Rightarrow> config_error option" where
  "target_error r t =
    (let target_protocol = effective_protocol (t_config t) (upstream_protocol (r_config r));
         inbound = inbound_protocol (r_config r)
     in if inbound \<noteq> target_protocol \<and> \<not> conversion_enabled (r_config r)
        then Some (NeedsConversion (rc_name (r_config r)) (label (t_config t)))
        else if \<not> supports inbound target_protocol
        then Some (Unsupported (rc_name (r_config r)) (label (t_config t)))
        else None)"

definition validate_routes :: "runtime_config \<Rightarrow> config_error option" where
  "validate_routes c =
    find_map (\<lambda>r. find_map (target_error r) (filter target_enabled (r_targets r))) (cfg_routes c)"

text \<open>The state a started proxy begins with.\<close>

definition start_state :: "(string \<Rightarrow> url_parts option) \<Rightarrow> (string \<Rightarrow> 'addr option)
    \<Rightarrow> (resolved_target \<Rightarrow> upstream_proxy_config \<Rightarrow> ws_key) \<Rightarrow> (ws_key \<Rightarrow> uuid)
    \<Rightarrow> runtime_config \<Rightarrow> config_error + 'addr \<times> proxy_state" where
  "start_state parse_url parse_addr key fresh c =
    (case validate_search parse_url (cfg_search c) of
       Some e \<Rightarrow> Inl (InvalidSearch e)
     | None \<Rightarrow>
         (case validate_routes c of
            Some e \<Rightarrow> Inl e
          | None \<Rightarrow>
              (case parse_addr (bind_addr c) of
                 None \<Rightarrow> Inl InvalidBindAddress
               | Some socket \<Rightarrow> Inr (socket, \<lparr>
                   st_config = c, st_stats = default_stats, st_health = [],
                   st_ws_health = initial_health key fresh c, st_ws_sessions = [], st_rr_counters = [],
                   st_affinity = [], st_generations = [], st_in_flight = 0, st_target_activity = [],
                   st_provider_activity = [], st_search_history = empty_history\<rparr>))))"

section \<open>Preserved targets\<close>

definition same_route :: "resolved_route \<Rightarrow> resolved_route \<Rightarrow> bool" where
  "same_route previous route =
    (route_id previous = route_id route
     \<and> route_enabled previous
     \<and> tokens_match (local_token previous) (local_token route)
     \<and> inbound_protocol (r_config previous) = inbound_protocol (r_config route)
     \<and> upstream_protocol (r_config previous) = upstream_protocol (r_config route)
     \<and> conversion_enabled (r_config previous) = conversion_enabled (r_config route))"

definition same_target :: "resolved_target \<Rightarrow> resolved_target \<Rightarrow> bool" where
  "same_target before target =
    (target_enabled before
     \<and> target_id before = target_id target
     \<and> target_provider before = target_provider target
     \<and> secret_id (t_config before) = secret_id (t_config target)
     \<and> base_url (t_config before) = base_url (t_config target)
     \<and> auth_scheme (t_config before) = auth_scheme (t_config target)
     \<and> headers (t_config before) = headers (t_config target)
     \<and> protocol (t_config before) = protocol (t_config target)
     \<and> tc_model (t_config before) = tc_model (t_config target)
     \<and> model_override before = model_override target
     \<and> upstream_kind before = upstream_kind target
     \<and> profile before = profile target
     \<and> upstream_proxy before = upstream_proxy target
     \<and> tokens_match (api_key before) (api_key target))"

definition preserved_in :: "runtime_config \<Rightarrow> resolved_route \<Rightarrow> (uuid \<times> uuid) list" where
  "preserved_in old route =
    (case find (\<lambda>previous. same_route previous route) (cfg_routes old) of
       None \<Rightarrow> []
     | Some previous \<Rightarrow>
         map (\<lambda>t. (route_id route, target_id t))
           (filter (\<lambda>t. target_enabled t \<and> (\<exists>before\<in>set (r_targets previous). same_target before t))
             (r_targets route)))"

definition preserved_targets :: "runtime_config \<Rightarrow> runtime_config \<Rightarrow> (uuid \<times> uuid) list" where
  "preserved_targets old new =
    (if cfg_upstream_proxy old \<noteq> cfg_upstream_proxy new then []
     else concat (map (preserved_in old) (filter route_enabled (cfg_routes new))))"

section \<open>Updating the configuration\<close>

text \<open>
  Targets whose managed credential the backend rotated in place: their configuration is
  unchanged on a route that is unchanged.  \<open>retain\<close> is the backend's \<open>retain_targets\<close>.
\<close>

definition rotated_pairs ::
  "(resolved_target list \<Rightarrow> uuid list) \<Rightarrow> runtime_config \<Rightarrow> runtime_config \<Rightarrow> (uuid \<times> uuid) list" where
  "rotated_pairs retain old new =
    (let rotated = retain (concat (map r_targets (filter route_enabled (cfg_routes new)))) in
     concat (map (\<lambda>route.
       map (\<lambda>t. (route_id route, target_id t))
         (filter (\<lambda>t. upstream_kind t = ClaudeSubscription
            \<and> target_id t \<in> set rotated
            \<and> is_some_and
                (find (\<lambda>r. r_config r = r_config route \<and> tokens_match (local_token r) (local_token route))
                  (cfg_routes old))
                (\<lambda>r. \<exists>before\<in>set (r_targets r).
                   t_config before = t_config t \<and> upstream_kind before = upstream_kind t))
           (r_targets route)))
       (cfg_routes new)))"

definition kept_pairs ::
  "(resolved_target list \<Rightarrow> uuid list) option \<Rightarrow> runtime_config \<Rightarrow> runtime_config \<Rightarrow> (uuid \<times> uuid) list" where
  "kept_pairs backend old new =
    (let preserved = preserved_targets old new;
         revoked = (\<exists>t\<in>set (all_targets old). target_id t \<notin> snd ` set preserved)
     in if revoked then (case backend of None \<Rightarrow> preserved | Some retain \<Rightarrow> preserved @ rotated_pairs retain old new)
        else preserved)"

definition update_ws_health ::
  "(resolved_target \<Rightarrow> upstream_proxy_config \<Rightarrow> ws_key) \<Rightarrow> (ws_key \<Rightarrow> uuid) \<Rightarrow> runtime_config \<Rightarrow> runtime_config
    \<Rightarrow> ws_map \<Rightarrow> ws_map" where
  "update_ws_health key fresh old new m =
    (let valid = map (\<lambda>t. key t (cfg_upstream_proxy new)) (all_targets new);
         m1 = hm_retain (\<lambda>k _. k \<in> set valid) m;
         enabled_again = filter (\<lambda>t. supports_websockets t
             \<and> (\<exists>before\<in>set (all_targets old). target_provider before = target_provider t \<and> \<not> supports_websockets before))
           (all_targets new);
         m2 = fold (\<lambda>t. hm_del (key t (cfg_upstream_proxy new))) enabled_again m1
     in fold (\<lambda>k. hm_or_insert k (default_ws_health (fresh k))) (remdups valid) m2)"

definition route_revoked :: "runtime_config \<Rightarrow> runtime_config \<Rightarrow> (uuid \<times> uuid) list \<Rightarrow> resolved_route \<Rightarrow> bool" where
  "route_revoked old new kept r =
    (cfg_search old \<noteq> cfg_search new \<or> cfg_search_apis old \<noteq> cfg_search_apis new
     \<or> cfg_enabled old \<noteq> cfg_enabled new \<or> bind_addr old \<noteq> bind_addr new
     \<or> (\<exists>t\<in>set (r_targets r). (route_id r, target_id t) \<notin> set kept))"

definition next_generations ::
  "runtime_config \<Rightarrow> runtime_config \<Rightarrow> (uuid \<times> uuid) list \<Rightarrow> (uuid, u64) hmap \<Rightarrow> (uuid, u64) hmap" where
  "next_generations old new kept g =
    fold (\<lambda>r. hm_update (route_id r) 0 (\<lambda>n. n + 1)) (filter (route_revoked old new kept) (cfg_routes old))
      (hm_update nil_uuid 0 (\<lambda>n. n + 1) g)"

definition apply_config ::
  "(resolved_target \<Rightarrow> upstream_proxy_config \<Rightarrow> ws_key) \<Rightarrow> (ws_key \<Rightarrow> uuid)
    \<Rightarrow> (resolved_target list \<Rightarrow> uuid list) option \<Rightarrow> runtime_config \<Rightarrow> proxy_state \<Rightarrow> proxy_state" where
  "apply_config key fresh backend new s =
    (let old = st_config s in
     if old = new then s
     else
       let kept = kept_pairs backend old new;
           valid = map (\<lambda>t. key t (cfg_upstream_proxy new)) (all_targets new)
       in s\<lparr>st_search_history := history_retain kept (st_search_history s),
            st_health := hm_retain (\<lambda>i _. i \<in> snd ` set kept) (st_health s),
            st_affinity := hm_retain (\<lambda>(route, _) a. (route, aff_target a) \<in> set kept) (st_affinity s),
            st_ws_health := update_ws_health key fresh old new (st_ws_health s),
            st_ws_sessions := hm_retain (\<lambda>(_, _, k) _. k \<in> set valid) (st_ws_sessions s),
            st_rr_counters := [],
            st_generations := next_generations old new kept (st_generations s),
            st_config := new\<rparr>)"

definition update_config ::
  "(string \<Rightarrow> url_parts option) \<Rightarrow> (resolved_target \<Rightarrow> upstream_proxy_config \<Rightarrow> ws_key) \<Rightarrow> (ws_key \<Rightarrow> uuid)
    \<Rightarrow> (resolved_target list \<Rightarrow> uuid list) option \<Rightarrow> runtime_config \<Rightarrow> proxy_state \<Rightarrow> config_error + proxy_state" where
  "update_config parse_url key fresh backend new s =
    (case validate_search parse_url (cfg_search new) of
       Some e \<Rightarrow> Inl (InvalidSearch e)
     | None \<Rightarrow> Inr (apply_config key fresh backend new s))"

section \<open>Status\<close>

text \<open>\<open>running\<close> is whether the listener thread lives, \<open>bound\<close> the address it was started on.\<close>

record channel_status =
  ch_last_status :: "u16 option"
  ch_route :: uuid
  ch_target :: uuid
  ch_provider :: uuid
  ch_secret :: string
  ch_in_flight :: u64
  ch_degraded :: bool
  ch_available :: bool
  ch_cooldown_ms :: u64
  ch_ws_cooling :: bool

record proxy_status =
  ps_running :: bool
  ps_enabled :: bool
  ps_bind_addr :: string
  ps_active_routes :: nat
  ps_requests :: u64
  ps_failures :: u64
  ps_last_error :: "string option"
  ps_degraded :: bool
  ps_degraded_ids :: "uuid list"
  ps_recent_requests :: u64
  ps_recent_tokens :: u64
  ps_success_rate_bps :: u16
  ps_average_first_token :: "u64 option"
  ps_in_flight :: u64
  ps_available_channels :: nat
  ps_total_channels :: nat
  ps_channels :: "channel_status list"

definition channel_of :: "proxy_state \<Rightarrow> instant \<Rightarrow> resolved_route \<Rightarrow> resolved_target \<Rightarrow> channel_status" where
  "channel_of s now r t =
    (let h = hm_get (st_health s) (target_id t);
         cooldown = (case Option.bind h open_until of None \<Rightarrow> 0 | Some until \<Rightarrow> until - now)
     in \<lparr>ch_last_status = Option.bind h last_status,
         ch_route = route_id r,
         ch_target = target_id t,
         ch_provider = target_provider t,
         ch_secret = secret_id (t_config t),
         ch_in_flight = unwrap_or (hm_get (st_target_activity s) (target_id t)) 0,
         ch_degraded = is_some_and h degraded,
         ch_available = (cooldown = 0),
         ch_cooldown_ms = of_nat (as_millis cooldown),
         ch_ws_cooling = False\<rparr>)"

definition channels_of :: "proxy_state \<Rightarrow> instant \<Rightarrow> channel_status list" where
  "channels_of s now =
    concat (map (\<lambda>r. map (channel_of s now r) (filter target_enabled (r_targets r)))
      (filter route_enabled (cfg_routes (st_config s))))"

definition stop_channel :: "channel_status \<Rightarrow> channel_status" where
  "stop_channel c =
    c\<lparr>ch_in_flight := 0, ch_available := False, ch_degraded := False, ch_cooldown_ms := 0, ch_ws_cooling := False\<rparr>"

text \<open>Successes in hundredths of a percent, rounded to nearest.\<close>

definition success_rate_bps :: "u64 \<Rightarrow> u64 \<Rightarrow> u16" where
  "success_rate_bps reqs failed =
    (if reqs = 0 then 0
     else
       let rate = sat_add (sat_mul (sat_sub reqs failed) 10000) (reqs div 2) div reqs
       in if unat rate < 2 ^ 16 then ucast rate else 10000)"

definition average_first_token :: "u64 option list \<Rightarrow> u64 option" where
  "average_first_token samples =
    (case fold (\<lambda>v (tot, n). (sat_add tot v, sat_add n 1)) (filter_map (\<lambda>x. x) samples) (0, 0 :: u64) of
       (tot, n) \<Rightarrow> if 0 < n then Some (tot div n) else None)"

definition status_of :: "bool \<Rightarrow> string \<Rightarrow> instant \<Rightarrow> proxy_state \<Rightarrow> proxy_status" where
  "status_of running bound now s =
    (let stats = st_stats s;
         recent_requests = of_nat (length (recent now (recent_request_times stats))) :: u64;
         recent_failures = of_nat (length (recent now (recent_failure_times stats))) :: u64;
         recent_tokens = sum_list (map snd (dropWhile (\<lambda>(t, _). t < now - from_secs 60) (recent_token_totals stats)));
         channels = (if running then channels_of s now else map stop_channel (channels_of s now));
         ids = map ch_target (filter ch_degraded channels)
     in \<lparr>ps_running = running,
         ps_enabled = cfg_enabled (st_config s),
         ps_bind_addr = bound,
         ps_active_routes = length (filter route_enabled (cfg_routes (st_config s))),
         ps_requests = requests stats,
         ps_failures = failures stats,
         ps_last_error = last_error stats,
         ps_degraded = (running \<and> (ids \<noteq> []
            \<or> 0 < recent_requests \<and> sat_mul recent_requests 20 \<le> sat_mul recent_failures 100)),
         ps_degraded_ids = ids,
         ps_recent_requests = recent_requests,
         ps_recent_tokens = recent_tokens,
         ps_success_rate_bps = success_rate_bps (requests stats) (failures stats),
         ps_average_first_token = average_first_token (first_token_samples stats),
         ps_in_flight = st_in_flight s,
         ps_available_channels = length (filter ch_available channels),
         ps_total_channels = length channels,
         ps_channels = channels\<rparr>)"

section \<open>Generations\<close>

lemma generation_update: "generation (hm_update i 0 (\<lambda>n. n + 1) g) j = generation g j + (if j = i then 1 else 0)"
  by (auto simp: generation_def unwrap_or_def split: option.split)

lemma generation_fold:
  "generation (fold (\<lambda>r. hm_update (route_id r) 0 (\<lambda>n. n + 1)) rs g) i =
    generation g i + of_nat (length (filter (\<lambda>r. route_id r = i) rs))"
  by (induction rs arbitrary: g) (simp_all add: generation_update)

lemma filter_route_id:
  assumes "distinct (map route_id rs)" "r \<in> set rs"
  shows "length (filter (\<lambda>x. route_id x = route_id r) (filter P rs)) = (if P r then 1 else 0)"
  using assms
proof (induction rs)
  case Nil
  then show ?case by simp
next
  case (Cons x rs)
  have none: "filter (\<lambda>y. P y \<and> route_id y = route_id x) rs = []"
    using Cons.prems(1) by (auto simp: filter_empty_conv) (metis imageI)
  show ?case
  proof (cases "r = x")
    case True
    with none show ?thesis by simp
  next
    case False
    with Cons.prems have "r \<in> set rs" "route_id x \<noteq> route_id r" by force+
    with Cons False show ?thesis by (cases "P r") simp_all
  qed
qed

lemma generation_next:
  assumes "distinct (map route_id (cfg_routes old))" "r \<in> set (cfg_routes old)" "route_id r \<noteq> nil_uuid"
  shows "generation (next_generations old new kept g) (route_id r) =
    generation g (route_id r) + (if route_revoked old new kept r then 1 else 0)"
  unfolding next_generations_def generation_fold generation_update filter_route_id [OF assms(1,2)]
  using assms(3) by simp

section \<open>What a kept pair stands for\<close>

lemma preserved_targets_mem:
  assumes "(i, j) \<in> set (preserved_targets old new)"
  obtains ro to rn tn where "ro \<in> set (cfg_routes old)" "rn \<in> set (cfg_routes new)" "same_route ro rn" "route_enabled rn"
    "to \<in> set (r_targets ro)" "tn \<in> set (r_targets rn)" "same_target to tn" "target_enabled tn"
    "route_id rn = i" "target_id tn = j" "cfg_upstream_proxy old = cfg_upstream_proxy new"
proof -
  from assms have up: "cfg_upstream_proxy old = cfg_upstream_proxy new"
    by (auto simp: preserved_targets_def split: if_splits)
  with assms obtain rn where rn: "rn \<in> set (cfg_routes new)" "route_enabled rn" "(i, j) \<in> set (preserved_in old rn)"
    by (auto simp: preserved_targets_def)
  from rn(3) obtain ro where ro: "find (\<lambda>p. same_route p rn) (cfg_routes old) = Some ro"
    by (cases "find (\<lambda>p. same_route p rn) (cfg_routes old)") (simp_all add: preserved_in_def)
  with rn(3) obtain tn to where "tn \<in> set (r_targets rn)" "target_enabled tn" "to \<in> set (r_targets ro)"
    "same_target to tn" "i = route_id rn" "j = target_id tn"
    by (auto simp: preserved_in_def)
  with rn up find_SomeD [OF ro] show thesis by (auto intro: that)
qed

text \<open>
  A pair that is kept without a backend: an enabled target of an enabled route whose token,
  protocols, endpoint, credential and outbound proxy are those of the old configuration.
\<close>

definition unchanged_pair :: "runtime_config \<Rightarrow> runtime_config \<Rightarrow> uuid \<Rightarrow> uuid \<Rightarrow> bool" where
  "unchanged_pair old new i j =
    (\<exists>ro\<in>set (cfg_routes old). \<exists>rn\<in>set (cfg_routes new). \<exists>to\<in>set (r_targets ro). \<exists>tn\<in>set (r_targets rn).
       route_id ro = i \<and> route_id rn = i \<and> target_id to = j \<and> target_id tn = j
       \<and> route_enabled ro \<and> route_enabled rn \<and> target_enabled to \<and> target_enabled tn
       \<and> local_token ro = local_token rn \<and> api_key to = api_key tn
       \<and> base_url (t_config to) = base_url (t_config tn) \<and> headers (t_config to) = headers (t_config tn)
       \<and> upstream_proxy to = upstream_proxy tn \<and> cfg_upstream_proxy old = cfg_upstream_proxy new)"

lemma kept_unchanged: "(i, j) \<in> set (kept_pairs None old new) \<Longrightarrow> unchanged_pair old new i j"
proof -
  assume "(i, j) \<in> set (kept_pairs None old new)"
  then have "(i, j) \<in> set (preserved_targets old new)"
    by (auto simp: kept_pairs_def Let_def split: if_splits)
  then show ?thesis
  proof (rule preserved_targets_mem)
    fix ro rn to tn
    assume mem: "ro \<in> set (cfg_routes old)" "rn \<in> set (cfg_routes new)" "to \<in> set (r_targets ro)" "tn \<in> set (r_targets rn)"
      and same: "same_route ro rn" "route_enabled rn" "same_target to tn" "target_enabled tn"
      "route_id rn = i" "target_id tn = j" "cfg_upstream_proxy old = cfg_upstream_proxy new"
    show ?thesis
      unfolding unchanged_pair_def
      by (rule bexI [OF _ mem(1)], rule bexI [OF _ mem(2)], rule bexI [OF _ mem(3)], rule bexI [OF _ mem(4)])
         (use same in \<open>simp add: same_route_def same_target_def tokens_match_eq\<close>)
  qed
qed

section \<open>Properties\<close>



text \<open>
  No routing state outlives a credential: after a reload without a subscription backend,
  health is remembered only for a target, and a session stays bound only to a route and a
  target, whose tokens, endpoint, headers and outbound proxy are the same in the old and the
  new configuration, and the remembered values are the old ones.
\<close>

theorem reload_keeps_only_unchanged:
  assumes "hm_wf (st_health s)" "hm_wf (st_affinity s)" "st_config s \<noteq> new"
  shows "(case hm_get (st_health (apply_config key fresh None new s)) i of
      None \<Rightarrow> True
    | Some h \<Rightarrow> hm_get (st_health s) i = Some h \<and> (\<exists>r. unchanged_pair (st_config s) new r i))
    \<and> (case hm_get (st_affinity (apply_config key fresh None new s)) (r, k) of
      None \<Rightarrow> True
    | Some a \<Rightarrow> hm_get (st_affinity s) (r, k) = Some a \<and> unchanged_pair (st_config s) new r (aff_target a))"
proof -
  let ?kept = "kept_pairs None (st_config s) new"
  have h: "hm_get (st_health (apply_config key fresh None new s)) i =
      (case hm_get (st_health s) i of None \<Rightarrow> None | Some h \<Rightarrow> if i \<in> snd ` set ?kept then Some h else None)"
    using assms by (simp add: apply_config_def Let_def hm_get_retain)
  have a: "hm_get (st_affinity (apply_config key fresh None new s)) (r, k) =
      (case hm_get (st_affinity s) (r, k) of None \<Rightarrow> None
       | Some a \<Rightarrow> if (r, aff_target a) \<in> set ?kept then Some a else None)"
    using assms by (simp add: apply_config_def Let_def hm_get_retain split: option.split)
  have ex: "\<exists>r. unchanged_pair (st_config s) new r i" if "i \<in> snd ` set ?kept"
  proof -
    from that obtain j where "(j, i) \<in> set ?kept" by (auto simp: image_iff)
    then show ?thesis by (intro exI [of _ j]) (rule kept_unchanged)
  qed
  have af: "unchanged_pair (st_config s) new r j" if "(r, j) \<in> set ?kept" for j
    using that by (rule kept_unchanged)
  show ?thesis
    unfolding h a using ex af by (simp split: option.split)
qed

theorem reload_keeps_only_unchanged_witness:
  "case hm_get (st_health (apply_config (\<lambda>_ _. 0) (\<lambda>_. 0) None (from_routes ''127.0.0.1:9'' [sample_route])
        (sample_state\<lparr>st_health := [(1, default_health)]\<rparr>))) 1 of
      None \<Rightarrow> True
    | Some h \<Rightarrow> hm_get (st_health (sample_state\<lparr>st_health := [(1, default_health)]\<rparr>)) 1 = Some h
        \<and> (\<exists>r. unchanged_pair (st_config (sample_state\<lparr>st_health := [(1, default_health)]\<rparr>))
              (from_routes ''127.0.0.1:9'' [sample_route]) r 1)"
  by (rule reload_keeps_only_unchanged [THEN conjunct1])
     (simp_all add: hm_wf_def sample_state_def from_routes_def)

lemma success_rate_le:
  assumes "failed \<le> reqs" "reqs \<noteq> (0 :: u64)"
  shows "unat (sat_add (sat_mul (sat_sub reqs failed) 10000) (reqs div 2) div reqs) \<le> 10000"
proof -
  let ?r = "unat reqs"
  have pos: "0 < ?r" using assms(2) by (simp add: unat_gt_0)
  have "unat (sat_add (sat_mul (sat_sub reqs failed) 10000) (reqs div 2)) \<le> ?r * 10000 + ?r div 2"
    by (auto simp: unat_sat_add unat_sat_mul unat_sat_sub unat_div min_le_iff_disj)
  then have "unat (sat_add (sat_mul (sat_sub reqs failed) 10000) (reqs div 2)) div ?r \<le> (?r * 10000 + ?r div 2) div ?r"
    by (rule div_le_mono)
  also have "\<dots> = 10000" using pos by simp
  finally show ?thesis by (simp add: unat_div)
qed

lemma success_rate_bound: "failed \<le> reqs \<Longrightarrow> success_rate_bps reqs failed \<le> 10000"
proof -
  assume le: "failed \<le> reqs"
  show ?thesis
  proof (cases "reqs = 0")
    case False
    let ?x = "sat_add (sat_mul (sat_sub reqs failed) 10000) (reqs div 2) div reqs"
    from success_rate_le [OF le False] have "unat ?x \<le> 10000" .
    moreover from this have "unat (ucast ?x :: u16) = unat ?x"
      by (simp add: unsigned_ucast_eq take_bit_nat_eq_self)
    ultimately show ?thesis
      by (simp add: success_rate_bps_def Let_def False word_le_nat_alt)
  qed (simp add: success_rate_bps_def)
qed

text \<open>
  The status is consistent with itself: the success rate is at most 100 percent, no more
  channels are available than exist, every listed degraded target is one of the channels, and
  a stopped proxy reports no channel as available, degraded or busy.
\<close>

theorem status_is_consistent:
  assumes "stats_wf t (st_stats s)"
  shows "let p = status_of running bound now s in
    ps_success_rate_bps p \<le> 10000
    \<and> ps_available_channels p \<le> ps_total_channels p
    \<and> set (ps_degraded_ids p) \<subseteq> ch_target ` set (ps_channels p)
    \<and> (running \<or> ps_available_channels p = 0 \<and> ps_degraded_ids p = [] \<and> \<not> ps_degraded p
         \<and> sum_list (map ch_in_flight (ps_channels p)) = 0)"
proof -
  have "failures (st_stats s) \<le> requests (st_stats s)" using assms by (simp add: stats_wf_def)
  from success_rate_bound [OF this] have rate: "ps_success_rate_bps (status_of running bound now s) \<le> 10000"
    by (simp add: status_of_def Let_def)
  have stopped: "filter ch_available (map stop_channel cs) = []" "filter ch_degraded (map stop_channel cs) = []"
    "sum_list (map (ch_in_flight \<circ> stop_channel) cs) = 0" for cs
    by (induction cs) (simp_all add: stop_channel_def)
  show ?thesis
    using rate by (cases running) (simp_all add: status_of_def Let_def stopped image_mono)
qed

theorem status_is_consistent_witness:
  "ps_success_rate_bps (status_of True ''127.0.0.1:8080'' 5 sample_state) \<le> 10000"
  using status_is_consistent [of 5 sample_state True "''127.0.0.1:8080''" 5]
  by (simp add: sample_state_def stats_wf_default Let_def)

end
