(* ===== verification/Accounting.thy ===== *)
theory Accounting
  imports Reload
begin

text \<open>
  Token usage and cost: what a vendor payload reports
  (\<open>crates/aipass-proxy-conversion/src/usage.rs\<close> and \<open>lib.rs\<close>), the estimated cost
  (\<open>estimate_cost\<close> of \<open>sse.rs\<close>), and the summaries over the stored rows (\<open>usage.rs\<close> of
  \<open>aipass-proxy\<close>).  The rows of the database are a list; a query filters it by its start and
  orders it by time, and the local date of a row is an argument of the time series.
\<close>

section \<open>Token usage of a payload\<close>

record token_usage =
  tu_input :: u64
  tu_output :: u64
  tu_cache_read :: u64
  tu_cache_creation :: u64
  tu_cache_creation_1h :: u64

definition number :: "json option \<Rightarrow> u64" where
  "number v = unwrap_or (Option.bind v as_u64) 0"

definition extract_usage :: "proxy_protocol \<Rightarrow> json \<Rightarrow> token_usage" where
  "extract_usage p payload =
    (let usage = unwrap_or (json_get payload ''usage'') payload;
         field = (\<lambda>k. number (json_get usage k));
         path = (\<lambda>ks. number (json_pointer usage ks))
     in case p of
       AnthropicMessages \<Rightarrow> \<lparr>
         tu_input = field ''input_tokens'',
         tu_output = field ''output_tokens'',
         tu_cache_read = field ''cache_read_input_tokens'',
         tu_cache_creation = field ''cache_creation_input_tokens'',
         tu_cache_creation_1h = min (path [''cache_creation'', ''ephemeral_1h_input_tokens''])
           (field ''cache_creation_input_tokens'')\<rparr>
     | _ \<Rightarrow>
         (let total_input = max (field ''input_tokens'') (field ''prompt_tokens'');
              cache_read = max (path [''input_tokens_details'', ''cached_tokens''])
                (path [''prompt_tokens_details'', ''cached_tokens'']);
              cache_creation = max (path [''input_tokens_details'', ''cache_creation_tokens''])
                (path [''prompt_tokens_details'', ''cache_creation_tokens''])
          in \<lparr>
            tu_input = sat_sub (sat_sub total_input cache_read) cache_creation,
            tu_output = max (field ''output_tokens'') (field ''completion_tokens''),
            tu_cache_read = cache_read,
            tu_cache_creation = cache_creation,
            tu_cache_creation_1h = min
              (max (path [''input_tokens_details'', ''cache_creation_1h_tokens''])
                 (path [''prompt_tokens_details'', ''cache_creation_1h_tokens'']))
              cache_creation\<rparr>))"

text \<open>Merging the counters of several events: numbers replace, objects merge, all else is ignored.\<close>

fun is_object :: "json \<Rightarrow> bool" where
  "is_object (JObject _) = True"
| "is_object _ = False"

definition members :: "json \<Rightarrow> (string \<times> json) list" where
  "members v = unwrap_or (as_object v) []"

fun merge_usage :: "json \<Rightarrow> json \<Rightarrow> json"
  and merge_fields :: "(string \<times> json) list \<Rightarrow> (string \<times> json) list \<Rightarrow> (string \<times> json) list" where
  "merge_usage total_value (JObject fs) = JObject (merge_fields (members total_value) fs)"
| "merge_usage total_value _ = total_value"
| "merge_fields ms [] = ms"
| "merge_fields ms ((k, v) # fs) =
     merge_fields
       (if is_object v then AList.update k (merge_usage (unwrap_or (map_of ms k) JNull) v) ms
        else if as_u64 v \<noteq> None then AList.update k v ms
        else ms) fs"

text \<open>\<open>UsageAccumulator\<close> is its wire value, \<open>Null\<close> at first.\<close>

definition usage_observe :: "proxy_protocol \<Rightarrow> json \<Rightarrow> json \<Rightarrow> json" where
  "usage_observe p payload wire =
    (let nested = (case p of
         AnthropicMessages \<Rightarrow> json_get payload ''message''
       | OpenAiResponses \<Rightarrow> json_get payload ''response''
       | OpenAiChatCompletions \<Rightarrow> None);
         wire1 = (case Option.bind nested (\<lambda>v. json_get v ''usage'') of
           None \<Rightarrow> wire | Some u \<Rightarrow> merge_usage wire u)
     in case json_get payload ''usage'' of None \<Rightarrow> wire1 | Some u \<Rightarrow> merge_usage wire1 u)"

definition usage_totals :: "proxy_protocol \<Rightarrow> json \<Rightarrow> token_usage" where
  "usage_totals p wire = extract_usage p wire"

section \<open>Cost\<close>

definition estimate_cost :: "token_usage \<Rightarrow> model_pricing \<Rightarrow> u64" where
  "estimate_cost u p =
    (let hour = min (tu_cache_creation_1h u) (tu_cache_creation u);
         tot = sat_add (sat_add (sat_add
           (sat_mul (tu_input u) (input_micros_per_million p))
           (sat_mul (tu_output u) (output_micros_per_million p)))
           (sat_mul (tu_cache_read u) (cache_read_micros_per_million p)))
           (sat_mul (sat_sub (tu_cache_creation u) hour) (cache_creation_micros_per_million p))
     in sat_add tot
          (sat_mul hour (unwrap_or (cache_creation_1h_micros_per_million p) (cache_creation_micros_per_million p)))
        div 1000000)"

lemma min_add_cap: "min (min a M + min b M) M = min (a + b) (M :: nat)"
  by (auto simp: min_def)

lemma unat_sat_add_sat_mul:
  "unat (sat_add (a :: u64) (sat_mul b c)) = min (unat a + unat b * unat c) (2 ^ 64 - 1)"
  using unat_u64_less [of a] by (auto simp: unat_sat_add unat_sat_mul min_def)

text \<open>
  The estimated cost is the exact sum of tokens times price over the five token classes,
  divided by a million and rounded down; the hour-long part of the cache writes is never
  charged twice, and a sum beyond 64 bits is capped, not wrapped.
\<close>

theorem estimate_cost_exact:
  "unat (estimate_cost u p) =
    min (unat (tu_input u) * unat (input_micros_per_million p)
       + unat (tu_output u) * unat (output_micros_per_million p)
       + unat (tu_cache_read u) * unat (cache_read_micros_per_million p)
       + (unat (tu_cache_creation u) - unat (min (tu_cache_creation_1h u) (tu_cache_creation u)))
           * unat (cache_creation_micros_per_million p)
       + unat (min (tu_cache_creation_1h u) (tu_cache_creation u))
           * unat (unwrap_or (cache_creation_1h_micros_per_million p) (cache_creation_micros_per_million p)))
      (2 ^ 64 - 1) div 1000000"
proof -
  have m: "min (min x M + y) M = min (x + y) M" for x y M :: nat by (auto simp: min_def)
  have gen: "min (a + (min b M + (min c M + (min d M + min e M)))) M = min (a + (b + (c + (d + e)))) M"
    for a b c d e M :: nat by (auto simp: min_def)
  show ?thesis
    by (simp only: estimate_cost_def Let_def unat_div unat_sat_add_sat_mul unat_sat_sub unat_sat_mul
        unat_sat_add m add.assoc [symmetric]) (simp add: m gen unat_sat_add unat_sat_mul add.assoc)
qed

section \<open>Stored rows\<close>

record usage_row =
  row_started_at :: int
  row_provider :: uuid
  row_secret :: string
  row_model :: "string option"
  row_input :: u64
  row_output :: u64
  row_cache_read :: u64
  row_cache_creation :: u64
  row_cache_creation_1h :: u64
  row_status :: u16
  row_first_token :: "u64 option"

record attempt_row =
  at_started_at :: int
  at_provider :: uuid
  at_secret :: string
  at_model :: "string option"
  at_success :: "bool option"
  at_first_token :: "u64 option"

record attempt_stats =
  as_attempts :: u64
  as_completed :: u64
  as_successful :: u64

record request_stats =
  rs_requests :: u64
  rs_successful :: u64
  rs_first_tokens :: "u64 option list"

definition no_attempts :: attempt_stats where
  "no_attempts = \<lparr>as_attempts = 0, as_completed = 0, as_successful = 0\<rparr>"

definition no_requests :: request_stats where
  "no_requests = \<lparr>rs_requests = 0, rs_successful = 0, rs_first_tokens = []\<rparr>"

definition request_observe :: "usage_row \<Rightarrow> request_stats \<Rightarrow> request_stats" where
  "request_observe row s =
    (let samples = rs_first_tokens s @ [row_first_token row] in
     s\<lparr>rs_requests := sat_add (rs_requests s) 1,
       rs_successful := (if 200 \<le> row_status row \<and> row_status row < 300
                         then sat_add (rs_successful s) 1 else rs_successful s),
       rs_first_tokens := drop (length samples - 100) samples\<rparr>)"

definition request_success_rate :: "request_stats \<Rightarrow> u16" where
  "request_success_rate s =
    (if rs_requests s = 0 then 0
     else
       let bps = min (sat_add (sat_mul (rs_successful s) 10000) (rs_requests s div 2) div rs_requests s) 10000
       in if unat bps < 2 ^ 16 then ucast bps else 10000)"

definition request_average_first_token :: "request_stats \<Rightarrow> u64 option" where
  "request_average_first_token s = average_first_token (rs_first_tokens s)"

definition attempt_observe :: "attempt_row \<Rightarrow> attempt_stats \<Rightarrow> attempt_stats" where
  "attempt_observe row s =
    (let s1 = s\<lparr>as_attempts := sat_add (as_attempts s) 1\<rparr> in
     case at_success row of
       None \<Rightarrow> s1
     | Some ok \<Rightarrow>
         let s2 = s1\<lparr>as_completed := sat_add (as_completed s1) 1\<rparr> in
         if ok then s2\<lparr>as_successful := sat_add (as_successful s2) 1\<rparr> else s2)"

section \<open>Aggregates\<close>

text \<open>The counters the whole, a provider, a model and a time bucket have in common.\<close>

record usage_counts =
  request_count :: u64
  input_tokens :: u64
  output_tokens :: u64
  cache_read_tokens :: u64
  cache_creation_tokens :: u64
  estimated_cost_micros :: u64

record usage_entry = usage_counts +
  attempt_count :: u64
  completed_attempts :: u64
  successful_attempts :: u64
  ue_success_rate_bps :: u16
  ue_average_first_token :: "u64 option"

record provider_usage = usage_entry +
  pu_provider :: uuid
  pu_secret :: string

record model_usage = usage_entry +
  mu_provider :: uuid
  mu_secret :: string
  mu_model :: "string option"

record usage_aggregate = usage_entry +
  agg_providers :: "provider_usage list"
  agg_models :: "model_usage list"

definition empty_aggregate :: usage_aggregate where
  "empty_aggregate = \<lparr>
     request_count = 0, input_tokens = 0, output_tokens = 0, cache_read_tokens = 0,
     cache_creation_tokens = 0, estimated_cost_micros = 0, attempt_count = 0,
     completed_attempts = 0, successful_attempts = 0, ue_success_rate_bps = 0,
     ue_average_first_token = None, agg_providers = [], agg_models = []\<rparr>"

definition empty_provider :: "uuid \<times> string \<Rightarrow> provider_usage" where
  "empty_provider k = \<lparr>
     request_count = 0, input_tokens = 0, output_tokens = 0, cache_read_tokens = 0,
     cache_creation_tokens = 0, estimated_cost_micros = 0, attempt_count = 0,
     completed_attempts = 0, successful_attempts = 0, ue_success_rate_bps = 0,
     ue_average_first_token = None, pu_provider = fst k, pu_secret = snd k\<rparr>"

definition empty_model :: "uuid \<times> string \<times> string option \<Rightarrow> model_usage" where
  "empty_model k = \<lparr>
     request_count = 0, input_tokens = 0, output_tokens = 0, cache_read_tokens = 0,
     cache_creation_tokens = 0, estimated_cost_micros = 0, attempt_count = 0,
     completed_attempts = 0, successful_attempts = 0, ue_success_rate_bps = 0,
     ue_average_first_token = None, mu_provider = fst k, mu_secret = fst (snd k), mu_model = snd (snd k)\<rparr>"

definition add_row :: "(usage_row \<Rightarrow> u64) \<Rightarrow> usage_row \<Rightarrow> 'a usage_counts_scheme \<Rightarrow> 'a usage_counts_scheme" where
  "add_row cost row a =
    a\<lparr>request_count := sat_add (request_count a) 1,
      input_tokens := sat_add (input_tokens a) (row_input row),
      output_tokens := sat_add (output_tokens a) (row_output row),
      cache_read_tokens := sat_add (cache_read_tokens a) (row_cache_read row),
      cache_creation_tokens := sat_add (cache_creation_tokens a) (row_cache_creation row),
      estimated_cost_micros := sat_add (estimated_cost_micros a) (cost row)\<rparr>"

definition put_attempts :: "attempt_stats \<Rightarrow> 'a usage_entry_scheme \<Rightarrow> 'a usage_entry_scheme" where
  "put_attempts s a =
    a\<lparr>attempt_count := as_attempts s, completed_attempts := as_completed s, successful_attempts := as_successful s\<rparr>"

definition put_requests :: "request_stats \<Rightarrow> 'a usage_entry_scheme \<Rightarrow> 'a usage_entry_scheme" where
  "put_requests s a =
    a\<lparr>ue_success_rate_bps := request_success_rate s, ue_average_first_token := request_average_first_token s\<rparr>"

definition row_key :: "usage_row \<Rightarrow> uuid \<times> string" where
  "row_key row = (row_provider row, row_secret row)"

definition row_model_key :: "usage_row \<Rightarrow> uuid \<times> string \<times> string option" where
  "row_model_key row = (row_provider row, row_secret row, row_model row)"

section \<open>Summaries\<close>

text \<open>
  The maps the summary builds: an entry with the start of its latest row, and the statistics
  per key.  The two key types share the operations.
\<close>

record ('k, 'e) tally =
  tl_entries :: "('k, 'e \<times> int) hmap"
  tl_requests :: "('k, request_stats) hmap"
  tl_attempts :: "('k, attempt_stats) hmap"

definition no_tally :: "('k, 'e) tally" where
  "no_tally = \<lparr>tl_entries = [], tl_requests = [], tl_attempts = []\<rparr>"

definition tally_row ::
  "(usage_row \<Rightarrow> u64) \<Rightarrow> ('k \<Rightarrow> 'a usage_counts_scheme) \<Rightarrow> (usage_row \<Rightarrow> 'k) \<Rightarrow> usage_row
    \<Rightarrow> ('k, 'a usage_counts_scheme) tally \<Rightarrow> ('k, 'a usage_counts_scheme) tally" where
  "tally_row cost fresh key row t =
    t\<lparr>tl_entries := hm_update (key row) (fresh (key row), 0)
        (\<lambda>(e, last_started). (add_row cost row e, max last_started (row_started_at row))) (tl_entries t),
      tl_requests := hm_update (key row) no_requests (request_observe row) (tl_requests t)\<rparr>"

definition tally_attempt ::
  "('k \<Rightarrow> 'a usage_entry_scheme) \<Rightarrow> (attempt_row \<Rightarrow> 'k) \<Rightarrow> attempt_row
    \<Rightarrow> ('k, 'a usage_entry_scheme) tally \<Rightarrow> ('k, 'a usage_entry_scheme) tally" where
  "tally_attempt fresh key row t =
    (let k = key row;
         s = attempt_observe row (unwrap_or (hm_get (tl_attempts t) k) no_attempts)
     in t\<lparr>tl_attempts := hm_put k s (tl_attempts t),
          tl_entries := hm_update k (fresh k, 0)
            (\<lambda>(e, last_started). (put_attempts s e, max last_started (at_started_at row))) (tl_entries t)\<rparr>)"

text \<open>The entries, latest first, with the rates of their requests.\<close>

definition tally_result :: "('k, 'a usage_entry_scheme) tally \<Rightarrow> 'a usage_entry_scheme list" where
  "tally_result t =
    map fst (sort_key (\<lambda>(_, last_started). - last_started)
      (map (\<lambda>(k, e, last_started).
         (case hm_get (tl_requests t) k of None \<Rightarrow> e | Some s \<Rightarrow> put_requests s e, last_started))
        (tl_entries t)))"

definition select_rows :: "int option \<Rightarrow> usage_row list \<Rightarrow> usage_row list" where
  "select_rows since rows =
    sort_key row_started_at (filter (\<lambda>r. is_none_or since (\<lambda>s. s \<le> row_started_at r)) rows)"

definition select_attempts :: "int option \<Rightarrow> attempt_row list \<Rightarrow> attempt_row list" where
  "select_attempts since rows =
    sort_key at_started_at (filter (\<lambda>r. is_none_or since (\<lambda>s. s \<le> at_started_at r)) rows)"

definition summary_since ::
  "int option \<Rightarrow> (usage_row \<Rightarrow> u64) \<Rightarrow> usage_row list \<Rightarrow> attempt_row list \<Rightarrow> usage_aggregate" where
  "summary_since since cost rows attempts =
    (let rs = select_rows since rows;
         ats = select_attempts since attempts;
         providers = fold (tally_attempt empty_provider (\<lambda>r. (at_provider r, at_secret r))) ats
           (fold (tally_row cost empty_provider row_key) rs no_tally);
         models = fold (tally_attempt empty_model (\<lambda>r. (at_provider r, at_secret r, at_model r))) ats
           (fold (tally_row cost empty_model row_model_key) rs no_tally);
         aggregate = fold (add_row cost) rs empty_aggregate
     in put_requests (fold request_observe rs no_requests)
          (put_attempts (fold attempt_observe ats no_attempts) aggregate)
        \<lparr>agg_providers := tally_result providers, agg_models := tally_result models\<rparr>)"

section \<open>Time series\<close>

datatype granularity = Hour | Day

record series_model = usage_counts +
  sm_model :: "string option"

record series_point = usage_counts +
  sp_date :: string
  sp_models :: "series_model list"

definition new_series_model :: "(usage_row \<Rightarrow> u64) \<Rightarrow> usage_row \<Rightarrow> series_model" where
  "new_series_model cost row = \<lparr>
     request_count = 1, input_tokens = row_input row, output_tokens = row_output row,
     cache_read_tokens = row_cache_read row, cache_creation_tokens = row_cache_creation row,
     estimated_cost_micros = cost row, sm_model = row_model row\<rparr>"

definition empty_point :: "string \<Rightarrow> series_point" where
  "empty_point date = \<lparr>
     request_count = 0, input_tokens = 0, output_tokens = 0, cache_read_tokens = 0,
     cache_creation_tokens = 0, estimated_cost_micros = 0, sp_date = date, sp_models = []\<rparr>"

definition point_row :: "(usage_row \<Rightarrow> u64) \<Rightarrow> usage_row \<Rightarrow> series_point \<Rightarrow> series_point" where
  "point_row cost row p =
    (let p1 = add_row cost row p in
     p1\<lparr>sp_models :=
       (case position (\<lambda>m. sm_model m = row_model row) (sp_models p1) of
          Some i \<Rightarrow> (sp_models p1)[i := add_row cost row (sp_models p1 ! i)]
        | None \<Rightarrow> sp_models p1 @ [new_series_model cost row])\<rparr>)"

definition total_tokens :: "'a usage_counts_scheme \<Rightarrow> u64" where
  "total_tokens a =
    sat_add (sat_add (sat_add (input_tokens a) (output_tokens a)) (cache_read_tokens a)) (cache_creation_tokens a)"

text \<open>
  The buckets in the order of a \<open>BTreeMap\<close>; \<open>date_of\<close> is the local date or hour the query gives
  a row.  \<open>by_name\<close> is the order of optional model names, used between equal totals.
\<close>

definition series_sort :: "(string option \<Rightarrow> nat) \<Rightarrow> series_model list \<Rightarrow> series_model list" where
  "series_sort by_name ms = sort_key (\<lambda>m. 2 ^ 64 - 1 - unat (total_tokens m)) (sort_key (\<lambda>m. by_name (sm_model m)) ms)"

definition timeseries ::
  "(string option \<Rightarrow> nat) \<Rightarrow> (string \<Rightarrow> nat) \<Rightarrow> (usage_row \<Rightarrow> string) \<Rightarrow> int \<Rightarrow> (usage_row \<Rightarrow> u64)
    \<Rightarrow> usage_row list \<Rightarrow> series_point list" where
  "timeseries by_name by_date date_of cutoff cost rows =
    map (\<lambda>(_, p). p\<lparr>sp_models := series_sort by_name (sp_models p)\<rparr>)
      (sort_key (\<lambda>(d, _). by_date d)
        (fold (\<lambda>row. hm_update (date_of row) (empty_point (date_of row)) (point_row cost row))
          (select_rows (Some cutoff) rows) []))"

text \<open>Offsets are clamped to a day; divisions round down.\<close>

definition clamp_offset :: "int \<Rightarrow> int" where
  "clamp_offset minutes = max (- 1440) (min minutes 1440) * 60"

definition usage_window_start :: "u32 \<Rightarrow> int \<Rightarrow> granularity \<Rightarrow> int \<Rightarrow> int" where
  "usage_window_start days minutes g now =
    (let d = int (unat (at_least_one days));
         offset = clamp_offset minutes
     in case g of
       Day \<Rightarrow> local_day_start now offset - (d - 1) * 86400
     | Hour \<Rightarrow> ((now + offset) div 3600 * 3600 - offset) - (d * 24 - 1) * 3600)"

section \<open>Sums over the entries of a map\<close>

definition hm_sum :: "('v \<Rightarrow> nat) \<Rightarrow> ('k, 'v) hmap \<Rightarrow> nat" where
  "hm_sum g m = sum_list (map (\<lambda>p. g (snd p)) m)"

lemma hm_sum_put:
  "hm_wf m \<Longrightarrow> hm_sum g (hm_put k v m) + (case hm_get m k of None \<Rightarrow> 0 | Some w \<Rightarrow> g w) = hm_sum g m + g v"
proof (induction m)
  case Nil
  show ?case by (simp add: hm_sum_def hm_put_def hm_get_def)
next
  case (Cons e m)
  obtain j w where e: "e = (j, w)" by (cases e)
  show ?case
  proof (cases "j = k")
    case True
    then have "map_of m k = None" using Cons.prems by (auto simp: hm_wf_def e map_of_eq_None_iff)
    with True show ?thesis by (simp add: hm_sum_def hm_put_def hm_get_def e)
  next
    case False
    with Cons show ?thesis by (simp add: hm_sum_def hm_put_def hm_get_def hm_wf_def e)
  qed
qed

lemma hm_sum_ge: "hm_get m k = Some v \<Longrightarrow> g v \<le> hm_sum g m"
  by (induction m) (auto simp: hm_sum_def hm_get_def split: if_splits)

lemma hm_sum_update:
  assumes "hm_wf m" and "g d = 0"
    and "\<And>v. g v \<le> hm_sum g m \<Longrightarrow> g (f v) = g v + n"
  shows "hm_sum g (hm_update k d f m) = hm_sum g m + n"
  using hm_sum_put [OF assms(1), of g k "f (case hm_get m k of None \<Rightarrow> d | Some v \<Rightarrow> v)"]
    hm_sum_ge [of m k _ g] assms(2,3)
  by (cases "hm_get m k") (auto simp: hm_update_def)

section \<open>Every row is counted once\<close>

text \<open>
  A measure \<open>g\<close> of an entry that a row raises by \<open>w row\<close> while it stays below \<open>2 ^ 64\<close>, and
  that neither attempts nor rates touch.
\<close>

definition additive :: "(usage_row \<Rightarrow> u64) \<Rightarrow> (usage_row \<Rightarrow> nat) \<Rightarrow> ('a usage_counts_scheme \<Rightarrow> nat) \<Rightarrow> bool" where
  "additive cost w g = (\<forall>row e. g e + w row < 2 ^ 64 \<longrightarrow> g (add_row cost row e) = g e + w row)"

lemma additive_request_count: "additive cost (\<lambda>_. 1) (\<lambda>e. unat (request_count e))"
  by (simp add: additive_def add_row_def unat_sat_add)

lemma additive_cost: "additive cost (\<lambda>row. unat (cost row)) (\<lambda>e. unat (estimated_cost_micros e))"
  by (simp add: additive_def add_row_def unat_sat_add)

lemma fold_add_row:
  assumes "additive cost w g"
  shows "g a + sum_list (map w rs) < 2 ^ 64 \<Longrightarrow> g (fold (add_row cost) rs a) = g a + sum_list (map w rs)"
proof (induction rs arbitrary: a)
  case Nil
  then show ?case by simp
next
  case (Cons r rs)
  have "g (add_row cost r a) = g a + w r" using assms Cons.prems by (simp add: additive_def)
  with Cons show ?case by simp
qed

lemma fold_tally_row:
  assumes add: "additive cost w g" and fresh: "\<And>k. g (fresh k) = 0"
  shows "hm_wf (tl_entries t) \<Longrightarrow> hm_sum (\<lambda>v. g (fst v)) (tl_entries t) + sum_list (map w rs) < 2 ^ 64 \<Longrightarrow>
    hm_wf (tl_entries (fold (tally_row cost fresh key) rs t))
    \<and> hm_sum (\<lambda>v. g (fst v)) (tl_entries (fold (tally_row cost fresh key) rs t))
      = hm_sum (\<lambda>v. g (fst v)) (tl_entries t) + sum_list (map w rs)"
proof (induction rs arbitrary: t)
  case Nil
  then show ?case by simp
next
  case (Cons r rs)
  have low: "g (fst v) + w r < 2 ^ 64" if "g (fst v) \<le> hm_sum (\<lambda>v. g (fst v)) (tl_entries t)" for v :: "'a usage_counts_scheme \<times> int"
    using that Cons.prems(2) by simp
  have step: "hm_sum (\<lambda>v. g (fst v)) (tl_entries (tally_row cost fresh key r t)) = hm_sum (\<lambda>v. g (fst v)) (tl_entries t) + w r"
    unfolding tally_row_def tally.simps using add low Cons.prems(1) fresh
    by (simp, intro hm_sum_update) (auto simp: additive_def simp del: One_nat_def split: prod.split)
  have wf: "hm_wf (tl_entries (tally_row cost fresh key r t))"
    using Cons.prems by (simp add: tally_row_def)
  have "hm_sum (\<lambda>v. g (fst v)) (tl_entries (tally_row cost fresh key r t)) + sum_list (map w rs) < 2 ^ 64"
    using Cons.prems step by simp
  from Cons.IH [OF wf this] step show ?case by simp
qed

lemma fold_tally_attempt:
  assumes fresh: "\<And>k. g (fresh k) = 0" and put: "\<And>s e. g (put_attempts s e) = g e"
  shows "hm_wf (tl_entries t) \<Longrightarrow> hm_wf (tl_entries (fold (tally_attempt fresh key) ats t))
    \<and> hm_sum (\<lambda>v. g (fst v)) (tl_entries (fold (tally_attempt fresh key) ats t)) = hm_sum (\<lambda>v. g (fst v)) (tl_entries t)"
proof (induction ats arbitrary: t)
  case Nil
  then show ?case by simp
next
  case (Cons r ats)
  have "hm_sum (\<lambda>v. g (fst v)) (tl_entries (tally_attempt fresh key r t)) = hm_sum (\<lambda>v. g (fst v)) (tl_entries t) + 0"
    unfolding tally_attempt_def Let_def
    using Cons.prems fresh put by (simp, intro hm_sum_update [where n = 0, simplified]) (auto split: prod.split)
  moreover have "hm_wf (tl_entries (tally_attempt fresh key r t))"
    using Cons.prems by (simp add: tally_attempt_def Let_def)
  ultimately show ?case using Cons.IH [of "tally_attempt fresh key r t"] by simp
qed

lemma sum_tally_result:
  assumes "\<And>s e. g (put_requests s e) = (g e :: nat)"
  shows "sum_list (map g (tally_result t)) = hm_sum (\<lambda>v. g (fst v)) (tl_entries t)"
proof -
  define f where "f = (\<lambda>(k, e, l). (case hm_get (tl_requests t) k of None \<Rightarrow> e | Some s \<Rightarrow> put_requests s (e :: 'a usage_entry_scheme), l :: int))"
  have g: "g (fst (f p)) = g (fst (snd p))" for p
    by (cases p) (simp add: f_def assms split: option.split)
  have sums: "sum_list (map h (sort_key k xs)) = sum_list (map h xs)" for h :: "_ \<Rightarrow> nat" and k :: "_ \<Rightarrow> int" and xs :: "('a usage_entry_scheme \<times> int) list"
    by (subst (1 2) sum_mset_sum_list [symmetric]) (simp only: mset_map mset_sort)
  have "sum_list (map g (map fst (sort_key k (map f es)))) = hm_sum (\<lambda>v. g (fst v)) es" for k :: "_ \<Rightarrow> int" and es
  proof -
    have "sum_list (map g (map fst (sort_key k (map f es)))) = sum_list (map (\<lambda>p. g (fst p)) (map f es))"
      using sums [of "\<lambda>p. g (fst p)"] by (simp only: map_map comp_def)
    also have "\<dots> = hm_sum (\<lambda>v. g (fst v)) es" by (simp only: hm_sum_def map_map comp_def g)
    finally show ?thesis .
  qed
  then show ?thesis unfolding tally_result_def f_def .
qed

lemma summary_sum:
  assumes add: "additive cost w g" and w: "sum_list (map w (select_rows since rows)) < 2 ^ 64"
    and fresh: "\<And>k. g (fresh k) = 0"
    and put: "\<And>s e. g (put_attempts s e) = g e" "\<And>s e. g (put_requests s e) = g e"
  shows "sum_list (map g (tally_result (fold (tally_attempt fresh akey) ats
      (fold (tally_row cost fresh key) (select_rows since rows) no_tally))))
    = sum_list (map w (select_rows since rows))"
proof -
  let ?t = "fold (tally_row cost fresh key) (select_rows since rows) no_tally"
  have "hm_wf (tl_entries ?t) \<and> hm_sum (\<lambda>v. g (fst v)) (tl_entries ?t) = sum_list (map w (select_rows since rows))"
    using fold_tally_row [OF add, of fresh no_tally "select_rows since rows" key, OF fresh] w
    by (simp add: no_tally_def hm_sum_def)
  then show ?thesis
    by (simp add: sum_tally_result [of g, OF put(2)] fold_tally_attempt [of g fresh ?t akey ats, OF fresh put(1)])
qed

lemma sum_ones: "sum_list (map (\<lambda>_. 1) xs) = length xs"
  by (induction xs) auto

lemma split_total:
  "unat (sat_sub (sat_sub (a :: u64) b) c) + unat b + unat c = max (unat a) (unat b + unat c)"
  by (simp add: unat_sat_sub max_def)

section \<open>Properties\<close>

text \<open>
  No token is billed twice: for the OpenAI formats the uncached input, the cache reads and
  the cache writes add up to the reported input (or to the cached parts alone where a vendor
  reports more of them), and the hour-long writes are part of the writes in every format.
\<close>

theorem tokens_counted_once:
  "let u = extract_usage p payload; usage = unwrap_or (json_get payload ''usage'') payload in
    (p = AnthropicMessages \<or>
      unat (tu_input u) + unat (tu_cache_read u) + unat (tu_cache_creation u) =
        max (unat (max (number (json_get usage ''input_tokens'')) (number (json_get usage ''prompt_tokens''))))
          (unat (tu_cache_read u) + unat (tu_cache_creation u)))
    \<and> tu_cache_creation_1h u \<le> tu_cache_creation u"
  unfolding extract_usage_def Let_def
  by (cases p) (simp_all only: proxy_protocol.case proxy_protocol.distinct token_usage.simps split_total simp_thms min.cobounded2)

text \<open>
  C35. A summary counts every stored request once and adds its cost once: the providers'
  request counts, and the models', add up to the number of rows of the window, which is also
  the total, and likewise for the costs, while these sums fit in 64 bits.
\<close>

theorem summary_is_conservative:
  assumes "length (select_rows since rows) < 2 ^ 64"
    and "sum_list (map (\<lambda>r. unat (cost r)) (select_rows since rows)) < 2 ^ 64"
  shows "let a = summary_since since cost rows attempts;
      n = length (select_rows since rows); c = sum_list (map (\<lambda>r. unat (cost r)) (select_rows since rows)) in
    unat (request_count a) = n \<and> unat (estimated_cost_micros a) = c
    \<and> sum_list (map (\<lambda>e. unat (request_count e)) (agg_providers a)) = n
    \<and> sum_list (map (\<lambda>e. unat (request_count e)) (agg_models a)) = n
    \<and> sum_list (map (\<lambda>e. unat (estimated_cost_micros e)) (agg_providers a)) = c
    \<and> sum_list (map (\<lambda>e. unat (estimated_cost_micros e)) (agg_models a)) = c"
proof -
  let ?rs = "select_rows since rows"
  have ones: "sum_list (map (\<lambda>_. 1 :: nat) ?rs) = length ?rs" by (rule sum_ones)
  have n: "sum_list (map (\<lambda>_. 1) ?rs) < (2 ^ 64 :: nat)" using assms(1) ones by simp
  note frame = put_attempts_def put_requests_def empty_provider_def empty_model_def empty_aggregate_def
  have "unat (request_count (fold (add_row cost) ?rs empty_aggregate)) = length ?rs"
    using fold_add_row [OF additive_request_count, of empty_aggregate ?rs cost] n ones by (simp add: frame)
  moreover have "unat (estimated_cost_micros (fold (add_row cost) ?rs empty_aggregate)) = sum_list (map (\<lambda>r. unat (cost r)) ?rs)"
    using fold_add_row [OF additive_cost, of empty_aggregate cost ?rs] assms(2) by (simp add: frame)
  moreover note summary_sum [OF additive_request_count n, unfolded ones, of empty_provider]
    summary_sum [OF additive_request_count n, unfolded ones, of empty_model]
    summary_sum [OF additive_cost assms(2), of empty_provider] summary_sum [OF additive_cost assms(2), of empty_model]
  ultimately show ?thesis
    by (simp add: summary_since_def Let_def frame)
qed

definition sample_row :: usage_row where
  "sample_row = \<lparr>
     row_started_at = 100, row_provider = 2, row_secret = ''a'', row_model = Some ''m'', row_input = 10,
     row_output = 4, row_cache_read = 0, row_cache_creation = 0, row_cache_creation_1h = 0,
     row_status = 200, row_first_token = Some 30\<rparr>"

theorem summary_is_conservative_witness:
  "unat (request_count (summary_since None (\<lambda>_. 5) [sample_row] [])) = 1"
  using summary_is_conservative [of None "[sample_row]" "\<lambda>_. 5" "[]"]
  by (simp add: Let_def select_rows_def)

text \<open>
  A usage window starts on a boundary of the caller's local day or hour, contains the
  present, and spans at most the days asked for, whatever the time zone.
\<close>

theorem window_start_aligned:
  "let start = usage_window_start days minutes g now; d = int (unat (at_least_one days));
      unit = (case g of Day \<Rightarrow> 86400 | Hour \<Rightarrow> 3600) in
    (start + clamp_offset minutes) mod unit = 0 \<and> start \<le> now \<and> now - start < d * 86400"
proof -
  have d: "1 \<le> int (unat (at_least_one days))" using at_least_one_pos [of days] by linarith
  have key: "x div u * u \<le> x \<and> x < x div u * u + u" if "0 < u" for x u :: int
    using that pos_mod_bound [of u x] pos_mod_sign [of u x] div_mult_mod_eq [of x u] by linarith
  show ?thesis
  proof (cases g)
    case Day
    with key [of 86400 "now + clamp_offset minutes"] d show ?thesis
      by (simp add: usage_window_start_def local_day_start_def Let_def algebra_simps mod_eq_0_iff_dvd dvd_diff)
  next
    case Hour
    with key [of 3600 "now + clamp_offset minutes"] d show ?thesis
      by (simp add: usage_window_start_def Let_def algebra_simps mod_eq_0_iff_dvd dvd_diff)
  qed
qed

end
