(* ===== verification/Sse.thy ===== *)
theory Sse
  imports Accounting
begin

text \<open>
  Server-sent events (\<open>crates/aipass-proxy/src/sse.rs\<close>): finding the end of an event, reading
  its name and data, and deciding whether it reports an error, output or completion; the
  prefetch that decides whether a response may be committed to the client, and the observation
  of a stream chunk by chunk.  The JSON parser is an argument; an upstream body is the list of
  its chunks, a transport error ending it.
\<close>

section \<open>Lines and events\<close>

definition LF :: char where "LF = CHR 0x0A"
definition CR :: char where "CR = CHR 0x0D"

text \<open>\<open>windows(n).position(|w| w == p)\<close>.\<close>

fun find_part :: "'a list \<Rightarrow> 'a list \<Rightarrow> nat option" where
  "find_part p [] = None"
| "find_part p (x # xs) =
     (if starts_with p (x # xs) then Some 0 else map_option Suc (find_part p xs))"

definition sse_event_boundary_end :: "bytes \<Rightarrow> nat option" where
  "sse_event_boundary_end s =
    (let line_feed = map_option (\<lambda>i. i + 2) (find_part [LF, LF] s);
         carriage_return = map_option (\<lambda>i. i + 3) (find_part [LF, CR, LF] s)
     in case (line_feed, carriage_return) of
          (Some l, Some r) \<Rightarrow> Some (min l r)
        | (Some e, None) \<Rightarrow> Some e
        | (None, e) \<Rightarrow> e)"

definition is_ascii_whitespace :: "char \<Rightarrow> bool" where
  "is_ascii_whitespace c = (byte_val c \<in> {9, 10, 12, 13, 32})"

definition trim_ascii :: "bytes \<Rightarrow> bytes" where
  "trim_ascii s = rev (dropWhile is_ascii_whitespace (rev (dropWhile is_ascii_whitespace s)))"

definition strip_cr :: "bytes \<Rightarrow> bytes" where
  "strip_cr line = unwrap_or (strip_suffix [CR] line) line"

definition sse_event_name :: "bytes \<Rightarrow> bytes option" where
  "sse_event_name ev =
    find_map (\<lambda>line. map_option trim_ascii (strip_prefix ''event:'' (strip_cr line))) (split_on LF ev)"

definition data_value :: "bytes \<Rightarrow> bytes option" where
  "data_value line =
    (if line = ''data'' then Some []
     else map_option (\<lambda>v. unwrap_or (strip_prefix '' '' v) v) (strip_prefix ''data:'' line))"

definition sse_event_data :: "bytes \<Rightarrow> bytes option" where
  "sse_event_data ev =
    (case filter_map (\<lambda>line. data_value (strip_cr line)) (split_on LF ev) of
       [] \<Rightarrow> None
     | vs \<Rightarrow> Some (join_with [LF] vs))"

section \<open>What an event reports\<close>

definition is_upstream_error_payload :: "(bytes \<Rightarrow> json option) \<Rightarrow> bytes \<Rightarrow> bool" where
  "is_upstream_error_payload parse payload =
    is_some_and (parse payload) (\<lambda>value.
      is_some_and (json_get value ''error'') (\<lambda>e. \<not> is_null e)
      \<or> is_some_and (get_str value ''type'') (\<lambda>kind. kind = ''error'' \<or> ends_with ''.failed'' kind)
      \<or> get_str value ''status'' = Some ''failed''
      \<or> is_some_and (json_pointer value [''response'', ''error'']) (\<lambda>e. \<not> is_null e)
      \<or> Option.bind (json_pointer value [''response'', ''status'']) as_str = Some ''failed'')"

definition sse_event_reports_error :: "(bytes \<Rightarrow> json option) \<Rightarrow> bytes \<Rightarrow> bool" where
  "sse_event_reports_error parse ev =
    (is_some_and (sse_event_name ev) (\<lambda>name. eq_ignore_ascii_case name ''error'' \<or> ends_with ''.failed'' name)
     \<or> is_some_and (sse_event_data ev) (is_upstream_error_payload parse))"

fun json_value_has_output :: "json \<Rightarrow> bool" where
  "json_value_has_output JNull = False"
| "json_value_has_output (JBool _) = True"
| "json_value_has_output (JNumber _) = True"
| "json_value_has_output (JString s) = (s \<noteq> '''')"
| "json_value_has_output (JArray vs) = (vs \<noteq> [])"
| "json_value_has_output (JObject ms) = (ms \<noteq> [])"

definition has_output_at :: "json \<Rightarrow> string \<Rightarrow> bool" where
  "has_output_at v k = is_some_and (json_get v k) json_value_has_output"

definition responses_output :: "json \<Rightarrow> bool" where
  "responses_output value =
    (case get_str value ''type'' of
       None \<Rightarrow> True
     | Some kind \<Rightarrow>
         if kind = ''response.output_item.added'' then
           (let item = json_index value ''item'' in
            is_some_and (as_str (json_index item ''type'')) (\<lambda>k. ends_with ''_call'' k)
            \<or> has_output_at item ''encrypted_content'')
         else if kind \<in> {''response.created'', ''response.in_progress'', ''response.output_item.added'',
             ''response.content_part.added''} then False
         else if ends_with ''.delta'' kind then has_output_at value ''delta''
         else is_some_and (or_else (json_get value ''text'') (json_get value ''content'')) json_value_has_output)"

definition chat_output :: "json \<Rightarrow> bool" where
  "chat_output value =
    (case Option.bind (json_get value ''choices'') as_array of
       None \<Rightarrow> json_get value ''usage'' = None
     | Some choices \<Rightarrow>
         list_ex (\<lambda>choice.
           case or_else (json_get choice ''delta'') (json_get choice ''message'') of
             None \<Rightarrow> False
           | Some delta \<Rightarrow>
               list_ex (has_output_at delta)
                 [''content'', ''reasoning_content'', ''reasoning'', ''refusal'', ''tool_calls'', ''function_call''])
           choices)"

definition anthropic_output :: "json \<Rightarrow> bool" where
  "anthropic_output value =
    (case get_str value ''type'' of
       None \<Rightarrow> True
     | Some kind \<Rightarrow>
         if kind \<in> {''message_start'', ''message_delta'', ''message_stop''} then False
         else if kind = ''content_block_start'' then
           (let block = json_index value ''content_block'' in
            is_some_and (as_str (json_index block ''type''))
              (\<lambda>k. k \<in> {''tool_use'', ''server_tool_use'', ''redacted_thinking''})
            \<or> list_ex (has_output_at block) [''text'', ''thinking'', ''data''])
         else if kind = ''content_block_delta'' then has_output_at value ''delta''
         else True)"

definition sse_event_reports_output :: "(bytes \<Rightarrow> json option) \<Rightarrow> proxy_protocol \<Rightarrow> bytes \<Rightarrow> bool" where
  "sse_event_reports_output parse p ev =
    (case sse_event_data ev of
       None \<Rightarrow> False
     | Some raw \<Rightarrow>
         let d = trim_ascii raw in
         if d = [] \<or> d = ''[DONE]'' then False
         else (case parse d of
             None \<Rightarrow> True
           | Some value \<Rightarrow>
               (case p of
                  OpenAiResponses \<Rightarrow> responses_output value
                | OpenAiChatCompletions \<Rightarrow> chat_output value
                | AnthropicMessages \<Rightarrow> anthropic_output value)))"

definition is_beat :: "string \<Rightarrow> bool" where
  "is_beat name = (eq_ignore_ascii_case name ''ping'' \<or> eq_ignore_ascii_case name ''heartbeat'')"

definition sse_event_is_heartbeat :: "(bytes \<Rightarrow> json option) \<Rightarrow> bytes \<Rightarrow> bool" where
  "sse_event_is_heartbeat parse ev =
    (is_some_and (sse_event_name ev) is_beat
     \<or> is_some_and (Option.bind (sse_event_data ev) parse) (\<lambda>v. is_some_and (get_str v ''type'') is_beat))"

definition reports_completion :: "proxy_protocol \<Rightarrow> json \<Rightarrow> bool" where
  "reports_completion p value =
    (case p of
       OpenAiResponses \<Rightarrow>
         is_some_and (get_str value ''type'') (\<lambda>k. k \<in> {''response.completed'', ''response.incomplete''})
         \<or> is_some_and (Option.bind (json_pointer value [''response'', ''status'']) as_str)
             (\<lambda>s. s \<in> {''completed'', ''incomplete''})
     | OpenAiChatCompletions \<Rightarrow>
         is_some_and (Option.bind (json_get value ''choices'') as_array)
           (\<lambda>choices. choices \<noteq> []
              \<and> list_all (\<lambda>c. is_some_and (json_get c ''finish_reason'') (\<lambda>r. \<not> is_null r)) choices)
     | AnthropicMessages \<Rightarrow> get_str value ''type'' = Some ''message_stop'')"

definition sse_event_reports_completion :: "(bytes \<Rightarrow> json option) \<Rightarrow> proxy_protocol \<Rightarrow> bytes \<Rightarrow> bool" where
  "sse_event_reports_completion parse p ev =
    (case sse_event_data ev of
       None \<Rightarrow> False
     | Some d \<Rightarrow>
         d = ''[DONE]'' \<and> p \<noteq> AnthropicMessages \<or> is_some_and (parse d) (reports_completion p))"

definition sse_event_is_terminal :: "(bytes \<Rightarrow> json option) \<Rightarrow> proxy_protocol \<Rightarrow> bytes \<Rightarrow> bool" where
  "sse_event_is_terminal parse p ev =
    (case sse_event_data ev of
       None \<Rightarrow> False
     | Some d \<Rightarrow>
         if p = OpenAiChatCompletions then trim_ascii d = ''[DONE]''
         else sse_event_reports_completion parse p ev)"

text \<open>The media type before any parameter.\<close>

definition is_event_stream :: "string \<Rightarrow> bool" where
  "is_event_stream content_type =
    eq_ignore_ascii_case (trim (hd (split_on (CHR '';'') content_type))) ''text/event-stream''"

section \<open>Splitting a buffer\<close>

lemma find_part_Some: "find_part p s = Some i \<Longrightarrow> starts_with p (drop i s) \<and> i < length s"
  by (induction s arbitrary: i) (auto split: if_splits)

lemma find_part_length: "find_part p s = Some i \<Longrightarrow> i + length p \<le> length s"
  using find_part_Some [of p s i] by (auto simp: starts_with_def dest: arg_cong [where f = length])

lemma starts_with_append_left: "starts_with p s \<Longrightarrow> starts_with p (s @ t)"
  by (auto simp: starts_with_def dest: arg_cong [where f = length])

lemma starts_with_appendD: "starts_with p (s @ t) \<Longrightarrow> length p \<le> length s \<Longrightarrow> starts_with p s"
  by (simp add: starts_with_def)

lemma find_part_append: "find_part p s = Some i \<Longrightarrow> find_part p (s @ t) = Some i"
proof (induction s arbitrary: i)
  case Nil
  then show ?case by simp
next
  case (Cons x s)
  show ?case
  proof (cases "starts_with p (x # s)")
    case True
    then show ?thesis using Cons.prems starts_with_append_left [of p "x # s" t] by simp
  next
    case False
    with Cons.prems obtain j where j: "find_part p s = Some j" "i = Suc j" by auto
    have "\<not> starts_with p (x # s @ t)"
      using False starts_with_appendD [of p "x # s" t] find_part_length [OF j(1)] by auto
    with Cons.IH [OF j(1)] j(2) show ?thesis by simp
  qed
qed

lemma find_part_new: "p \<noteq> [] \<Longrightarrow> find_part p s = None \<Longrightarrow> find_part p (s @ t) = Some i \<Longrightarrow> length s < i + length p"
proof (induction s arbitrary: i)
  case Nil
  then show ?case using find_part_Some [of p t i] by (cases p; cases t) (auto simp: starts_with_def)
next
  case (Cons x s)
  then have no: "\<not> starts_with p (x # s)" by (auto split: if_splits)
  show ?case
  proof (cases "starts_with p (x # s @ t)")
    case True
    with Cons.prems have "i = 0" by simp
    moreover have "length (x # s) < length p"
      using no True starts_with_appendD [of p "x # s" t] by (cases "length p \<le> length (x # s)") auto
    ultimately show ?thesis by simp
  next
    case False
    with Cons.prems no obtain j where "find_part p (s @ t) = Some j" "i = Suc j" "find_part p s = None" by auto
    with Cons.IH [of j] Cons.prems(1) show ?thesis by simp
  qed
qed

lemma boundary_bounds: "sse_event_boundary_end s = Some n \<Longrightarrow> 0 < n \<and> n \<le> length s"
  using find_part_length [of "[LF, LF]" s] find_part_length [of "[LF, CR, LF]" s]
  by (auto simp: sse_event_boundary_end_def Let_def min_def split: option.splits)

text \<open>An event that has ended does not change when more bytes arrive.\<close>

lemma boundary_append: "sse_event_boundary_end s = Some n \<Longrightarrow> sse_event_boundary_end (s @ t) = Some n"
  using find_part_append [of "[LF, LF]" s _ t] find_part_append [of "[LF, CR, LF]" s _ t]
    find_part_new [of "[LF, LF]" s t] find_part_new [of "[LF, CR, LF]" s t]
    find_part_length [of "[LF, LF]" s] find_part_length [of "[LF, CR, LF]" s]
  by (cases "find_part [LF, LF] s"; cases "find_part [LF, CR, LF] s";
      cases "find_part [LF, LF] (s @ t)"; cases "find_part [LF, CR, LF] (s @ t)")
     (fastforce simp: sse_event_boundary_end_def Let_def min_def)+

function split_events :: "bytes \<Rightarrow> bytes list \<times> bytes" where
  "split_events s =
    (case sse_event_boundary_end s of
       None \<Rightarrow> ([], s)
     | Some n \<Rightarrow> (case split_events (drop n s) of (es, r) \<Rightarrow> (take n s # es, r)))"
  by pat_completeness auto
termination
  by (relation "measure length") (auto dest: boundary_bounds)

declare split_events.simps [simp del]

lemma split_events_None: "sse_event_boundary_end s = None \<Longrightarrow> split_events s = ([], s)"
  by (simp add: split_events.simps)

lemma split_events_Some:
  "sse_event_boundary_end s = Some n \<Longrightarrow>
    split_events s = (take n s # fst (split_events (drop n s)), snd (split_events (drop n s)))"
  by (subst split_events.simps) (simp split: prod.split)

lemma split_events_concat: "concat (fst (split_events s)) @ snd (split_events s) = s"
proof (induction s rule: split_events.induct)
  case (1 s)
  show ?case
    by (cases "sse_event_boundary_end s") (simp_all add: split_events_None split_events_Some 1)
qed

lemma split_events_rest: "sse_event_boundary_end (snd (split_events s)) = None"
proof (induction s rule: split_events.induct)
  case (1 s)
  show ?case
    by (cases "sse_event_boundary_end s") (simp_all add: split_events_None split_events_Some 1)
qed

lemma split_events_append:
  "split_events (s @ t) =
    (fst (split_events s) @ fst (split_events (snd (split_events s) @ t)), snd (split_events (snd (split_events s) @ t)))"
proof (induction s rule: split_events.induct)
  case (1 s)
  show ?case
  proof (cases "sse_event_boundary_end s")
    case None
    then show ?thesis by (simp add: split_events_None)
  next
    case (Some n)
    have "n \<le> length s" using boundary_bounds [OF Some] by simp
    then show ?thesis
      by (simp add: split_events_Some [OF boundary_append [OF Some]] split_events_Some [OF Some] 1 [OF Some])
  qed
qed

section \<open>Whole streams\<close>

definition stream_reports_error :: "(bytes \<Rightarrow> json option) \<Rightarrow> bytes \<Rightarrow> bool" where
  "stream_reports_error parse s =
    (case split_events s of (es, rest) \<Rightarrow>
       list_ex (sse_event_reports_error parse) es \<or> rest \<noteq> [] \<and> sse_event_reports_error parse rest)"

definition stream_reports_completion :: "(bytes \<Rightarrow> json option) \<Rightarrow> proxy_protocol \<Rightarrow> bytes \<Rightarrow> bool" where
  "stream_reports_completion parse p s =
    (case split_events s of (es, rest) \<Rightarrow>
       list_ex (sse_event_reports_completion parse p) es \<or> rest \<noteq> [] \<and> sse_event_reports_completion parse p rest)"

definition stream_reports_output :: "(bytes \<Rightarrow> json option) \<Rightarrow> proxy_protocol \<Rightarrow> bytes \<Rightarrow> bool" where
  "stream_reports_output parse p s =
    (case split_events s of (es, rest) \<Rightarrow>
       list_ex (\<lambda>ev. \<not> sse_event_reports_error parse ev \<and> \<not> sse_event_is_heartbeat parse ev
           \<and> sse_event_reports_output parse p ev)
         (es @ (if rest = [] then [] else [rest])))"

text \<open>The body of a response: its chunks, and the transport error that may end it.\<close>

datatype body_item = Chunk bytes | BodyError string

definition MAX_BUFFERED_RESPONSE_BYTES :: nat where
  "MAX_BUFFERED_RESPONSE_BYTES = 64 * 1024 * 1024"

fun collect_from :: "bytes \<Rightarrow> body_item list \<Rightarrow> string + bytes" where
  "collect_from buffered src =
     (if MAX_BUFFERED_RESPONSE_BYTES < length buffered
      then Inl ''upstream response exceeds proxy buffer limit''
      else case src of
        [] \<Rightarrow> Inr buffered
      | Chunk c # rest \<Rightarrow> collect_from (buffered @ c) rest
      | BodyError e # rest \<Rightarrow> Inl e)"

definition collect_upstream_body :: "bytes option \<Rightarrow> body_item list \<Rightarrow> string + bytes" where
  "collect_upstream_body first_chunk src = collect_from (unwrap_or first_chunk []) src"

section \<open>The prefetch\<close>

record prefetched_sse =
  pf_bytes :: bytes
  pf_first_token :: bool

record prefetch_error =
  pe_message :: string
  pe_confirmed :: bool

text \<open>The events of the buffer that are complete, in order; \<open>Undecided\<close> keeps what is not inspected yet.\<close>

datatype scan_result = Ready bool | ErrorEvent | Undecided bytes

function prefetch_scan :: "(bytes \<Rightarrow> json option) \<Rightarrow> proxy_protocol \<Rightarrow> bytes \<Rightarrow> scan_result" where
  "prefetch_scan parse p s =
    (case sse_event_boundary_end s of
       None \<Rightarrow> Undecided s
     | Some n \<Rightarrow>
         let ev = take n s in
         if sse_event_reports_error parse ev then ErrorEvent
         else if sse_event_is_heartbeat parse ev then prefetch_scan parse p (drop n s)
         else if sse_event_reports_output parse p ev then Ready True
         else if sse_event_reports_completion parse p ev then Ready False
         else prefetch_scan parse p (drop n s))"
  by pat_completeness auto
termination
  by (relation "measure (\<lambda>(_, _, s). length s)") (auto dest: boundary_bounds)

declare prefetch_scan.simps [simp del]

text \<open>The result and the part of the body that is left.\<close>

fun prefetch_from ::
  "(bytes \<Rightarrow> json option) \<Rightarrow> proxy_protocol \<Rightarrow> bytes \<Rightarrow> bytes \<Rightarrow> body_item list
    \<Rightarrow> (prefetch_error + prefetched_sse) \<times> body_item list" where
  "prefetch_from parse p buffered todo src =
     (if MAX_BUFFERED_RESPONSE_BYTES < length buffered
      then (Inl \<lparr>pe_message = ''upstream first event exceeds proxy buffer limit'', pe_confirmed = False\<rparr>, src)
      else case prefetch_scan parse p todo of
        ErrorEvent \<Rightarrow> (Inl \<lparr>pe_message = ''upstream returned an error event'', pe_confirmed = True\<rparr>, src)
      | Ready observed \<Rightarrow> (Inr \<lparr>pf_bytes = buffered, pf_first_token = observed\<rparr>, src)
      | Undecided todo' \<Rightarrow>
          (case src of
             [] \<Rightarrow> (Inl \<lparr>pe_message = ''upstream stream ended before the first complete event'', pe_confirmed = False\<rparr>, [])
           | BodyError e # rest \<Rightarrow> (Inl \<lparr>pe_message = e, pe_confirmed = False\<rparr>, rest)
           | Chunk c # rest \<Rightarrow> prefetch_from parse p (buffered @ c) (todo' @ c) rest))"

definition prefetch_sse_event ::
  "(bytes \<Rightarrow> json option) \<Rightarrow> proxy_protocol \<Rightarrow> bytes option \<Rightarrow> body_item list
    \<Rightarrow> (prefetch_error + prefetched_sse option) \<times> body_item list" where
  "prefetch_sse_event parse p first_chunk src =
    (case first_chunk of
       None \<Rightarrow> (Inr None, src)
     | Some c \<Rightarrow> (case prefetch_from parse p c c src of
           (Inl e, rest) \<Rightarrow> (Inl e, rest)
         | (Inr r, rest) \<Rightarrow> (Inr (Some r), rest)))"

section \<open>Observing a stream\<close>

record sse_signals =
  sg_response_id :: "string option"
  sg_completed :: bool
  sg_terminal :: bool
  sg_failed :: bool

definition no_signals :: sse_signals where
  "no_signals = \<lparr>sg_response_id = None, sg_completed = False, sg_terminal = False, sg_failed = False\<rparr>"

definition response_id_of :: "proxy_protocol \<Rightarrow> json \<Rightarrow> string option" where
  "response_id_of p value =
    (if p = OpenAiResponses
     then Option.bind (Option.bind (json_pointer value [''response'', ''id'']) as_str) normalize_session_affinity_key
     else None)"

text \<open>The body of the loop; the accumulator of the usage is its wire value.\<close>

definition observe_event ::
  "(bytes \<Rightarrow> json option) \<Rightarrow> proxy_protocol \<Rightarrow> bytes \<Rightarrow> sse_signals \<times> json \<Rightarrow> sse_signals \<times> json" where
  "observe_event parse p ev acc =
    (let s = fst acc;
         value = Option.bind (sse_event_data ev) parse
     in (\<lparr>sg_response_id = or_else (Option.bind value (response_id_of p)) (sg_response_id s),
          sg_completed = (sg_completed s \<or> sse_event_reports_completion parse p ev),
          sg_terminal = (sg_terminal s \<or> sse_event_is_terminal parse p ev),
          sg_failed = (sg_failed s \<or> sse_event_reports_error parse ev)\<rparr>,
         case value of None \<Rightarrow> snd acc | Some v \<Rightarrow> usage_observe p v (snd acc)))"

definition USAGE_EVENT_BUFFER_LIMIT :: nat where
  "USAGE_EVENT_BUFFER_LIMIT = 1024 * 1024"

definition observe_sse_usage ::
  "(bytes \<Rightarrow> json option) \<Rightarrow> proxy_protocol \<Rightarrow> bytes \<Rightarrow> bytes \<Rightarrow> json \<Rightarrow> sse_signals \<times> bytes \<times> json" where
  "observe_sse_usage parse p buffer chunk usage =
    (case split_events (buffer @ chunk) of (es, rest) \<Rightarrow>
      (case fold (observe_event parse p) es (no_signals, usage) of (s, usage') \<Rightarrow>
        (s, if USAGE_EVENT_BUFFER_LIMIT < length rest then [] else rest, usage')))"

text \<open>How the tracking task adds the signals of a chunk to those it has.\<close>

definition add_signals :: "sse_signals \<Rightarrow> sse_signals \<Rightarrow> sse_signals" where
  "add_signals acc s = \<lparr>
     sg_response_id = or_else (sg_response_id s) (sg_response_id acc),
     sg_completed = (sg_completed acc \<or> sg_completed s),
     sg_terminal = (sg_terminal acc \<or> sg_terminal s),
     sg_failed = (sg_failed acc \<or> sg_failed s)\<rparr>"

definition absorb_chunk ::
  "(bytes \<Rightarrow> json option) \<Rightarrow> proxy_protocol \<Rightarrow> bytes \<Rightarrow> bytes \<times> json \<times> sse_signals \<Rightarrow> bytes \<times> json \<times> sse_signals" where
  "absorb_chunk parse p chunk st =
    (case st of (buffer, usage, acc) \<Rightarrow>
      (case observe_sse_usage parse p buffer chunk usage of (s, buffer', usage') \<Rightarrow>
        (buffer', usage', add_signals acc s)))"

lemma add_no_signals [simp]: "add_signals s no_signals = s" "add_signals no_signals s = s"
  by (cases s; simp add: add_signals_def no_signals_def or_else_def split: option.split)+

lemma add_signals_assoc: "add_signals (add_signals a b) c = add_signals a (add_signals b c)"
  by (auto simp: add_signals_def or_else_def split: option.split)

lemma observe_event_add:
  "observe_event parse p ev (add_signals a s, u) =
    (add_signals a (fst (observe_event parse p ev (s, u))), snd (observe_event parse p ev (s, u)))"
  by (auto simp: observe_event_def add_signals_def Let_def or_else_def split: option.split)

lemma fold_observe_add:
  "fold (observe_event parse p) es (add_signals a s, u) =
    (add_signals a (fst (fold (observe_event parse p) es (s, u))), snd (fold (observe_event parse p) es (s, u)))"
proof (induction es arbitrary: s u)
  case Nil
  show ?case by simp
next
  case (Cons e es)
  obtain s' u' where e: "observe_event parse p e (s, u) = (s', u')" by (cases "observe_event parse p e (s, u)")
  then have "observe_event parse p e (add_signals a s, u) = (add_signals a s', u')"
    by (simp add: observe_event_add)
  with Cons [of s' u'] show ?case by (simp add: e)
qed

lemma absorb_chunk_eq:
  assumes "length buffer + length chunk \<le> USAGE_EVENT_BUFFER_LIMIT"
  shows "absorb_chunk parse p chunk (buffer, u, acc) =
    (snd (split_events (buffer @ chunk)),
     snd (fold (observe_event parse p) (fst (split_events (buffer @ chunk))) (acc, u)),
     fst (fold (observe_event parse p) (fst (split_events (buffer @ chunk))) (acc, u)))"
proof -
  have "length (snd (split_events (buffer @ chunk))) \<le> length (buffer @ chunk)"
    using arg_cong [OF split_events_concat [of "buffer @ chunk"], of length] by simp
  with assms have "\<not> USAGE_EVENT_BUFFER_LIMIT < length (snd (split_events (buffer @ chunk)))" by simp
  then show ?thesis
    using fold_observe_add [of parse p "fst (split_events (buffer @ chunk))" acc no_signals u]
    by (simp add: absorb_chunk_def observe_sse_usage_def case_prod_beta)
qed

lemma absorb_append:
  assumes "length buffer + length c + length d \<le> USAGE_EVENT_BUFFER_LIMIT"
  shows "absorb_chunk parse p d (absorb_chunk parse p c (buffer, u, acc)) = absorb_chunk parse p (c @ d) (buffer, u, acc)"
proof -
  let ?r = "snd (split_events (buffer @ c))"
  have "length ?r \<le> length (buffer @ c)"
    using arg_cong [OF split_events_concat [of "buffer @ c"], of length] by simp
  with assms have "length ?r + length d \<le> USAGE_EVENT_BUFFER_LIMIT" by simp
  with assms show ?thesis
    using split_events_append [of "buffer @ c" d] by (simp add: absorb_chunk_eq)
qed

lemma absorb_chunks:
  "length buffer + length (concat cs) \<le> USAGE_EVENT_BUFFER_LIMIT \<Longrightarrow> sse_event_boundary_end buffer = None \<Longrightarrow>
    fold (absorb_chunk parse p) cs (buffer, u, acc) = absorb_chunk parse p (concat cs) (buffer, u, acc)"
proof (induction cs arbitrary: buffer u acc)
  case Nil
  then show ?case by (simp add: absorb_chunk_eq split_events_None)
next
  case (Cons c cs)
  let ?r = "snd (split_events (buffer @ c))"
  have len: "length buffer + length c + length (concat cs) \<le> USAGE_EVENT_BUFFER_LIMIT" using Cons.prems by simp
  have "length ?r \<le> length (buffer @ c)"
    using arg_cong [OF split_events_concat [of "buffer @ c"], of length] by simp
  with len have "fold (absorb_chunk parse p) cs (absorb_chunk parse p c (buffer, u, acc)) =
      absorb_chunk parse p (concat cs) (absorb_chunk parse p c (buffer, u, acc))"
    by (simp add: absorb_chunk_eq Cons.IH split_events_rest)
  then show ?case using absorb_append [OF len] by simp
qed

section \<open>Properties\<close>



text \<open>An event the prefetch passes over.\<close>

definition passed_over :: "(bytes \<Rightarrow> json option) \<Rightarrow> proxy_protocol \<Rightarrow> bytes \<Rightarrow> bool" where
  "passed_over parse p ev =
    (\<not> sse_event_reports_error parse ev
     \<and> (sse_event_is_heartbeat parse ev
        \<or> \<not> sse_event_reports_output parse p ev \<and> \<not> sse_event_reports_completion parse p ev))"

definition decides :: "(bytes \<Rightarrow> json option) \<Rightarrow> proxy_protocol \<Rightarrow> bool \<Rightarrow> bytes \<Rightarrow> bool" where
  "decides parse p observed ev =
    (\<not> sse_event_reports_error parse ev \<and> \<not> sse_event_is_heartbeat parse ev
     \<and> observed = sse_event_reports_output parse p ev
     \<and> (observed \<or> sse_event_reports_completion parse p ev))"

definition first_event :: "(bytes \<Rightarrow> bool) \<Rightarrow> (bytes \<Rightarrow> bool) \<Rightarrow> bytes list \<Rightarrow> bool" where
  "first_event skip hit es = (case dropWhile skip es of [] \<Rightarrow> False | e # _ \<Rightarrow> hit e)"

lemma first_event_append: "list_all skip es \<Longrightarrow> first_event skip hit (es @ fs) = first_event skip hit fs"
  by (induction es) (simp_all add: first_event_def)

lemma prefetch_scan_spec:
  "(case prefetch_scan parse p s of
      Ready observed \<Rightarrow> first_event (passed_over parse p) (decides parse p observed) (fst (split_events s))
    | ErrorEvent \<Rightarrow> first_event (passed_over parse p) (sse_event_reports_error parse) (fst (split_events s))
    | Undecided r \<Rightarrow> list_all (passed_over parse p) (fst (split_events s)) \<and> r = snd (split_events s))"
proof (induction parse p s rule: prefetch_scan.induct)
  case (1 parse p s)
  show ?case
  proof (cases "sse_event_boundary_end s")
    case None
    then show ?thesis by (simp add: prefetch_scan.simps split_events_None)
  next
    case (Some n)
    note ih = 1 [OF Some refl]
    have step: "prefetch_scan parse p s =
        (let ev = take n s in
         if sse_event_reports_error parse ev then ErrorEvent
         else if sse_event_is_heartbeat parse ev then prefetch_scan parse p (drop n s)
         else if sse_event_reports_output parse p ev then Ready True
         else if sse_event_reports_completion parse p ev then Ready False
         else prefetch_scan parse p (drop n s))"
      by (subst prefetch_scan.simps) (simp add: Some)
    show ?thesis
      unfolding step Let_def split_events_Some [OF Some] fst_conv snd_conv
      using ih
      by (cases "sse_event_is_heartbeat parse (take n s)"; cases "prefetch_scan parse p (drop n s)")
         (simp_all add: first_event_def passed_over_def decides_def)
  qed
qed

definition scanned :: "(bytes \<Rightarrow> json option) \<Rightarrow> proxy_protocol \<Rightarrow> bytes \<Rightarrow> bytes \<Rightarrow> bool" where
  "scanned parse p buffered todo =
    (\<exists>es. list_all (passed_over parse p) es
       \<and> fst (split_events buffered) = es @ fst (split_events todo) \<and> snd (split_events buffered) = snd (split_events todo))"

lemma scanned_more:
  assumes "scanned parse p buffered todo" "prefetch_scan parse p todo = Undecided r"
  shows "scanned parse p (buffered @ c) (r @ c)"
proof -
  from assms(1) obtain es where "list_all (passed_over parse p) es"
    "fst (split_events buffered) = es @ fst (split_events todo)" "snd (split_events buffered) = snd (split_events todo)"
    by (auto simp: scanned_def)
  moreover have "list_all (passed_over parse p) (fst (split_events todo))" "r = snd (split_events todo)"
    using prefetch_scan_spec [of parse p todo] assms(2) by simp_all
  ultimately show ?thesis
    unfolding scanned_def
    by (intro exI [of _ "fst (split_events buffered)"]) (simp add: split_events_append [of buffered c])
qed

declare prefetch_from.simps [simp del] collect_from.simps [simp del]

lemma more_chunks:
  assumes "\<exists>cs. rest = map Chunk cs @ left \<and> Q (c @ concat cs)"
  shows "\<exists>cs. Chunk c # rest = map Chunk cs @ left \<and> Q (concat cs)"
proof -
  from assms obtain cs where "rest = map Chunk cs @ left" "Q (c @ concat cs)" by blast
  then show ?thesis by (intro exI [of _ "c # cs"]) simp
qed

lemma prefetch_from_spec:
  "scanned parse p buffered todo \<Longrightarrow>
    (case prefetch_from parse p buffered todo src of
      (Inr r, rest) \<Rightarrow> \<exists>cs. src = map Chunk cs @ rest \<and> pf_bytes r = buffered @ concat cs
        \<and> first_event (passed_over parse p) (decides parse p (pf_first_token r)) (fst (split_events (pf_bytes r)))
    | (Inl e, rest) \<Rightarrow> pe_confirmed e \<longrightarrow> (\<exists>cs. src = map Chunk cs @ rest
        \<and> first_event (passed_over parse p) (sse_event_reports_error parse) (fst (split_events (buffered @ concat cs)))))"
proof (induction parse p buffered todo src rule: prefetch_from.induct)
  case (1 parse p buffered todo src)
  from 1(2) obtain es where es: "list_all (passed_over parse p) es"
    "fst (split_events buffered) = es @ fst (split_events todo)"
    by (auto simp: scanned_def)
  show ?case
  proof (cases "MAX_BUFFERED_RESPONSE_BYTES < length buffered")
    case True
    then show ?thesis by (subst prefetch_from.simps) simp
  next
    case small: False
    show ?thesis
    proof (cases "prefetch_scan parse p todo")
      case (Ready observed)
      then show ?thesis
        using small es prefetch_scan_spec [of parse p todo]
        by (subst prefetch_from.simps) (simp add: first_event_append)
    next
      case ErrorEvent
      then show ?thesis
        using small es prefetch_scan_spec [of parse p todo]
        by (subst prefetch_from.simps) (simp add: first_event_append)
    next
      case (Undecided r)
      show ?thesis
      proof (cases src)
        case Nil
        then show ?thesis using small Undecided by (subst prefetch_from.simps) simp
      next
        case (Cons item rest)
        show ?thesis
        proof (cases item)
          case (BodyError e)
          then show ?thesis using small Undecided Cons by (subst prefetch_from.simps) simp
        next
          case (Chunk c)
          have step: "prefetch_from parse p buffered todo (Chunk c # rest) = prefetch_from parse p (buffered @ c) (r @ c) rest"
            using small Undecided Cons Chunk by (subst prefetch_from.simps) simp
          from 1(1) [OF small Undecided Cons Chunk scanned_more [OF 1(2) Undecided]]
          show ?thesis
            unfolding step Cons Chunk
            by (cases "prefetch_from parse p (buffered @ c) (r @ c) rest"; cases "fst (prefetch_from parse p (buffered @ c) (r @ c) rest)")
               (simp_all add: more_chunks [where Q = "\<lambda>x. first_event (passed_over parse p) (sse_event_reports_error parse) (fst (split_events (buffered @ x)))"]
                  more_chunks [where Q = "\<lambda>x. pf_bytes r = buffered @ x
                    \<and> first_event (passed_over parse p) (decides parse p (pf_first_token r)) (fst (split_events (pf_bytes r)))" for r])
        qed
      qed
    qed
  qed
qed

text \<open>
  The response is committed to the client on the first event that counts: the bytes handed
  on are exactly the chunks read so far, every event before the deciding one is a heartbeat or
  neither output nor completion and none is an error, the deciding event is no error, and the
  first-token mark says whether it was output.  A confirmed failure means that the first event
  that counts is an error.
\<close>

theorem prefetch_decides_on_first_event:
  "case prefetch_sse_event parse p (Some c) src of
      (Inr None, rest) \<Rightarrow> False
    | (Inr (Some r), rest) \<Rightarrow> \<exists>cs. src = map Chunk cs @ rest \<and> pf_bytes r = c @ concat cs
        \<and> first_event (passed_over parse p) (decides parse p (pf_first_token r)) (fst (split_events (pf_bytes r)))
    | (Inl e, rest) \<Rightarrow> pe_confirmed e \<longrightarrow> (\<exists>cs. src = map Chunk cs @ rest
        \<and> first_event (passed_over parse p) (sse_event_reports_error parse) (fst (split_events (c @ concat cs))))"
proof -
  have "scanned parse p c c"
    unfolding scanned_def by (intro exI [of _ "[]"]) simp
  from prefetch_from_spec [OF this, of src] show ?thesis
    by (cases "prefetch_from parse p c c src"; cases "fst (prefetch_from parse p c c src)")
       (simp_all add: prefetch_sse_event_def)
qed

definition error_stream :: bytes where
  "error_stream = ''event: error'' @ [LF, LF]"

lemma error_stream_boundary: "sse_event_boundary_end error_stream = Some (length error_stream)"
  by (simp add: error_stream_def sse_event_boundary_end_def LF_def CR_def starts_with_def)

lemma error_stream_error: "sse_event_reports_error parse error_stream"
  by (simp add: error_stream_def sse_event_reports_error_def sse_event_name_def strip_cr_def strip_suffix_def
      strip_prefix_def LF_def CR_def trim_ascii_def is_ascii_whitespace_def byte_val_def eq_ignore_ascii_case_def)

lemma error_stream_prefetch:
  "prefetch_sse_event parse p (Some error_stream) [] =
    (Inl \<lparr>pe_message = ''upstream returned an error event'', pe_confirmed = True\<rparr>, [])"
  using error_stream_error [of parse]
  by (simp add: prefetch_sse_event_def prefetch_from.simps prefetch_scan.simps [of _ _ error_stream]
      error_stream_boundary MAX_BUFFERED_RESPONSE_BYTES_def, simp add: error_stream_def)

theorem prefetch_decides_on_first_event_witness:
  "\<exists>cs. [] = map Chunk cs @ []
    \<and> first_event (passed_over (\<lambda>_. None) OpenAiResponses) (sse_event_reports_error (\<lambda>_. None))
        (fst (split_events (error_stream @ concat cs)))"
  using prefetch_decides_on_first_event [where parse = "\<lambda>_. None" and p = OpenAiResponses and c = error_stream and src = "[]"]
  by (simp add: error_stream_prefetch)

text \<open>
  Collecting a body loses nothing and is bounded: it succeeds exactly for the concatenation
  of the chunks of a body without a transport error, none of whose prefixes exceeds 64 MiB.
\<close>

lemma collect_from_Inr:
  "collect_from buffered src = Inr s \<longleftrightarrow>
    (\<exists>cs. src = map Chunk cs \<and> s = buffered @ concat cs \<and> length s \<le> MAX_BUFFERED_RESPONSE_BYTES)"
proof (induction buffered src rule: collect_from.induct)
  case (1 buffered src)
  show ?case
  proof (cases "MAX_BUFFERED_RESPONSE_BYTES < length buffered")
    case True
    then show ?thesis by (subst collect_from.simps) auto
  next
    case small: False
    show ?thesis
    proof (cases src)
      case Nil
      then show ?thesis using small by (subst collect_from.simps) auto
    next
      case (Cons item rest)
      show ?thesis
      proof (cases item)
        case (BodyError e)
        then show ?thesis using small Cons by (subst collect_from.simps) auto
      next
        case (Chunk c)
        have "collect_from buffered src = collect_from (buffered @ c) rest"
          using small Cons Chunk by (subst collect_from.simps) simp
        with 1 [OF small Cons Chunk] show ?thesis
          by (auto simp: Cons Chunk Cons_eq_map_conv)
      qed
    qed
  qed
qed

end
