(* ===== verification/Tracking.thy ===== *)
theory Tracking
  imports Sse
begin

text \<open>
  The task that follows a response body to its end (\<open>track_usage_stream\<close>,
  \<open>crates/aipass-proxy/src/sse.rs\<close>) and the rows it writes (\<open>usage.rs\<close>).  What the task
  waits for is a list of events: an item of the body and whether the client still took it, the
  end of the body, the client going away, or a reload that revokes the route; each carries the
  instant it is seen.  The response trace is a log and left out.
\<close>

section \<open>UTF-8\<close>

text \<open>
  \<open>String::from_utf8_lossy\<close>: each maximal invalid part becomes U+FFFD.  \<open>utf8_take\<close> is the
  length of the next part and whether it is a character.
\<close>

definition is_cont :: "nat \<Rightarrow> bool" where
  "is_cont b = (128 \<le> b \<and> b \<le> 191)"

definition seq_len :: "nat \<Rightarrow> nat" where
  "seq_len a =
    (if a < 128 then 1 else if 194 \<le> a \<and> a \<le> 223 then 2
     else if 224 \<le> a \<and> a \<le> 239 then 3 else if 240 \<le> a \<and> a \<le> 244 then 4 else 0)"

definition second_ok :: "nat \<Rightarrow> nat \<Rightarrow> bool" where
  "second_ok a b =
    (is_cont b \<and> (a = 224 \<longrightarrow> 160 \<le> b) \<and> (a = 237 \<longrightarrow> b \<le> 159) \<and> (a = 240 \<longrightarrow> 144 \<le> b) \<and> (a = 244 \<longrightarrow> b \<le> 143))"

fun utf8_take :: "bytes \<Rightarrow> nat \<times> bool" where
  "utf8_take [] = (0, True)"
| "utf8_take (c # cs) =
     (let n = seq_len (byte_val c);
          k = (case cs of
            [] \<Rightarrow> 1
          | d # ds \<Rightarrow>
              if \<not> second_ok (byte_val c) (byte_val d) then 1
              else 2 + length (takeWhile (\<lambda>e. is_cont (byte_val e)) (take (n - 2) ds)))
      in if n \<le> 1 then (1, n = 1) else (min n k, n \<le> k))"

lemma utf8_take_pos: "s \<noteq> [] \<Longrightarrow> 0 < fst (utf8_take s)"
  by (cases s) (auto simp: Let_def split: list.split)

function from_utf8_lossy :: "bytes \<Rightarrow> string" where
  "from_utf8_lossy s =
    (if s = [] then []
     else (case utf8_take s of (k, ok) \<Rightarrow>
       (if ok then take k s else [CHR 0xEF, CHR 0xBF, CHR 0xBD]) @ from_utf8_lossy (drop k s)))"
  by pat_completeness auto
termination
proof (relation "measure length", goal_cases)
  case (2 s k ok)
  then have "0 < k" using utf8_take_pos [of s] by (cases "utf8_take s") simp
  with 2(1) show ?case by simp
qed simp

declare from_utf8_lossy.simps [simp del]

text \<open>\<open>str::lines\<close>.\<close>

definition str_lines :: "string \<Rightarrow> string list" where
  "str_lines s =
    (let parts = split_on LF s;
         parts' = (if last parts = [] then butlast parts else parts)
     in map strip_cr parts')"

definition observe_usage_bytes :: "(bytes \<Rightarrow> json option) \<Rightarrow> proxy_protocol \<Rightarrow> bytes \<Rightarrow> json \<Rightarrow> json" where
  "observe_usage_bytes parse p s wire =
    (case parse s of
       Some value \<Rightarrow> usage_observe p value wire
     | None \<Rightarrow>
         fold (\<lambda>line w. case parse line of None \<Rightarrow> w | Some value \<Rightarrow> usage_observe p value w)
           (filter_map (\<lambda>line. map_option trim (strip_prefix ''data:'' line)) (str_lines (from_utf8_lossy s)))
           wire)"

section \<open>Rows\<close>

record usage_record =
  ur_id :: uuid
  ur_started_at :: int
  ur_duration_ms :: u64
  ur_first_token :: "u64 option"
  ur_route :: uuid
  ur_provider :: uuid
  ur_secret :: string
  ur_model :: "string option"
  ur_inbound :: proxy_protocol
  ur_upstream :: proxy_protocol
  ur_status :: u16
  ur_attempts :: u8
  ur_input :: u64
  ur_output :: u64
  ur_cache_read :: u64
  ur_cache_creation :: u64
  ur_cache_creation_1h :: u64
  ur_cost :: u64

record attempt_record =
  ar_id :: uuid
  ar_request :: "uuid option"
  ar_started_at :: int
  ar_duration_ms :: u64
  ar_first_token :: "u64 option"
  ar_route :: uuid
  ar_target :: uuid
  ar_provider :: uuid
  ar_secret :: string
  ar_model :: "string option"
  ar_status :: "u16 option"
  ar_success :: "bool option"

section \<open>Following a body\<close>

record tracking_context =
  tc_evidence :: "evidence option"
  tc_protocol :: proxy_protocol
  tc_record :: usage_record
  tc_pricing :: "model_pricing option"
  tc_streaming :: bool
  tc_attempt_started :: instant
  tc_started :: instant
  tc_route :: uuid
  tc_target :: uuid
  tc_session :: "string option"
  tc_retry :: retry_policy
  tc_attempt :: "(attempt_record \<times> instant) option"

record tracker =
  tk_tail :: bytes
  tk_buffer :: bytes
  tk_usage :: json
  tk_signals :: sse_signals
  tk_source_ended :: bool
  tk_transport_failed :: bool

definition new_tracker :: tracker where
  "new_tracker = \<lparr>tk_tail = [], tk_buffer = [], tk_usage = JNull, tk_signals = no_signals,
     tk_source_ended = False, tk_transport_failed = False\<rparr>"

datatype track_event =
    SenderClosed
  | ConfigChanged
  | SourceEnded
  | Received body_item bool instant

definition USAGE_TAIL_LIMIT :: nat where
  "USAGE_TAIL_LIMIT = 256 * 1024"

definition track_chunk :: "(bytes \<Rightarrow> json option) \<Rightarrow> tracking_context \<Rightarrow> bytes \<Rightarrow> tracker \<Rightarrow> tracker" where
  "track_chunk parse c chunk t =
    (let t1 =
       (if tc_streaming c then
          (case absorb_chunk parse (tc_protocol c) chunk (tk_buffer t, tk_usage t, tk_signals t) of
             (buffer, usage, signals) \<Rightarrow> t\<lparr>tk_buffer := buffer, tk_usage := usage, tk_signals := signals\<rparr>)
        else t\<lparr>tk_usage := observe_usage_bytes parse (tc_protocol c) chunk (tk_usage t)\<rparr>);
         tail = tk_tail t @ chunk
     in t1\<lparr>tk_tail := drop (length tail - USAGE_TAIL_LIMIT) tail, tk_transport_failed := False\<rparr>)"

definition track_error :: "tracking_context \<Rightarrow> string \<Rightarrow> instant \<Rightarrow> proxy_state \<Rightarrow> proxy_state" where
  "track_error c e now s = set_error e (mark_failure (tc_target c) (tc_retry c) now s)"

definition stops :: "tracking_context \<Rightarrow> tracker \<Rightarrow> bool" where
  "stops c t =
    (tk_transport_failed t \<or> tc_streaming c \<and> (sg_terminal (tk_signals t) \<or> sg_failed (tk_signals t)))"

text \<open>The loop, with nothing as its result while it still waits.\<close>

fun track_loop ::
  "(bytes \<Rightarrow> json option) \<Rightarrow> tracking_context \<Rightarrow> track_event list \<Rightarrow> tracker \<Rightarrow> proxy_state \<Rightarrow> (tracker \<times> proxy_state) option" where
  "track_loop parse c [] t s = None"
| "track_loop parse c (SenderClosed # es) t s = Some (t, s)"
| "track_loop parse c (ConfigChanged # es) t s = Some (t, s)"
| "track_loop parse c (SourceEnded # es) t s = Some (t\<lparr>tk_source_ended := True\<rparr>, s)"
| "track_loop parse c (Received item taken now # es) t s =
     (case (case item of
          Chunk chunk \<Rightarrow> (track_chunk parse c chunk t, s)
        | BodyError e \<Rightarrow> (t\<lparr>tk_transport_failed := True\<rparr>, track_error c e now s)) of
        (t', s') \<Rightarrow>
          if \<not> taken then Some (t', s')
          else if stops c t' then Some (t', s')
          else track_loop parse c es t' s')"

definition stream_succeeded :: "tracking_context \<Rightarrow> tracker \<Rightarrow> bool" where
  "stream_succeeded c t =
    (if tc_streaming c then
       (sg_terminal (tk_signals t) \<or> tk_source_ended t \<and> sg_completed (tk_signals t))
       \<and> \<not> sg_failed (tk_signals t) \<and> \<not> tk_transport_failed t
     else tk_source_ended t \<and> \<not> tk_transport_failed t)"

definition track_health :: "tracking_context \<Rightarrow> tracker \<Rightarrow> instant \<Rightarrow> proxy_state \<Rightarrow> proxy_state" where
  "track_health c t now s =
    (if stream_succeeded c t then
       (let s1 = (if tc_protocol c = OpenAiResponses
                  then s\<lparr>st_ws_health := http_success (tc_evidence c) now (st_ws_health s)\<rparr> else s)
        in if tc_streaming c
           then complete_target_success (tc_route c) (tc_session c) (tc_target c) (tc_attempt_started c)
             (sg_response_id (tk_signals t)) now s1
           else s1)
     else if sg_failed (tk_signals t) then
       set_error ''upstream returned an error event after stream commit'' (mark_failure (tc_target c) (tc_retry c) now s)
     else if tc_streaming c \<and> tk_source_ended t then
       set_error ''upstream stream ended before protocol completion'' (mark_failure (tc_target c) (tc_retry c) now s)
     else s)"

definition outcome_known :: "tracking_context \<Rightarrow> tracker \<Rightarrow> bool" where
  "outcome_known c t =
    (stream_succeeded c t \<or> tk_transport_failed t \<or> sg_failed (tk_signals t) \<or> tk_source_ended t)"

definition elapsed_ms :: "instant \<Rightarrow> instant \<Rightarrow> u64" where
  "elapsed_ms since now = of_nat (as_millis (now - since))"

definition recent_total :: "token_usage \<Rightarrow> u64" where
  "recent_total u = sat_add (sat_add (sat_add (tu_input u) (tu_output u)) (tu_cache_read u)) (tu_cache_creation u)"

definition final_record :: "tracking_context \<Rightarrow> bool \<Rightarrow> token_usage \<Rightarrow> instant \<Rightarrow> usage_record" where
  "final_record c ok u now =
    (tc_record c)\<lparr>
      ur_duration_ms := elapsed_ms (tc_started c) now,
      ur_status := (if ok then ur_status (tc_record c) else 502),
      ur_input := tu_input u, ur_output := tu_output u, ur_cache_read := tu_cache_read u,
      ur_cache_creation := tu_cache_creation u, ur_cache_creation_1h := tu_cache_creation_1h u,
      ur_cost := (case tc_pricing c of None \<Rightarrow> 0 | Some pr \<Rightarrow> estimate_cost u pr)\<rparr>"

definition final_attempt :: "tracking_context \<Rightarrow> tracker \<Rightarrow> instant \<Rightarrow> attempt_record option" where
  "final_attempt c t now =
    map_option (\<lambda>(a, started). a\<lparr>
        ar_duration_ms := elapsed_ms started now,
        ar_success := (if stream_succeeded c t then Some True
                       else if tk_transport_failed t \<or> sg_failed (tk_signals t) \<or> tk_source_ended t then Some False
                       else None)\<rparr>) (tc_attempt c)"

text \<open>The rows that are written and the state that is left.\<close>

definition track_finish ::
  "(bytes \<Rightarrow> json option) \<Rightarrow> tracking_context \<Rightarrow> tracker \<Rightarrow> instant \<Rightarrow> proxy_state
    \<Rightarrow> usage_record \<times> attempt_record option \<times> proxy_state" where
  "track_finish parse c t now s =
    (let ok = stream_succeeded c t;
         s1 = track_health c t now s;
         wire = (if tc_streaming c then tk_usage t else observe_usage_bytes parse (tc_protocol c) (tk_tail t) (tk_usage t));
         u = usage_totals (tc_protocol c) wire;
         s2 = record_recent_tokens (recent_total u) now s1;
         s3 = (if outcome_known c t then record_request ok (ur_first_token (tc_record c)) now s2 else s2)
     in (final_record c ok u now, final_attempt c t now, s3))"

definition track_usage_stream ::
  "(bytes \<Rightarrow> json option) \<Rightarrow> tracking_context \<Rightarrow> track_event list \<Rightarrow> instant \<Rightarrow> proxy_state
    \<Rightarrow> (usage_record \<times> attempt_record option \<times> proxy_state) option" where
  "track_usage_stream parse c es now s =
    map_option (\<lambda>(t, s'). track_finish parse c t now s') (track_loop parse c es new_tracker s)"

section \<open>What the loop has seen\<close>

fun chunks_of :: "track_event list \<Rightarrow> bytes list" where
  "chunks_of [] = []"
| "chunks_of (Received (Chunk c) taken now # es) = c # chunks_of es"
| "chunks_of (_ # es) = chunks_of es"

definition observed :: "tracker \<Rightarrow> bytes \<times> json \<times> sse_signals" where
  "observed t = (tk_buffer t, tk_usage t, tk_signals t)"

lemma observed_chunk:
  "tc_streaming c \<Longrightarrow> observed (track_chunk parse c chunk t) = absorb_chunk parse (tc_protocol c) chunk (observed t)"
  by (simp add: observed_def track_chunk_def Let_def split: prod.split)

lemma observed_simps [simp]:
  "observed (t\<lparr>tk_source_ended := b\<rparr>) = observed t"
  "observed (t\<lparr>tk_transport_failed := b\<rparr>) = observed t"
  by (simp_all add: observed_def)

lemma track_loop_observed:
  "track_loop parse c es t s = Some (t', s') \<Longrightarrow> tc_streaming c \<Longrightarrow>
    \<exists>cs. (\<exists>ds. chunks_of es = cs @ ds) \<and> observed t' = fold (absorb_chunk parse (tc_protocol c)) cs (observed t)"
proof (induction parse c es t s rule: track_loop.induct)
  case (5 parse c item taken now es t s)
  show ?case
  proof (cases item)
    case (BodyError e)
    then show ?thesis
      using 5(2) by (intro exI [of _ "[]"]) (auto simp: stops_def split: if_splits)
  next
    case (Chunk chunk)
    show ?thesis
    proof (cases "\<not> taken \<or> stops c (track_chunk parse c chunk t)")
      case True
      then show ?thesis
        using 5(2,3) Chunk by (intro exI [of _ "[chunk]"]) (auto simp: observed_chunk split: if_splits)
    next
      case False
      with 5(2) Chunk have "track_loop parse c es (track_chunk parse c chunk t) s = Some (t', s')" by simp
      with 5 Chunk False obtain cs ds where "chunks_of es = cs @ ds"
        "observed t' = fold (absorb_chunk parse (tc_protocol c)) cs (observed (track_chunk parse c chunk t))"
        by fastforce
      then show ?thesis
        using Chunk 5(3) by (intro exI [of _ "chunk # cs"]) (auto simp: observed_chunk)
    qed
  qed
qed (auto intro: exI [of _ "[]"])

lemma fold_observe_failed:
  "sg_failed (fst (fold (observe_event parse p) es acc)) = (sg_failed (fst acc) \<or> list_ex (sse_event_reports_error parse) es)"
  by (induction es arbitrary: acc) (auto simp: observe_event_def Let_def)

lemma fold_observe_completed:
  "sg_completed (fst (fold (observe_event parse p) es acc)) = (sg_completed (fst acc) \<or> list_ex (sse_event_reports_completion parse p) es)"
  by (induction es arbitrary: acc) (auto simp: observe_event_def Let_def)

lemma fold_observe_terminal:
  "sg_terminal (fst (fold (observe_event parse p) es acc)) = (sg_terminal (fst acc) \<or> list_ex (sse_event_is_terminal parse p) es)"
  by (induction es arbitrary: acc) (auto simp: observe_event_def Let_def)

lemma signals_of_chunks:
  assumes "length (concat cs) \<le> USAGE_EVENT_BUFFER_LIMIT"
    and "observed t = fold (absorb_chunk parse p) cs (observed new_tracker)"
  shows "tk_signals t = fst (fold (observe_event parse p) (fst (split_events (concat cs))) (no_signals, JNull))"
proof -
  have "observed t = absorb_chunk parse p (concat cs) ([], JNull, no_signals)"
    using assms absorb_chunks [of "[]" cs parse p JNull no_signals]
    by (simp add: observed_def new_tracker_def sse_event_boundary_end_def)
  then show ?thesis
    using absorb_chunk_eq [of "[]" "concat cs" parse p JNull no_signals] assms(1) by (simp add: observed_def)
qed

lemma track_loop_state:
  "track_loop parse c es t s = Some (t', s') \<Longrightarrow> \<not> tk_transport_failed t' \<Longrightarrow> s' = s"
proof (induction parse c es t s rule: track_loop.induct)
  case (5 parse c item taken now es t s)
  then show ?case
    by (cases item) (auto simp: stops_def split: if_splits)
qed auto

section \<open>Properties\<close>


text \<open>
  A client that leaves, or a reload, says nothing about the provider: when the outcome of
  the attempt is unknown, the health and the session bindings are those from before the stream,
  no request is counted, and the row is closed with the status 502.
\<close>

theorem abandoned_stream_is_neutral:
  assumes "track_usage_stream parse c es now s = Some (r, Some a, s')" and "ar_success a = None"
  shows "st_health s' = st_health s \<and> st_affinity s' = st_affinity s
    \<and> requests (st_stats s') = requests (st_stats s) \<and> failures (st_stats s') = failures (st_stats s)
    \<and> ur_status r = 502"
proof -
  from assms(1) obtain t s1 where t: "track_loop parse c es new_tracker s = Some (t, s1)"
    "(r, Some a, s') = track_finish parse c t now s1"
    by (auto simp: track_usage_stream_def)
  from t(2) have "final_attempt c t now = Some a" by (simp add: track_finish_def Let_def)
  then obtain a0 begun where "final_attempt c t now = Some a" "tc_attempt c = Some (a0, begun)"
    by (auto simp: final_attempt_def)
  with assms(2) have out: "\<not> stream_succeeded c t" "\<not> tk_transport_failed t" "\<not> sg_failed (tk_signals t)" "\<not> tk_source_ended t"
    by (auto simp: final_attempt_def split: if_splits)
  from track_loop_state [OF t(1) out(2)] have "s1 = s" .
  with out t(2) show ?thesis
    by (auto simp: track_finish_def track_health_def outcome_known_def final_record_def record_recent_tokens_def
        stats_tokens_def Let_def)
qed

definition sample_record :: usage_record where
  "sample_record = \<lparr>ur_id = 9, ur_started_at = 100, ur_duration_ms = 0, ur_first_token = None, ur_route = 7,
     ur_provider = 2, ur_secret = [], ur_model = None, ur_inbound = AnthropicMessages, ur_upstream = AnthropicMessages,
     ur_status = 200, ur_attempts = 1, ur_input = 0, ur_output = 0, ur_cache_read = 0, ur_cache_creation = 0,
     ur_cache_creation_1h = 0, ur_cost = 0\<rparr>"

definition sample_attempt :: attempt_record where
  "sample_attempt = \<lparr>ar_id = 8, ar_request = Some 9, ar_started_at = 100, ar_duration_ms = 0, ar_first_token = None,
     ar_route = 7, ar_target = 1, ar_provider = 2, ar_secret = [], ar_model = None, ar_status = Some 200, ar_success = None\<rparr>"

definition sample_tracking :: tracking_context where
  "sample_tracking = \<lparr>tc_evidence = None, tc_protocol = OpenAiResponses, tc_record = sample_record, tc_pricing = None,
     tc_streaming = True, tc_attempt_started = 0, tc_started = 0, tc_route = 7, tc_target = 1, tc_session = None,
     tc_retry = default_retry_policy, tc_attempt = Some (sample_attempt, 0)\<rparr>"

theorem abandoned_stream_is_neutral_witness:
  "\<exists>r a s'. track_usage_stream (\<lambda>_. None) sample_tracking [SenderClosed] 5 sample_state = Some (r, Some a, s')
    \<and> requests (st_stats s') = requests (st_stats sample_state) \<and> ur_status r = 502"
proof -
  have "\<exists>r a s'. track_usage_stream (\<lambda>_. None) sample_tracking [SenderClosed] 5 sample_state = Some (r, Some a, s')
      \<and> ar_success a = None"
    by (simp add: track_usage_stream_def track_finish_def final_attempt_def sample_tracking_def new_tracker_def
        stream_succeeded_def no_signals_def Let_def)
  then obtain r a s' where "track_usage_stream (\<lambda>_. None) sample_tracking [SenderClosed] 5 sample_state = Some (r, Some a, s')"
    "ar_success a = None" by blast
  from this abandoned_stream_is_neutral [OF this] show ?thesis by blast
qed

definition done_stream :: bytes where
  "done_stream = ''data: [DONE]'' @ [LF, LF]"

lemma done_split: "split_events done_stream = ([done_stream], [])"
proof -
  have "sse_event_boundary_end done_stream = Some (length done_stream)"
    by (simp add: done_stream_def sse_event_boundary_end_def LF_def CR_def starts_with_def)
  then show ?thesis
    by (simp add: split_events_Some split_events_None sse_event_boundary_end_def)
qed

lemma done_data: "sse_event_data done_stream = Some ''[DONE]''"
  by (simp add: done_stream_def sse_event_data_def data_value_def strip_cr_def strip_suffix_def strip_prefix_def LF_def CR_def)

lemma done_name: "sse_event_name done_stream = None"
  by (simp add: done_stream_def sse_event_name_def strip_cr_def strip_suffix_def strip_prefix_def LF_def CR_def)

lemma done_absorb:
  "absorb_chunk (\<lambda>_. None) OpenAiChatCompletions done_stream ([], u, no_signals) =
    ([], u, \<lparr>sg_response_id = None, sg_completed = True, sg_terminal = True, sg_failed = False\<rparr>)"
proof -
  have "trim_ascii ''[DONE]'' = ''[DONE]''" by (simp add: trim_ascii_def is_ascii_whitespace_def byte_val_def)
  then show ?thesis
    by (simp add: absorb_chunk_def observe_sse_usage_def done_split observe_event_def done_data done_name
        sse_event_reports_completion_def sse_event_is_terminal_def sse_event_reports_error_def
        is_upstream_error_payload_def Let_def)
       (simp add: no_signals_def)
qed


end
