(* ===== verification/Headers.thy ===== *)
theory Headers
  imports Permits
begin

text \<open>
  What is sent upstream (\<open>crates/aipass-proxy/src/upstream.rs\<close>) and the credentials a client
  presents (\<open>local_proxy_tokens\<close> of \<open>forward.rs\<close>), with the paths of the protocols
  (\<open>crates/aipass-proxy-conversion/src/lib.rs\<close>).  Whether bytes are a header name or value,
  and how a URL is parsed, is decided by the \<open>http\<close> and \<open>url\<close> crates: arguments.
\<close>

section \<open>Names\<close>

definition is_hop_header :: "string \<Rightarrow> bool" where
  "is_hop_header name = (name \<in> {''connection'', ''keep-alive'', ''proxy-connection'', ''proxy-authenticate'',
     ''proxy-authorization'', ''te'', ''trailer'', ''transfer-encoding'', ''upgrade''})"

definition is_client_identity_header :: "string \<Rightarrow> bool" where
  "is_client_identity_header name = (name \<in> {''user-agent'', ''x-user-agent'', ''originator'', ''http-referer'',
     ''x-title'', ''x-app-name'', ''x-client-name''})"

definition is_local_proxy_header :: "string \<Rightarrow> bytes \<Rightarrow> bool" where
  "is_local_proxy_header name value =
    (starts_with ''x-aipass-'' name \<or> starts_with ''aipass-'' name
     \<or> is_client_identity_header name \<and> contains_part ''aipass'' (to_ascii_lowercase value))"

definition ANTHROPIC_BETA_HEADER :: string where
  "ANTHROPIC_BETA_HEADER = ''anthropic-beta''"

definition connection_header_names :: "(bytes \<Rightarrow> string option) \<Rightarrow> header_map \<Rightarrow> string list" where
  "connection_header_names name_of hs =
    filter_map (\<lambda>n. name_of (trim n))
      (concat (map (split_on (CHR '','')) (filter_map to_str (header_get_all hs ''connection''))))"

section \<open>Merging feature flags\<close>

datatype header_error =
    InvalidName string
  | InvalidValue string
  | InvalidBeta
  | InvalidCredential string
  | UnsupportedScheme string

definition add_token :: "string \<Rightarrow> string list \<Rightarrow> string list" where
  "add_token tok tokens = (if tok \<in> set tokens then tokens else tokens @ [tok])"

definition beta_tokens :: "string \<Rightarrow> string list" where
  "beta_tokens text = filter (\<lambda>t. t \<noteq> '''') (map trim (split_on (CHR '','') text))"

definition merge_anthropic_beta_values :: "(string \<Rightarrow> bytes option) \<Rightarrow> bytes list \<Rightarrow> bytes \<Rightarrow> header_error + bytes" where
  "merge_anthropic_beta_values value_of incoming configured =
    (let texts = map to_str (incoming @ [configured]) in
     if None \<in> set texts then Inl InvalidBeta
     else
       (let tokens = fold add_token (concat (map beta_tokens (filter_map (\<lambda>t. t) texts))) []
        in case value_of (join_with '', '' tokens) of None \<Rightarrow> Inl InvalidBeta | Some v \<Rightarrow> Inr v))"

section \<open>The headers of an upstream request\<close>

definition forwarded :: "(bytes \<Rightarrow> string option) \<Rightarrow> header_map \<Rightarrow> proxy_protocol \<Rightarrow> string \<times> bytes \<Rightarrow> bool" where
  "forwarded name_of incoming p e =
    (case e of (name, value) \<Rightarrow>
      \<not> is_local_proxy_header name value
      \<and> \<not> (p \<noteq> AnthropicMessages \<and> (name = ''anthropic-version'' \<or> name = ANTHROPIC_BETA_HEADER))
      \<and> \<not> is_hop_header name
      \<and> name \<notin> set (connection_header_names name_of incoming)
      \<and> name \<notin> {''authorization'', ''x-api-key'', ''api-key'', ''accept-encoding'', ''content-length'', ''host''})"

fun configured_headers ::
  "(bytes \<Rightarrow> string option) \<Rightarrow> (string \<Rightarrow> bytes option) \<Rightarrow> (string \<times> string) list \<Rightarrow> header_map \<Rightarrow> header_error + header_map" where
  "configured_headers name_of value_of [] acc = Inr acc"
| "configured_headers name_of value_of ((n, v) # es) acc =
     (case name_of n of
        None \<Rightarrow> Inl (InvalidName n)
      | Some name \<Rightarrow>
          (case value_of v of
             None \<Rightarrow> Inl (InvalidValue name)
           | Some value \<Rightarrow> configured_headers name_of value_of es (header_append name value acc)))"

definition applies :: "string list \<Rightarrow> header_map \<Rightarrow> string \<Rightarrow> bytes \<Rightarrow> bool" where
  "applies hop hs name value =
    (\<not> is_local_proxy_header name value
     \<and> \<not> (is_client_identity_header name \<and> header_contains hs name)
     \<and> \<not> is_hop_header name
     \<and> name \<notin> set hop
     \<and> name \<notin> {''accept-encoding'', ''content-length'', ''content-type'', ''host''})"

fun apply_configured ::
  "(string \<Rightarrow> bytes option) \<Rightarrow> string list \<Rightarrow> header_map \<Rightarrow> header_map \<Rightarrow> header_error + header_map" where
  "apply_configured value_of hop [] hs = Inr hs"
| "apply_configured value_of hop ((name, value) # es) hs =
     (if applies hop hs name value then
        (if name = ANTHROPIC_BETA_HEADER \<and> header_contains hs name then
           (case merge_anthropic_beta_values value_of (header_get_all hs name) value of
              Inl e \<Rightarrow> Inl e
            | Inr merged \<Rightarrow> apply_configured value_of hop es (header_insert name merged hs))
         else apply_configured value_of hop es (header_insert name value hs))
      else apply_configured value_of hop es hs)"

definition credential_header :: "(string \<Rightarrow> bytes option) \<Rightarrow> resolved_target \<Rightarrow> header_error + string \<times> bytes" where
  "credential_header value_of t =
    (let scheme = auth_scheme (t_config t);
         with = (\<lambda>name value. case value_of value of None \<Rightarrow> Inl (InvalidCredential scheme) | Some v \<Rightarrow> Inr (name, v))
     in if scheme = ''bearer'' then with ''authorization'' (''Bearer '' @ api_key t)
        else if scheme = ''custom_header'' then with ''authorization'' (api_key t)
        else if scheme = ''x_api_key'' then with ''x-api-key'' (api_key t)
        else if scheme = ''google_api_key'' then with ''x-goog-api-key'' (api_key t)
        else if scheme = ''azure_api_key'' then with ''api-key'' (api_key t)
        else Inl (UnsupportedScheme scheme))"

definition default_header :: "string \<Rightarrow> bytes \<Rightarrow> header_map \<Rightarrow> header_map" where
  "default_header name value hs = (if header_contains hs name then hs else header_insert name value hs)"

definition build_upstream_headers ::
  "(bytes \<Rightarrow> string option) \<Rightarrow> (string \<Rightarrow> bytes option) \<Rightarrow> header_map \<Rightarrow> resolved_target \<Rightarrow> proxy_protocol
    \<Rightarrow> header_error + header_map" where
  "build_upstream_headers name_of value_of incoming t p =
    (let passed = filter (forwarded name_of incoming p) incoming in
     case configured_headers name_of value_of (headers (t_config t)) [] of
       Inl e \<Rightarrow> Inl e
     | Inr configured \<Rightarrow>
         (case apply_configured value_of (connection_header_names name_of configured) configured passed of
            Inl e \<Rightarrow> Inl e
          | Inr hs \<Rightarrow>
              (case credential_header value_of t of
                 Inl e \<Rightarrow> Inl e
               | Inr (name, value) \<Rightarrow>
                   let hs1 = default_header ''content-type'' ''application/json'' (header_insert name value hs)
                   in Inr (if p = AnthropicMessages then default_header ''anthropic-version'' ''2023-06-01'' hs1 else hs1))))"

section \<open>Paths and URLs\<close>

fun protocol_path :: "proxy_protocol \<Rightarrow> string" where
  "protocol_path OpenAiResponses = ''/v1/responses''"
| "protocol_path OpenAiChatCompletions = ''/v1/chat/completions''"
| "protocol_path AnthropicMessages = ''/v1/messages''"

definition trim_slashes :: "string \<Rightarrow> string" where
  "trim_slashes s = rev (dropWhile (\<lambda>c. c = CHR ''/'') (rev s))"

definition protocol_from_path :: "string \<Rightarrow> proxy_protocol option" where
  "protocol_from_path path =
    (let s = trim_slashes path in
     if s = ''/v1/responses'' then Some OpenAiResponses
     else if s = ''/v1/chat/completions'' then Some OpenAiChatCompletions
     else if s = ''/v1/messages'' then Some AnthropicMessages
     else None)"

text \<open>The path and query a URL is given, from those it has.\<close>

definition upstream_path :: "string \<Rightarrow> string \<Rightarrow> string" where
  "upstream_path url_path path =
    (let base_path = trim_slashes url_path;
         strip_version = (''v1'' \<in> set (split_on (CHR ''/'') base_path) \<or> ends_with ''/backend-api/codex'' base_path);
         suffix = (if strip_version \<and> (path = ''/v1'' \<or> starts_with ''/v1/'' path) then drop 3 path else path)
     in base_path @ suffix)"

definition upstream_query :: "string option \<Rightarrow> string option \<Rightarrow> string option" where
  "upstream_query existing query =
    (case query of
       None \<Rightarrow> existing
     | Some q \<Rightarrow>
         if q = '''' then existing
         else (case existing of
             None \<Rightarrow> Some q
           | Some old \<Rightarrow> if old = '''' then Some q else Some (old @ ''&'' @ q)))"

definition upstream_url_with_query ::
  "(string \<Rightarrow> ('u \<times> string \<times> string option) option) \<Rightarrow> ('u \<Rightarrow> string \<Rightarrow> string option \<Rightarrow> string)
    \<Rightarrow> string \<Rightarrow> string \<Rightarrow> string option \<Rightarrow> string option" where
  "upstream_url_with_query parse print base path query =
    map_option (\<lambda>(origin, url_path, existing). print origin (upstream_path url_path path) (upstream_query existing query))
      (parse base)"

section \<open>Local credentials\<close>

text \<open>\<open>split_once(' ')\<close>.\<close>

definition split_once :: "char \<Rightarrow> string \<Rightarrow> (string \<times> string) option" where
  "split_once c s =
    (if c \<in> set s then Some (takeWhile (\<lambda>x. x \<noteq> c) s, tl (dropWhile (\<lambda>x. x \<noteq> c) s)) else None)"

definition nonempty :: "string option \<Rightarrow> string option" where
  "nonempty v = (case v of None \<Rightarrow> None | Some s \<Rightarrow> if s = '''' then None else Some s)"

definition local_proxy_tokens :: "header_map \<Rightarrow> string option \<times> string option" where
  "local_proxy_tokens hs =
    (nonempty (Option.bind (Option.bind (header_text hs ''authorization'') (split_once (CHR '' '')))
       (\<lambda>(scheme, tok). if eq_ignore_ascii_case scheme ''bearer'' then Some (trim tok) else None)),
     nonempty (map_option trim (header_text hs ''x-api-key'')))"

section \<open>Lemmas on header maps\<close>

lemma header_get_all_insert: "header_get_all (header_insert n v m) k = (if k = n then [v] else header_get_all m k)"
  by (induction m) (auto simp: header_get_all_def header_insert_def header_remove_def)

lemma header_get_all_remove: "header_get_all (header_remove n m) k = (if k = n then [] else header_get_all m k)"
  by (induction m) (auto simp: header_get_all_def header_remove_def)

lemma header_get_all_default: "k \<noteq> n \<Longrightarrow> header_get_all (default_header n v m) k = header_get_all m k"
  by (simp add: default_header_def header_get_all_insert)

lemma set_header_insert: "set (header_insert n v m) \<subseteq> insert (n, v) (set m)"
  by (auto simp: header_insert_def header_remove_def)

lemma set_default_header: "set (default_header n v m) \<subseteq> insert (n, v) (set m)"
  using set_header_insert [of n v m] by (auto simp: default_header_def)

text \<open>A header that may reach a provider.\<close>

definition clean :: "string \<times> bytes \<Rightarrow> bool" where
  "clean e = (\<not> is_hop_header (fst e) \<and> \<not> is_local_proxy_header (fst e) (snd e)
     \<and> fst e \<notin> {''accept-encoding'', ''content-length'', ''host''})"

lemma clean_plain:
  "n \<in> {''authorization'', ''x-api-key'', ''x-goog-api-key'', ''api-key'', ''content-type'', ''anthropic-version'', ''anthropic-beta''}
    \<Longrightarrow> clean (n, v)"
  by (auto simp: clean_def is_hop_header_def is_local_proxy_header_def is_client_identity_header_def starts_with_def)

lemma apply_configured_clean:
  "apply_configured value_of hop es hs = Inr hs' \<Longrightarrow> list_all clean hs \<Longrightarrow> list_all clean hs'"
proof (induction value_of hop es hs rule: apply_configured.induct)
  case (1 value_of hop hs)
  then show ?case by simp
next
  case (2 value_of hop name val es hs)
  have ins: "list_all clean (header_insert name v hs)" if "clean (name, v)" for v
    using that 2(5) set_header_insert [of name v hs] by (auto simp: list_all_iff)
  have "clean (name, val)" if "applies hop hs name val"
    using that by (auto simp: applies_def clean_def)
  moreover have "clean (ANTHROPIC_BETA_HEADER, v)" for v
    by (rule clean_plain) (simp add: ANTHROPIC_BETA_HEADER_def)
  ultimately show ?case
    using 2 ins by (auto split: if_splits sum.splits)
qed

lemma apply_configured_origin:
  "apply_configured value_of hop es hs = Inr hs' \<Longrightarrow> e \<in> set hs' \<Longrightarrow> fst e \<noteq> ANTHROPIC_BETA_HEADER \<Longrightarrow>
    e \<in> set hs \<or> e \<in> set es"
proof (induction value_of hop es hs rule: apply_configured.induct)
  case (1 value_of hop hs)
  then show ?case by simp
next
  case (2 value_of hop name val es hs)
  have ins: "e \<in> set (header_insert name v hs) \<Longrightarrow> e \<in> set hs \<or> e = (name, v)" for v
    using set_header_insert [of name v hs] by auto
  have beta: "e \<in> set (header_insert ANTHROPIC_BETA_HEADER v hs) \<Longrightarrow> e \<in> set hs" for v
    using set_header_insert [of ANTHROPIC_BETA_HEADER v hs] 2(6) by auto
  show ?case
    using 2 ins [of val] beta by (auto split: if_splits sum.splits)
qed

lemma configured_origin:
  "configured_headers name_of value_of cs acc = Inr hs \<Longrightarrow> e \<in> set hs \<Longrightarrow>
    e \<in> set acc \<or> (\<exists>n v. (n, v) \<in> set cs \<and> name_of n = Some (fst e) \<and> value_of v = Some (snd e))"
proof (induction name_of value_of cs acc rule: configured_headers.induct)
  case (1 name_of value_of acc)
  then show ?case by simp
next
  case (2 name_of value_of n v es acc)
  from 2(2) obtain name val where *: "name_of n = Some name" "value_of v = Some val"
    "configured_headers name_of value_of es (acc @ [(name, val)]) = Inr hs"
    by (auto simp: header_append_def split: option.splits)
  from 2(1) [OF *(1,2)] *(3) 2(3) have "e \<in> set acc \<or> e = (name, val)
      \<or> (\<exists>n v. (n, v) \<in> set es \<and> name_of n = Some (fst e) \<and> value_of v = Some (snd e))"
    by (auto simp: header_append_def)
  moreover have "\<exists>n' v'. (n', v') \<in> set ((n, v) # es) \<and> name_of n' = Some name \<and> value_of v' = Some val"
    using * by (intro exI [of _ n] exI [of _ v]) simp
  ultimately show ?case by (elim disjE) (simp, simp, auto)
qed

lemma credential_name:
  "credential_header value_of t = Inr (n, v) \<Longrightarrow> n \<in> {''authorization'', ''x-api-key'', ''x-goog-api-key'', ''api-key''}"
  by (auto simp: credential_header_def Let_def split: if_splits option.splits)

lemma credential_unsupported: "credential_header value_of t = Inr c \<Longrightarrow> \<exists>n v. c = (n, v)"
  by (cases c) simp

text \<open>The result with the last steps named.\<close>

lemma build_upstream_headers_Inr:
  assumes "build_upstream_headers name_of value_of incoming t p = Inr hs"
  obtains configured merged n v where
    "configured_headers name_of value_of (headers (t_config t)) [] = Inr configured"
    "apply_configured value_of (connection_header_names name_of configured) configured
       (filter (forwarded name_of incoming p) incoming) = Inr merged"
    "credential_header value_of t = Inr (n, v)"
    "set hs \<subseteq> {(''anthropic-version'', ''2023-06-01''), (''content-type'', ''application/json''), (n, v)} \<union> set merged"
    "header_get_all hs n = [v]"
proof -
  from assms obtain configured merged n v where *:
    "configured_headers name_of value_of (headers (t_config t)) [] = Inr configured"
    "apply_configured value_of (connection_header_names name_of configured) configured
       (filter (forwarded name_of incoming p) incoming) = Inr merged"
    "credential_header value_of t = Inr (n, v)"
    and hs: "hs = (let hs1 = default_header ''content-type'' ''application/json'' (header_insert n v merged)
       in if p = AnthropicMessages then default_header ''anthropic-version'' ''2023-06-01'' hs1 else hs1)"
    by (auto simp: build_upstream_headers_def Let_def split: sum.splits)
  let ?h0 = "header_insert n v merged"
  let ?h1 = "default_header ''content-type'' ''application/json'' ?h0"
  have hs': "hs = ?h1 \<or> hs = default_header ''anthropic-version'' ''2023-06-01'' ?h1"
    by (cases "p = AnthropicMessages") (simp_all add: hs Let_def)
  have sub: "set hs \<subseteq> {(''anthropic-version'', ''2023-06-01''), (''content-type'', ''application/json''), (n, v)} \<union> set merged"
    using hs' set_header_insert [of n v merged] set_default_header [of "''content-type''" "''application/json''" ?h0]
      set_default_header [of "''anthropic-version''" "''2023-06-01''" ?h1]
    by blast
  have get: "header_get_all hs w = header_get_all ?h0 w" if "w \<noteq> ''anthropic-version''" "w \<noteq> ''content-type''" for w
    using hs' header_get_all_default [OF that(1)] header_get_all_default [OF that(2)] by metis
  have "n \<noteq> ''anthropic-version''" "n \<noteq> ''content-type''" using credential_name [OF *(3)] by auto
  from get [OF this] have "header_get_all hs n = [v]" by (simp only: header_get_all_insert if_True refl simp_thms)
  with * sub show thesis by (rule that)
qed

section \<open>Properties\<close>

text \<open>
  What reaches a provider: no hop-by-hop header, no header of the local proxy and none that
  names it as the product, no length, host or encoding of the inbound request; the target's own
  credential exactly once; and nothing else under a credential's name but what the target's
  configuration sets there.
\<close>

theorem upstream_headers_are_clean:
  assumes "build_upstream_headers name_of value_of incoming t p = Inr hs"
  shows "list_all clean hs
    \<and> (\<exists>n v. credential_header value_of t = Inr (n, v) \<and> header_get_all hs n = [v])
    \<and> (\<forall>e\<in>set hs. fst e \<in> {''authorization'', ''x-api-key'', ''api-key''} \<longrightarrow>
        credential_header value_of t = Inr e
        \<or> (\<exists>n v. (n, v) \<in> set (headers (t_config t)) \<and> name_of n = Some (fst e) \<and> value_of v = Some (snd e)))"
proof -
  from assms obtain configured merged n v where *:
    "configured_headers name_of value_of (headers (t_config t)) [] = Inr configured"
    "apply_configured value_of (connection_header_names name_of configured) configured
       (filter (forwarded name_of incoming p) incoming) = Inr merged"
    "credential_header value_of t = Inr (n, v)"
    "set hs \<subseteq> {(''anthropic-version'', ''2023-06-01''), (''content-type'', ''application/json''), (n, v)} \<union> set merged"
    "header_get_all hs n = [v]"
    by (rule build_upstream_headers_Inr)
  have "list_all clean (filter (forwarded name_of incoming p) incoming)"
    by (auto simp: list_all_iff forwarded_def clean_def)
  from apply_configured_clean [OF *(2) this] have merged: "list_all clean merged" .
  have "clean (n, v)" by (rule clean_plain) (use credential_name [OF *(3)] in auto)
  then have "clean e" if "e \<in> set hs" for e
  proof -
    from that *(4) have "e = (''anthropic-version'', ''2023-06-01'') \<or> e = (''content-type'', ''application/json'') \<or> e = (n, v) \<or> e \<in> set merged"
      by blast
    with merged \<open>clean (n, v)\<close> show ?thesis
      by (elim disjE) (simp_all only: clean_plain list_all_iff insert_iff simp_thms)
  qed
  then have clean_all: "list_all clean hs" by (simp add: list_all_iff)
  have "credential_header value_of t = Inr e
        \<or> (\<exists>n v. (n, v) \<in> set (headers (t_config t)) \<and> name_of n = Some (fst e) \<and> value_of v = Some (snd e))"
    if e: "e \<in> set hs" "fst e \<in> {''authorization'', ''x-api-key'', ''api-key''}" for e
  proof (cases "e = (n, v)")
    case True
    then show ?thesis using *(3) by simp
  next
    case False
    moreover have "fst e \<noteq> ''anthropic-version''" "fst e \<noteq> ''content-type''" using e(2) by auto
    then have "e \<noteq> (''anthropic-version'', ''2023-06-01'')" "e \<noteq> (''content-type'', ''application/json'')" by (metis fst_conv)+
    ultimately have "e \<in> set merged" using e(1) *(4) by blast
    moreover have "fst e \<noteq> ANTHROPIC_BETA_HEADER" using e(2) by (auto simp: ANTHROPIC_BETA_HEADER_def)
    moreover have "e \<notin> set (filter (forwarded name_of incoming p) incoming)"
      using e(2) by (auto simp: forwarded_def split: prod.splits)
    ultimately have "e \<in> set configured" using apply_configured_origin [OF *(2)] by blast
    with configured_origin [OF *(1)] show ?thesis by auto
  qed
  with clean_all *(3,5) show ?thesis by blast
qed

lemma sample_headers:
  "build_upstream_headers Some Some [(''authorization'', ''Bearer local''), (''accept'', ''text/plain'')] sample_target OpenAiResponses
    = Inr [(''accept'', ''text/plain''), (''authorization'', ''Bearer '' @ api_key sample_target), (''content-type'', ''application/json'')]"
  by (simp add: build_upstream_headers_def sample_target_def forwarded_def connection_header_names_def header_get_all_def
      is_local_proxy_header_def is_hop_header_def is_client_identity_header_def starts_with_def ANTHROPIC_BETA_HEADER_def
      credential_header_def default_header_def header_contains_def header_insert_def header_remove_def Let_def, auto)

theorem upstream_headers_are_clean_witness:
  "list_all clean [(''accept'', ''text/plain''), (''authorization'', ''Bearer '' @ api_key sample_target),
      (''content-type'', ''application/json'')]"
  by (rule upstream_headers_are_clean [OF sample_headers, THEN conjunct1])

text \<open>
  The credential a client presents to the proxy never influences what is sent upstream: the
  headers are the same whatever local tokens the request carried.
\<close>

theorem local_token_never_forwarded:
  "build_upstream_headers name_of value_of (header_remove ''authorization'' (header_remove ''x-api-key'' incoming)) t p
    = build_upstream_headers name_of value_of incoming t p"
proof -
  let ?in = "header_remove ''authorization'' (header_remove ''x-api-key'' incoming)"
  have names: "connection_header_names name_of ?in = connection_header_names name_of incoming"
    by (simp add: connection_header_names_def header_get_all_remove)
  have "filter (forwarded name_of ?in p) ?in = filter (forwarded name_of incoming p) incoming"
  proof -
    have "forwarded name_of ?in p = forwarded name_of incoming p"
      unfolding forwarded_def names ..
    then show ?thesis
      unfolding header_remove_def filter_filter by (intro filter_cong refl) (auto simp: forwarded_def)
  qed
  then show ?thesis by (simp only: build_upstream_headers_def)
qed

end
