(* ===== verification/Response.thy ===== *)
theory Response
  imports Tracking Headers
begin

text \<open>
  One attempt at a target over HTTP (\<open>crates/aipass-proxy/src/forward/http_attempt.rs\<close>,
  \<open>forward/response.rs\<close> and the attempt rows of \<open>forward.rs\<close>): classifying what the upstream
  answered, deciding whether the request may be tried again elsewhere, and preparing the
  response of the client.  The vendor adapters, the conversion of payloads, the JSON codec and
  the text of the diagnostics are arguments; an attempt reads the clock once.
\<close>

section \<open>Attempts\<close>

record attempt_context =
  ax_route :: resolved_route
  ax_target :: resolved_target
  ax_pricing :: "model_pricing list"
  ax_request :: uuid
  ax_row :: uuid
  ax_session :: "string option"
  ax_streaming :: bool
  ax_websocket :: bool
  ax_started :: instant
  ax_started_at :: int
  ax_attempt_started :: instant
  ax_attempt_started_at :: int
  ax_attempts :: u8
  ax_evidence :: "evidence option"
  ax_model :: "string option"

record adapters =
  ad_name_of :: "bytes \<Rightarrow> string option"
  ad_parse :: "bytes \<Rightarrow> json option"
  ad_print :: "json \<Rightarrow> bytes option"
  ad_http_date :: "string \<Rightarrow> duration option"
  ad_show_status :: "nat \<Rightarrow> string"
  ad_detail :: "body_item list \<Rightarrow> string"
  ad_gemini_stream :: "body_item list \<Rightarrow> body_item list"
  ad_gemini_response :: "json \<Rightarrow> string + json"
  ad_codex_collect :: "bytes \<Rightarrow> (bool \<times> string) + bytes"
  ad_convert_response :: "proxy_protocol \<Rightarrow> proxy_protocol \<Rightarrow> json \<Rightarrow> json option"

datatype client_body =
    Upstream "body_item list"
  | ConvertedStream "body_item list"
  | Fixed bytes
  | JsonBody json

record client_response =
  cr_status :: nat
  cr_headers :: header_map
  cr_body :: client_body
  cr_target :: "uuid option"

definition error_response :: "nat \<Rightarrow> string \<Rightarrow> client_response" where
  "error_response status message = \<lparr>
     cr_status = status,
     cr_headers = [(''content-type'', ''application/json'')],
     cr_body = JsonBody (JObject [(''error'', JObject [(''message'', JString message), (''type'', JString ''aipass_proxy_error'')])]),
     cr_target = None\<rparr>"

text \<open>What the loop does next; a delivered response carries the context its body is followed with.\<close>

datatype disposition =
    Deliver client_response tracking_context
  | Abort client_response
  | Retry string bool

definition attempt_row_of :: "attempt_context \<Rightarrow> nat option \<Rightarrow> u64 option \<Rightarrow> bool option \<Rightarrow> instant \<Rightarrow> attempt_record" where
  "attempt_row_of ax status first_token success now = \<lparr>
     ar_id = ax_row ax,
     ar_request = Some (ax_request ax),
     ar_started_at = ax_attempt_started_at ax,
     ar_duration_ms = elapsed_ms (ax_attempt_started ax) now,
     ar_first_token = first_token,
     ar_route = route_id (ax_route ax),
     ar_target = target_id (ax_target ax),
     ar_provider = target_provider (ax_target ax),
     ar_secret = secret_id (t_config (ax_target ax)),
     ar_model = ax_model ax,
     ar_status = map_option of_nat status,
     ar_success = success\<rparr>"

type_synonym attempt_result = "disposition \<times> attempt_record list \<times> proxy_state"

definition fail_attempt ::
  "attempt_context \<Rightarrow> nat option \<Rightarrow> u64 option \<Rightarrow> bool \<Rightarrow> string \<Rightarrow> instant \<Rightarrow> proxy_state \<Rightarrow> attempt_result" where
  "fail_attempt ax status first_token submitted message now s =
    (Retry message submitted,
     [attempt_row_of ax status first_token (Some False) now],
     mark_failure (target_id (ax_target ax)) (retry (r_config (ax_route ax))) now s)"

section \<open>Upstream responses\<close>

record upstream_response =
  up_status :: nat
  up_headers :: header_map
  up_body :: "body_item list"

definition is_subscription :: "resolved_target \<Rightarrow> bool" where
  "is_subscription t = (upstream_kind t \<in> {ClaudeSubscription, CommunitySubscription})"

definition target_protocol :: "attempt_context \<Rightarrow> proxy_protocol" where
  "target_protocol ax =
    (if upstream_kind (ax_target ax) = CommunitySubscription then inbound_protocol (r_config (ax_route ax))
     else effective_protocol (t_config (ax_target ax)) (upstream_protocol (r_config (ax_route ax))))"

definition converts :: "attempt_context \<Rightarrow> bool" where
  "converts ax =
    (conversion_enabled (r_config (ax_route ax)) \<and> inbound_protocol (r_config (ax_route ax)) \<noteq> target_protocol ax)"

definition codex_response :: "attempt_context \<Rightarrow> upstream_response \<Rightarrow> bool" where
  "codex_response ax r = (is_success (up_status r) \<and> upstream_kind (ax_target ax) = CodexSubscription)"

definition streaming_response :: "attempt_context \<Rightarrow> upstream_response \<Rightarrow> bool" where
  "streaming_response ax r =
    (ax_streaming ax
     \<and> (is_event_stream (unwrap_or (header_text (up_headers r) ''content-type'') '''') \<or> codex_response ax r))"

definition buffers_stream :: "attempt_context \<Rightarrow> upstream_response \<Rightarrow> bool" where
  "buffers_stream ax r =
    (streaming_response ax r \<and> silent_retry (retry (r_config (ax_route ax))) \<and> \<not> ax_websocket ax)"

text \<open>An explicit rejection before generation.\<close>

definition deliver_rejection :: "adapters \<Rightarrow> attempt_context \<Rightarrow> upstream_response \<Rightarrow> instant \<Rightarrow> proxy_state \<Rightarrow> attempt_result" where
  "deliver_rejection ad ax r now s =
    (let target = target_id (ax_target ax);
         policy = retry (r_config (ax_route ax));
         s1 = (if up_status r = 429 then mark_rate_limited (ad_http_date ad) target (up_headers r) policy now s
               else if status_affects_circuit (up_status r) then mark_failure target policy now s
               else s\<lparr>st_affinity := clear_rejected_session (route_id (ax_route ax)) (ax_session ax) target (st_affinity s)\<rparr>)
     in (Retry (''upstream returned '' @ ad_show_status ad (up_status r) @ '': '' @ ad_detail ad (up_body r)) False,
         [attempt_row_of ax (Some (up_status r)) None (Some False) now], s1))"

text \<open>The identifier of a response, read as a structure with one optional field.\<close>

definition response_id_field :: "json \<Rightarrow> string option" where
  "response_id_field v = (case v of JArray [x] \<Rightarrow> as_str x | _ \<Rightarrow> get_str v ''id'')"

text \<open>
  A buffered body: a failure, with its message and whether generation counts as submitted, or
  the bytes to follow, the response identifier and the converted payload.
\<close>

definition check_buffered ::
  "adapters \<Rightarrow> attempt_context \<Rightarrow> upstream_response \<Rightarrow> bytes \<Rightarrow> (string \<times> bool) + bytes" where
  "check_buffered ad ax r buffered =
    (let parse = ad_parse ad; p = target_protocol ax in
     if buffers_stream ax r \<and> (stream_reports_error parse buffered \<or> \<not> stream_reports_completion parse p buffered)
     then Inl (''upstream stream ended before protocol completion'',
       \<not> stream_reports_error parse buffered \<or> stream_reports_output parse p buffered \<or> stream_reports_completion parse p buffered)
     else if is_success (up_status r) \<and> is_upstream_error_payload parse buffered
     then Inl (''upstream returned an error payload'', False)
     else if is_success (up_status r) \<and> buffered = []
     then Inl (''upstream returned an empty response'', False)
     else if codex_response ax r \<and> \<not> ax_streaming ax
     then (case ad_codex_collect ad buffered of Inr payload \<Rightarrow> Inr payload | Inl (sure, message) \<Rightarrow> Inl (message, \<not> sure))
     else Inr buffered)"

definition normalize_gemini :: "adapters \<Rightarrow> attempt_context \<Rightarrow> upstream_response \<Rightarrow> bytes \<Rightarrow> (string \<times> bool) + bytes" where
  "normalize_gemini ad ax r buffered =
    (if upstream_kind (ax_target ax) = GeminiNative \<and> \<not> streaming_response ax r then
       (case ad_parse ad buffered of
          None \<Rightarrow> Inl (''invalid Gemini response'', True)
        | Some v \<Rightarrow>
            (case ad_gemini_response ad v of
               Inl e \<Rightarrow> Inl (e, True)
             | Inr w \<Rightarrow> (case ad_print ad w of None \<Rightarrow> Inl (''invalid Gemini response'', True) | Some b \<Rightarrow> Inr b)))
     else Inr buffered)"

definition convert_payload :: "adapters \<Rightarrow> attempt_context \<Rightarrow> upstream_response \<Rightarrow> bytes \<Rightarrow> (string \<times> bool) + bytes option" where
  "convert_payload ad ax r buffered =
    (if converts ax \<and> \<not> streaming_response ax r then
       (case Option.bind (Option.bind (ad_parse ad buffered)
               (ad_convert_response ad (target_protocol ax) (inbound_protocol (r_config (ax_route ax))))) (ad_print ad) of
          None \<Rightarrow> Inl (''protocol conversion failed for upstream response'', False)
        | Some b \<Rightarrow> Inr (Some b))
     else Inr None)"

definition buffered_id :: "adapters \<Rightarrow> attempt_context \<Rightarrow> upstream_response \<Rightarrow> bytes \<Rightarrow> string option" where
  "buffered_id ad ax r buffered =
    (if \<not> streaming_response ax r \<and> inbound_protocol (r_config (ax_route ax)) = OpenAiResponses
     then Option.bind (Option.bind (ad_parse ad buffered) response_id_field) normalize_session_affinity_key
     else None)"

definition deliver_buffered ::
  "adapters \<Rightarrow> attempt_context \<Rightarrow> upstream_response \<Rightarrow> bytes option \<Rightarrow> body_item list
    \<Rightarrow> (string \<times> bool) + bytes \<times> string option \<times> bytes option" where
  "deliver_buffered ad ax r first_chunk rest =
    (case collect_upstream_body first_chunk rest of
       Inl e \<Rightarrow> Inl (e, True)
     | Inr buffered \<Rightarrow>
         (case check_buffered ad ax r buffered of
            Inl f \<Rightarrow> Inl f
          | Inr b1 \<Rightarrow>
              (case normalize_gemini ad ax r b1 of
                 Inl f \<Rightarrow> Inl f
               | Inr b2 \<Rightarrow>
                   (case convert_payload ad ax r b2 of
                      Inl f \<Rightarrow> Inl f
                    | Inr converted \<Rightarrow> Inr (b2, buffered_id ad ax r b2, converted)))))"

section \<open>Delivery\<close>

text \<open>The longest price entry that names the model or a prefix of it, the last of equals.\<close>

fun longest :: "model_pricing option \<Rightarrow> model_pricing list \<Rightarrow> model_pricing option" where
  "longest best [] = best"
| "longest best (x # xs) =
     longest (if is_none_or best (\<lambda>b. length (mp_model b) \<le> length (mp_model x)) then Some x else best) xs"

definition price_of :: "model_pricing list \<Rightarrow> string option \<Rightarrow> model_pricing option" where
  "price_of prices model =
    Option.bind model (\<lambda>m. longest None (filter (\<lambda>x. mp_model x = m \<or> starts_with (mp_model x) m) prices))"

definition record_of :: "attempt_context \<Rightarrow> upstream_response \<Rightarrow> u64 option \<Rightarrow> instant \<Rightarrow> usage_record" where
  "record_of ax r first_token now = \<lparr>
     ur_id = ax_request ax, ur_started_at = ax_started_at ax, ur_duration_ms = elapsed_ms (ax_started ax) now,
     ur_first_token = first_token, ur_route = route_id (ax_route ax), ur_provider = target_provider (ax_target ax),
     ur_secret = secret_id (t_config (ax_target ax)), ur_model = ax_model ax,
     ur_inbound = inbound_protocol (r_config (ax_route ax)), ur_upstream = target_protocol ax,
     ur_status = of_nat (up_status r), ur_attempts = ax_attempts ax, ur_input = 0, ur_output = 0, ur_cache_read = 0,
     ur_cache_creation = 0, ur_cache_creation_1h = 0, ur_cost = 0\<rparr>"

definition tracking_of :: "attempt_context \<Rightarrow> upstream_response \<Rightarrow> u64 option \<Rightarrow> instant \<Rightarrow> tracking_context" where
  "tracking_of ax r first_token now = \<lparr>
     tc_evidence = ax_evidence ax, tc_protocol = target_protocol ax, tc_record = record_of ax r first_token now,
     tc_pricing = price_of (ax_pricing ax) (ax_model ax), tc_streaming = streaming_response ax r,
     tc_attempt_started = ax_attempt_started ax, tc_started = ax_started ax, tc_route = route_id (ax_route ax),
     tc_target = target_id (ax_target ax), tc_session = ax_session ax, tc_retry = retry (r_config (ax_route ax)),
     tc_attempt = (if streaming_response ax r
       then Some ((attempt_row_of ax (Some (up_status r)) first_token None now)\<lparr>ar_duration_ms := 0\<rparr>, ax_attempt_started ax)
       else None)\<rparr>"

definition response_headers :: "adapters \<Rightarrow> attempt_context \<Rightarrow> upstream_response \<Rightarrow> header_map" where
  "response_headers ad ax r =
    (let hop = connection_header_names (ad_name_of ad) (up_headers r) in
     filter (\<lambda>(name, _). \<not> (is_hop_header name \<or> name \<in> set hop \<or> name = ''content-length''
         \<or> (converts ax \<or> upstream_kind (ax_target ax) \<noteq> Standard) \<and> name = ''content-encoding''
         \<or> codex_response ax r \<and> name = ''content-type'')) (up_headers r)
     @ (if codex_response ax r
        then [(''content-type'', if ax_streaming ax then ''text/event-stream'' else ''application/json'')] else []))"

definition deliver_success ::
  "adapters \<Rightarrow> attempt_context \<Rightarrow> upstream_response \<Rightarrow> u64 option \<Rightarrow> client_body \<Rightarrow> string option \<Rightarrow> instant \<Rightarrow> proxy_state
    \<Rightarrow> attempt_result" where
  "deliver_success ad ax r first_token body response_id now s =
    (let response = \<lparr>cr_status = up_status r, cr_headers = response_headers ad ax r, cr_body = body,
           cr_target = Some (target_id (ax_target ax))\<rparr>;
         done = Deliver response (tracking_of ax r first_token now)
     in if streaming_response ax r then (done, [], s)
        else (done, [attempt_row_of ax (Some (up_status r)) first_token (Some True) now],
          complete_target_success (route_id (ax_route ax)) (ax_session ax) (target_id (ax_target ax))
            (ax_attempt_started ax) response_id now s))"

text \<open>The first chunk, or the error that took its place, and the rest.\<close>

fun next_chunk :: "body_item list \<Rightarrow> string + bytes option \<times> body_item list" where
  "next_chunk [] = Inr (None, [])"
| "next_chunk (Chunk c # rest) = Inr (Some c, rest)"
| "next_chunk (BodyError e # rest) = Inl e"

definition upstream_items :: "adapters \<Rightarrow> attempt_context \<Rightarrow> upstream_response \<Rightarrow> body_item list" where
  "upstream_items ad ax r =
    (if upstream_kind (ax_target ax) = GeminiNative \<and> streaming_response ax r
     then ad_gemini_stream ad (up_body r) else up_body r)"

definition deliver_body ::
  "adapters \<Rightarrow> attempt_context \<Rightarrow> upstream_response \<Rightarrow> bytes option \<Rightarrow> bool \<Rightarrow> body_item list \<Rightarrow> instant \<Rightarrow> proxy_state
    \<Rightarrow> attempt_result" where
  "deliver_body ad ax r first_chunk first_token_observed rest now s =
    (let first_token = (if first_token_observed then Some (elapsed_ms (ax_attempt_started ax) now) else None) in
     if streaming_response ax r \<and> \<not> buffers_stream ax r then
       (let items = (case first_chunk of None \<Rightarrow> [] | Some c \<Rightarrow> Chunk c # rest) in
        deliver_success ad ax r first_token (if converts ax then ConvertedStream items else Upstream items) None now s)
     else
       (case deliver_buffered ad ax r first_chunk rest of
          Inl (message, submitted) \<Rightarrow> fail_attempt ax (Some (up_status r)) first_token submitted message now s
        | Inr (b, response_id, converted) \<Rightarrow>
            deliver_success ad ax r first_token
              (if converts ax \<and> streaming_response ax r then ConvertedStream [Chunk b]
               else case converted of Some c \<Rightarrow> Fixed c | None \<Rightarrow> Fixed b) response_id now s))"

definition deliver_upstream_response ::
  "adapters \<Rightarrow> attempt_context \<Rightarrow> upstream_response \<Rightarrow> instant \<Rightarrow> proxy_state \<Rightarrow> attempt_result" where
  "deliver_upstream_response ad ax r now s =
    (if is_subscription (ax_target ax) \<and> header_get (up_headers r) ''x-aipass-local-rejection'' = Some ''1''
     then (Abort \<lparr>cr_status = up_status r, cr_headers = [(''content-type'', ''application/json'')],
                  cr_body = Upstream (up_body r), cr_target = None\<rparr>, [], s)
     else
       let s1 = s\<lparr>st_health := hm_update (target_id (ax_target ax)) default_health
             (\<lambda>h. h\<lparr>last_status := Some (of_nat (up_status r))\<rparr>) (st_health s)\<rparr>
       in if is_retryable_status (up_status r) then deliver_rejection ad ax r now s1
          else (case next_chunk (upstream_items ad ax r) of
              Inl e \<Rightarrow> fail_attempt ax (Some (up_status r)) None True e now s1
            | Inr (first_chunk, rest) \<Rightarrow>
                if streaming_response ax r \<and> \<not> buffers_stream ax r \<and> \<not> ax_websocket ax then
                  (case prefetch_sse_event (ad_parse ad) (target_protocol ax) first_chunk rest of
                     (Inr (Some pf), rest') \<Rightarrow> deliver_body ad ax r (Some (pf_bytes pf)) (pf_first_token pf) rest' now s1
                   | (Inr None, rest') \<Rightarrow>
                       fail_attempt ax (Some (up_status r)) None True ''upstream stream ended before the first event'' now s1
                   | (Inl e, rest') \<Rightarrow>
                       fail_attempt ax (Some (up_status r)) None (\<not> pe_confirmed e) (pe_message e) now s1)
                else deliver_body ad ax r first_chunk False rest now s1))"

section \<open>Sending the request\<close>

text \<open>
  \<open>prepared\<close> is what the preparation of the request gives: a request, or the disposition that
  replaces it.  A connection error proves that nothing was submitted; any other does not.
\<close>

datatype 'r prepared = Dispatch 'r | Replaced attempt_result

datatype send_result = Sent upstream_response | SendError bool string

definition send_prepared ::
  "adapters \<Rightarrow> attempt_context \<Rightarrow> 'r prepared \<Rightarrow> ('r \<Rightarrow> send_result) \<Rightarrow> instant \<Rightarrow> proxy_state \<Rightarrow> attempt_result" where
  "send_prepared ad ax prep send now s =
    (case prep of
       Replaced res \<Rightarrow> res
     | Dispatch request \<Rightarrow>
         (case send request of
            SendError is_connect e \<Rightarrow> fail_attempt ax None None (\<not> is_connect) e now s
          | Sent r \<Rightarrow> deliver_upstream_response ad ax r now s))"

text \<open>The bridge of a subscription: its backend, if there is one, and the conversion it needs.\<close>

type_synonym backend = "resolved_target \<Rightarrow> json \<Rightarrow> proxy_protocol \<Rightarrow> string option \<Rightarrow> string + upstream_response"

definition set_member :: "string \<Rightarrow> json \<Rightarrow> json \<Rightarrow> json" where
  "set_member k v w =
    (case w of JObject ms \<Rightarrow> JObject (AList.update k v ms) | JNull \<Rightarrow> JObject [(k, v)] | _ \<Rightarrow> w)"

definition remove_member :: "string \<Rightarrow> json \<Rightarrow> json" where
  "remove_member k w = (case w of JObject ms \<Rightarrow> JObject (AList.delete k ms) | _ \<Rightarrow> w)"

definition bad_request :: "string \<Rightarrow> disposition" where
  "bad_request message = Abort (error_response 400 message)"

definition subscription_payload ::
  "(proxy_protocol \<Rightarrow> proxy_protocol \<Rightarrow> json \<Rightarrow> string + json) \<Rightarrow> attempt_context \<Rightarrow> header_map \<Rightarrow> json \<Rightarrow> string + json" where
  "subscription_payload convert ax incoming payload =
    (let t = ax_target ax; inbound = inbound_protocol (r_config (ax_route ax)) in
     case (if upstream_kind t = CommunitySubscription then Inr payload
           else convert inbound (if upstream_kind t = ClaudeSubscription then AnthropicMessages else OpenAiChatCompletions) payload) of
       Inl e \<Rightarrow> Inl e
     | Inr p1 \<Rightarrow>
         (let p2 = (case model_override t of None \<Rightarrow> p1 | Some m \<Rightarrow> set_member ''model'' (JString m) p1) in
          if upstream_kind t = ClaudeSubscription then
            (if as_object p2 = None then Inl ''Claude requires a JSON object''
             else
               let p3 = remove_member ''_aipass_client_cache'' p2 in
               if header_get incoming ''x-aipass-cache-marks'' = Some ''client'' then
                 (if inbound \<noteq> AnthropicMessages then Inl ''client cache marks require the Messages protocol''
                  else Inr (set_member ''_aipass_client_cache'' (JBool True) p3))
               else Inr p3)
          else Inr p2))"

definition run_http_attempt ::
  "adapters \<Rightarrow> attempt_context \<Rightarrow> header_map \<Rightarrow> json option \<Rightarrow> backend option
    \<Rightarrow> (proxy_protocol \<Rightarrow> proxy_protocol \<Rightarrow> json \<Rightarrow> string + json)
    \<Rightarrow> 'r prepared \<Rightarrow> ('r \<Rightarrow> send_result) \<Rightarrow> instant \<Rightarrow> proxy_state \<Rightarrow> attempt_result" where
  "run_http_attempt ad ax incoming request_json backend convert prep send now s =
    (if is_subscription (ax_target ax) then
       (case backend of
          None \<Rightarrow> fail_attempt ax None None False ''subscription bridge is unavailable'' now s
        | Some request \<Rightarrow>
            (case request_json of
               None \<Rightarrow> (bad_request ''subscription bridge requires JSON'', [], s)
             | Some payload \<Rightarrow>
                 (case subscription_payload convert ax incoming payload of
                    Inl e \<Rightarrow> (bad_request e, [], s)
                  | Inr payload' \<Rightarrow>
                      let t = ax_target ax;
                          t' = (if upstream_proxy t = None then t\<lparr>upstream_proxy := Some (cfg_upstream_proxy (st_config s))\<rparr> else t)
                      in (case request t' payload' (inbound_protocol (r_config (ax_route ax))) (ax_session ax) of
                            Inr r \<Rightarrow> deliver_upstream_response ad ax r now s
                          | Inl e \<Rightarrow> fail_attempt ax None None True e now s))))
     else send_prepared ad ax prep send now s)"

section \<open>Rows\<close>

text \<open>
  What an attempt leaves to be booked: nothing for a request answered locally, one failed row
  for a retry, and for a delivered response either one successful row or one open row, which
  its tracking closes.
\<close>

definition row_matches :: "attempt_context \<Rightarrow> attempt_record \<Rightarrow> bool" where
  "row_matches ax a =
    (ar_request a = Some (ax_request ax) \<and> ar_target a = target_id (ax_target ax) \<and> ar_route a = route_id (ax_route ax))"

definition booked_once :: "attempt_context \<Rightarrow> attempt_result \<Rightarrow> bool" where
  "booked_once ax res =
    (case res of
       (Abort _, rows, _) \<Rightarrow> rows = []
     | (Retry _ _, rows, _) \<Rightarrow> map ar_success rows = [Some False] \<and> list_all (row_matches ax) rows
     | (Deliver _ tc, rows, _) \<Rightarrow>
         (case tc_attempt tc of
            None \<Rightarrow> \<not> tc_streaming tc \<and> map ar_success rows = [Some True] \<and> list_all (row_matches ax) rows
          | Some (a, _) \<Rightarrow> tc_streaming tc \<and> rows = [] \<and> ar_success a = None \<and> row_matches ax a))"

lemma row_matches_of [simp]: "row_matches ax (attempt_row_of ax st ft ok now)"
  by (simp add: row_matches_def attempt_row_of_def)

lemma ar_success_of [simp]: "ar_success (attempt_row_of ax st ft ok now) = ok"
  by (simp add: attempt_row_of_def)

lemma booked_fail: "booked_once ax (fail_attempt ax st ft submitted m now s)"
  by (simp add: booked_once_def fail_attempt_def)

lemma booked_rejection: "booked_once ax (deliver_rejection ad ax r now s)"
  by (simp add: booked_once_def deliver_rejection_def Let_def)

lemma booked_success: "booked_once ax (deliver_success ad ax r ft body i now s)"
  by (simp add: booked_once_def deliver_success_def tracking_of_def row_matches_def Let_def)
     (simp add: attempt_row_of_def)

lemma booked_body: "booked_once ax (deliver_body ad ax r c ok rest now s)"
  by (simp add: deliver_body_def Let_def booked_fail booked_success split: sum.split prod.split)

lemma booked_delivery: "booked_once ax (deliver_upstream_response ad ax r now s)"
  unfolding deliver_upstream_response_def Let_def
  by (auto simp: booked_fail booked_body booked_rejection split: sum.split prod.split option.split)
     (simp_all add: booked_once_def)

end
