(* ===== verification/Prepare.thy ===== *)
theory Prepare
  imports Response
begin

text \<open>
  The body of a request and its preparation for one target
  (\<open>crates/aipass-proxy/src/forward/body.rs\<close>, \<open>forward/prepare.rs\<close>, \<open>provider.rs\<close> and
  \<open>request_stream_usage\<close> of \<open>forward.rs\<close>).  A body is kept in memory up to 8 MiB and in a file
  beyond, at most 512 MiB.  The JSON codec, the conversion between protocols, the adapters of
  Codex, Gemini and Grok and the construction of the client are arguments.
\<close>

section \<open>Reading a body\<close>

datatype request_body = Memory bytes | File bytes

datatype body_error = TooLarge | Io string | TransportError string

definition MAX_REQUEST_BODY_BYTES :: nat where
  "MAX_REQUEST_BODY_BYTES = 512 * 1024 * 1024"

definition REQUEST_BODY_MEMORY_THRESHOLD :: nat where
  "REQUEST_BODY_MEMORY_THRESHOLD = 8 * 1024 * 1024"

text \<open>
  The errors of the temporary file: when it is created, when a write would bring it to a
  length, and when it is flushed.
\<close>

record disk =
  create_error :: "string option"
  write_error :: "nat \<Rightarrow> string option"
  flush_error :: "string option"

definition disk_write :: "disk \<Rightarrow> bytes \<Rightarrow> bytes \<Rightarrow> body_error + bytes" where
  "disk_write d fl chunk =
    (case write_error d (length fl + length chunk) of Some e \<Rightarrow> Inl (Io e) | None \<Rightarrow> Inr (fl @ chunk))"

definition spill :: "disk \<Rightarrow> bytes \<Rightarrow> bytes \<Rightarrow> body_error + bytes" where
  "spill d memory chunk =
    (case create_error d of
       Some e \<Rightarrow> Inl (Io e)
     | None \<Rightarrow> (case disk_write d [] memory of Inl e \<Rightarrow> Inl e | Inr fl \<Rightarrow> disk_write d fl chunk))"

text \<open>\<open>fl\<close> is the file if there is one; \<open>so_far\<close> is the number of bytes read.\<close>

fun read_chunks ::
  "disk \<Rightarrow> nat \<Rightarrow> nat \<Rightarrow> body_item list \<Rightarrow> bytes \<Rightarrow> bytes option \<Rightarrow> nat \<Rightarrow> body_error + request_body" where
  "read_chunks d max_bytes threshold [] memory fl so_far =
     (case fl of
        None \<Rightarrow> Inr (Memory memory)
      | Some f \<Rightarrow> (case flush_error d of Some e \<Rightarrow> Inl (Io e) | None \<Rightarrow> Inr (File f)))"
| "read_chunks d max_bytes threshold (BodyError e # rest) memory fl so_far = Inl (TransportError e)"
| "read_chunks d max_bytes threshold (Chunk c # rest) memory fl so_far =
     (let total = so_far + length c in
      if max_bytes < total then Inl TooLarge
      else case fl of
        Some f \<Rightarrow>
          (case disk_write d f c of
             Inl e \<Rightarrow> Inl e | Inr f' \<Rightarrow> read_chunks d max_bytes threshold rest memory (Some f') total)
      | None \<Rightarrow>
          if total \<le> threshold then read_chunks d max_bytes threshold rest (memory @ c) None total
          else (case spill d memory c of
             Inl e \<Rightarrow> Inl e | Inr f \<Rightarrow> read_chunks d max_bytes threshold rest [] (Some f) total))"

definition read_replayable_request_chunks :: "disk \<Rightarrow> body_item list \<Rightarrow> nat \<Rightarrow> nat \<Rightarrow> body_error + request_body" where
  "read_replayable_request_chunks d stream max_bytes threshold = read_chunks d max_bytes threshold stream [] None 0"

definition read_replayable_request_body :: "disk \<Rightarrow> body_item list \<Rightarrow> body_error + request_body" where
  "read_replayable_request_body d stream =
    read_replayable_request_chunks d stream MAX_REQUEST_BODY_BYTES REQUEST_BODY_MEMORY_THRESHOLD"

fun body_bytes :: "request_body \<Rightarrow> bytes option" where
  "body_bytes (Memory b) = Some b"
| "body_bytes (File _) = None"

fun body_content :: "request_body \<Rightarrow> bytes" where
  "body_content (Memory b) = b"
| "body_content (File b) = b"

definition body_json :: "(bytes \<Rightarrow> json option) \<Rightarrow> request_body \<Rightarrow> json option" where
  "body_json parse b = parse (body_content b)"

definition body_len :: "request_body \<Rightarrow> u64" where
  "body_len b = of_nat (length (body_content b))"

section \<open>Provider profiles\<close>

type_synonym members = "(string \<times> json) list"

definition or_insert_member :: "string \<Rightarrow> json \<Rightarrow> members \<Rightarrow> members" where
  "or_insert_member k v ms = (if map_of ms k = None then AList.update k v ms else ms)"

definition rename_limit :: "provider_profile \<Rightarrow> members \<Rightarrow> members" where
  "rename_limit prof ms =
    (let (from, dest) = (if prof = OpenAi then (''max_tokens'', ''max_completion_tokens'')
                       else (''max_completion_tokens'', ''max_tokens''))
     in case map_of ms from of None \<Rightarrow> ms | Some v \<Rightarrow> or_insert_member dest v (AList.delete from ms))"

definition thinking_type :: "members \<Rightarrow> string \<Rightarrow> bool" where
  "thinking_type ms kind = is_some_and (map_of ms ''thinking'') (\<lambda>v. json_index v ''type'' = JString kind)"

definition member_str :: "members \<Rightarrow> string \<Rightarrow> string option" where
  "member_str ms k = Option.bind (map_of ms k) as_str"

definition reason_effort :: "provider_profile \<Rightarrow> bool \<Rightarrow> bool \<Rightarrow> members \<Rightarrow> string + members" where
  "reason_effort prof kimi3 always_thinking ms =
    (case member_str ms ''reasoning_effort'' of
       None \<Rightarrow> Inr ms
     | Some effort \<Rightarrow>
         if kimi3 then
           (if effort \<in> {''low'', ''high'', ''max''} then Inr ms
            else Inl ''Kimi K3 reasoning_effort must be low, high or max'')
         else if always_thinking \<and> effort = ''none'' then Inl ''this Kimi model cannot disable thinking''
         else
           (let ms1 = or_insert_member ''thinking''
                  (JObject [(''type'', JString (if effort = ''none'' then ''disabled'' else ''enabled''))]) ms
            in Inr (if effort = ''none'' \<or> prof = Kimi then AList.delete ''reasoning_effort'' ms1 else ms1)))"

definition system_role :: "json \<Rightarrow> json" where
  "system_role message =
    (if json_index message ''role'' = JString ''developer'' then set_member ''role'' (JString ''system'') message else message)"

definition system_roles :: "members \<Rightarrow> members" where
  "system_roles ms =
    (case Option.bind (map_of ms ''messages'') as_array of
       None \<Rightarrow> ms
     | Some messages \<Rightarrow> AList.update ''messages'' (JArray (map system_role messages)) ms)"

definition prepare_thinking :: "provider_profile \<Rightarrow> members \<Rightarrow> string + members" where
  "prepare_thinking prof ms =
    (let model = unwrap_or (member_str ms ''model'') '''';
         kimi3 = (prof = Kimi \<and> starts_with ''kimi-k3'' model);
         always_thinking = (prof = Kimi \<and>
           (kimi3 \<or> starts_with ''kimi-k2.7-code'' model \<or> contains_part ''thinking'' model))
     in if kimi3 \<and> map_of ms ''thinking'' \<noteq> None then Inl ''Kimi K3 uses reasoning_effort and does not accept thinking''
        else case reason_effort prof kimi3 always_thinking ms of
          Inl e \<Rightarrow> Inl e
        | Inr ms1 \<Rightarrow>
            if always_thinking \<and> thinking_type ms1 ''disabled'' then Inl ''this Kimi model cannot disable thinking''
            else
              (let thinks = (thinking_type ms1 ''enabled''
                     \<or> is_some_and (member_str ms1 ''model'') (\<lambda>m. contains_part ''reasoner'' m \<or> contains_part ''thinking'' m));
                   ms2 = (if thinks \<or> always_thinking \<or> prof = Kimi \<and> starts_with ''kimi-k2.6'' model
                          then fold AList.delete [''temperature'', ''top_p'', ''presence_penalty'', ''frequency_penalty''] ms1
                          else ms1)
               in Inr (system_roles ms2)))"

definition prepare_members :: "provider_profile \<Rightarrow> members \<Rightarrow> string + members" where
  "prepare_members prof ms =
    (let ms1 = rename_limit prof ms in
     if prof \<in> {DeepSeek, Kimi} then prepare_thinking prof ms1
     else if prof = GeminiCompatible \<and> map_of ms1 ''reasoning_effort'' \<noteq> None
        \<and> is_some_and (map_of ms1 ''extra_body'') (\<lambda>v. json_pointer v [''google'', ''thinking_config''] \<noteq> None)
     then Inl ''Gemini accepts either reasoning_effort or google.thinking_config, not both''
     else Inr ms1)"

definition provider_prepare ::
  "(bytes \<Rightarrow> json option) \<Rightarrow> (json \<Rightarrow> bytes option) \<Rightarrow> provider_profile \<Rightarrow> proxy_protocol \<Rightarrow> bytes \<Rightarrow> string + bytes" where
  "provider_prepare parse print prof p payload =
    (if prof = Generic \<or> p \<noteq> OpenAiChatCompletions then Inr payload
     else case parse payload of
       None \<Rightarrow> Inl ''provider requires JSON''
     | Some v \<Rightarrow>
         (case as_object v of
            None \<Rightarrow> Inl ''provider requires a JSON object''
          | Some ms \<Rightarrow>
              (case prepare_members prof ms of
                 Inl e \<Rightarrow> Inl e
               | Inr ms' \<Rightarrow>
                   (case print (JObject ms') of None \<Rightarrow> Inl ''could not encode provider request'' | Some b \<Rightarrow> Inr b))))"

section \<open>Usage of a stream\<close>

definition stream_options :: "members \<Rightarrow> members option" where
  "stream_options ms =
    (case map_of ms ''stream_options'' of
       Some (JObject opts) \<Rightarrow> Some (AList.update ''stream_options'' (JObject (AList.update ''include_usage'' (JBool True) opts)) ms)
     | Some JNull \<Rightarrow> Some (AList.update ''stream_options'' (JObject [(''include_usage'', JBool True)]) ms)
     | None \<Rightarrow> Some (AList.update ''stream_options'' (JObject [(''include_usage'', JBool True)]) ms)
     | Some _ \<Rightarrow> None)"

definition request_stream_usage ::
  "(bytes \<Rightarrow> json option) \<Rightarrow> (json \<Rightarrow> bytes option) \<Rightarrow> proxy_protocol \<Rightarrow> bool \<Rightarrow> bytes \<Rightarrow> bytes" where
  "request_stream_usage parse print p streaming payload =
    (if \<not> streaming \<or> p \<noteq> OpenAiChatCompletions then payload
     else case Option.bind (Option.bind (parse payload) as_object) stream_options of
       None \<Rightarrow> payload
     | Some ms \<Rightarrow> unwrap_or (print (JObject ms)) payload)"

section \<open>The request of an attempt\<close>

record 'u request_tools =
  rt_client :: "string + unit"
  rt_convert :: "proxy_protocol \<Rightarrow> proxy_protocol \<Rightarrow> json \<Rightarrow> string + json"
  rt_to_string :: "json \<Rightarrow> bytes"
  rt_parse_url :: "string \<Rightarrow> ('u \<times> string \<times> string option) option"
  rt_print_url :: "'u \<Rightarrow> string \<Rightarrow> string option \<Rightarrow> string"
  rt_value_of :: "string \<Rightarrow> bytes option"
  rt_show_error :: "header_error \<Rightarrow> string"
  rt_codex :: "bytes \<Rightarrow> string + bytes"
  rt_codex_headers :: "header_map \<Rightarrow> bytes \<Rightarrow> header_map"
  rt_gemini :: "string \<Rightarrow> bytes \<Rightarrow> uuid \<Rightarrow> string + string \<times> bytes"
  rt_grok :: "json \<Rightarrow> string + json"

record upstream_request =
  ur_url :: string
  ur_headers :: header_map
  ur_body :: request_body

text \<open>A step fails the attempt, or rejects the request of the client.\<close>

datatype prepare_error = FailAttempt string | RejectRequest string

definition reject :: "string + 'a \<Rightarrow> prepare_error + 'a" where
  "reject v = (case v of Inl e \<Rightarrow> Inl (RejectRequest e) | Inr x \<Rightarrow> Inr x)"

definition needs_adaptation :: "resolved_target \<Rightarrow> bool" where
  "needs_adaptation t = (profile t \<noteq> Generic \<or> upstream_kind t \<noteq> Standard \<or> model_override t \<noteq> None)"

definition materialize_step :: "'u request_tools \<Rightarrow> resolved_target \<Rightarrow> request_body \<Rightarrow> json option \<Rightarrow> prepare_error + bytes option" where
  "materialize_step rt t body request_json =
    (if needs_adaptation t \<and> body_bytes body = None then
       (case request_json of
          Some v \<Rightarrow> Inr (Some (rt_to_string rt v))
        | None \<Rightarrow> Inl (RejectRequest ''provider adaptation requires a JSON request''))
     else Inr None)"

definition convert_step ::
  "'u request_tools \<Rightarrow> (json \<Rightarrow> bytes option) \<Rightarrow> attempt_context \<Rightarrow> proxy_protocol \<Rightarrow> bool \<Rightarrow> json option \<Rightarrow> bytes option
    \<Rightarrow> prepare_error + bytes option" where
  "convert_step rt print ax p conversion request_json rewritten =
    (if conversion then
       (case request_json of
          None \<Rightarrow> Inl (RejectRequest ''protocol conversion requires a JSON request'')
        | Some v \<Rightarrow>
            (case rt_convert rt (inbound_protocol (r_config (ax_route ax))) p v of
               Inl e \<Rightarrow> Inl (RejectRequest e)
             | Inr w \<Rightarrow> (case print w of None \<Rightarrow> Inl (RejectRequest ''invalid payload'') | Some b \<Rightarrow> Inr (Some b))))
     else Inr rewritten)"

definition usage_step ::
  "(bytes \<Rightarrow> json option) \<Rightarrow> (json \<Rightarrow> bytes option) \<Rightarrow> proxy_protocol \<Rightarrow> bool \<Rightarrow> bool \<Rightarrow> request_body \<Rightarrow> bytes option \<Rightarrow> bytes option" where
  "usage_step parse print p streaming conversion body rewritten =
    (case or_else rewritten (body_bytes body) of
       None \<Rightarrow> rewritten
     | Some payload \<Rightarrow>
         (let updated = request_stream_usage parse print p streaming payload in
          if updated \<noteq> payload then Some updated
          else if conversion \<or> body_bytes body = None then Some payload
          else None))"

definition model_step ::
  "'u request_tools \<Rightarrow> (bytes \<Rightarrow> json option) \<Rightarrow> resolved_target \<Rightarrow> request_body \<Rightarrow> bytes option \<Rightarrow> prepare_error + bytes option" where
  "model_step rt parse t body rewritten =
    (case model_override t of
       None \<Rightarrow> Inr rewritten
     | Some m \<Rightarrow>
         (case or_else rewritten (body_bytes body) of
            None \<Rightarrow> Inr rewritten
          | Some source \<Rightarrow>
              (case parse source of
                 None \<Rightarrow> Inl (RejectRequest ''model adaptation requires JSON'')
               | Some v \<Rightarrow> Inr (Some (rt_to_string rt (set_member ''model'' (JString m) v))))))"

definition profile_step ::
  "(bytes \<Rightarrow> json option) \<Rightarrow> (json \<Rightarrow> bytes option) \<Rightarrow> resolved_target \<Rightarrow> proxy_protocol \<Rightarrow> request_body \<Rightarrow> bytes option
    \<Rightarrow> prepare_error + bytes option" where
  "profile_step parse print t p body rewritten =
    (if profile t = Generic then Inr rewritten
     else case or_else rewritten (body_bytes body) of
       None \<Rightarrow> Inr rewritten
     | Some source \<Rightarrow> reject (map_sum id Some (provider_prepare parse print (profile t) p source)))"

definition request_path :: "resolved_target \<Rightarrow> proxy_protocol \<Rightarrow> string" where
  "request_path t p =
    (if auth_scheme (t_config t) = ''azure_api_key''
     then unwrap_or (strip_prefix ''/v1'' (protocol_path p)) (protocol_path p) else protocol_path p)"

text \<open>The vendor steps, on the URL, the headers and the payload.\<close>

definition codex_step ::
  "'u request_tools \<Rightarrow> resolved_target \<Rightarrow> request_body \<Rightarrow> header_map \<times> bytes option \<Rightarrow> prepare_error + header_map \<times> bytes option" where
  "codex_step rt t body st =
    (if upstream_kind t \<noteq> CodexSubscription then Inr st
     else case or_else (snd st) (body_bytes body) of
       None \<Rightarrow> Inl (RejectRequest ''Codex subscription requires a buffered JSON request'')
     | Some source \<Rightarrow> reject (map_sum id (\<lambda>b. (rt_codex_headers rt (fst st) b, Some b)) (rt_codex rt source)))"

definition gemini_step ::
  "'u request_tools \<Rightarrow> resolved_target \<Rightarrow> request_body \<Rightarrow> string \<times> bytes option \<Rightarrow> prepare_error + string \<times> bytes option" where
  "gemini_step rt t body st =
    (if upstream_kind t \<noteq> GeminiNative then Inr st
     else case or_else (snd st) (body_bytes body) of
       None \<Rightarrow> Inl (RejectRequest ''Gemini requires a buffered JSON request'')
     | Some source \<Rightarrow> reject (map_sum id (\<lambda>(endpoint, b). (endpoint, Some b)) (rt_gemini rt (base_url (t_config t)) source (target_id t))))"

definition grok_step ::
  "'u request_tools \<Rightarrow> (bytes \<Rightarrow> json option) \<Rightarrow> resolved_target \<Rightarrow> request_body \<Rightarrow> bytes option \<Rightarrow> prepare_error + bytes option" where
  "grok_step rt parse t body rewritten =
    (if profile t \<noteq> Grok then Inr rewritten
     else case or_else rewritten (body_bytes body) of
       None \<Rightarrow> Inl (RejectRequest ''Grok requires a buffered JSON request'')
     | Some source \<Rightarrow>
         (case parse source of
            None \<Rightarrow> Inl (RejectRequest ''Grok requires JSON'')
          | Some v \<Rightarrow> reject (map_sum id (\<lambda>w. Some (rt_to_string rt w)) (rt_grok rt v))))"

definition assemble ::
  "adapters \<Rightarrow> 'u request_tools \<Rightarrow> attempt_context \<Rightarrow> header_map \<Rightarrow> string option \<Rightarrow> request_body \<Rightarrow> json option
    \<Rightarrow> prepare_error + upstream_request" where
  "assemble ad rt ax incoming query body request_json =
    (let t = ax_target ax;
         p = effective_protocol (t_config t) (upstream_protocol (r_config (ax_route ax)));
         conversion = (conversion_enabled (r_config (ax_route ax)) \<and> inbound_protocol (r_config (ax_route ax)) \<noteq> p);
         parse = ad_parse ad; print = ad_print ad
     in and_then (case rt_client rt of Inl e \<Rightarrow> Inl (FailAttempt e) | Inr _ \<Rightarrow> materialize_step rt t body request_json) (\<lambda>r0.
        and_then (convert_step rt print ax p conversion request_json r0) (\<lambda>r1.
        and_then (model_step rt parse t body (usage_step parse print p (ax_streaming ax) conversion body r1)) (\<lambda>r2.
        and_then (profile_step parse print t p body r2) (\<lambda>r3.
        and_then (case upstream_url_with_query (rt_parse_url rt) (rt_print_url rt) (base_url (t_config t)) (request_path t p) query of
            None \<Rightarrow> Inl (FailAttempt ''invalid base URL'') | Some u \<Rightarrow> Inr u) (\<lambda>url.
        and_then (case build_upstream_headers (ad_name_of ad) (rt_value_of rt) incoming t p of
            Inl e \<Rightarrow> Inl (FailAttempt (rt_show_error rt e)) | Inr hs \<Rightarrow> Inr hs) (\<lambda>hs.
        and_then (codex_step rt t body (hs, r3)) (\<lambda>(hs1, r4).
        and_then (gemini_step rt t body (url, r4)) (\<lambda>(url1, r5).
        and_then (grok_step rt parse t body r5) (\<lambda>r6.
          let payload = (case r6 of Some b \<Rightarrow> Memory b | None \<Rightarrow> body) in
          (case rt_value_of rt (show_nat (length (body_content payload))) of
             None \<Rightarrow> Inl (FailAttempt ''invalid content length'')
           | Some v \<Rightarrow> Inr \<lparr>ur_url = url1, ur_headers = header_insert ''content-length'' v hs1, ur_body = payload\<rparr>)))))))))))"

definition prepare_upstream_request ::
  "adapters \<Rightarrow> 'u request_tools \<Rightarrow> attempt_context \<Rightarrow> header_map \<Rightarrow> string option \<Rightarrow> request_body \<Rightarrow> json option
    \<Rightarrow> instant \<Rightarrow> proxy_state \<Rightarrow> upstream_request prepared" where
  "prepare_upstream_request ad rt ax incoming query body request_json now s =
    (case assemble ad rt ax incoming query body request_json of
       Inl (FailAttempt e) \<Rightarrow> Replaced (fail_attempt ax None None False e now s)
     | Inl (RejectRequest e) \<Rightarrow> Replaced (bad_request e, [], s)
     | Inr req \<Rightarrow> Dispatch req)"

section \<open>A body is what was sent\<close>

lemma disk_write_Inr: "disk_write d fl c = Inr f \<Longrightarrow> f = fl @ c"
  by (auto simp: disk_write_def split: option.splits)

lemma spill_Inr: "spill d memory c = Inr f \<Longrightarrow> f = memory @ c"
  by (auto simp: spill_def split: option.splits sum.splits dest!: disk_write_Inr)

lemma read_chunks_Inr:
  "read_chunks d max_bytes threshold src memory fl so_far = Inr b \<Longrightarrow>
    (case fl of None \<Rightarrow> so_far = length memory | Some f \<Rightarrow> so_far = length f \<and> threshold < so_far) \<Longrightarrow>
    (case fl of None \<Rightarrow> so_far \<le> threshold | Some f \<Rightarrow> True) \<Longrightarrow> so_far \<le> max_bytes \<Longrightarrow>
    \<exists>cs. src = map Chunk cs \<and> body_content b = unwrap_or fl memory @ concat cs
      \<and> length (body_content b) \<le> max_bytes
      \<and> (body_bytes b \<noteq> None \<longleftrightarrow> length (body_content b) \<le> threshold)"
proof (induction d max_bytes threshold src memory fl so_far rule: read_chunks.induct)
  case (1 d max_bytes threshold memory fl so_far)
  then show ?case by (auto split: option.splits)
next
  case (2 d max_bytes threshold e rest memory fl so_far)
  then show ?case by simp
next
  case (3 d max_bytes threshold c rest memory fl so_far)
  note small = 3(4)
  have fits: "\<not> max_bytes < so_far + length c" using small by (auto simp: Let_def split: if_splits)
  have more: "\<exists>cs. Chunk c # rest = map Chunk cs \<and> body_content b = m @ concat cs \<and> P"
    if "\<exists>cs. rest = map Chunk cs \<and> body_content b = m @ c @ concat cs \<and> P" for m P
  proof -
    from that obtain cs where "rest = map Chunk cs" "body_content b = m @ c @ concat cs" "P" by blast
    then show ?thesis by (intro exI [of _ "c # cs"]) simp
  qed
  show ?case
  proof (cases fl)
    case None
    show ?thesis
    proof (cases "so_far + length c \<le> threshold")
      case True
      with small fits None have "read_chunks d max_bytes threshold rest (memory @ c) None (so_far + length c) = Inr b"
        by (simp add: Let_def)
      from 3(1) [OF refl fits None True this] True fits 3(5) None show ?thesis
        by (simp add: more)
    next
      case False
      with small fits None obtain f where f: "spill d memory c = Inr f"
        "read_chunks d max_bytes threshold rest [] (Some f) (so_far + length c) = Inr b"
        by (auto simp: Let_def split: sum.splits)
      from 3(2) [OF refl fits None False f] False fits 3(5) None spill_Inr [OF f(1)] show ?thesis
        by (simp add: more)
    qed
  next
    case (Some g)
    with small fits obtain f where f: "disk_write d g c = Inr f"
      "read_chunks d max_bytes threshold rest memory (Some f) (so_far + length c) = Inr b"
      by (auto simp: Let_def split: sum.splits)
    from 3(3) [OF refl fits Some f] fits 3(5) Some disk_write_Inr [OF f(1)] show ?thesis
      by (simp add: more)
  qed
qed

section \<open>Properties\<close>

text \<open>
  A request body that is accepted is kept whole: it is the concatenation of all its chunks,
  of at most 512 MiB, so it can be sent again to another target byte for byte, and it is held
  in memory exactly when it has at most 8 MiB.
\<close>

theorem request_body_is_replayable:
  assumes "read_replayable_request_body d stream = Inr b"
  shows "\<exists>cs. stream = map Chunk cs \<and> body_content b = concat cs \<and> length (body_content b) \<le> 536870912
    \<and> (body_bytes b \<noteq> None \<longleftrightarrow> length (body_content b) \<le> 8388608)"
  using read_chunks_Inr [OF assms [unfolded read_replayable_request_body_def read_replayable_request_chunks_def]]
  by (simp add: MAX_REQUEST_BODY_BYTES_def REQUEST_BODY_MEMORY_THRESHOLD_def)

theorem request_body_is_replayable_witness:
  "\<exists>cs. [Chunk ''ab'', Chunk ''c''] = map Chunk cs \<and> body_content (Memory ''abc'') = concat cs
    \<and> length (body_content (Memory ''abc'')) \<le> 536870912
    \<and> (body_bytes (Memory ''abc'') \<noteq> None \<longleftrightarrow> length (body_content (Memory ''abc'')) \<le> 8388608)"
  by (rule request_body_is_replayable [of "\<lparr>create_error = None, write_error = (\<lambda>_. None), flush_error = None\<rparr>"])
     (simp add: read_replayable_request_body_def read_replayable_request_chunks_def Let_def
       MAX_REQUEST_BODY_BYTES_def REQUEST_BODY_MEMORY_THRESHOLD_def)

text \<open>
  Every attempt is booked exactly once: a retry leaves one failed row, a delivered response
  either one successful row or one open row that its tracking closes, and a request the proxy
  answers itself leaves none; the rows name the request, the route and the target.
\<close>

theorem attempt_is_booked_once:
  "booked_once ax (run_http_attempt ad ax incoming request_json backend convert
     (prepare_upstream_request ad rt ax incoming query body request_json now s) send now s)"
proof -
  have bad: "booked_once ax (bad_request e, [], s)" for e
    by (simp add: booked_once_def bad_request_def)
  have "booked_once ax (send_prepared ad ax (prepare_upstream_request ad rt ax incoming query body request_json now s) send now s)"
    by (auto simp: send_prepared_def prepare_upstream_request_def bad booked_fail booked_delivery
        split: sum.split prepare_error.split send_result.split)
  then show ?thesis
    by (auto simp: run_http_attempt_def Let_def bad booked_fail booked_delivery split: option.split sum.split)
qed

text \<open>What a body shows when the request may be sent to another target although it was received.\<close>

definition unbilled :: "adapters \<Rightarrow> attempt_context \<Rightarrow> upstream_response \<Rightarrow> bytes \<Rightarrow> bool" where
  "unbilled ad ax r buffered =
    (buffers_stream ax r \<and> stream_reports_error (ad_parse ad) buffered
       \<and> \<not> stream_reports_output (ad_parse ad) (target_protocol ax) buffered
       \<and> \<not> stream_reports_completion (ad_parse ad) (target_protocol ax) buffered
     \<or> is_success (up_status r) \<and> (is_upstream_error_payload (ad_parse ad) buffered \<or> buffered = [])
     \<or> codex_response ax r \<and> (\<exists>m. ad_codex_collect ad buffered = Inl (True, m))
     \<or> converts ax \<and> \<not> streaming_response ax r)"

lemma deliver_buffered_False:
  assumes "deliver_buffered ad ax r first_chunk rest = Inl (m, False)"
  shows "\<exists>buffered. collect_upstream_body first_chunk rest = Inr buffered \<and> unbilled ad ax r buffered"
proof -
  from assms obtain b where b: "collect_upstream_body first_chunk rest = Inr b"
    by (auto simp: deliver_buffered_def split: sum.splits)
  have "unbilled ad ax r b"
  proof (cases "check_buffered ad ax r b")
    case (Inl f)
    with assms b show ?thesis
      by (auto simp: deliver_buffered_def check_buffered_def unbilled_def Let_def split: sum.splits if_splits)
  next
    case (Inr b1)
    with assms b have "converts ax \<and> \<not> streaming_response ax r"
      by (auto simp: deliver_buffered_def normalize_gemini_def convert_payload_def split: sum.splits option.splits if_splits)
    then show ?thesis by (simp add: unbilled_def)
  qed
  with b show ?thesis by blast
qed

lemma deliver_success_Retry: "deliver_success ad ax r ft body i now s \<noteq> (Retry e b, rows, s')"
  by (simp add: deliver_success_def Let_def)

lemma deliver_body_False:
  assumes "deliver_body ad ax r c observed_token rest now s = (Retry e False, rows, s')"
  shows "\<not> (streaming_response ax r \<and> \<not> buffers_stream ax r)
    \<and> (\<exists>buffered. collect_upstream_body c rest = Inr buffered \<and> unbilled ad ax r buffered)"
  using assms deliver_buffered_False [of ad ax r c rest]
  by (auto simp: deliver_body_def fail_attempt_def deliver_success_Retry Let_def split: if_splits sum.splits)


definition sample_adapters :: adapters where
  "sample_adapters = \<lparr>ad_name_of = Some, ad_parse = (\<lambda>_. None), ad_print = (\<lambda>_. None), ad_http_date = (\<lambda>_. None),
     ad_show_status = show_nat, ad_detail = (\<lambda>_. []), ad_gemini_stream = (\<lambda>b. b), ad_gemini_response = Inr,
     ad_codex_collect = Inr, ad_convert_response = (\<lambda>_ _. Some)\<rparr>"

definition sample_context :: attempt_context where
  "sample_context = \<lparr>ax_route = sample_route, ax_target = sample_target, ax_pricing = [], ax_request = 9, ax_row = 8,
     ax_session = None, ax_streaming = False, ax_websocket = False, ax_started = 0, ax_started_at = 100,
     ax_attempt_started = 0, ax_attempt_started_at = 100, ax_attempts = 1, ax_evidence = None, ax_model = None\<rparr>"


section \<open>A conversion that fails\<close>

text \<open>
  C40. A complete answer of a provider that generated and was paid for is sent to another target
  when its conversion fails: the attempt reports that nothing was submitted.
\<close>

theorem conversion_failure_is_replayed:
  assumes "\<not> is_subscription (ax_target ax)" "\<not> is_retryable_status (up_status r)" "converts ax" "\<not> ax_streaming ax"
    and "upstream_kind (ax_target ax) = Standard" "up_body r = [Chunk b]" "b \<noteq> []"
    and "length b \<le> MAX_BUFFERED_RESPONSE_BYTES" "\<not> is_upstream_error_payload (ad_parse ad) b"
    and "ad_parse ad b = Some v" "ad_convert_response ad (target_protocol ax) (inbound_protocol (r_config (ax_route ax))) v = None"
  shows "fst (deliver_upstream_response ad ax r now s)
    = Retry ''protocol conversion failed for upstream response'' False"
  using assms
  by (simp add: deliver_upstream_response_def upstream_items_def streaming_response_def deliver_body_def deliver_buffered_def
      collect_upstream_body_def collect_from.simps check_buffered_def buffers_stream_def codex_response_def
      normalize_gemini_def convert_payload_def fail_attempt_def Let_def)

definition strict_adapters :: adapters where
  "strict_adapters = sample_adapters\<lparr>ad_parse := (\<lambda>_. Some (JObject [])), ad_convert_response := (\<lambda>_ _ _. None)\<rparr>"

definition converting_context :: attempt_context where
  "converting_context = sample_context\<lparr>
     ax_route := sample_route\<lparr>r_config := (r_config sample_route)\<lparr>conversion_enabled := True, inbound_protocol := AnthropicMessages\<rparr>\<rparr>\<rparr>"

theorem conversion_failure_is_replayed_witness:
  "fst (deliver_upstream_response strict_adapters converting_context \<lparr>up_status = 200, up_headers = [], up_body = [Chunk ''{}'']\<rparr> 5 sample_state)
    = Retry ''protocol conversion failed for upstream response'' False"
proof (rule conversion_failure_is_replayed)
  show "converts converting_context"
    by (simp add: converts_def target_protocol_def converting_context_def sample_context_def sample_route_def sample_target_def
        effective_protocol_def)
  show "\<not> is_upstream_error_payload (ad_parse strict_adapters) ''{}''"
    by (simp add: is_upstream_error_payload_def strict_adapters_def get_str_def)
qed (simp_all add: converting_context_def strict_adapters_def sample_context_def sample_target_def is_subscription_def
      is_retryable_status_def is_redirection_def is_client_error_def is_server_error_def MAX_BUFFERED_RESPONSE_BYTES_def)

end
