(* ===== verification/Models.thy ===== *)
theory Models
  imports Prepare
begin

text \<open>
  Groups that publish one model for members that bind their own
  (\<open>crates/aipass-proxy/src/model_routes.rs\<close>), and the history that only the account that
  produced it can continue: opaque reasoning (\<open>response_item_ciphertexts\<close> of
  \<open>crates/aipass-proxy-conversion/src/reasoning.rs\<close>), signed thinking and stored responses.
  How a UUID is printed is the argument \<open>show_uuid\<close>.
\<close>

section \<open>The model of a group\<close>

definition model_id :: "(uuid \<Rightarrow> string) \<Rightarrow> resolved_route \<Rightarrow> string option" where
  "model_id show_uuid route =
    (if \<exists>t\<in>set (r_targets route). target_enabled t \<and> tc_model (t_config t) \<noteq> None
     then Some (''group/'' @ show_uuid (route_id route)) else None)"

definition unbound_member :: "resolved_target \<Rightarrow> bool" where
  "unbound_member t = (target_enabled t \<and> is_none_or (tc_model (t_config t)) (\<lambda>m. trim m = ''''))"

definition validate_request :: "(uuid \<Rightarrow> string) \<Rightarrow> resolved_route \<Rightarrow> string option \<Rightarrow> json option \<Rightarrow> string + unit" where
  "validate_request show_uuid route model payload =
    (case model_id show_uuid route of
       None \<Rightarrow> Inr ()
     | Some expected \<Rightarrow>
         if model \<noteq> Some expected then Inl (''this routing group requires model '' @ expected)
         else if \<not> is_some_and payload (\<lambda>v. as_object v \<noteq> None) then Inl ''group model routing requires a JSON object''
         else if \<exists>t\<in>set (r_targets route). unbound_member t
         then Inl ''every enabled group member must bind an upstream model''
         else Inr ())"

section \<open>History that belongs to an account\<close>

definition nonempty_str :: "json \<Rightarrow> string option" where
  "nonempty_str v = (case as_str v of Some s \<Rightarrow> if s = '''' then None else Some s | None \<Rightarrow> None)"

definition array_items :: "json option \<Rightarrow> json list" where
  "array_items v = unwrap_or (Option.bind v as_array) []"

definition cipher_parts :: "json \<Rightarrow> json option" where
  "cipher_parts item =
    (case as_str (json_index item ''type'') of
       Some kind \<Rightarrow>
         if kind = ''message'' \<or> kind = ''agent_message'' then json_get item ''content''
         else if kind = ''function_call_output'' \<or> kind = ''custom_tool_call_output'' then json_get item ''output''
         else None
     | None \<Rightarrow> if as_str (json_index item ''role'') \<noteq> None then json_get item ''content'' else None)"

definition part_ciphers :: "json \<Rightarrow> string list" where
  "part_ciphers part =
    (if json_index part ''type'' = JString ''encrypted_content''
     then filter_map (\<lambda>k. nonempty_str (json_index part k)) [''data'', ''encrypted_content''] else [])"

definition response_item_ciphertexts :: "json \<Rightarrow> string list" where
  "response_item_ciphertexts item =
    filter_map (\<lambda>v. v)
      [nonempty_str (json_index item ''encrypted_content''),
       if json_index item ''type'' = JString ''encrypted_content'' then nonempty_str (json_index item ''data'') else None]
    @ concat (map part_ciphers (array_items (cipher_parts item)))"

definition bound_block :: "json \<Rightarrow> bool" where
  "bound_block v =
    (response_item_ciphertexts v \<noteq> []
     \<or> (case get_str v ''type'' of
          Some kind \<Rightarrow>
            kind = ''redacted_thinking''
            \<or> kind = ''thinking'' \<and> is_some_and (json_get v ''signature'') (\<lambda>s. \<not> is_null s)
        | None \<Rightarrow> False))"

definition has_bound_history :: "json \<Rightarrow> bool" where
  "has_bound_history v =
    ((\<exists>k\<in>{''previous_response_id'', ''conversation''}.
        is_some_and (json_get v k) (\<lambda>w. \<not> is_null w \<and> as_str w \<noteq> Some ''''))
     \<or> (\<exists>item\<in>set (array_items (or_else (json_get v ''messages'') (json_get v ''input''))).
          bound_block item \<or> (\<exists>b\<in>set (array_items (json_get item ''content'')). bound_block b)))"

text \<open>The conversation a payload continues, and the account recorded for it.\<close>

definition origin_key :: "json \<Rightarrow> string option \<Rightarrow> string option" where
  "origin_key payload sess =
    or_else (get_str payload ''previous_response_id'')
      (or_else (Option.bind (json_get payload ''conversation'') (\<lambda>v. or_else (as_str v) (get_str v ''id''))) sess)"

definition recorded_origin :: "affinity_map \<Rightarrow> uuid \<Rightarrow> json \<Rightarrow> string option \<Rightarrow> instant \<Rightarrow> uuid option" where
  "recorded_origin affinities route payload sess now =
    Option.bind (origin_key payload sess) (\<lambda>key.
      Option.bind (hm_get affinities (route, key)) (\<lambda>a.
        if now - aff_last_used a < SESSION_AFFINITY_TTL then Some (aff_target a) else None))"

definition history_owner ::
  "(uuid \<Rightarrow> string) \<Rightarrow> affinity_map \<Rightarrow> resolved_route \<Rightarrow> json \<Rightarrow> string option \<Rightarrow> uuid option \<Rightarrow> instant
    \<Rightarrow> string + uuid option" where
  "history_owner show_uuid affinities route payload sess owner now =
    (if model_id show_uuid route = None \<or> \<not> has_bound_history payload then Inr owner
     else
       let recorded = recorded_origin affinities (route_id route) payload sess now in
       if owner \<noteq> None \<and> recorded \<noteq> None \<and> owner \<noteq> recorded then Inl ''history mixes provider-bound sessions''
       else case or_else owner recorded of
         Some t \<Rightarrow> Inr (Some t)
       | None \<Rightarrow> Inl ''provider-bound history has no recorded origin; resend full portable history'')"

section \<open>Properties\<close>

lemma hidden_cipher_is_bound:
  "json_index part ''type'' = JString ''encrypted_content'' \<Longrightarrow> nonempty_str (json_index part ''data'') = Some c \<Longrightarrow>
    c \<in> set (part_ciphers part)"
  by (simp add: part_ciphers_def)


definition sample_group :: resolved_route where
  "sample_group = sample_route\<lparr>r_targets :=
     [sample_target\<lparr>t_config := (t_config sample_target)\<lparr>tc_model := Some ''m''\<rparr>\<rparr>]\<rparr>"

definition bound_payload :: json where
  "bound_payload = JObject [(''previous_response_id'', JString ''r'')]"


text \<open>
  A group admits exactly the requests that name its model and are a JSON object while every
  enabled member binds a model; a route that is not a group admits every request.
\<close>

theorem group_admits_exactly:
  "validate_request show_uuid route model payload = Inr () \<longleftrightarrow>
    (case model_id show_uuid route of
       None \<Rightarrow> True
     | Some m \<Rightarrow> model = Some m \<and> (\<exists>ms. payload = Some (JObject ms))
         \<and> list_all (\<lambda>t. \<not> target_enabled t \<or> (\<exists>b. tc_model (t_config t) = Some b \<and> trim b \<noteq> '''')) (r_targets route))"
proof -
  have obj: "as_object v = Some ms \<longleftrightarrow> v = JObject ms" for v ms by (cases v) auto
  show ?thesis
    by (auto simp: validate_request_def unbound_member_def is_some_and_iff is_none_or_def obj list_all_iff split: option.splits)
qed

end
