(* ===== verification/Forward.thy ===== *)
theory Forward
  imports Models
begin

text \<open>
  The forwarding loop of a request (\<open>forward_request_inner\<close> of
  \<open>crates/aipass-proxy/src/forward.rs\<close>): held rounds, silent retries, the targets of a round,
  admission of each target, the attempt itself, and the answer when every target failed.  The
  clock advances while the loop awaits, and the other requests of the proxy may change the
  shared state meanwhile: \<open>fe_meanwhile\<close>.  The WebSocket transport, the Copilot catalogue and
  the vendor ledgers are arguments.
\<close>

section \<open>The metadata of a request\<close>

text \<open>
  \<open>RequestMetadata\<close> as serde derives it: members under any of their names, \<open>null\<close> as absence,
  an error for a member that is given twice or has another type; a list gives all eight fields
  in order.
\<close>

fun opt_string :: "json option \<Rightarrow> string option option" where
  "opt_string None = Some None"
| "opt_string (Some JNull) = Some None"
| "opt_string (Some (JString s)) = Some (Some s)"
| "opt_string (Some _) = None"

fun flag :: "json option \<Rightarrow> bool option" where
  "flag None = Some False"
| "flag (Some v) = as_bool v"

definition opt_value :: "json option \<Rightarrow> json option" where
  "opt_value v = (case v of None \<Rightarrow> None | Some w \<Rightarrow> if is_null w then None else Some w)"

definition metadata_fields ::
  "json option \<Rightarrow> json option \<Rightarrow> json option \<Rightarrow> json option \<Rightarrow> json option \<Rightarrow> json option \<Rightarrow> json option \<Rightarrow> json option
    \<Rightarrow> request_metadata option" where
  "metadata_fields stream model cache sid sess conv prev whole =
    Option.bind (flag stream) (\<lambda>st.
    Option.bind (opt_string model) (\<lambda>m.
    Option.bind (opt_string cache) (\<lambda>pc.
    Option.bind (opt_string sid) (\<lambda>si.
    Option.bind (opt_string sess) (\<lambda>se.
    Option.bind (opt_string conv) (\<lambda>co.
    Option.bind (opt_string prev) (\<lambda>pr.
      Some \<lparr>md_stream = st, md_model = m, prompt_cache_key = pc, session_id = si, session = se,
        conversation_id = co, previous_response_id = pr, conversation = opt_value whole\<rparr>)))))))"

definition member_once :: "string list \<Rightarrow> (string \<times> json) list \<Rightarrow> json option option" where
  "member_once names ms =
    (case filter (\<lambda>e. fst e \<in> set names) ms of [] \<Rightarrow> Some None | [e] \<Rightarrow> Some (Some (snd e)) | _ \<Rightarrow> None)"

definition metadata_of :: "json \<Rightarrow> request_metadata option" where
  "metadata_of v =
    (case v of
       JObject ms \<Rightarrow>
         Option.bind (member_once [''stream''] ms) (\<lambda>a.
         Option.bind (member_once [''model''] ms) (\<lambda>b.
         Option.bind (member_once [''prompt_cache_key'', ''promptCacheKey''] ms) (\<lambda>c.
         Option.bind (member_once [''session_id'', ''sessionId''] ms) (\<lambda>d.
         Option.bind (member_once [''session'', ''sessionKey''] ms) (\<lambda>e.
         Option.bind (member_once [''conversation_id'', ''conversationId''] ms) (\<lambda>f.
         Option.bind (member_once [''previous_response_id'', ''previousResponseId''] ms) (\<lambda>g.
         Option.bind (member_once [''conversation''] ms) (\<lambda>h. metadata_fields a b c d e f g h))))))))
     | JArray [a, b, c, d, e, f, g, h] \<Rightarrow>
         metadata_fields (Some a) (Some b) (Some c) (Some d) (Some e) (Some f) (Some g) (Some h)
     | _ \<Rightarrow> None)"

definition default_metadata :: request_metadata where
  "default_metadata = \<lparr>md_stream = False, md_model = None, prompt_cache_key = None, session_id = None, session = None,
     conversation_id = None, previous_response_id = None, conversation = None\<rparr>"

section \<open>Requests and their environment\<close>

record forward_request =
  fq_image :: bool
  fq_websocket :: bool
  fq_fallback :: "string option"
  fq_id :: uuid
  fq_method :: string
  fq_query :: "string option"
  fq_headers :: header_map
  fq_body :: request_body
  fq_started :: instant
  fq_started_at :: int

text \<open>
  What the WebSocket transport gives: a response, a rejection, or a fallback to HTTP with the
  evidence it found; the transport counts the attempts it adds.
\<close>

datatype ws_outcome = WsResponse client_response | WsFallback "evidence option" | WsRejected nat

record 'u forward_env =
  fe_adapters :: adapters
  fe_tools :: "'u request_tools"
  fe_backend :: "backend option"
  fe_show_uuid :: "uuid \<Rightarrow> string"
  fe_images :: "resolved_route \<Rightarrow> instant \<Rightarrow> proxy_state \<Rightarrow> client_response \<times> proxy_state"
  fe_gemini_owner :: "json \<Rightarrow> string + uuid option"
  fe_backend_owner :: "json \<Rightarrow> resolved_target list \<Rightarrow> string + uuid option"
  fe_copilot :: "resolved_target \<Rightarrow> string option \<Rightarrow> instant \<Rightarrow> (string + resolved_target) \<times> duration"
  fe_ws :: "attempt_context \<Rightarrow> instant \<Rightarrow> proxy_state \<Rightarrow> ws_outcome \<times> nat \<times> proxy_state \<times> duration"
  fe_send :: "attempt_context \<Rightarrow> upstream_request \<Rightarrow> send_result"
  fe_took :: "attempt_context \<Rightarrow> duration"
  fe_unix :: "instant \<Rightarrow> nat"
  fe_fresh :: "nat \<Rightarrow> uuid"
  fe_meanwhile :: "instant \<Rightarrow> proxy_state \<Rightarrow> proxy_state"
  fe_late :: "instant \<Rightarrow> duration"

text \<open>
  The guards of an admitted target: its recovery permit, its provider permit and its activity.
  They are dropped at the end of the iteration, or stay with the body of a delivered response.
\<close>

type_synonym guards = "recovery_permit \<times> provider_permit \<times> uuid"

text \<open>
  The variables of the loop.  \<open>fw_trace\<close> lists the targets that were sent the request, in order,
  with whether the attempt may have started a generation that was not delivered; it is a record
  of the run, which no step reads.
\<close>

record forward_run =
  fw_now :: instant
  fw_state :: proxy_state
  fw_error :: "string option"
  fw_rejection :: "nat option"
  fw_failure :: "(uuid \<times> string) option"
  fw_attempts :: u8
  fw_round :: u8
  fw_submitted :: bool
  fw_capacity :: bool
  fw_rows :: "attempt_record list"
  fw_trace :: "(uuid \<times> bool) list"

datatype flow =
    Continue forward_run
  | StopHold forward_run
  | Reply client_response "tracking_context option" "guards option" forward_run

text \<open>What a request fixes before its loop.\<close>

record forward_plan =
  fp_request :: forward_request
  fp_route :: resolved_route
  fp_pricing :: "model_pricing list"
  fp_json :: "json option"
  fp_session :: "string option"
  fp_streaming :: bool
  fp_model :: "string option"
  fp_owner :: "uuid option"
  fp_deadline :: "instant option"

section \<open>One target\<close>

definition past_deadline :: "forward_plan \<Rightarrow> forward_run \<Rightarrow> bool" where
  "past_deadline fp run = is_some_and (fp_deadline fp) (\<lambda>d. d \<le> fw_now run)"

definition noted :: "resolved_target \<Rightarrow> bool \<Rightarrow> forward_run \<Rightarrow> forward_run" where
  "noted t submitted run = run\<lparr>fw_trace := fw_trace run @ [(target_id t, submitted)]\<rparr>"

text \<open>Dropping the guards of a target.\<close>

fun release_guards :: "guards \<Rightarrow> proxy_state \<Rightarrow> proxy_state" where
  "release_guards (p, provider, target) s =
     s\<lparr>st_health := recovery_release p (st_health s),
       st_target_activity := target_activity_drop target (st_target_activity s),
       st_provider_activity := provider_release provider (st_provider_activity s)\<rparr>"

definition drop_guards :: "recovery_permit \<Rightarrow> provider_permit \<Rightarrow> resolved_target \<Rightarrow> forward_run \<Rightarrow> forward_run" where
  "drop_guards p provider t run = run\<lparr>fw_state := release_guards (p, provider, target_id t) (fw_state run)\<rparr>"

definition admit_target ::
  "'u forward_env \<Rightarrow> resolved_target \<Rightarrow> forward_run \<Rightarrow> (recovery_permit \<times> provider_permit) option \<times> forward_run" where
  "admit_target fe t run =
    (let s = fw_state run in
     case recovery_acquire (fw_now run) (fe_fresh fe (length (fw_trace run))) (target_id t) (st_health s) of
       (None, h) \<Rightarrow> (None, run\<lparr>fw_state := s\<lparr>st_health := h\<rparr>\<rparr>)
     | (Some p, h) \<Rightarrow>
         (case provider_acquire (cfg_routes (st_config s)) t (st_provider_activity s) of
            (None, c) \<Rightarrow>
              (None, run\<lparr>fw_capacity := True,
                 fw_state := s\<lparr>st_health := recovery_release p h, st_provider_activity := c\<rparr>\<rparr>)
          | (Some provider, c) \<Rightarrow>
              (Some (p, provider), run\<lparr>fw_round := fw_round run + 1,
                 fw_state := s\<lparr>st_health := h, st_provider_activity := c,
                   st_target_activity := target_activity_new (target_id t) (st_target_activity s)\<rparr>\<rparr>)))"

definition context_of :: "'u forward_env \<Rightarrow> forward_plan \<Rightarrow> resolved_target \<Rightarrow> forward_run \<Rightarrow> attempt_context" where
  "context_of fe fp t run = \<lparr>
     ax_route = fp_route fp, ax_target = t, ax_pricing = fp_pricing fp, ax_request = fq_id (fp_request fp),
     ax_row = fe_fresh fe (length (fw_trace run)), ax_session = fp_session fp, ax_streaming = fp_streaming fp,
     ax_websocket = fq_websocket (fp_request fp), ax_started = fq_started (fp_request fp),
     ax_started_at = fq_started_at (fp_request fp), ax_attempt_started = fw_now run,
     ax_attempt_started_at = int (fe_unix fe (fw_now run)), ax_attempts = fw_attempts run, ax_evidence = None,
     ax_model = or_else (model_override t) (fp_model fp)\<rparr>"

definition http_attempt :: "'u forward_env \<Rightarrow> forward_plan \<Rightarrow> attempt_context \<Rightarrow> forward_run \<Rightarrow> attempt_result" where
  "http_attempt fe fp ax run =
    (let fq = fp_request fp; s = fw_state run in
     run_http_attempt (fe_adapters fe) ax (fq_headers fq) (fp_json fp) (fe_backend fe) (rt_convert (fe_tools fe))
       (prepare_upstream_request (fe_adapters fe) (fe_tools fe) ax (fq_headers fq) (fq_query fq) (fq_body fq) (fp_json fp)
          (fw_now run) s)
       (fe_send fe ax) (fw_now run + fe_took fe ax) (fe_meanwhile fe (fw_now run) s))"

definition http_step ::
  "'u forward_env \<Rightarrow> forward_plan \<Rightarrow> resolved_target \<Rightarrow> recovery_permit \<Rightarrow> provider_permit \<Rightarrow> attempt_context \<Rightarrow> forward_run \<Rightarrow> flow" where
  "http_step fe fp t p provider ax run =
    (case http_attempt fe fp ax run of
       (d, rows, s') \<Rightarrow>
         (let run1 = run\<lparr>fw_now := fw_now run + fe_took fe ax, fw_state := s', fw_rows := fw_rows run @ rows\<rparr> in
          case d of
            Deliver response tc \<Rightarrow> Reply response (Some tc) (Some (p, provider, target_id t)) (noted t False run1)
          | Abort response \<Rightarrow> Reply response None None (drop_guards p provider t (noted t False run1))
          | Retry e submitted \<Rightarrow>
              Continue (drop_guards p provider t
                (noted t submitted run1\<lparr>fw_error := Some e, fw_submitted := submitted\<rparr>))))"

definition add_attempts :: "nat \<Rightarrow> u8 \<Rightarrow> u8" where
  "add_attempts n a = ((\<lambda>k. sat_add k 1) ^^ n) a"

definition ws_eligible :: "forward_plan \<Rightarrow> resolved_target \<Rightarrow> bool" where
  "ws_eligible fp t =
    (fq_method (fp_request fp) = ''POST'' \<and> inbound_protocol (r_config (fp_route fp)) = OpenAiResponses
     \<and> supports_websockets t \<and> upstream_kind t = Standard
     \<and> effective_protocol (t_config t) (upstream_protocol (r_config (fp_route fp))) = OpenAiResponses)"

definition ws_step ::
  "'u forward_env \<Rightarrow> forward_plan \<Rightarrow> resolved_target \<Rightarrow> recovery_permit \<Rightarrow> provider_permit \<Rightarrow> attempt_context \<Rightarrow> forward_run \<Rightarrow> flow" where
  "ws_step fe fp t p provider ax run =
    (case fe_ws fe ax (fw_now run) (fw_state run) of
       (out, extra, s', took) \<Rightarrow>
         (let run1 = run\<lparr>fw_now := fw_now run + took, fw_state := s'\<rparr>;
              n = add_attempts extra (ax_attempts ax) in
          case out of
            WsResponse response \<Rightarrow> Reply response None (Some (p, provider, target_id t)) (noted t False run1)
          | WsRejected status \<Rightarrow>
              (let policy = retry (r_config (fp_route fp));
                   run2 = noted t False run1\<lparr>
                     fw_error := Some (''WebSocket request rejected ('' @ ad_show_status (fe_adapters fe) status @ '')''),
                     fw_rejection := Some status, fw_attempts := n,
                     fw_state := (if status_affects_circuit status
                       then mark_failure (target_id t) policy (fw_now run1) s' else s')\<rparr>
               in Continue (drop_guards p provider t run2))
          | WsFallback found \<Rightarrow>
              if past_deadline fp run1 then StopHold (drop_guards p provider t run1)
              else http_step fe fp t p provider (ax\<lparr>ax_evidence := found, ax_attempts := n\<rparr>) (run1\<lparr>fw_attempts := n\<rparr>)))"

definition attempt_target ::
  "'u forward_env \<Rightarrow> forward_plan \<Rightarrow> resolved_target \<Rightarrow> recovery_permit \<Rightarrow> provider_permit \<Rightarrow> forward_run \<Rightarrow> flow" where
  "attempt_target fe fp t p provider run =
    (let run1 = run\<lparr>fw_attempts := sat_add (fw_attempts run) 1,
           fw_failure := Some (target_provider t, secret_id (t_config t))\<rparr>;
         ax = context_of fe fp t run1
     in if ws_eligible fp t then ws_step fe fp t p provider ax run1 else http_step fe fp t p provider ax run1)"

definition admit_and_attempt :: "'u forward_env \<Rightarrow> forward_plan \<Rightarrow> resolved_target \<Rightarrow> forward_run \<Rightarrow> flow" where
  "admit_and_attempt fe fp t run =
    (case admit_target fe t run of
       (None, run1) \<Rightarrow> Continue run1
     | (Some (p, provider), run1) \<Rightarrow> attempt_target fe fp t p provider run1)"

text \<open>A Copilot target is resolved for the model first, which may change its protocol.\<close>

definition try_target :: "'u forward_env \<Rightarrow> forward_plan \<Rightarrow> resolved_target \<Rightarrow> forward_run \<Rightarrow> flow" where
  "try_target fe fp t run =
    (if is_copilot (upstream_kind t) then
       (case fe_copilot fe t (or_else (model_override t) (fp_model fp)) (fw_now run) of
          (res, took) \<Rightarrow>
            (let run1 = run\<lparr>fw_now := fw_now run + took, fw_state := fe_meanwhile fe (fw_now run) (fw_state run)\<rparr>;
                 rc = r_config (fp_route fp) in
             case res of
               Inl e \<Rightarrow> Continue (run1\<lparr>fw_error := Some e\<rparr>)
             | Inr t' \<Rightarrow>
                 if effective_protocol (t_config t') (upstream_protocol rc) \<noteq> inbound_protocol rc \<and> \<not> conversion_enabled rc
                 then Reply (error_response 400 ''Copilot model requires another protocol; enable route conversion'') None None run1
                 else admit_and_attempt fe fp t' run1))
     else admit_and_attempt fe fp t run)"

section \<open>Rounds\<close>

fun round_targets :: "'u forward_env \<Rightarrow> forward_plan \<Rightarrow> resolved_target list \<Rightarrow> forward_run \<Rightarrow> flow" where
  "round_targets fe fp [] run = Continue run"
| "round_targets fe fp (t # ts) run =
     (if is_some_and (fp_owner fp) (\<lambda>o'. o' \<noteq> target_id t) then round_targets fe fp ts run
      else if at_least_one (max_attempts (retry (r_config (fp_route fp)))) \<le> fw_round run then Continue run
      else if fw_submitted run then StopHold run
      else if past_deadline fp run then StopHold run
      else case try_target fe fp t run of
        Continue run' \<Rightarrow> round_targets fe fp ts run'
      | StopHold run' \<Rightarrow> StopHold run'
      | Reply response tc g run' \<Rightarrow> Reply response tc g run')"

definition start_round :: "'u forward_env \<Rightarrow> forward_plan \<Rightarrow> forward_run \<Rightarrow> resolved_target list \<times> forward_run" where
  "start_round fe fp run =
    (case live_route_targets_for_model (fp_route fp) (fp_session fp) (fp_model fp) (of_nat (fe_unix fe (fw_now run)))
        (fw_now run) (fw_state run) of
       (ts, s') \<Rightarrow> (ts, run\<lparr>fw_state := s', fw_round := 0\<rparr>))"

fun rounds :: "'u forward_env \<Rightarrow> forward_plan \<Rightarrow> nat \<Rightarrow> forward_run \<Rightarrow> flow" where
  "rounds fe fp 0 run = Continue run"
| "rounds fe fp (Suc n) run =
     (case start_round fe fp run of
        (ts, run1) \<Rightarrow>
          (case round_targets fe fp ts run1 of
             Continue run2 \<Rightarrow> rounds fe fp n run2
           | StopHold run2 \<Rightarrow> StopHold run2
           | Reply response tc g run2 \<Rightarrow> Reply response tc g run2))"

text \<open>
  The pause before the next held round, if there is one.
\<close>

definition hold_pause :: "forward_plan \<Rightarrow> u32 \<Rightarrow> forward_run \<Rightarrow> duration option" where
  "hold_pause fp hold_round run =
    (let policy = retry (r_config (fp_route fp));
         elapsed = fw_now run - fq_started (fp_request fp);
         delay = hold_backoff_delay policy hold_round;
         budget = from_millis (unat (hold_max_duration_ms policy))
     in if \<not> hold_on_failure policy \<or> \<not> (\<exists>t\<in>set (r_targets (fp_route fp)). target_enabled t) then None
        else if 0 < hold_max_duration_ms policy then
          (if budget \<le> elapsed then None else Some (min delay (budget - elapsed)))
        else Some delay)"

definition pause :: "'u forward_env \<Rightarrow> duration \<Rightarrow> forward_run \<Rightarrow> forward_run" where
  "pause fe delay run =
    run\<lparr>fw_now := fw_now run + delay + fe_late fe (fw_now run), fw_state := fe_meanwhile fe (fw_now run) (fw_state run)\<rparr>"

text \<open>The hold loop, with nothing as its result when the fuel is spent.\<close>

fun hold_loop :: "'u forward_env \<Rightarrow> forward_plan \<Rightarrow> nat \<Rightarrow> u32 \<Rightarrow> forward_run \<Rightarrow> flow option" where
  "hold_loop fe fp 0 hold_round run = None"
| "hold_loop fe fp (Suc fuel) hold_round run =
     (if past_deadline fp run then Some (StopHold run)
      else case rounds fe fp (unat (silent_retry_rounds (retry (r_config (fp_route fp))))) run of
        Continue run1 \<Rightarrow>
          if fw_submitted run1 then Some (StopHold run1)
          else (case hold_pause fp hold_round run1 of
             None \<Rightarrow> Some (StopHold run1)
           | Some delay \<Rightarrow> hold_loop fe fp fuel (sat_add hold_round 1) (pause fe delay run1))
      | other \<Rightarrow> Some other)"

section \<open>The request\<close>

record forward_result =
  fx_response :: client_response
  fx_tracking :: "tracking_context option"
  fx_usage :: "usage_record option"
  fx_guards :: "guards option"
  fx_run :: forward_run

definition at_capacity :: "forward_run \<Rightarrow> bool" where
  "at_capacity run = (fw_capacity run \<and> fw_attempts run = 0)"

definition final_status :: "forward_run \<Rightarrow> nat" where
  "final_status run = (if at_capacity run then 429 else unwrap_or (fw_rejection run) 502)"

definition failure_message :: "forward_run \<Rightarrow> string" where
  "failure_message run =
    (if at_capacity run then ''all available providers are at their concurrency limit'' else ''all upstream targets failed'')"

definition failure_record :: "forward_plan \<Rightarrow> forward_run \<Rightarrow> uuid \<times> string \<Rightarrow> usage_record" where
  "failure_record fp run = (\<lambda>(provider, secret). \<lparr>
     ur_id = fq_id (fp_request fp), ur_started_at = fq_started_at (fp_request fp),
     ur_duration_ms = elapsed_ms (fq_started (fp_request fp)) (fw_now run), ur_first_token = None,
     ur_route = route_id (fp_route fp), ur_provider = provider, ur_secret = secret, ur_model = fp_model fp,
     ur_inbound = inbound_protocol (r_config (fp_route fp)), ur_upstream = upstream_protocol (r_config (fp_route fp)),
     ur_status = of_nat (final_status run), ur_attempts = fw_attempts run, ur_input = 0, ur_output = 0,
     ur_cache_read = 0, ur_cache_creation = 0, ur_cache_creation_1h = 0, ur_cost = 0\<rparr>)"

definition give_up :: "forward_plan \<Rightarrow> forward_run \<Rightarrow> forward_result" where
  "give_up fp run = \<lparr>
     fx_response = error_response (final_status run) (failure_message run),
     fx_tracking = None,
     fx_usage = map_option (failure_record fp run) (fw_failure run),
     fx_guards = None,
     fx_run = run\<lparr>fw_state := set_error (unwrap_or (fw_error run) (failure_message run))
       (record_request False None (fw_now run) (fw_state run))\<rparr>\<rparr>"

definition needs_json :: "resolved_route \<Rightarrow> bool" where
  "needs_json route =
    (conversion_enabled (r_config route)
     \<or> (\<exists>t\<in>set (r_targets route). upstream_kind t \<noteq> Standard \<or> profile t \<noteq> Generic \<or> tc_model (t_config t) \<noteq> None))"

definition owner_of ::
  "'u forward_env \<Rightarrow> resolved_route \<Rightarrow> json option \<Rightarrow> string option \<Rightarrow> instant \<Rightarrow> proxy_state \<Rightarrow> string + uuid option" where
  "owner_of fe route request_json sess now s =
    (case request_json of
       None \<Rightarrow> Inr None
     | Some payload \<Rightarrow>
         and_then (fe_gemini_owner fe payload) (\<lambda>gemini.
         and_then (case fe_backend fe of None \<Rightarrow> Inr None | Some _ \<Rightarrow> fe_backend_owner fe payload (r_targets route)) (\<lambda>claude.
           if gemini \<noteq> None \<and> claude \<noteq> None then Inl ''history mixes provider-bound tool sessions''
           else history_owner (fe_show_uuid fe) (st_affinity s) route payload sess (or_else gemini claude) now)))"

definition initial_run :: "resolved_route \<Rightarrow> instant \<Rightarrow> proxy_state \<Rightarrow> forward_run" where
  "initial_run route now s = \<lparr>
     fw_now = now, fw_state = s, fw_error = None, fw_rejection = None,
     fw_failure = map_option (\<lambda>t. (target_provider t, secret_id (t_config t))) (find target_enabled (r_targets route)),
     fw_attempts = 0, fw_round = 0, fw_submitted = False, fw_capacity = False, fw_rows = [], fw_trace = []\<rparr>"

definition local_reply :: "client_response \<Rightarrow> resolved_route \<Rightarrow> instant \<Rightarrow> proxy_state \<Rightarrow> forward_result" where
  "local_reply response route now s =
    \<lparr>fx_response = response, fx_tracking = None, fx_usage = None, fx_guards = None,
      fx_run = initial_run route now s\<rparr>"

definition plan_of ::
  "'u forward_env \<Rightarrow> forward_request \<Rightarrow> resolved_route \<Rightarrow> model_pricing list \<Rightarrow> instant \<Rightarrow> proxy_state \<Rightarrow> string + forward_plan" where
  "plan_of fe fq route pricing now s =
    (let parse = ad_parse (fe_adapters fe);
         request_json = (if needs_json route then body_json parse (fq_body fq) else None);
         md = unwrap_or (Option.bind (body_json parse (fq_body fq)) metadata_of) default_metadata;
         sess = or_else (session_affinity_key (fq_headers fq) (Some md)) (fq_fallback fq)
     in and_then (validate_request (fe_show_uuid fe) route (md_model md) request_json) (\<lambda>_.
        and_then (owner_of fe route request_json sess now s) (\<lambda>owner.
          Inr \<lparr>fp_request = fq, fp_route = route, fp_pricing = pricing, fp_json = request_json, fp_session = sess,
            fp_streaming = md_stream md, fp_model = md_model md, fp_owner = owner,
            fp_deadline = hold_deadline (retry (r_config route)) (fq_started fq)\<rparr>)))"

definition finish :: "forward_plan \<Rightarrow> flow \<Rightarrow> forward_result" where
  "finish fp fl =
    (case fl of
       Continue run \<Rightarrow> give_up fp run
     | StopHold run \<Rightarrow> give_up fp run
     | Reply response tc g run \<Rightarrow> \<lparr>fx_response = response, fx_tracking = tc, fx_usage = None, fx_guards = g, fx_run = run\<rparr>)"

definition forward_request_inner ::
  "'u forward_env \<Rightarrow> nat \<Rightarrow> forward_request \<Rightarrow> resolved_route \<Rightarrow> model_pricing list \<Rightarrow> instant \<Rightarrow> proxy_state
    \<Rightarrow> forward_result option" where
  "forward_request_inner fe fuel fq route pricing now s =
    (if fq_image fq then
       (if model_id (fe_show_uuid fe) route \<noteq> None
        then Some (local_reply (error_response 400 ''group model routing supports conversation endpoints only'') route now s)
        else case fe_images fe route now s of (response, s') \<Rightarrow> Some (local_reply response route now s'))
     else case plan_of fe fq route pricing now s of
       Inl e \<Rightarrow> Some (local_reply (error_response 400 e) route now s)
     | Inr fp \<Rightarrow> map_option (finish fp) (hold_loop fe fp fuel 0 (initial_run route now s)))"

section \<open>What a step does to the run\<close>

fun flow_run :: "flow \<Rightarrow> forward_run" where
  "flow_run (Continue run) = run"
| "flow_run (StopHold run) = run"
| "flow_run (Reply response tc g run) = run"

named_theorems flow_simps

lemma guards_keep [flow_simps]:
  "fw_now (drop_guards p provider t run) = fw_now run"
  "fw_trace (drop_guards p provider t run) = fw_trace run"
  "fw_submitted (drop_guards p provider t run) = fw_submitted run"
  "fw_attempts (drop_guards p provider t run) = fw_attempts run"
  "fw_round (drop_guards p provider t run) = fw_round run"
  "fw_rows (drop_guards p provider t run) = fw_rows run"
  by (simp_all add: drop_guards_def)

lemma noted_keep [flow_simps]:
  "fw_now (noted t b run) = fw_now run"
  "fw_trace (noted t b run) = fw_trace run @ [(target_id t, b)]"
  "fw_submitted (noted t b run) = fw_submitted run"
  "fw_attempts (noted t b run) = fw_attempts run"
  "fw_round (noted t b run) = fw_round run"
  "fw_rows (noted t b run) = fw_rows run"
  by (simp_all add: noted_def)

lemma admit_keeps:
  assumes "admit_target fe t run = (r, run')"
  shows "fw_now run' = fw_now run \<and> fw_trace run' = fw_trace run \<and> fw_submitted run' = fw_submitted run
    \<and> fw_attempts run' = fw_attempts run \<and> fw_rows run' = fw_rows run
    \<and> fw_round run' = (if r = None then fw_round run else fw_round run + 1)"
  using assms by (auto simp: admit_target_def Let_def split: prod.splits option.splits)

text \<open>
  A step only lengthens the run: it sends the request to at most one target, notes it last, and
  is submitted exactly when that attempt was.
\<close>

definition contacts :: "uuid \<Rightarrow> forward_run \<Rightarrow> flow \<Rightarrow> bool" where
  "contacts i run fl =
    (fw_now run \<le> fw_now (flow_run fl) \<and> fw_round (flow_run fl) = fw_round run \<and> fw_attempts (flow_run fl) \<noteq> 0
     \<and> (fw_trace (flow_run fl) = fw_trace run \<and> \<not> fw_submitted (flow_run fl) \<and> fw_rows (flow_run fl) = fw_rows run
        \<or> fw_trace (flow_run fl) = fw_trace run @ [(i, fw_submitted (flow_run fl))]
            \<and> (fw_submitted (flow_run fl) \<longrightarrow> fl = Continue (flow_run fl))))"

definition advances :: "uuid \<Rightarrow> forward_run \<Rightarrow> flow \<Rightarrow> bool" where
  "advances i run fl =
    (fw_now run \<le> fw_now (flow_run fl)
     \<and> (fw_trace (flow_run fl) = fw_trace run \<and> \<not> fw_submitted (flow_run fl) \<and> fw_rows (flow_run fl) = fw_rows run
          \<and> fw_round (flow_run fl) \<in> {fw_round run, fw_round run + 1}
          \<and> (fw_attempts (flow_run fl) = 0 \<longrightarrow> fw_attempts run = 0)
        \<or> fw_trace (flow_run fl) = fw_trace run @ [(i, fw_submitted (flow_run fl))]
            \<and> fw_attempts (flow_run fl) \<noteq> 0 \<and> fw_round (flow_run fl) = fw_round run + 1
            \<and> (fw_submitted (flow_run fl) \<longrightarrow> fl = Continue (flow_run fl))))"

lemma http_step_contacts:
  assumes "\<not> fw_submitted run" "fw_attempts run \<noteq> 0"
  shows "contacts (target_id t) run (http_step fe fp t p provider ax run)"
proof (cases "http_attempt fe fp ax run")
  case (fields d rows s')
  with assms show ?thesis by (cases d) (simp_all add: contacts_def http_step_def flow_simps Let_def)
qed

lemma sat_add_one_nonzero: "sat_add a 1 \<noteq> (0 :: u8)"
proof -
  have "unat (sat_add a 1) \<noteq> 0" by (simp add: word_nat)
  then show ?thesis by (metis unsigned_0)
qed

lemma add_attempts_nonzero: "a \<noteq> 0 \<Longrightarrow> add_attempts n a \<noteq> 0"
  by (cases n) (simp_all add: add_attempts_def sat_add_one_nonzero)

lemma ws_step_contacts:
  assumes "\<not> fw_submitted run" "fw_attempts run \<noteq> 0" "ax_attempts ax \<noteq> 0"
  shows "contacts (target_id t) run (ws_step fe fp t p provider ax run)"
proof (cases "fe_ws fe ax (fw_now run) (fw_state run)")
  case (fields out extra s' took)
  let ?n = "add_attempts extra (ax_attempts ax)"
  let ?run1 = "run\<lparr>fw_now := fw_now run + took, fw_state := s', fw_attempts := ?n\<rparr>"
  have n: "?n \<noteq> 0" using assms(3) by (rule add_attempts_nonzero)
  show ?thesis
  proof (cases out)
    case (WsFallback found)
    have "contacts (target_id t) ?run1 (http_step fe fp t p provider (ax\<lparr>ax_evidence := found, ax_attempts := ?n\<rparr>) ?run1)"
      using assms n by (intro http_step_contacts) simp_all
    with assms fields WsFallback show ?thesis
      by (auto simp: contacts_def ws_step_def flow_simps Let_def)
  qed (use assms fields n in \<open>simp_all add: contacts_def ws_step_def flow_simps Let_def\<close>)
qed

lemma attempt_contacts:
  assumes "\<not> fw_submitted run"
  shows "contacts (target_id t) run (attempt_target fe fp t p provider run)"
proof -
  let ?run1 = "run\<lparr>fw_attempts := sat_add (fw_attempts run) 1,
    fw_failure := Some (target_provider t, secret_id (t_config t))\<rparr>"
  have "contacts (target_id t) ?run1 (ws_step fe fp t p provider (context_of fe fp t ?run1) ?run1)"
    "contacts (target_id t) ?run1 (http_step fe fp t p provider (context_of fe fp t ?run1) ?run1)"
    using assms by (auto intro!: ws_step_contacts http_step_contacts simp: sat_add_one_nonzero context_of_def)
  then show ?thesis by (simp add: attempt_target_def contacts_def Let_def)
qed

lemma admit_advances:
  assumes "\<not> fw_submitted run"
  shows "advances (target_id t) run (admit_and_attempt fe fp t run)"
proof (cases "admit_target fe t run")
  case (Pair r run1)
  note keep = admit_keeps [OF Pair]
  show ?thesis
  proof (cases r)
    case None
    with Pair keep assms show ?thesis by (simp add: advances_def admit_and_attempt_def)
  next
    case (Some g)
    obtain p provider where "g = (p, provider)" by (cases g)
    with attempt_contacts [of run1 t fe fp p provider] Pair Some keep assms show ?thesis
      by (auto simp: advances_def contacts_def admit_and_attempt_def)
  qed
qed

text \<open>\<open>same_target\<close> states that resolving a target keeps which target it is.\<close>

definition resolves_in_place :: "'u forward_env \<Rightarrow> bool" where
  "resolves_in_place fe = (\<forall>t model now t'. fst (fe_copilot fe t model now) = Inr t' \<longrightarrow> target_id t' = target_id t)"

lemma try_advances:
  assumes "\<not> fw_submitted run"
  shows "\<exists>i. advances i run (try_target fe fp t run) \<and> (resolves_in_place fe \<longrightarrow> i = target_id t)"
proof (cases "is_copilot (upstream_kind t)")
  case False
  with admit_advances [OF assms] show ?thesis by (auto simp: try_target_def)
next
  case True
  obtain res took where c: "fe_copilot fe t (or_else (model_override t) (fp_model fp)) (fw_now run) = (res, took)"
    by (cases "fe_copilot fe t (or_else (model_override t) (fp_model fp)) (fw_now run)")
  let ?run1 = "run\<lparr>fw_now := fw_now run + took, fw_state := fe_meanwhile fe (fw_now run) (fw_state run)\<rparr>"
  show ?thesis
  proof (cases res)
    case (Inl e)
    with True c assms show ?thesis by (auto simp: try_target_def advances_def Let_def)
  next
    case (Inr t')
    have "advances (target_id t') ?run1 (admit_and_attempt fe fp t' ?run1)"
      using assms by (intro admit_advances) simp
    then have "advances (target_id t') run (admit_and_attempt fe fp t' ?run1)" by (auto simp: advances_def)
    moreover have "resolves_in_place fe \<Longrightarrow> target_id t' = target_id t"
      using c Inr unfolding resolves_in_place_def by (metis fst_conv)
    moreover have "advances (target_id t') run (Reply response None None ?run1)" for response
      using assms by (simp add: advances_def)
    ultimately show ?thesis using True c Inr by (auto simp: try_target_def Let_def)
  qed
qed

section \<open>Invariants of the loop\<close>

definition admits :: "forward_plan \<Rightarrow> resolved_target \<Rightarrow> bool" where
  "admits fp t = is_none_or (fp_owner fp) (\<lambda>o'. o' = target_id t)"

text \<open>
  A property \<open>inv\<close> of the runs the loop goes on with, and \<open>fin\<close> of every way it can end.
\<close>

locale loop_invariant =
  fixes fe :: "'u forward_env" and fp :: forward_plan and inv :: "forward_run \<Rightarrow> bool" and fin :: "flow \<Rightarrow> bool"
  assumes fin_Continue: "fin (Continue run) = inv run"
    and fin_StopHold: "inv run \<Longrightarrow> fin (StopHold run)"
    and inv_round: "inv run \<Longrightarrow> inv (snd (start_round fe fp run))"
    and fin_try: "inv run \<Longrightarrow> \<not> fw_submitted run \<Longrightarrow> admits fp t \<Longrightarrow> fin (try_target fe fp t run)"
    and inv_pause: "inv run \<Longrightarrow> inv (pause fe delay run)"
begin

lemma round_targets_fin: "inv run \<Longrightarrow> fin (round_targets fe fp ts run)"
proof (induction ts arbitrary: run)
  case Nil
  then show ?case by (simp add: fin_Continue)
next
  case (Cons t ts)
  show ?case
  proof (cases "is_some_and (fp_owner fp) (\<lambda>o'. o' \<noteq> target_id t)")
    case True
    with Cons show ?thesis by simp
  next
    case False
    then have adm: "admits fp t" by (auto simp: admits_def is_some_and_def is_none_or_def split: option.splits)
    have step: "fin (try_target fe fp t run)" if "\<not> fw_submitted run"
      using Cons.prems that adm by (rule fin_try)
    with False Cons show ?thesis
      by (cases "try_target fe fp t run") (auto simp: fin_Continue fin_StopHold)
  qed
qed

lemma rounds_fin: "inv run \<Longrightarrow> fin (rounds fe fp n run)"
proof (induction n arbitrary: run)
  case 0
  then show ?case by (simp add: fin_Continue)
next
  case (Suc n)
  obtain ts run1 where s: "start_round fe fp run = (ts, run1)" by (cases "start_round fe fp run")
  with inv_round [OF Suc.prems] have "inv run1" by simp
  then have "fin (round_targets fe fp ts run1)" by (rule round_targets_fin)
  with Suc.IH s show ?case by (cases "round_targets fe fp ts run1") (auto simp: fin_Continue)
qed

lemma hold_loop_fin: "inv run \<Longrightarrow> hold_loop fe fp fuel k run = Some fl \<Longrightarrow> fin fl"
proof (induction fuel arbitrary: k run)
  case 0
  then show ?case by simp
next
  case (Suc fuel)
  define r where "r = rounds fe fp (unat (silent_retry_rounds (retry (r_config (fp_route fp))))) run"
  have "fin r" unfolding r_def using Suc.prems(1) by (rule rounds_fin)
  with Suc.prems Suc.IH show ?case
    by (cases r) (auto simp: r_def [symmetric] fin_Continue intro: inv_pause fin_StopHold split: if_splits option.splits)
qed

end

text \<open>A property of the run alone.\<close>

locale run_invariant =
  fixes fe :: "'u forward_env" and fp :: forward_plan and inv :: "forward_run \<Rightarrow> bool"
  assumes keep_state: "inv run \<Longrightarrow> inv (run\<lparr>fw_state := s, fw_round := 0\<rparr>)"
    and keep_try: "inv run \<Longrightarrow> \<not> fw_submitted run \<Longrightarrow> admits fp t \<Longrightarrow> inv (flow_run (try_target fe fp t run))"
    and keep_pause: "inv run \<Longrightarrow> inv (pause fe delay run)"

sublocale run_invariant \<subseteq> loop_invariant fe fp inv "\<lambda>fl. inv (flow_run fl)"
  by unfold_locales (simp_all add: start_round_def keep_state keep_try keep_pause split: prod.split)

text \<open>At most the last target that was sent the request may have started a generation.\<close>

definition single_submission :: "forward_run \<Rightarrow> bool" where
  "single_submission run =
    (list_all (\<lambda>n. \<not> snd n) (butlast (fw_trace run))
     \<and> fw_submitted run = (fw_trace run \<noteq> [] \<and> snd (last (fw_trace run))))"

lemma pause_keeps [flow_simps]:
  "fw_trace (pause fe d run) = fw_trace run" "fw_submitted (pause fe d run) = fw_submitted run"
  "fw_attempts (pause fe d run) = fw_attempts run" "fw_rows (pause fe d run) = fw_rows run"
  "fw_now (pause fe d run) = fw_now run + d + fe_late fe (fw_now run)"
  by (simp_all add: pause_def)

lemma single_submission_try:
  assumes "single_submission run" "\<not> fw_submitted run"
  shows "single_submission (flow_run (try_target fe fp t run))"
proof -
  have "list_all (\<lambda>n. \<not> snd n) (fw_trace run)"
  proof (cases "fw_trace run" rule: rev_cases)
    case Nil
    then show ?thesis by simp
  next
    case (snoc ns n)
    with assms show ?thesis by (simp add: single_submission_def)
  qed
  moreover obtain i where "advances i run (try_target fe fp t run)" using try_advances [OF assms(2)] by blast
  ultimately show ?thesis using assms by (auto simp: advances_def single_submission_def)
qed

interpretation submission: run_invariant fe fp single_submission for fe :: "'u forward_env" and fp
  by unfold_locales (simp add: single_submission_def, rule single_submission_try, simp_all add: single_submission_def flow_simps)

text \<open>A request that belongs to an account is sent to that account only.\<close>

definition stays_with_owner :: "'u forward_env \<Rightarrow> forward_plan \<Rightarrow> forward_run \<Rightarrow> bool" where
  "stays_with_owner fe fp run =
    (resolves_in_place fe \<longrightarrow> list_all (\<lambda>n. is_none_or (fp_owner fp) (\<lambda>o'. o' = fst n)) (fw_trace run))"

lemma stays_with_owner_try:
  assumes "stays_with_owner fe fp run" "\<not> fw_submitted run" "admits fp t"
  shows "stays_with_owner fe fp (flow_run (try_target fe fp t run))"
proof -
  obtain i where "advances i run (try_target fe fp t run)" "resolves_in_place fe \<Longrightarrow> i = target_id t"
    using try_advances [OF assms(2)] by blast
  with assms show ?thesis by (auto simp: advances_def stays_with_owner_def admits_def)
qed

interpretation owner: run_invariant fe fp "stays_with_owner fe fp" for fe :: "'u forward_env" and fp
  by unfold_locales (simp add: stays_with_owner_def, rule stays_with_owner_try, simp_all add: stays_with_owner_def flow_simps)

text \<open>Without an attempt nothing was sent and nothing is to be booked.\<close>

definition counted :: "forward_run \<Rightarrow> bool" where
  "counted run = (fw_attempts run = 0 \<longrightarrow> fw_trace run = [] \<and> fw_rows run = [])"

lemma counted_try:
  assumes "counted run" "\<not> fw_submitted run"
  shows "counted (flow_run (try_target fe fp t run))"
  using try_advances [OF assms(2), of fe fp t] assms(1) by (auto simp: advances_def counted_def)

interpretation counting: run_invariant fe fp counted for fe :: "'u forward_env" and fp
  by unfold_locales (simp add: counted_def, rule counted_try, simp_all add: counted_def flow_simps)

text \<open>The clock does not go back.\<close>

interpretation clock: run_invariant fe fp "\<lambda>run. since \<le> fw_now run"
  for fe :: "'u forward_env" and fp and since
proof unfold_locales
  fix run :: forward_run and t
  assume "since \<le> fw_now run" "\<not> fw_submitted run"
  with try_advances [of run fe fp t] show "since \<le> fw_now (flow_run (try_target fe fp t run))"
    by (auto simp: advances_def)
qed (simp_all add: flow_simps)

section \<open>The result of a request\<close>

lemma start_round_keeps:
  "start_round fe fp run = (ts, run1) \<Longrightarrow> fw_submitted run1 = fw_submitted run \<and> fw_now run1 = fw_now run
    \<and> fw_trace run1 = fw_trace run \<and> fw_round run1 = 0"
  by (auto simp: start_round_def split: prod.splits)

text \<open>An answer leaves no attempt in doubt.\<close>

fun answers_plainly :: "flow \<Rightarrow> bool" where
  "answers_plainly (Reply response tc g run) = (\<not> fw_submitted run)"
| "answers_plainly _ = True"

interpretation plain: loop_invariant fe fp "\<lambda>_. True" answers_plainly for fe :: "'u forward_env" and fp
proof unfold_locales
  fix run :: forward_run and t
  assume "\<not> fw_submitted run"
  with try_advances [of run fe fp t] show "answers_plainly (try_target fe fp t run)"
    by (cases "try_target fe fp t run") (auto simp: advances_def)
qed simp_all

lemma initial_run_sel [simp]:
  "fw_now (initial_run route now s) = now" "fw_state (initial_run route now s) = s"
  "fw_trace (initial_run route now s) = []" "fw_submitted (initial_run route now s) = False"
  "fw_attempts (initial_run route now s) = 0" "fw_rows (initial_run route now s) = []"
  by (simp_all add: initial_run_def)

lemma finish_run:
  "fw_trace (fx_run (finish fp fl)) = fw_trace (flow_run fl)"
  "fw_rows (fx_run (finish fp fl)) = fw_rows (flow_run fl)"
  "fw_attempts (fx_run (finish fp fl)) = fw_attempts (flow_run fl)"
  "fw_submitted (fx_run (finish fp fl)) = fw_submitted (flow_run fl)"
  by (cases fl; simp add: finish_def give_up_def)+

text \<open>A result is a local answer, which sends nothing, or comes from the loop of a plan.\<close>

lemma forward_cases:
  assumes "forward_request_inner fe fuel fq route pricing now s = Some res"
  obtains (locally) "fw_trace (fx_run res) = []" "fw_rows (fx_run res) = []" "fw_attempts (fx_run res) = 0"
      "\<not> fw_submitted (fx_run res)" "fx_usage res = None"
  | (loop) fp fl where "\<not> fq_image fq" "plan_of fe fq route pricing now s = Inr fp"
      "hold_loop fe fp fuel 0 (initial_run route now s) = Some fl" "res = finish fp fl"
  using assms by (auto simp: forward_request_inner_def local_reply_def split: if_splits prod.splits sum.splits)

lemma plan_fields:
  assumes "plan_of fe fq route pricing now s = Inr fp"
  shows "fp_route fp = route" "fp_request fp = fq" "fp_deadline fp = hold_deadline (retry (r_config route)) (fq_started fq)"
    "owner_of fe route (fp_json fp) (fp_session fp) now s = Inr (fp_owner fp)"
  using assms by (auto simp: plan_of_def and_then_def Let_def split: sum.splits)

section \<open>A run\<close>

text \<open>
  An environment whose only upstream is cut off after it was sent the request, so that the
  attempt is in doubt.
\<close>

definition sample_tools :: "unit request_tools" where
  "sample_tools = \<lparr>rt_client = Inr (), rt_convert = (\<lambda>_ _. Inr), rt_to_string = (\<lambda>_. []),
     rt_parse_url = (\<lambda>_. Some ((), [], None)), rt_print_url = (\<lambda>_ p _. p), rt_value_of = Some, rt_show_error = (\<lambda>_. []),
     rt_codex = Inr, rt_codex_headers = (\<lambda>h _. h), rt_gemini = (\<lambda>u b _. Inr (u, b)), rt_grok = Inr\<rparr>"

definition sample_env :: "unit forward_env" where
  "sample_env = \<lparr>fe_adapters = sample_adapters, fe_tools = sample_tools, fe_backend = None, fe_show_uuid = (\<lambda>_. []),
     fe_images = (\<lambda>_ _ s. (error_response 404 [], s)), fe_gemini_owner = (\<lambda>_. Inr None),
     fe_backend_owner = (\<lambda>_ _. Inr None), fe_copilot = (\<lambda>t _ _. (Inr t, 0)),
     fe_ws = (\<lambda>_ _ s. (WsFallback None, 0, s, 0)), fe_send = (\<lambda>_ _. SendError False ''reset''), fe_took = (\<lambda>_. 5),
     fe_unix = (\<lambda>_. 0), fe_fresh = of_nat, fe_meanwhile = (\<lambda>_ s. s), fe_late = (\<lambda>_. 0)\<rparr>"

definition sample_request :: forward_request where
  "sample_request = \<lparr>fq_image = False, fq_websocket = False, fq_fallback = None, fq_id = 9, fq_method = ''GET'',
     fq_query = None, fq_headers = [], fq_body = Memory [], fq_started = 0, fq_started_at = 100\<rparr>"

definition sample_result :: "forward_result option" where
  "sample_result = forward_request_inner sample_env 1 sample_request sample_route [] 5 sample_state"

lemma sample_live:
  "live_route_targets_for_model sample_route None None 0 5 sample_state = ([sample_target], sample_state)"
proof -
  have "refresh_target [sample_target] sample_target = sample_target"
    by (simp add: refresh_target_def sample_target_def tokens_match_def)
  then have "sample_route\<lparr>r_targets := map (refresh_target [sample_target]) (r_targets sample_route)\<rparr> = sample_route"
    by (simp add: sample_route_def)
  moreover have "cfg_routes (st_config sample_state) = [sample_route]" "r_targets sample_route = [sample_target]"
    by (simp_all add: sample_state_def from_routes_def sample_route_def)
  ultimately show ?thesis by (simp add: live_route_targets_for_model_def sample_ordered)
qed

definition sample_plan :: forward_plan where
  "sample_plan = \<lparr>fp_request = sample_request, fp_route = sample_route, fp_pricing = [], fp_json = None, fp_session = None,
     fp_streaming = False, fp_model = None, fp_owner = None, fp_deadline = None\<rparr>"

lemma sample_plan_of: "plan_of sample_env sample_request sample_route [] 5 sample_state = Inr sample_plan"
proof -
  have "model_id u sample_route = None" for u by (simp add: model_id_def sample_route_def sample_target_def)
  moreover have "session_affinity_key [] (Some default_metadata) = None"
  proof -
    have "find_map (\<lambda>n. None) xs = (None :: string option)" for xs :: "string list" by (induction xs) simp_all
    then show ?thesis by (simp add: session_affinity_key_def default_metadata_def header_text_def header_get_def)
  qed
  moreover have "needs_json sample_route = False"
    by (simp add: needs_json_def sample_route_def sample_target_def)
  moreover have "hold_deadline (retry (r_config sample_route)) 0 = None"
    by (simp add: hold_deadline_def sample_route_def default_retry_policy_def)
  ultimately show ?thesis
    by (simp add: plan_of_def validate_request_def owner_of_def and_then_def body_json_def sample_env_def sample_adapters_def
        sample_request_def sample_plan_def default_metadata_def)
qed

lemma sample_assembled:
  assumes "ax_target ax = sample_target" "ax_route ax = sample_route" "\<not> ax_streaming ax"
  shows "\<exists>req. assemble sample_adapters sample_tools ax [] None (Memory []) None = Inr req"
proof -
  have "\<exists>hs. build_upstream_headers Some Some [] sample_target OpenAiResponses = Inr hs"
    by (simp add: build_upstream_headers_def credential_header_def sample_target_def Let_def)
  then show ?thesis
    using assms
    by (auto simp: assemble_def and_then_def sample_tools_def sample_adapters_def materialize_step_def needs_adaptation_def
        convert_step_def usage_step_def request_stream_usage_def model_step_def profile_step_def upstream_url_with_query_def
        codex_step_def gemini_step_def grok_step_def sample_route_def effective_protocol_def Let_def)
       (simp_all add: sample_target_def)
qed

lemma sample_attempt:
  assumes "ax_target ax = sample_target" "ax_route ax = sample_route" "\<not> ax_streaming ax"
  shows "fst (http_attempt sample_env sample_plan ax run) = Retry ''reset'' True"
proof -
  obtain req where req: "assemble sample_adapters sample_tools ax [] None (Memory []) None = Inr req"
    using sample_assembled [OF assms] by blast
  have sub: "\<not> is_subscription sample_target" by (simp add: is_subscription_def sample_target_def)
  show ?thesis
    using assms req sub
    by (simp add: http_attempt_def run_http_attempt_def send_prepared_def prepare_upstream_request_def sample_env_def
        sample_plan_def sample_request_def fail_attempt_def Let_def)
qed

lemma sample_run:
  "\<exists>res. sample_result = Some res \<and> fw_trace (fx_run res) = [(1, True)] \<and> fx_tracking res = None \<and> fw_attempts (fx_run res) = 1
    \<and> fx_guards res = None"
proof -
  let ?r0 = "(initial_run sample_route 5 sample_state)\<lparr>fw_round := 0\<rparr>"
  have start: "start_round sample_env sample_plan (initial_run sample_route 5 sample_state) = ([sample_target], ?r0)"
    using sample_live by (simp add: start_round_def sample_plan_def sample_env_def initial_run_def)
  obtain p provider run1 where adm: "admit_target sample_env sample_target ?r0 = (Some (p, provider), run1)"
    using sample_admit by (simp add: admit_target_def recovery_acquire_def sample_state_def initial_run_def from_routes_def Let_def)
  have ws: "\<not> ws_eligible sample_plan sample_target" by (simp add: ws_eligible_def sample_plan_def sample_request_def)
  define fl where "fl = try_target sample_env sample_plan sample_target ?r0"
  have fl: "\<exists>run'. fl = Continue run' \<and> fw_trace run' = [(1, True)] \<and> fw_submitted run' \<and> fw_attempts run' = 1"
  proof -
    let ?run2 = "run1\<lparr>fw_attempts := sat_add (fw_attempts run1) 1,
      fw_failure := Some (target_provider sample_target, secret_id (t_config sample_target))\<rparr>"
    let ?ax = "context_of sample_env sample_plan sample_target ?run2"
    have "fst (http_attempt sample_env sample_plan ?ax ?run2) = Retry ''reset'' True"
      by (rule sample_attempt) (simp_all add: context_of_def sample_plan_def)
    then obtain rows s' where h: "http_attempt sample_env sample_plan ?ax ?run2 = (Retry ''reset'' True, rows, s')"
      by (cases "http_attempt sample_env sample_plan ?ax ?run2") auto
    have "\<not> is_copilot (upstream_kind sample_target)" "target_id sample_target = 1"
      by (simp_all add: sample_target_def is_copilot_def)
    then show ?thesis
      using admit_keeps [OF adm] ws h adm
      by (simp add: fl_def try_target_def admit_and_attempt_def attempt_target_def http_step_def flow_simps sat_add_def Let_def)
  qed
  then obtain run' where run': "fl = Continue run'" "fw_trace run' = [(1, True)]" "fw_submitted run'" "fw_attempts run' = 1"
    by blast
  have rt: "round_targets sample_env sample_plan [sample_target] ?r0 = Continue run'"
    using run'(1) by (simp add: fl_def sample_plan_def past_deadline_def sample_route_def default_retry_policy_def at_least_one_def)
  have "silent_retry_rounds (retry (r_config sample_route)) = 1"
    by (simp add: silent_retry_rounds_def sample_route_def default_retry_policy_def)
  then have "hold_loop sample_env sample_plan 1 0 (initial_run sample_route 5 sample_state) = Some (StopHold run')"
    using start rt run'(3) by (simp add: sample_plan_def past_deadline_def)
  then show ?thesis
    using run' sample_plan_of
    by (simp add: sample_result_def forward_request_inner_def sample_request_def finish_def give_up_def)
qed

section \<open>Properties\<close>

text \<open>
  C22. Once an attempt may have started a generation, the request is sent to no other target, and
  its client is told of the failure: an answer is delivered only by the last attempt, and then
  no attempt has been left in doubt.
\<close>

theorem no_attempt_after_submission:
  assumes "forward_request_inner fe fuel fq route pricing now s = Some res"
    and "i < length (fw_trace (fx_run res))" "snd (fw_trace (fx_run res) ! i)"
  shows "Suc i = length (fw_trace (fx_run res)) \<and> fx_tracking res = None"
  using assms(1)
proof (cases rule: forward_cases)
  case locally
  with assms(2) show ?thesis by simp
next
  case (loop fp fl)
  have inv: "single_submission (flow_run fl)"
    using submission.hold_loop_fin [OF _ loop(3)] by (simp add: single_submission_def)
  have last: "Suc i = length (fw_trace (flow_run fl))"
  proof (rule ccontr)
    assume "Suc i \<noteq> length (fw_trace (flow_run fl))"
    with assms(2) loop(4) have less: "i < length (butlast (fw_trace (flow_run fl)))" by (simp add: finish_run)
    with inv have "\<not> snd (butlast (fw_trace (flow_run fl)) ! i)"
      by (simp add: single_submission_def list_all_length)
    with assms(3) loop(4) less show False by (simp add: finish_run nth_butlast)
  qed
  have i: "i = length (fw_trace (flow_run fl)) - 1" using last by simp
  have ne: "fw_trace (flow_run fl) \<noteq> []" using last by auto
  have "fw_submitted (flow_run fl)"
    using inv assms(3) ne unfolding loop(4) finish_run i single_submission_def by (simp add: last_conv_nth)
  then have "fx_tracking res = None"
    using loop(3,4) plain.hold_loop_fin [OF TrueI loop(3)] by (cases fl) (auto simp: finish_def give_up_def)
  with last loop(4) show ?thesis by (simp add: finish_run)
qed

theorem no_attempt_after_submission_witness:
  "\<exists>res. sample_result = Some res \<and> snd (fw_trace (fx_run res) ! 0)
    \<and> Suc 0 = length (fw_trace (fx_run res)) \<and> fx_tracking res = None"
proof -
  obtain res where res: "sample_result = Some res" "fw_trace (fx_run res) = [(1, True)]" using sample_run by blast
  from no_attempt_after_submission [OF res(1) [unfolded sample_result_def], of 0] res show ?thesis by auto
qed

text \<open>
  C25. A request whose history belongs to an account is sent to that account only, for every
  behaviour of the upstreams and of the other requests: resolving a Copilot target keeps which
  target it is.
\<close>

theorem history_never_reaches_another_account:
  assumes "forward_request_inner fe fuel fq route pricing now s = Some res"
    and "resolves_in_place fe" "plan_of fe fq route pricing now s = Inr fp" "fp_owner fp = Some account"
  shows "fst ` set (fw_trace (fx_run res)) \<subseteq> {account}"
  using assms(1)
proof (cases rule: forward_cases)
  case locally
  then show ?thesis by simp
next
  case (loop fp' fl)
  have "stays_with_owner fe fp (flow_run fl)"
    using owner.hold_loop_fin [of fe fp "initial_run route now s" fuel 0 fl] loop assms(3) by (simp add: stays_with_owner_def)
  with assms(2,4) loop show ?thesis by (auto simp: stays_with_owner_def finish_run list_all_iff)
qed

definition owned_env :: "unit forward_env" where
  "owned_env = sample_env\<lparr>fe_adapters := sample_adapters\<lparr>ad_parse := (\<lambda>_. Some (JObject []))\<rparr>,
     fe_gemini_owner := (\<lambda>_. Inr (Some 1))\<rparr>"

definition owned_route :: resolved_route where
  "owned_route = sample_route\<lparr>r_config := (r_config sample_route)\<lparr>conversion_enabled := True\<rparr>\<rparr>"

theorem history_never_reaches_another_account_witness:
  "\<exists>res. forward_request_inner owned_env 1 sample_request owned_route [] 5 sample_state = Some res
    \<and> fst ` set (fw_trace (fx_run res)) \<subseteq> {1}"
proof -
  have group: "model_id u owned_route = None" for u
    by (simp add: model_id_def owned_route_def sample_route_def sample_target_def)
  have "\<exists>fp. plan_of owned_env sample_request owned_route [] 5 sample_state = Inr fp \<and> fp_owner fp = Some 1"
  proof -
    have env: "ad_parse (fe_adapters owned_env) b = Some (JObject [])" "fe_gemini_owner owned_env v = Inr (Some 1)"
        "fe_backend owned_env = None" for b v
      by (simp_all add: owned_env_def sample_env_def)
    have "needs_json owned_route" by (simp add: needs_json_def owned_route_def)
    then show ?thesis
      by (simp add: plan_of_def and_then_def validate_request_def owner_of_def history_owner_def group env body_json_def Let_def)
  qed
  then obtain fp where fp: "plan_of owned_env sample_request owned_route [] 5 sample_state = Inr fp" "fp_owner fp = Some 1"
    by blast
  have place: "resolves_in_place owned_env"
    by (simp add: resolves_in_place_def owned_env_def sample_env_def)
  define r where "r = rounds owned_env fp (unat (silent_retry_rounds (retry (r_config owned_route)))) (initial_run owned_route 5 sample_state)"
  have "hold_pause fp 0 run = None" for run
    using plan_fields [OF fp(1)]
    by (simp add: hold_pause_def owned_route_def sample_route_def default_retry_policy_def Let_def)
  then have "\<exists>fl. hold_loop owned_env fp 1 0 (initial_run owned_route 5 sample_state) = Some fl"
    using plan_fields [OF fp(1)] by (cases r) (auto simp: r_def [symmetric])
  then obtain res where res: "forward_request_inner owned_env 1 sample_request owned_route [] 5 sample_state = Some res"
    using fp(1) by (auto simp: forward_request_inner_def sample_request_def)
  from history_never_reaches_another_account [OF res place fp] res show ?thesis by blast
qed

text \<open>
  A request that made no attempt left no trace: it was sent to no target and has no attempt
  row.  In particular the answer that all providers are at their limit promises that nothing was
  sent.
\<close>

theorem no_attempt_no_trace:
  assumes "forward_request_inner fe fuel fq route pricing now s = Some res"
    and "fw_attempts (fx_run res) = 0"
  shows "fw_trace (fx_run res) = [] \<and> fw_rows (fx_run res) = []"
  using assms(1)
proof (cases rule: forward_cases)
  case locally
  then show ?thesis by simp
next
  case (loop fp fl)
  have "counted (flow_run fl)"
    using counting.hold_loop_fin [OF _ loop(3)] by (simp add: counted_def)
  with assms(2) loop(4) show ?thesis by (simp add: finish_run counted_def)
qed

theorem no_attempt_no_trace_witness:
  "\<exists>res. forward_request_inner sample_env 1 (sample_request\<lparr>fq_image := True\<rparr>) sample_route [] 5 sample_state = Some res
    \<and> fw_trace (fx_run res) = [] \<and> fw_rows (fx_run res) = []"
proof -
  have "forward_request_inner sample_env 1 (sample_request\<lparr>fq_image := True\<rparr>) sample_route [] 5 sample_state
      = Some (local_reply (error_response 404 []) sample_route 5 sample_state)"
    by (simp add: forward_request_inner_def sample_env_def model_id_def sample_route_def sample_target_def)
  moreover have "fw_attempts (fx_run (local_reply (error_response 404 []) sample_route 5 sample_state)) = 0"
    by (simp add: local_reply_def)
  ultimately show ?thesis using no_attempt_no_trace by blast
qed

lemma hold_pause_progress:
  assumes "hold_pause fp k run = Some delay" "fp_deadline fp = Some d" "from_millis 1 \<le> d"
    and "fp_deadline fp = hold_deadline (retry (r_config (fp_route fp))) (fq_started (fp_request fp))"
    and "fq_started (fp_request fp) \<le> fw_now run"
  shows "min (fw_now run + from_millis 1) d \<le> fw_now run + delay"
proof -
  let ?p = "retry (r_config (fp_route fp))"
  from assms have pos: "0 < hold_max_duration_ms ?p"
    and d: "d = fq_started (fp_request fp) + from_millis (unat (hold_max_duration_ms ?p))"
    by (auto simp: hold_deadline_def split: if_splits)
  with assms(1) have delay: "delay = min (hold_backoff_delay ?p k)
      (from_millis (unat (hold_max_duration_ms ?p)) - (fw_now run - fq_started (fp_request fp)))"
    by (auto simp: hold_pause_def Let_def split: if_splits)
  have "from_millis 1 \<le> hold_backoff_delay ?p k"
    by (auto simp: hold_backoff_millis from_millis_def)
  with delay d assms(5) show ?thesis by auto
qed

lemma hold_loop_ends:
  assumes "d \<le> fw_now run + from_millis n" "fp_deadline fp = Some d" "from_millis 1 \<le> d"
    and "fp_deadline fp = hold_deadline (retry (r_config (fp_route fp))) (fq_started (fp_request fp))"
    and "fq_started (fp_request fp) \<le> fw_now run"
  shows "\<exists>fl. hold_loop fe fp (Suc n) k run = Some fl"
  using assms(1,5)
proof (induction n arbitrary: k run)
  case 0
  with assms(2) show ?case by (simp add: past_deadline_def from_millis_def)
next
  case (Suc n)
  define r where "r = rounds fe fp (unat (silent_retry_rounds (retry (r_config (fp_route fp))))) run"
  have mono: "fw_now run \<le> fw_now (flow_run r)"
    unfolding r_def by (rule clock.rounds_fin) simp
  show ?case
  proof (cases "\<exists>run1 delay. r = Continue run1 \<and> \<not> fw_submitted run1 \<and> hold_pause fp k run1 = Some delay")
    case False
    then show ?thesis
      by (cases r) (auto simp: r_def [symmetric] split: option.splits)
  next
    case True
    then obtain run1 delay where r: "r = Continue run1" and p: "hold_pause fp k run1 = Some delay" by blast
    have started: "fq_started (fp_request fp) \<le> fw_now run1" using mono r Suc.prems(2) by simp
    have "min (fw_now run1 + from_millis 1) d \<le> fw_now run1 + delay"
      using hold_pause_progress [OF p assms(2-4) started] .
    moreover have "from_millis (Suc n) = from_millis 1 + from_millis n" by (simp add: from_millis_def)
    ultimately have "d \<le> fw_now (pause fe delay run1) + from_millis n"
      using Suc.prems(1) mono r by (auto simp: flow_simps)
    moreover have "fq_started (fp_request fp) \<le> fw_now (pause fe delay run1)" using started by (simp add: flow_simps)
    ultimately have "\<exists>fl. hold_loop fe fp (Suc n) (sat_add k 1) (pause fe delay run1) = Some fl"
      by (rule Suc.IH)
    with r p show ?thesis by (auto simp: r_def [symmetric])
  qed
qed

text \<open>
  C23. Forwarding ends.  Without holding one pass is enough; with a hold of bounded duration the
  loop runs at most once per millisecond of its budget, however slow the upstreams are and
  whatever the other requests do.
\<close>

theorem forwarding_ends:
  assumes "fq_started fq \<le> now"
    and "\<not> hold_on_failure (retry (r_config route)) \<or> 0 < hold_max_duration_ms (retry (r_config route))"
  shows "\<exists>res. forward_request_inner fe (Suc (unat (hold_max_duration_ms (retry (r_config route))))) fq route pricing now s
    = Some res"
proof (cases "\<not> fq_image fq \<and> (\<exists>fp. plan_of fe fq route pricing now s = Inr fp)")
  case False
  then show ?thesis
    by (cases "plan_of fe fq route pricing now s") (auto simp: forward_request_inner_def split: prod.split)
next
  case True
  then obtain fp where fp: "plan_of fe fq route pricing now s = Inr fp" by blast
  note plan = plan_fields [OF fp]
  let ?p = "retry (r_config route)"
  have "\<exists>fl. hold_loop fe fp (Suc (unat (hold_max_duration_ms ?p))) 0 (initial_run route now s) = Some fl"
  proof (cases "hold_on_failure ?p")
    case True
    with assms(2) have pos: "1 \<le> unat (hold_max_duration_ms ?p)" by (simp add: word_less_nat_alt)
    show ?thesis
      by (rule hold_loop_ends [where d = "fq_started fq + from_millis (unat (hold_max_duration_ms ?p))"])
         (use True assms pos plan in \<open>simp_all add: hold_deadline_def from_millis_def\<close>)
  next
    case False
    define r where "r = rounds fe fp (unat (silent_retry_rounds ?p)) (initial_run route now s)"
    have "hold_pause fp 0 run = None" for run using False plan by (simp add: hold_pause_def Let_def)
    with plan show ?thesis by (cases r) (auto simp: r_def [symmetric])
  qed
  with True fp show ?thesis by (auto simp: forward_request_inner_def)
qed

theorem forwarding_ends_witness:
  "\<exists>res. forward_request_inner sample_env (Suc (unat (hold_max_duration_ms (retry (r_config sample_route)))))
    sample_request sample_route [] 5 sample_state = Some res"
  by (rule forwarding_ends) (simp_all add: sample_request_def sample_route_def default_retry_policy_def)

lemma unat_plus_one_le: "unat (r :: u8) < M \<Longrightarrow> M \<le> 255 \<Longrightarrow> unat (r + 1) = unat r + 1"
  by (simp add: unat_word_ariths)

lemma round_targets_bound:
  assumes "M = unat (at_least_one (max_attempts (retry (r_config (fp_route fp)))))" "unat (fw_round run) \<le> M"
  shows "length (fw_trace (flow_run (round_targets fe fp ts run))) + unat (fw_round run) \<le> length (fw_trace run) + M"
  using assms(2)
proof (induction ts arbitrary: run)
  case Nil
  then show ?case by simp
next
  case (Cons t ts)
  have M: "M \<le> 255" using unat_u8_less [of "at_least_one (max_attempts (retry (r_config (fp_route fp))))"] assms(1) by simp
  show ?case
  proof (cases "\<not> is_some_and (fp_owner fp) (\<lambda>o'. o' \<noteq> target_id t) \<and> unat (fw_round run) < M
      \<and> \<not> fw_submitted run \<and> \<not> past_deadline fp run")
    case False
    with Cons assms(1) show ?thesis by (auto simp: word_le_nat_alt)
  next
    case True
    define fl where "fl = try_target fe fp t run"
    have one: "unat (fw_round run + 1) = unat (fw_round run) + 1" using unat_plus_one_le [of "fw_round run" M] True M by simp
    obtain i where "advances i run fl" unfolding fl_def using try_advances [of run] True by blast
    then have grow: "length (fw_trace (flow_run fl)) + unat (fw_round run) \<le> length (fw_trace run) + unat (fw_round (flow_run fl))"
      and le: "unat (fw_round (flow_run fl)) \<le> M"
      using one True by (auto simp: advances_def)
    have "round_targets fe fp (t # ts) run =
        (case fl of Continue run' \<Rightarrow> round_targets fe fp ts run' | _ \<Rightarrow> fl)"
      using True assms(1) by (cases fl) (simp_all add: fl_def [symmetric] word_le_nat_alt)
    then show ?thesis
      using grow le Cons.IH [of "flow_run fl"] by (cases fl) auto
  qed
qed

lemma rounds_bound:
  assumes "M = unat (at_least_one (max_attempts (retry (r_config (fp_route fp)))))"
  shows "length (fw_trace (flow_run (rounds fe fp n run))) \<le> length (fw_trace run) + n * M"
proof (induction n arbitrary: run)
  case 0
  show ?case by simp
next
  case (Suc n)
  obtain ts run1 where s: "start_round fe fp run = (ts, run1)" by (cases "start_round fe fp run")
  note keep = start_round_keeps [OF s]
  define fl where "fl = round_targets fe fp ts run1"
  have "length (fw_trace (flow_run fl)) \<le> length (fw_trace run) + M"
    using round_targets_bound [OF assms, of run1 fe ts] keep by (simp add: fl_def)
  with Suc.IH [of "flow_run fl"] s show ?case by (cases fl) (auto simp: fl_def [symmetric])
qed

text \<open>
  C27. A request that is not held is sent to at most the configured number of attempts in each of
  its rounds.
\<close>

theorem attempts_bounded:
  assumes "forward_request_inner fe fuel fq route pricing now s = Some res"
    and "\<not> hold_on_failure (retry (r_config route))"
  shows "length (fw_trace (fx_run res))
    \<le> unat (silent_retry_rounds (retry (r_config route))) * unat (at_least_one (max_attempts (retry (r_config route))))"
  using assms(1)
proof (cases rule: forward_cases)
  case locally
  then show ?thesis by simp
next
  case (loop fp fl)
  note plan = plan_fields [OF loop(2)]
  let ?r = "rounds fe fp (unat (silent_retry_rounds (retry (r_config route)))) (initial_run route now s)"
  have "hold_pause fp 0 run = None" for run using assms(2) plan by (simp add: hold_pause_def Let_def)
  with loop(3) plan have "fw_trace (flow_run fl) = [] \<or> fw_trace (flow_run fl) = fw_trace (flow_run ?r)"
    by (cases fuel) (auto split: if_splits flow.splits)
  moreover have "length (fw_trace (flow_run ?r)) \<le> unat (silent_retry_rounds (retry (r_config route)))
      * unat (at_least_one (max_attempts (retry (r_config route))))"
    using rounds_bound [OF refl, of fe fp _ "initial_run route now s"] plan by simp
  ultimately show ?thesis using loop(4) by (auto simp: finish_run)
qed

theorem attempts_bounded_witness:
  "\<exists>res. sample_result = Some res \<and> length (fw_trace (fx_run res)) \<le> 1 * 3"
proof -
  obtain res where res: "sample_result = Some res" using sample_run by blast
  have policy: "\<not> hold_on_failure (retry (r_config sample_route))"
    "silent_retry_rounds (retry (r_config sample_route)) = 1" "at_least_one (max_attempts (retry (r_config sample_route))) = 3"
    by (simp_all add: silent_retry_rounds_def sample_route_def default_retry_policy_def at_least_one_def)
  from attempts_bounded [OF res [unfolded sample_result_def] policy(1)] have "length (fw_trace (fx_run res)) \<le> 1 * 3"
    by (simp add: policy)
  with res show ?thesis by blast
qed

end
