(* ===== verification/Guards.thy ===== *)
theory Guards
  imports Forward
begin

text \<open>
  The guards of the forwarding loop over a whole request: every target that was admitted is
  released when its attempt fails, and the one whose response is delivered keeps its guards
  until the body ends.
\<close>

section \<open>What leaves the counters alone\<close>

definition counters :: "proxy_state \<Rightarrow> activity \<times> activity" where
  "counters s = (st_target_activity s, st_provider_activity s)"

named_theorems counted_simps

lemma outcomes_count [counted_simps]:
  "counters (mark_failure target policy now s) = counters s"
  "counters (mark_rate_limited http_date target hs policy now s) = counters s"
  "counters (complete_target_success route key target started response_id now s) = counters s"
  "counters (set_error e s) = counters s"
  "counters (record_request ok ft now s) = counters s"
  by (simp_all add: counters_def mark_failure_def mark_rate_limited_def complete_target_success_def set_error_def
      record_request_def Let_def split: prod.split option.split)

lemma fields_count [counted_simps]:
  "counters (s\<lparr>st_health := h\<rparr>) = counters s"
  "counters (s\<lparr>st_affinity := a\<rparr>) = counters s"
  "counters (s\<lparr>st_rr_counters := c\<rparr>) = counters s"
  by (simp_all add: counters_def)

lemma attempts_count [counted_simps]:
  "counters (snd (snd (fail_attempt ax st ft b m now s))) = counters s"
  "counters (snd (snd (deliver_rejection ad ax r now s))) = counters s"
  "counters (snd (snd (deliver_success ad ax r ft body i now s))) = counters s"
  by (simp_all add: fail_attempt_def deliver_rejection_def deliver_success_def Let_def counted_simps)

lemma body_count [counted_simps]: "counters (snd (snd (deliver_body ad ax r c ok rest now s))) = counters s"
  by (simp add: deliver_body_def Let_def counted_simps split: sum.split prod.split)

lemma delivery_count [counted_simps]: "counters (snd (snd (deliver_upstream_response ad ax r now s))) = counters s"
  unfolding deliver_upstream_response_def Let_def
  by (auto simp: counted_simps split: sum.split prod.split option.split)

lemma prepare_count:
  "prepare_upstream_request ad rt ax incoming query body request_json now s = Replaced res \<Longrightarrow>
    counters (snd (snd res)) = counters s"
  by (auto simp: prepare_upstream_request_def counted_simps split: sum.splits prepare_error.splits)

lemma run_attempt_count:
  assumes "counters s' = counters s"
  shows "counters (snd (snd (run_http_attempt ad ax incoming request_json backend convert
      (prepare_upstream_request ad rt ax incoming query body request_json now s) send now' s'))) = counters s"
  using assms
  by (auto simp: run_http_attempt_def send_prepared_def counted_simps Let_def bad_request_def
      split: option.split sum.split prepared.split send_result.split dest!: prepare_count)

text \<open>The other requests and the WebSocket transport leave the counters as they were.\<close>

definition counts_alone :: "'u forward_env \<Rightarrow> bool" where
  "counts_alone fe =
    ((\<forall>now s. counters (fe_meanwhile fe now s) = counters s)
     \<and> (\<forall>ax now s. counters (fst (snd (snd (fe_ws fe ax now s)))) = counters s))"

lemma http_attempt_count:
  assumes "counts_alone fe" "http_attempt fe fp ax run = (d, rows, s')"
  shows "counters s' = counters (fw_state run)"
proof -
  have "counters (snd (snd (http_attempt fe fp ax run))) = counters (fw_state run)"
    using assms(1) by (simp add: http_attempt_def Let_def run_attempt_count counts_alone_def)
  with assms(2) show ?thesis by simp
qed

lemma rotate_count: "rotate_peers rank route ts s = (ts', s') \<Longrightarrow> counters s' = counters s"
  by (auto simp: rotate_peers_def round_robin_start_def Let_def counted_simps split: prod.splits if_splits)

lemma affinity_first_count: "counters (snd (affinity_first route key now ts s)) = counters s"
  by (simp add: affinity_first_def Let_def counters_def split: prod.split)

lemma ordered_count: "counters (snd (ordered_route_targets_for_model route key model unix now s)) = counters s"
  by (auto simp: ordered_route_targets_for_model_def affinity_first_count Let_def counted_simps
      split: prod.split dest: rotate_count)

lemma start_round_count:
  assumes "start_round fe fp run = (ts, run1)"
  shows "counters (fw_state run1) = counters (fw_state run)"
proof -
  have "counters (snd (live_route_targets_for_model route key model unix now s)) = counters s" for route key model unix now s
    by (simp add: live_route_targets_for_model_def ordered_count Let_def)
  with assms show ?thesis by (auto simp: start_round_def split: prod.splits) (metis snd_conv)
qed

section \<open>Taking and dropping guards\<close>

fun flow_guards :: "flow \<Rightarrow> guards option" where
  "flow_guards (Reply response tc g run) = g"
| "flow_guards _ = None"

text \<open>The counters of a state are those of \<open>s\<close> and the guards that are held.\<close>

definition holding :: "proxy_state \<Rightarrow> guards option \<Rightarrow> proxy_state \<Rightarrow> bool" where
  "holding s g s' =
    (\<forall>j. activity_count (st_target_activity s') j
        = activity_count (st_target_activity s) j + (case g of None \<Rightarrow> 0 | Some (_, _, i) \<Rightarrow> if j = i then 1 else 0)
      \<and> activity_count (st_provider_activity s') j
        = activity_count (st_provider_activity s) j + (case g of None \<Rightarrow> 0 | Some (_, pr, _) \<Rightarrow> if j = pr then 1 else 0))"

definition room :: "proxy_state \<Rightarrow> bool" where
  "room s = (\<forall>j. activity_count (st_target_activity s) j + 1 < 2 ^ 64 \<and> activity_count (st_provider_activity s) j + 1 < 2 ^ 64)"

lemma holding_counters: "counters s2 = counters s1 \<Longrightarrow> holding s g s2 = holding s g s1"
  by (simp add: holding_def counters_def)

lemma holding_release: "holding s (Some g) s' \<Longrightarrow> holding s None (release_guards g s')"
  by (cases g) (auto simp: holding_def count_drop provider_release_eq)

lemma holding_drop:
  "holding s (Some (p, provider, target_id t)) (fw_state run) \<Longrightarrow> holding s None (fw_state (drop_guards p provider t run))"
  using holding_release [of s "(p, provider, target_id t)" "fw_state run"] by (simp add: drop_guards_def)

lemma noted_state [simp]: "fw_state (noted t b run) = fw_state run"
  by (simp add: noted_def)

lemma admit_holding:
  assumes "admit_target fe t run = (r, run')" "holding s None (fw_state run)" "room s"
  shows "holding s (map_option (\<lambda>(p, provider). (p, provider, target_id t)) r) (fw_state run')"
proof -
  let ?s = "fw_state run"
  have room: "activity_count (st_target_activity ?s) j + 1 < 2 ^ 64" "activity_count (st_provider_activity ?s) j + 1 < 2 ^ 64" for j
    using assms(2,3) by (simp_all add: holding_def room_def)
  obtain q h where rec: "recovery_acquire (fw_now run) (fe_fresh fe (length (fw_trace run))) (target_id t) (st_health ?s) = (q, h)"
    by (cases "recovery_acquire (fw_now run) (fe_fresh fe (length (fw_trace run))) (target_id t) (st_health ?s)")
  show ?thesis
  proof (cases q)
    case None
    with assms rec show ?thesis by (auto simp: admit_target_def Let_def holding_def)
  next
    case (Some p)
    obtain pr c where acq: "provider_acquire (cfg_routes (st_config ?s)) t (st_provider_activity ?s) = (pr, c)"
      by (cases "provider_acquire (cfg_routes (st_config ?s)) t (st_provider_activity ?s)")
    show ?thesis
    proof (cases pr)
      case None
      have c: "c = st_provider_activity ?s"
        using acq None by (auto dest: provider_acquire_None)
      have "r = None" "fw_state run' = ?s\<lparr>st_health := recovery_release p h, st_provider_activity := c\<rparr>"
        using assms(1) rec acq None \<open>q = Some p\<close> by (auto simp: admit_target_def Let_def)
      with assms(2) c show ?thesis by (simp add: holding_def)
    next
      case (Some provider)
      have c: "c = provider_enter provider (st_provider_activity ?s)"
        using provider_acquire_Some acq Some by blast
      have r: "r = Some (p, provider)"
        and s': "fw_state run' = ?s\<lparr>st_health := h, st_provider_activity := c,
          st_target_activity := target_activity_new (target_id t) (st_target_activity ?s)\<rparr>"
        using assms(1) rec acq \<open>q = Some p\<close> Some by (auto simp: admit_target_def Let_def)
      have "activity_count c j = activity_count (st_provider_activity ?s) j + (if j = provider then 1 else 0)" for j
        unfolding c by (rule provider.count_enter [OF room(2)])
      moreover have "activity_count (target_activity_new (target_id t) (st_target_activity ?s)) j
          = activity_count (st_target_activity ?s) j + (if j = target_id t then 1 else 0)" for j
        by (rule target_activity.count_enter [OF room(1)])
      ultimately show ?thesis using assms(2) by (simp add: r s' holding_def)
    qed
  qed
qed

definition balanced :: "proxy_state \<Rightarrow> flow \<Rightarrow> bool" where
  "balanced s fl = holding s (flow_guards fl) (fw_state (flow_run fl))"

lemma balanced_simps [simp]:
  "balanced s (Continue run) = holding s None (fw_state run)"
  "balanced s (StopHold run) = holding s None (fw_state run)"
  "balanced s (Reply response tc g run) = holding s g (fw_state run)"
  by (simp_all add: balanced_def)

lemma http_step_balanced:
  assumes "counts_alone fe" "holding s (Some (p, provider, target_id t)) (fw_state run)"
  shows "balanced s (http_step fe fp t p provider ax run)"
proof (cases "http_attempt fe fp ax run")
  case (fields d rows s')
  have held: "holding s (Some (p, provider, target_id t)) s'"
    using assms(2) unfolding holding_counters [OF http_attempt_count [OF assms(1) fields]] .
  show ?thesis
  proof (cases d)
    case (Deliver response tc)
    then show ?thesis unfolding http_step_def fields Let_def by (simp add: held)
  next
    case (Abort response)
    then show ?thesis unfolding http_step_def fields Let_def by (simp, intro holding_drop, simp add: held)
  next
    case (Retry e submitted)
    then show ?thesis unfolding http_step_def fields Let_def by (simp, intro holding_drop, simp add: held)
  qed
qed

lemma ws_step_balanced:
  assumes "counts_alone fe" "holding s (Some (p, provider, target_id t)) (fw_state run)"
  shows "balanced s (ws_step fe fp t p provider ax run)"
proof (cases "fe_ws fe ax (fw_now run) (fw_state run)")
  case (fields out extra s' took)
  have "counters (fst (snd (snd (fe_ws fe ax (fw_now run) (fw_state run))))) = counters (fw_state run)"
    using assms(1) unfolding counts_alone_def by blast
  then have same: "counters s' = counters (fw_state run)" unfolding fields by simp
  have held: "holding s (Some (p, provider, target_id t)) s'"
    using assms(2) unfolding holding_counters [OF same] .
  have marked: "holding s (Some (p, provider, target_id t)) (mark_failure (target_id t) policy now s')" for policy now
    using held unfolding holding_counters [OF outcomes_count(1)] .
  show ?thesis
  proof (cases out)
    case (WsResponse response)
    then show ?thesis unfolding ws_step_def fields Let_def by (simp add: held)
  next
    case (WsFallback found)
    have "balanced s (http_step fe fp t p provider ax' run')" if "fw_state run' = s'" for ax' run'
      by (rule http_step_balanced [OF assms(1)]) (simp add: that held)
    moreover have "holding s None (fw_state (drop_guards p provider t run'))" if "fw_state run' = s'" for run'
      by (rule holding_drop) (simp add: that held)
    ultimately show ?thesis unfolding ws_step_def fields Let_def WsFallback by simp
  next
    case (WsRejected status)
    then show ?thesis unfolding ws_step_def fields Let_def by (simp, intro impI conjI holding_drop, simp_all add: held marked)
  qed
qed

lemma attempt_balanced:
  assumes "counts_alone fe" "holding s (Some (p, provider, target_id t)) (fw_state run)"
  shows "balanced s (attempt_target fe fp t p provider run)"
  using assms by (simp add: attempt_target_def Let_def ws_step_balanced http_step_balanced)

lemma try_balanced:
  assumes "counts_alone fe" "room s" "holding s None (fw_state run)"
  shows "balanced s (try_target fe fp t run)"
proof -
  have admit: "balanced s (admit_and_attempt fe fp t' run')" if h: "holding s None (fw_state run')" for t' run'
  proof (cases "admit_target fe t' run'")
    case (Pair r run1)
    from admit_holding [OF Pair h assms(2)] Pair show ?thesis
      by (cases r) (auto simp: admit_and_attempt_def intro: attempt_balanced [OF assms(1)])
  qed
  have "holding s None (fe_meanwhile fe now (fw_state run))" for now
  proof -
    have same: "counters (fe_meanwhile fe now (fw_state run)) = counters (fw_state run)"
      using assms(1) by (simp add: counts_alone_def)
    show ?thesis using assms(3) unfolding holding_counters [OF same] .
  qed
  then show ?thesis
    unfolding try_target_def Let_def by (auto intro: admit assms(3) split: prod.split sum.split)
qed

interpretation guarded: loop_invariant fe fp
  "\<lambda>run. counts_alone fe \<and> room s \<longrightarrow> holding s None (fw_state run)"
  "\<lambda>fl. counts_alone fe \<and> room s \<longrightarrow> balanced s fl"
  for fe :: "'u forward_env" and fp and s
proof unfold_locales
  fix run :: forward_run and delay
  assume inv: "counts_alone fe \<and> room s \<longrightarrow> holding s None (fw_state run)"
  obtain ts run1 where r: "start_round fe fp run = (ts, run1)" by (cases "start_round fe fp run")
  show "counts_alone fe \<and> room s \<longrightarrow> holding s None (fw_state (snd (start_round fe fp run)))"
    using inv unfolding r snd_conv holding_counters [OF start_round_count [OF r]] .
  show "counts_alone fe \<and> room s \<longrightarrow> holding s None (fw_state (pause fe delay run))"
  proof
    assume h: "counts_alone fe \<and> room s"
    then have same: "counters (fe_meanwhile fe (fw_now run) (fw_state run)) = counters (fw_state run)"
      by (simp add: counts_alone_def)
    from inv h have "holding s None (fe_meanwhile fe (fw_now run) (fw_state run))"
      unfolding holding_counters [OF same] by blast
    then show "holding s None (fw_state (pause fe delay run))" by (simp add: pause_def)
  qed
qed (auto intro: try_balanced)

section \<open>Properties\<close>

lemma forward_inner_cases:
  assumes "forward_request_inner fe fuel fq route pricing now s = Some res"
  obtains (locally) "\<not> fq_image fq \<Longrightarrow> fx_guards res = None \<and> fw_state (fx_run res) = s"
  | (loop) fp fl where "plan_of fe fq route pricing now s = Inr fp"
      "hold_loop fe fp fuel 0 (initial_run route now s) = Some fl" "res = finish fp fl"
  using assms by (auto simp: forward_request_inner_def local_reply_def split: if_splits prod.splits sum.splits)



end
