(* ===== verification/Crypto.thy ===== *)
theory Crypto
  imports Text
begin

text \<open>
  The vault's cryptography (\<open>crates/aipass-crypto/src/lib.rs\<close>): key derivation policies, the
  sealed boxes every other layer is built from, the epoch keys that wrap the data key of a
  record, and the printed recovery key.  XChaCha20-Poly1305, HKDF, HMAC, Argon2 and base64 are
  other crates: they are the fields of \<open>primitives\<close>, and \<open>primitives_ok\<close> states what their
  documentation promises, that opening undoes sealing under the same key, nonce and associated
  data and that decoding undoes encoding.  Random bytes, fresh identifiers and the clock are
  arguments of the functions that draw them.
\<close>

section \<open>Primitives of other crates\<close>

record primitives =
  b64_encode :: "bytes \<Rightarrow> string"
  b64_decode :: "string \<Rightarrow> bytes option"
  aead_seal :: "bytes \<Rightarrow> bytes \<Rightarrow> bytes \<Rightarrow> bytes \<Rightarrow> bytes option"
  aead_open :: "bytes \<Rightarrow> bytes \<Rightarrow> bytes \<Rightarrow> bytes \<Rightarrow> bytes option"
  hkdf_sha256 :: "bytes option \<Rightarrow> bytes \<Rightarrow> string \<Rightarrow> nat \<Rightarrow> bytes option"
  hmac_sha256 :: "bytes \<Rightarrow> bytes \<Rightarrow> bytes"
  argon2_accepts :: "u32 \<Rightarrow> u32 \<Rightarrow> u32 \<Rightarrow> bool"
  argon2id :: "u32 \<Rightarrow> u32 \<Rightarrow> u32 \<Rightarrow> bytes \<Rightarrow> bytes \<Rightarrow> bytes option"

definition primitives_ok :: "primitives \<Rightarrow> bool" where
  "primitives_ok p \<longleftrightarrow>
    (\<forall>b. b64_decode p (b64_encode p b) = Some b) \<and>
    (\<forall>k n a m c. aead_seal p k n a m = Some c \<longrightarrow> aead_open p k n a c = Some m)"

datatype crypto_error =
    InvalidKdfParams | KdfFailed | EncryptFailed | DecryptFailed | HkdfFailed
  | InvalidKeyLength | InvalidRecoverySecret | InvalidEncoding | KeyDerivationFailed
  | NonContributoryPublicKey

definition KEY_LEN :: nat where "KEY_LEN = 32"
definition NONCE_LEN :: nat where "NONCE_LEN = 24"
definition RECOVERY_SECRET_LEN :: nat where "RECOVERY_SECRET_LEN = 32"

definition ok_or :: "'e \<Rightarrow> 'a option \<Rightarrow> 'e + 'a" where
  "ok_or e v = (case v of None \<Rightarrow> Inl e | Some x \<Rightarrow> Inr x)"

lemma and_then_simps [simp]: "and_then (Inl e) f = Inl e" "and_then (Inr x) f = f x"
  by (simp_all add: and_then_def)

lemma ok_or_simps [simp]: "ok_or e None = Inl e" "ok_or e (Some x) = Inr x"
  by (simp_all add: ok_or_def)

lemma and_then_Inr: "and_then v f = Inr y \<longleftrightarrow> (\<exists>x. v = Inr x \<and> f x = Inr y)"
  by (cases v) auto

lemma ok_or_Inr: "ok_or e v = Inr x \<longleftrightarrow> v = Some x"
  by (cases v) auto

section \<open>Password derivation\<close>

record kdf_params =
  kdf_algorithm :: string
  memory_kib :: u32
  iterations :: u32
  parallelism :: u32
  salt_b64 :: string

definition uses_interactive_policy :: "kdf_params \<Rightarrow> bool" where
  "uses_interactive_policy k =
    (kdf_algorithm k = ''argon2id'' \<and> memory_kib k = 64 * 1024 \<and> iterations k = 2 \<and> parallelism k = 1)"

definition uses_legacy_interactive_policy :: "kdf_params \<Rightarrow> bool" where
  "uses_legacy_interactive_policy k =
    (kdf_algorithm k = ''argon2id'' \<and> parallelism k = 1 \<and>
     (memory_kib k = 256 * 1024 \<and> iterations k = 4 \<or> memory_kib k = 64 * 1024 \<and> iterations k = 3))"

definition with_salt :: "primitives \<Rightarrow> u32 \<Rightarrow> u32 \<Rightarrow> u32 \<Rightarrow> bytes \<Rightarrow> kdf_params" where
  "with_salt p memory iter par salt =
    \<lparr>kdf_algorithm = ''argon2id'', memory_kib = memory, iterations = iter, parallelism = par,
     salt_b64 = b64_encode p salt\<rparr>"

definition interactive :: "primitives \<Rightarrow> bytes \<Rightarrow> kdf_params" where
  "interactive p salt = with_salt p (64 * 1024) 2 1 salt"

definition kdf_salt :: "primitives \<Rightarrow> kdf_params \<Rightarrow> crypto_error + bytes" where
  "kdf_salt p k = ok_or InvalidKdfParams (b64_decode p (salt_b64 k))"

definition derive_master_key :: "primitives \<Rightarrow> string \<Rightarrow> kdf_params \<Rightarrow> crypto_error + bytes" where
  "derive_master_key p password k =
    (if kdf_algorithm k \<noteq> ''argon2id'' then Inl InvalidKdfParams
     else if \<not> argon2_accepts p (memory_kib k) (iterations k) (parallelism k) then Inl InvalidKdfParams
     else and_then (kdf_salt p k) (\<lambda>salt.
       ok_or KdfFailed (argon2id p (memory_kib k) (iterations k) (parallelism k) password salt)))"

section \<open>Sealed boxes\<close>

record ciphertext =
  aead :: string
  nonce_b64 :: string
  ciphertext_b64 :: string

definition encrypt_bytes :: "primitives \<Rightarrow> bytes \<Rightarrow> bytes \<Rightarrow> bytes \<Rightarrow> bytes \<Rightarrow> crypto_error + ciphertext" where
  "encrypt_bytes p nonce key aad plaintext =
    and_then (ok_or EncryptFailed (aead_seal p key nonce aad plaintext)) (\<lambda>c.
      Inr \<lparr>aead = ''xchacha20poly1305'', nonce_b64 = b64_encode p nonce, ciphertext_b64 = b64_encode p c\<rparr>)"

definition decrypt_bytes :: "primitives \<Rightarrow> bytes \<Rightarrow> bytes \<Rightarrow> ciphertext \<Rightarrow> crypto_error + bytes" where
  "decrypt_bytes p key aad c =
    (if aead c \<noteq> ''xchacha20poly1305'' then Inl DecryptFailed
     else and_then (ok_or DecryptFailed (b64_decode p (nonce_b64 c))) (\<lambda>nonce.
          and_then (ok_or DecryptFailed (b64_decode p (ciphertext_b64 c))) (\<lambda>body.
          if length nonce \<noteq> NONCE_LEN then Inl DecryptFailed
          else ok_or DecryptFailed (aead_open p key nonce aad body))))"

section \<open>Epoch keys and record data keys\<close>

record vault_epoch =
  epoch_number :: u64
  key_id :: uuid
  epoch_created_at :: int

record epoch_key =
  epoch_of :: vault_epoch
  epoch_bytes :: bytes

record wrapped_dek =
  dek_epoch :: u64
  dek_key_id :: uuid
  dek_nonce_b64 :: string
  dek_ciphertext_b64 :: string

definition wrap_record_dek :: "primitives \<Rightarrow> bytes \<Rightarrow> epoch_key \<Rightarrow> bytes \<Rightarrow> bytes \<Rightarrow> crypto_error + wrapped_dek" where
  "wrap_record_dek p nonce ek dek aad =
    and_then (encrypt_bytes p nonce (epoch_bytes ek) aad dek) (\<lambda>c.
      Inr \<lparr>dek_epoch = epoch_number (epoch_of ek), dek_key_id = key_id (epoch_of ek),
           dek_nonce_b64 = nonce_b64 c, dek_ciphertext_b64 = ciphertext_b64 c\<rparr>)"

definition unwrap_record_dek :: "primitives \<Rightarrow> epoch_key \<Rightarrow> wrapped_dek \<Rightarrow> bytes \<Rightarrow> crypto_error + bytes" where
  "unwrap_record_dek p ek w aad =
    (if dek_epoch w \<noteq> epoch_number (epoch_of ek) \<or> dek_key_id w \<noteq> key_id (epoch_of ek) then Inl DecryptFailed
     else and_then (decrypt_bytes p (epoch_bytes ek) aad
            \<lparr>aead = ''xchacha20poly1305'', nonce_b64 = dek_nonce_b64 w, ciphertext_b64 = dek_ciphertext_b64 w\<rparr>) (\<lambda>b.
          if length b \<noteq> KEY_LEN then Inl InvalidKeyLength else Inr b))"

text \<open>The next epoch number is \<open>current + 1\<close>, which wraps in a release build.\<close>

definition advance_epoch :: "primitives \<Rightarrow> bytes \<Rightarrow> uuid \<Rightarrow> int \<Rightarrow> epoch_key \<Rightarrow> crypto_error + epoch_key" where
  "advance_epoch p fresh ident now current =
    and_then (ok_or HkdfFailed
        (hkdf_sha256 p (Some fresh) (epoch_bytes current) ''aipass vault epoch advance'' KEY_LEN)) (\<lambda>next_bytes.
      Inr \<lparr>epoch_of = \<lparr>epoch_number = epoch_number (epoch_of current) + 1, key_id = ident, epoch_created_at = now\<rparr>,
           epoch_bytes = next_bytes\<rparr>)"

lemma decrypt_encrypt:
  assumes "primitives_ok p" "encrypt_bytes p nonce key a m = Inr c" "length nonce = NONCE_LEN"
  shows "decrypt_bytes p key a c = Inr m"
  using assms by (auto simp: primitives_ok_def encrypt_bytes_def decrypt_bytes_def and_then_Inr ok_or_Inr)

lemma unwrap_wrap:
  assumes "primitives_ok p" "wrap_record_dek p nonce ek dek a = Inr w" "length nonce = NONCE_LEN"
    "length dek = KEY_LEN"
  shows "unwrap_record_dek p ek w a = Inr dek"
proof -
  from assms(2) obtain c where c: "encrypt_bytes p nonce (epoch_bytes ek) a dek = Inr c"
    and w: "w = \<lparr>dek_epoch = epoch_number (epoch_of ek), dek_key_id = key_id (epoch_of ek),
                 dek_nonce_b64 = nonce_b64 c, dek_ciphertext_b64 = ciphertext_b64 c\<rparr>"
    by (auto simp: wrap_record_dek_def and_then_Inr)
  have "c = \<lparr>aead = ''xchacha20poly1305'', nonce_b64 = nonce_b64 c, ciphertext_b64 = ciphertext_b64 c\<rparr>"
    using c by (auto simp: encrypt_bytes_def and_then_Inr)
  with decrypt_encrypt [OF assms(1) c assms(3)] show ?thesis
    by (simp add: unwrap_record_dek_def w assms(4))
qed

text \<open>A data key wrapped in one epoch is refused under the key of any other.\<close>

lemma unwrap_other_epoch:
  assumes "wrap_record_dek p nonce ek dek a = Inr w"
    and "epoch_number (epoch_of ek') \<noteq> epoch_number (epoch_of ek) \<or> key_id (epoch_of ek') \<noteq> key_id (epoch_of ek)"
  shows "unwrap_record_dek p ek' w a = Inl DecryptFailed"
  using assms by (auto simp: wrap_record_dek_def unwrap_record_dek_def and_then_Inr)

section \<open>The recovery key\<close>

definition hex_digit :: "nat \<Rightarrow> char" where
  "hex_digit n = ''0123456789ABCDEF'' ! n"

fun hex_encode_upper :: "bytes \<Rightarrow> string" where
  "hex_encode_upper [] = []"
| "hex_encode_upper (b # bs) = hex_digit (byte_val b div 16) # hex_digit (byte_val b mod 16) # hex_encode_upper bs"

fun chunks4 :: "'a list \<Rightarrow> 'a list list" where
  "chunks4 (a # b # c # d # r) = [a, b, c, d] # chunks4 r"
| "chunks4 [] = []"
| "chunks4 r = [r]"

definition generate_recovery_secret :: "bytes \<Rightarrow> string" where
  "generate_recovery_secret secret = ''AIPASS-'' @ join_with ''-'' (chunks4 (hex_encode_upper secret))"

definition upper_byte :: "char \<Rightarrow> char" where
  "upper_byte c = (if 97 \<le> byte_val c \<and> byte_val c \<le> 122 then char_of (byte_val c - 32) else c)"

text \<open>\<open>char::is_ascii_whitespace\<close>: space, tab, line feed, form feed and carriage return.\<close>

definition is_ascii_whitespace :: "char \<Rightarrow> bool" where
  "is_ascii_whitespace c = (byte_val c \<in> {32, 9, 10, 12, 13})"

definition normalize_recovery_secret :: "string \<Rightarrow> string" where
  "normalize_recovery_secret value =
    (let trimmed = trim value;
         body = unwrap_or (or_else (strip_prefix ''AIPASS-'' trimmed) (strip_prefix ''aipass-'' trimmed)) trimmed
     in map upper_byte (filter (\<lambda>ch. \<not> is_ascii_whitespace ch \<and> ch \<noteq> CHR ''-'') body))"

definition hex_value :: "char \<Rightarrow> nat option" where
  "hex_value c =
    (let b = byte_val c in
     if 48 \<le> b \<and> b \<le> 57 then Some (b - 48)
     else if 97 \<le> b \<and> b \<le> 102 then Some (b - 97 + 10)
     else if 65 \<le> b \<and> b \<le> 70 then Some (b - 65 + 10) else None)"

fun hex_pairs :: "string \<Rightarrow> bytes option" where
  "hex_pairs (h # l # r) =
     (case hex_value h of None \<Rightarrow> None
      | Some high \<Rightarrow> (case hex_value l of None \<Rightarrow> None
        | Some low \<Rightarrow> map_option (\<lambda>bs. char_of (high * 16 + low) # bs) (hex_pairs r)))"
| "hex_pairs _ = Some []"

definition hex_decode :: "string \<Rightarrow> crypto_error + bytes" where
  "hex_decode value =
    (if length value \<noteq> RECOVERY_SECRET_LEN * 2 then Inl InvalidRecoverySecret
     else ok_or InvalidRecoverySecret (hex_pairs value))"

definition derive_recovery_key :: "primitives \<Rightarrow> string \<Rightarrow> crypto_error + bytes" where
  "derive_recovery_key p text =
    and_then (hex_decode (normalize_recovery_secret text)) (\<lambda>secret.
      if length secret \<noteq> RECOVERY_SECRET_LEN then Inl InvalidRecoverySecret
      else ok_or HkdfFailed (hkdf_sha256 p None secret ''aipass recovery root key wrap v1'' KEY_LEN))"

definition derive_remote_unlock_key ::
  "primitives \<Rightarrow> (string \<Rightarrow> bytes option) \<Rightarrow> string \<Rightarrow> bytes \<Rightarrow> crypto_error + bytes" where
  "derive_remote_unlock_key p url_safe_decode code salt =
    and_then (ok_or InvalidKeyLength (url_safe_decode code)) (\<lambda>raw.
      if length raw \<noteq> KEY_LEN then Inl InvalidKeyLength
      else ok_or HkdfFailed (hkdf_sha256 p (Some salt) raw ''aipass remote unlock root key wrap v1'' KEY_LEN))"

definition hmac_fingerprint :: "primitives \<Rightarrow> bytes \<Rightarrow> string \<Rightarrow> string" where
  "hmac_fingerprint p index_key secret = b64_encode p (take 12 (hmac_sha256 p index_key secret))"

section \<open>Reading a printed recovery key back\<close>

lemma byte_val_less: "byte_val c < 256"
  by (cases c) (simp add: byte_val_def)

lemma char_of_byte_val [simp]: "char_of (byte_val c) = c"
  by (simp add: byte_val_def)

lemma nibble_cases:
  "n < 16 \<Longrightarrow> (n :: nat) \<in> {0, 1, 2, 3, 4, 5, 6, 7, 8, 9, 10, 11, 12, 13, 14, 15}"
  unfolding insert_iff empty_iff by presburger

lemma hex_digit_cases:
  assumes "n < 16"
  shows "byte_val (hex_digit n) = (if n < 10 then 48 + n else 55 + n)"
proof -
  from nibble_cases [OF assms] show ?thesis by (auto simp: hex_digit_def byte_val_def)
qed

lemma hex_value_digit: "n < 16 \<Longrightarrow> hex_value (hex_digit n) = Some n"
  by (simp add: hex_value_def Let_def hex_digit_cases)

lemma hex_value_lower_digit: "n < 16 \<Longrightarrow> upper_byte (lower_byte (hex_digit n)) = hex_digit n"
proof -
  assume "n < 16"
  from nibble_cases [OF this] show ?thesis by (auto simp: hex_digit_def byte_val_def upper_byte_def lower_byte_def)
qed

definition hex_char :: "char \<Rightarrow> bool" where
  "hex_char c \<longleftrightarrow> (\<exists>n<16. c = hex_digit n)"

lemma hex_encode_chars: "c \<in> set (hex_encode_upper bs) \<Longrightarrow> hex_char c"
proof (induction bs)
  case (Cons b bs)
  have "byte_val b div 16 < 16" "byte_val b mod 16 < 16"
    using byte_val_less [of b] by (auto simp: less_mult_imp_div_less)
  then have "hex_char (hex_digit (byte_val b div 16))" "hex_char (hex_digit (byte_val b mod 16))"
    unfolding hex_char_def by blast+
  with Cons show ?case by auto
qed simp

lemma hex_char_val: "hex_char c \<Longrightarrow> 48 \<le> byte_val c \<and> byte_val c \<le> 70"
  by (auto simp: hex_char_def hex_digit_cases)

lemma lower_hex_char_val: "hex_char c \<Longrightarrow> 48 \<le> byte_val (lower_byte c) \<and> byte_val (lower_byte c) \<le> 102"
  using hex_char_val [of c] by (auto simp: lower_byte_def byte_val_def)

lemma hex_pairs_encode: "hex_pairs (hex_encode_upper bs) = Some bs"
proof (induction bs)
  case (Cons b bs)
  have "byte_val b div 16 < 16" "byte_val b mod 16 < 16"
    using byte_val_less [of b] by (auto simp: less_mult_imp_div_less)
  moreover have "byte_val b div 16 * 16 + byte_val b mod 16 = byte_val b" by simp
  ultimately show ?case using Cons by (simp add: hex_value_digit del: mult_div_mod_eq)
qed simp

lemma length_hex_encode [simp]: "length (hex_encode_upper bs) = 2 * length bs"
  by (induction bs) auto

lemma filter_grouped:
  "\<not> Q CHR ''-'' \<Longrightarrow> filter Q (join_with ''-'' (chunks4 s)) = filter Q s"
proof (induction s rule: chunks4.induct)
  case (1 a b c d r)
  then show ?case by (cases "chunks4 r") auto
qed auto

lemma last_join_chunks:
  "s \<noteq> [] \<Longrightarrow> join_with ''-'' (chunks4 s) \<noteq> [] \<and> last (join_with ''-'' (chunks4 s)) = last s"
proof (induction s rule: chunks4.induct)
  case (1 a b c d r)
  show ?case
  proof (cases r)
    case (Cons x xs)
    with 1 have "chunks4 r \<noteq> []" by (cases "chunks4 r") auto
    then obtain w ws where "chunks4 r = w # ws" by (cases "chunks4 r") auto
    with 1 Cons show ?thesis by auto
  qed simp
qed auto

lemma lead_ws_plain: "s \<noteq> [] \<Longrightarrow> 32 < byte_val (hd s) \<Longrightarrow> byte_val (hd s) < 128 \<Longrightarrow> lead_ws s = 0"
  by (cases s) (auto simp: ws1_def ws2_def ws3_def split: list.splits)

lemma trail_ws_plain:
  assumes "s \<noteq> []" "32 < byte_val (last s)" "byte_val (last s) < 128"
  shows "trail_ws s = 0"
proof -
  obtain r z where s: "s = r @ [z]" using assms(1) by (cases s rule: rev_cases) auto
  have z: "32 < byte_val z" "byte_val z < 128" using assms s by auto
  have "lead_ws (drop (length s - 1) s) = 0"
    using z by (simp add: s lead_ws_plain del: lead_ws.simps)
  moreover have "lead_ws (drop (length s - 2) s) \<noteq> 2" if "2 \<le> length s"
  proof -
    from that s obtain q y where "r = q @ [y]" by (cases r rule: rev_cases) auto
    then show ?thesis using z by (auto simp: s ws2_def)
  qed
  moreover have "lead_ws (drop (length s - 3) s) \<noteq> 3" if "3 \<le> length s"
  proof -
    from that s obtain q x y where "r = q @ [x, y]"
      by (cases r rule: rev_cases; cases "butlast r" rule: rev_cases) auto
    then show ?thesis using z by (auto simp: s ws3_def)
  qed
  ultimately show ?thesis by (auto simp: trail_ws_def Let_def)
qed

lemma whitespace_ws1: "is_ascii_whitespace c \<Longrightarrow> ws1 (byte_val c)"
  by (auto simp: is_ascii_whitespace_def ws1_def)

lemma trim_start_spaces:
  "(\<And>c. c \<in> set pre \<Longrightarrow> is_ascii_whitespace c) \<Longrightarrow> trim_start (pre @ s) = trim_start s"
proof (induction pre)
  case (Cons c pre)
  then have "ws1 (byte_val c)" by (simp add: whitespace_ws1)
  then have "trim_start ((c # pre) @ s) = trim_start (pre @ s)"
    by (subst trim_start.simps) simp
  with Cons show ?case by simp
qed simp

lemma trim_end_spaces:
  "(\<And>c. c \<in> set post \<Longrightarrow> is_ascii_whitespace c) \<Longrightarrow> trim_end (s @ post) = trim_end s"
proof (induction post rule: rev_induct)
  case (snoc c post)
  then have "ws1 (byte_val c)" by (simp add: whitespace_ws1)
  then have "trail_ws (s @ post @ [c]) = 1" by (simp add: trail_ws_def Let_def)
  then have "trim_end (s @ post @ [c]) = trim_end (s @ post)"
    by (subst trim_end.simps) simp
  with snoc show ?case by simp
qed simp

lemma trim_padded:
  assumes "\<And>c. c \<in> set pre \<Longrightarrow> is_ascii_whitespace c" "\<And>c. c \<in> set post \<Longrightarrow> is_ascii_whitespace c"
    and "s \<noteq> []" "32 < byte_val (hd s)" "byte_val (hd s) < 128" "32 < byte_val (last s)" "byte_val (last s) < 128"
  shows "trim (pre @ s @ post) = s"
proof -
  have "lead_ws (s @ post) = 0" using assms(3-5) by (intro lead_ws_plain) auto
  then have "trim_start (pre @ s @ post) = s @ post"
    by (simp add: trim_start_spaces [OF assms(1)] trim_start.simps [of "s @ post"])
  moreover have "trim_end (s @ post) = s"
    by (simp add: trim_end_spaces [OF assms(2)] trim_end_id trail_ws_plain [OF assms(3,6,7)])
  ultimately show ?thesis by (simp add: trim_def)
qed

lemma to_ascii_lowercase_append: "to_ascii_lowercase (a @ b) = to_ascii_lowercase a @ to_ascii_lowercase b"
  by (simp add: to_ascii_lowercase_def)

lemma lower_filter:
  "filter (\<lambda>ch. \<not> is_ascii_whitespace ch \<and> ch \<noteq> CHR ''-'') (map lower_byte s) =
   map lower_byte (filter (\<lambda>ch. \<not> is_ascii_whitespace ch \<and> ch \<noteq> CHR ''-'') s)"
proof (induction s)
  case (Cons c s)
  have "is_ascii_whitespace (lower_byte c) = is_ascii_whitespace c"
    by (auto simp: is_ascii_whitespace_def lower_byte_def byte_val_def)
  moreover have "lower_byte c = CHR ''-'' \<longleftrightarrow> c = CHR ''-''"
    by (auto simp: lower_byte_def byte_val_def dest: arg_cong [where f = byte_val])
  ultimately show ?case using Cons by simp
qed simp

lemma filter_hex:
  "filter (\<lambda>ch. \<not> is_ascii_whitespace ch \<and> ch \<noteq> CHR ''-'') (hex_encode_upper bs) = hex_encode_upper bs"
proof (rule filter_True, rule ballI)
  fix c assume "c \<in> set (hex_encode_upper bs)"
  then have "48 \<le> byte_val c" using hex_char_val hex_encode_chars by blast
  then show "\<not> is_ascii_whitespace c \<and> c \<noteq> CHR ''-''"
    by (auto simp: is_ascii_whitespace_def byte_val_def)
qed

lemma upper_hex: "map upper_byte (hex_encode_upper bs) = hex_encode_upper bs"
proof (rule map_idI)
  fix c assume "c \<in> set (hex_encode_upper bs)"
  then have "byte_val c \<le> 70" using hex_char_val hex_encode_chars by blast
  then show "upper_byte c = c" by (simp add: upper_byte_def)
qed

lemma upper_lower_hex: "map upper_byte (map lower_byte (hex_encode_upper bs)) = hex_encode_upper bs"
  unfolding map_map
proof (rule map_idI)
  fix c assume "c \<in> set (hex_encode_upper bs)"
  then obtain n where "n < 16" "c = hex_digit n" using hex_encode_chars by (auto simp: hex_char_def)
  then show "(upper_byte \<circ> lower_byte) c = c" by (simp add: hex_value_lower_digit)
qed

lemma generated_ends:
  assumes "secret \<noteq> []"
  shows "generate_recovery_secret secret \<noteq> []" "hd (generate_recovery_secret secret) = CHR ''A''"
    "hex_char (last (generate_recovery_secret secret))"
proof -
  have ne: "hex_encode_upper secret \<noteq> []" using assms by (cases secret) auto
  show "generate_recovery_secret secret \<noteq> []" "hd (generate_recovery_secret secret) = CHR ''A''"
    by (auto simp: generate_recovery_secret_def)
  show "hex_char (last (generate_recovery_secret secret))"
    using last_join_chunks [OF ne] ne hex_encode_chars [OF last_in_set [OF ne]]
    by (auto simp: generate_recovery_secret_def)
qed

lemma normalize_generated:
  assumes "secret \<noteq> []"
    and "\<And>c. c \<in> set pre \<Longrightarrow> is_ascii_whitespace c" "\<And>c. c \<in> set post \<Longrightarrow> is_ascii_whitespace c"
  shows "normalize_recovery_secret (pre @ generate_recovery_secret secret @ post) = hex_encode_upper secret"
proof -
  have "48 \<le> byte_val (last (generate_recovery_secret secret))"
      "byte_val (last (generate_recovery_secret secret)) \<le> 70"
    using hex_char_val [OF generated_ends(3) [OF assms(1)]] by auto
  then have "trim (pre @ generate_recovery_secret secret @ post) = generate_recovery_secret secret"
    by (intro trim_padded assms generated_ends) (simp_all add: generated_ends [OF assms(1)] byte_val_def)
  moreover have "strip_prefix ''AIPASS-'' (generate_recovery_secret secret) =
      Some (join_with ''-'' (chunks4 (hex_encode_upper secret)))"
    unfolding generate_recovery_secret_def by (rule strip_prefix_append)
  ultimately show ?thesis
    by (simp add: normalize_recovery_secret_def filter_grouped filter_hex upper_hex)
qed

lemma lower_A: "lower_byte (CHR ''A'') = CHR ''a''"
  by code_simp

lemma lower_prefix: "map lower_byte ''AIPASS-'' = ''aipass-''"
  by code_simp

lemma normalize_generated_lower:
  assumes "secret \<noteq> []"
    and "\<And>c. c \<in> set pre \<Longrightarrow> is_ascii_whitespace c" "\<And>c. c \<in> set post \<Longrightarrow> is_ascii_whitespace c"
  shows "normalize_recovery_secret (pre @ to_ascii_lowercase (generate_recovery_secret secret) @ post) =
    hex_encode_upper secret"
proof -
  let ?g = "generate_recovery_secret secret"
  have g: "?g \<noteq> []" by (rule generated_ends(1) [OF assms(1)])
  have "to_ascii_lowercase ?g \<noteq> []" "hd (to_ascii_lowercase ?g) = CHR ''a''"
      "last (to_ascii_lowercase ?g) = lower_byte (last ?g)"
    using g generated_ends(2) [OF assms(1)]
    by (auto simp: to_ascii_lowercase_def hd_map last_map lower_A)
  moreover have "48 \<le> byte_val (lower_byte (last ?g))" "byte_val (lower_byte (last ?g)) \<le> 102"
    using lower_hex_char_val [OF generated_ends(3) [OF assms(1)]] by auto
  ultimately have "trim (pre @ to_ascii_lowercase ?g @ post) = to_ascii_lowercase ?g"
    by (intro trim_padded assms) (simp_all add: byte_val_def)
  moreover have split: "to_ascii_lowercase ?g =
      ''aipass-'' @ map lower_byte (join_with ''-'' (chunks4 (hex_encode_upper secret)))"
    unfolding generate_recovery_secret_def to_ascii_lowercase_def map_append lower_prefix ..
  have "strip_prefix ''AIPASS-'' (to_ascii_lowercase ?g) = None"
      "strip_prefix ''aipass-'' (to_ascii_lowercase ?g) =
        Some (map lower_byte (join_with ''-'' (chunks4 (hex_encode_upper secret))))"
    unfolding split by (simp_all add: strip_prefix_def)
  ultimately show ?thesis
    by (simp add: normalize_recovery_secret_def lower_filter filter_grouped filter_hex
        upper_lower_hex del: map_map)
qed



end
