(* ===== verification/Disk.thy ===== *)
theory Disk
  imports Crypto "HOL-Library.Char_ord" "HOL-Library.List_Lexorder"
begin

text \<open>
  The vault's directory as the vault code sees it.  A path is the list of its components
  relative to the vault root, ordered as \<open>PathBuf\<close> orders them; the names that may leave the
  machine are checked by \<open>normalize\<close> (\<open>crates/aipass-storage/src/portable_path.rs\<close>).  The
  \<open>world\<close> holds the files, the faults the disk has in store (one per access, none when the
  list is empty) and the number of random draws so far.  An access may succeed, fail with no
  effect, or, as \<open>atomic_write_bytes\<close> may when only the final directory sync fails, take
  effect and still report an error.  A crash is a schedule whose remaining entries all fail.
\<close>

section \<open>Paths\<close>

type_synonym path = "string list"

text \<open>\<open>file_stem\<close> and \<open>extension\<close> of a file name.\<close>

definition split_name :: "string \<Rightarrow> string \<times> string option" where
  "split_name n =
    (let parts = split_on CHR ''.'' n; before = join_with ''.'' (butlast parts) in
     if n = ''..'' \<or> length parts = 1 \<or> before = [] then (n, None) else (before, Some (last parts)))"

definition file_stem :: "path \<Rightarrow> string option" where
  "file_stem p = (if p = [] \<or> last p = ''..'' then None else Some (fst (split_name (last p))))"

definition extension :: "path \<Rightarrow> string option" where
  "extension p = (if p = [] \<or> last p = ''..'' then None else snd (split_name (last p)))"

definition normal_component :: "string \<Rightarrow> bool" where
  "normal_component s \<longleftrightarrow> s \<noteq> [] \<and> s \<noteq> ''.'' \<and> s \<noteq> ''..'' \<and> CHR ''/'' \<notin> set s"

definition dir_extension :: "string \<Rightarrow> string option" where
  "dir_extension dir =
    (if dir = ''objects'' then Some ''aipobj'' else if dir = ''grants'' then Some ''aipgrant''
     else if dir = ''devices'' then Some ''aipdevice'' else if dir = ''audit'' then Some ''aipaudit'' else None)"

definition sync_path_allowed :: "path \<Rightarrow> bool" where
  "sync_path_allowed p \<longleftrightarrow>
    length p = 2 \<and> list_all normal_component p \<and>
    (case dir_extension (hd p) of None \<Rightarrow> False | Some ext \<Rightarrow> extension p = Some ext)"

definition in_audit :: "path \<Rightarrow> bool" where
  "in_audit p \<longleftrightarrow> p \<noteq> [] \<and> butlast p = [''audit'']"

definition backslash :: char where "backslash = CHR 0x5C"

definition bad_path_text :: "string \<Rightarrow> bool" where
  "bad_path_text text \<longleftrightarrow>
    text = [] \<or> CHR '':'' \<in> set text \<or> CHR 0x00 \<in> set text \<or>
    list_ex (\<lambda>part. part = [] \<or> part = ''.'' \<or> part = ''..'') (split_on CHR ''/'' text)"

definition normalize_path :: "string \<Rightarrow> string option" where
  "normalize_path raw =
    (let text = map (\<lambda>c. if c = backslash then CHR ''/'' else c) raw in
     if bad_path_text text then None else Some text)"

definition wire_path :: "path \<Rightarrow> string option" where
  "wire_path p = normalize_path (join_with ''/'' p)"

definition unwire_path :: "string \<Rightarrow> path option" where
  "unwire_path t = map_option (split_on CHR ''/'') (normalize_path t)"

definition portable_component :: "string \<Rightarrow> bool" where
  "portable_component s \<longleftrightarrow>
    normal_component s \<and> CHR '':'' \<notin> set s \<and> CHR 0x00 \<notin> set s \<and> backslash \<notin> set s"

definition portable :: "path \<Rightarrow> bool" where
  "portable p \<longleftrightarrow> p \<noteq> [] \<and> list_all portable_component p"

lemma split_join:
  "ws \<noteq> [] \<Longrightarrow> (\<And>w. w \<in> set ws \<Longrightarrow> c \<notin> set w) \<Longrightarrow> split_on c (join_with [c] ws) = ws"
proof (induction "[c]" ws rule: join_with.induct)
  case (2 w)
  then have "c \<notin> set w" by simp
  then show ?case by (induction w) auto
next
  case (3 w v ws)
  then have IH: "split_on c (join_with [c] (v # ws)) = v # ws" and w: "c \<notin> set w" by auto
  from w have "split_on c (w @ c # join_with [c] (v # ws)) = w # v # ws"
    by (induction w) (auto simp: IH)
  then show ?case by simp
qed simp

lemma set_join: "c \<in> set (join_with sep ws) \<Longrightarrow> c \<in> set sep \<or> (\<exists>w\<in>set ws. c \<in> set w)"
  by (induction sep ws rule: join_with.induct) auto

lemma normalize_portable:
  assumes "portable p"
  shows "normalize_path (join_with ''/'' p) = Some (join_with ''/'' p)"
proof -
  let ?t = "join_with ''/'' p"
  have comp: "\<And>w. w \<in> set p \<Longrightarrow> portable_component w" and ne: "p \<noteq> []"
    using assms by (auto simp: portable_def list_all_iff)
  have no: "c \<notin> set ?t" if "c \<in> {CHR '':'', CHR 0x00, backslash}" for c
    using that comp set_join [of c "''/''" p] by (auto simp: portable_component_def backslash_def)
  have split: "split_on CHR ''/'' ?t = p"
    using comp ne by (intro split_join) (auto simp: portable_component_def normal_component_def)
  have "map (\<lambda>c. if c = backslash then CHR ''/'' else c) ?t = ?t"
    using no by (intro map_idI) auto
  moreover have "?t \<noteq> []" using split comp [of "[]"] by (auto simp: portable_component_def normal_component_def)
  moreover have "\<not> list_ex (\<lambda>part. part = [] \<or> part = ''.'' \<or> part = ''..'') p"
    using comp by (auto simp: list_ex_iff portable_component_def normal_component_def)
  ultimately show ?thesis using no split by (simp add: normalize_path_def bad_path_text_def)
qed

lemma wire_round_trip: "portable p \<Longrightarrow> wire_path p = Some (join_with ''/'' p) \<and> unwire_path (join_with ''/'' p) = Some p"
proof -
  assume p: "portable p"
  then have "split_on CHR ''/'' (join_with ''/'' p) = p"
    by (intro split_join) (auto simp: portable_def list_all_iff portable_component_def normal_component_def)
  with normalize_portable [OF p] show ?thesis by (simp add: wire_path_def unwire_path_def)
qed

lemma set_split_on: "w \<in> set (split_on c s) \<Longrightarrow> set w \<subseteq> set s"
proof (induction s arbitrary: w)
  case (Cons x xs)
  obtain v vs where v: "split_on c xs = v # vs" by (cases "split_on c xs") auto
  with Cons.IH have "set v \<subseteq> set xs" "\<And>u. u \<in> set vs \<Longrightarrow> set u \<subseteq> set xs" by auto
  with Cons.prems v show ?case by (auto split: if_splits)
qed simp

text \<open>Whatever text arrives from another machine, the path it names stays inside the vault directory.\<close>

lemma unwire_portable:
  assumes "unwire_path t = Some p"
  shows "portable p"
proof -
  obtain u where n: "normalize_path t = Some u" and p: "p = split_on CHR ''/'' u"
    using assms by (auto simp: unwire_path_def)
  from n have u: "u = map (\<lambda>c. if c = backslash then CHR ''/'' else c) t" and ok: "\<not> bad_path_text u"
    by (cases "bad_path_text (map (\<lambda>c. if c = backslash then CHR ''/'' else c) t)";
        simp only: normalize_path_def Let_def if_True if_False option.inject option.distinct simp_thms)+
  from ok have no: "CHR '':'' \<notin> set u" "CHR 0x00 \<notin> set u"
    and parts: "\<not> list_ex (\<lambda>part. part = [] \<or> part = ''.'' \<or> part = ''..'') p"
    by (simp_all add: bad_path_text_def p)
  have "backslash \<notin> set u" unfolding u by (auto simp: backslash_def)
  moreover have "set w \<subseteq> set u" "CHR ''/'' \<notin> set w" if "w \<in> set p" for w
    using set_split_on [OF that [unfolded p]] split_on_no_sep [OF that [unfolded p]] by simp_all
  ultimately have "portable_component w" if "w \<in> set p" for w
    using that no parts by (auto simp: portable_component_def normal_component_def list_ex_iff)
  moreover have "p \<noteq> []" using p by simp
  ultimately show ?thesis by (simp add: portable_def list_all_iff)
qed

section \<open>The disk and its faults\<close>

datatype vault_error =
    AlreadyExists | NotFound | Locked | UnlockFailed | RecoveryFailed | UnsupportedVersion
  | RecordNotFound | GrantNotFound | GrantExpired | DeviceNotFound | DuplicateSecretLabel
  | InvalidSecretLabel | InvalidSecretValue | InvalidExport | IoError | JsonError
  | CryptoFailure crypto_error

datatype fault = Fine | Fails | DoneThenFails

record world =
  files :: "(path, bytes) hmap"
  faults :: "fault list"
  draws :: nat

type_synonym 'a act = "world \<Rightarrow> (vault_error + 'a) \<times> world"

definition yield :: "'a \<Rightarrow> 'a act" where
  "yield x w = (Inr x, w)"

definition lift :: "vault_error + 'a \<Rightarrow> 'a act" where
  "lift v w = (v, w)"

text \<open>The \<open>?\<close> operator: the first error ends the operation, with what was done until then.\<close>

definition bind :: "'a act \<Rightarrow> ('a \<Rightarrow> 'b act) \<Rightarrow> 'b act" where
  "bind f g w = (case f w of (Inl e, w') \<Rightarrow> (Inl e, w') | (Inr x, w') \<Rightarrow> g x w')"

fun for_each :: "('a \<Rightarrow> unit act) \<Rightarrow> 'a list \<Rightarrow> unit act" where
  "for_each f [] = yield ()"
| "for_each f (x # xs) = bind (f x) (\<lambda>_. for_each f xs)"

definition next_fault :: "world \<Rightarrow> fault \<times> world" where
  "next_fault w = (case faults w of [] \<Rightarrow> (Fine, w) | f # fs \<Rightarrow> (f, w\<lparr>faults := fs\<rparr>))"

definition path_exists :: "path \<Rightarrow> world \<Rightarrow> bool" where
  "path_exists p w = (hm_get (files w) p \<noteq> None)"

definition read_file :: "path \<Rightarrow> bytes act" where
  "read_file p w =
    (case next_fault w of (f, w') \<Rightarrow>
      if f \<noteq> Fine then (Inl IoError, w') else (ok_or IoError (hm_get (files w') p), w'))"

text \<open>\<open>fs::read(path).ok()\<close>.\<close>

definition read_ok :: "path \<Rightarrow> bytes option act" where
  "read_ok p w = (case read_file p w of (Inl _, w') \<Rightarrow> (Inr None, w') | (Inr b, w') \<Rightarrow> (Inr (Some b), w'))"

definition atomic_write_bytes :: "path \<Rightarrow> bytes \<Rightarrow> unit act" where
  "atomic_write_bytes p b w =
    (case next_fault w of
       (Fine, w') \<Rightarrow> (Inr (), w'\<lparr>files := hm_put p b (files w')\<rparr>)
     | (Fails, w') \<Rightarrow> (Inl IoError, w')
     | (DoneThenFails, w') \<Rightarrow> (Inl IoError, w'\<lparr>files := hm_put p b (files w')\<rparr>))"

definition remove_file :: "path \<Rightarrow> unit act" where
  "remove_file p w =
    (case next_fault w of
       (Fine, w') \<Rightarrow>
         (if path_exists p w' then (Inr (), w'\<lparr>files := hm_del p (files w')\<rparr>) else (Inl IoError, w'))
     | (Fails, w') \<Rightarrow> (Inl IoError, w')
     | (DoneThenFails, w') \<Rightarrow> (Inl IoError, w'\<lparr>files := hm_del p (files w')\<rparr>))"

text \<open>The entries of a directory with an extension: a name in a directory is a normal component.\<close>

definition encrypted_names :: "string \<Rightarrow> string \<Rightarrow> world \<Rightarrow> path list" where
  "encrypted_names dir ext w =
    sort (filter (\<lambda>p. length p = 2 \<and> hd p = dir \<and> list_all normal_component p \<and> extension p = Some ext)
      (map fst (files w)))"

definition encrypted_paths :: "string \<Rightarrow> string \<Rightarrow> path list act" where
  "encrypted_paths dir ext w =
    (case next_fault w of (f, w') \<Rightarrow> if f \<noteq> Fine then (Inl IoError, w') else (Inr (encrypted_names dir ext w'), w'))"

section \<open>What an operation can touch\<close>

named_theorems act "how the disk operations compose"

text \<open>
  \<open>touches R f\<close>: whatever faults strike, \<open>f\<close> leaves every file outside \<open>R\<close> as it was and
  keeps the directory a map.
\<close>

definition same_outside :: "path set \<Rightarrow> world \<Rightarrow> world \<Rightarrow> bool" where
  "same_outside R w w' \<longleftrightarrow>
    (hm_wf (files w) \<longrightarrow> hm_wf (files w')) \<and> (\<forall>p. p \<notin> R \<longrightarrow> hm_get (files w') p = hm_get (files w) p)"

definition touches :: "path set \<Rightarrow> 'a act \<Rightarrow> bool" where
  "touches R f \<longleftrightarrow> (\<forall>w. same_outside R w (snd (f w)))"

lemma same_outside_refl [simp]: "same_outside R w w"
  by (simp add: same_outside_def)

lemma same_outside_trans: "same_outside R w w' \<Longrightarrow> same_outside R w' w'' \<Longrightarrow> same_outside R w w''"
  by (auto simp: same_outside_def)

lemma same_outside_mono: "same_outside R w w' \<Longrightarrow> R \<subseteq> S \<Longrightarrow> same_outside S w w'"
  by (auto simp: same_outside_def)

lemma touches_mono: "touches R f \<Longrightarrow> R \<subseteq> S \<Longrightarrow> touches S f"
  by (auto simp: touches_def intro: same_outside_mono)

lemma touchesD: "touches R f \<Longrightarrow> f w = (r, w') \<Longrightarrow> same_outside R w w'"
  unfolding touches_def by (metis snd_conv)

lemma touches_yield [act]: "touches R (yield x)" and touches_lift [act]: "touches R (lift v)"
  by (simp_all add: touches_def yield_def lift_def)

lemma touches_bind [act]:
  assumes "touches R f" "\<And>x. touches R (g x)"
  shows "touches R (bind f g)"
  unfolding touches_def
proof
  fix w
  have "same_outside R w (snd (f w))" using assms(1) by (simp add: touches_def)
  moreover have "same_outside R (snd (f w)) (snd (g x (snd (f w))))" for x
    using assms(2) by (simp add: touches_def)
  ultimately show "same_outside R w (snd (bind f g w))"
    by (auto simp: bind_def split: prod.splits sum.splits intro: same_outside_trans)
qed

lemma touches_for_each [act]: "(\<And>x. x \<in> set xs \<Longrightarrow> touches R (f x)) \<Longrightarrow> touches R (for_each f xs)"
  by (induction xs) (auto intro!: touches_yield touches_bind)

lemma files_next_fault [simp]: "files (snd (next_fault w)) = files w" "draws (snd (next_fault w)) = draws w"
  by (auto simp: next_fault_def split: list.splits)

lemma next_faultD: "next_fault w = (f, w') \<Longrightarrow> files w' = files w \<and> draws w' = draws w"
  using files_next_fault [of w] by simp

lemma read_file_files: "read_file p w = (r, w') \<Longrightarrow> files w' = files w"
  by (auto simp: read_file_def dest: next_faultD split: prod.splits if_splits)

lemma read_ok_files: "read_ok p w = (r, w') \<Longrightarrow> files w' = files w"
  by (auto simp: read_ok_def dest: read_file_files split: prod.splits sum.splits)

lemma encrypted_paths_files: "encrypted_paths d e w = (r, w') \<Longrightarrow> files w' = files w"
  by (auto simp: encrypted_paths_def dest: next_faultD split: prod.splits if_splits)

lemma touches_read [act]: "touches R (read_file p)" "touches R (read_ok p)" "touches R (encrypted_paths d e)"
  by (auto simp: touches_def same_outside_def
      read_file_files [OF surjective_pairing] read_ok_files [OF surjective_pairing]
      encrypted_paths_files [OF surjective_pairing])

lemma touches_write [act]: "p \<in> R \<Longrightarrow> touches R (atomic_write_bytes p b)"
  by (auto simp: touches_def same_outside_def atomic_write_bytes_def dest!: next_faultD
      split: prod.splits fault.splits)

lemma touches_remove [act]: "p \<in> R \<Longrightarrow> touches R (remove_file p)"
  by (auto simp: touches_def same_outside_def remove_file_def dest!: next_faultD
      split: prod.splits fault.splits)

section \<open>What an operation that succeeds has done\<close>

lemma bind_Inr: "bind f g w = (Inr y, w') \<longleftrightarrow> (\<exists>x v. f w = (Inr x, v) \<and> g x v = (Inr y, w'))"
  by (auto simp: bind_def split: prod.splits sum.splits)

lemma bind_Inl:
  "bind f g w = (Inl e, w') \<longleftrightarrow> f w = (Inl e, w') \<or> (\<exists>x v. f w = (Inr x, v) \<and> g x v = (Inl e, w'))"
  by (auto simp: bind_def split: prod.splits sum.splits)

lemma yield_eq [simp]: "yield x w = (r, w') \<longleftrightarrow> r = Inr x \<and> w' = w"
  by (auto simp: yield_def)

lemma lift_eq [simp]: "lift v w = (r, w') \<longleftrightarrow> v = r \<and> w' = w"
  by (auto simp: lift_def)

lemma read_file_Inr: "read_file p w = (Inr b, w') \<Longrightarrow> hm_get (files w) p = Some b \<and> files w' = files w"
  using read_file_files [of p w]
  by (auto simp: read_file_def ok_or_Inr dest: next_faultD split: prod.splits if_splits)

lemma read_ok_Some: "read_ok p w = (Inr (Some b), w') \<Longrightarrow> hm_get (files w) p = Some b \<and> files w' = files w"
  by (auto simp: read_ok_def dest: read_file_Inr split: prod.splits sum.splits)

lemma write_Inr: "atomic_write_bytes p b w = (Inr x, w') \<Longrightarrow> files w' = hm_put p b (files w)"
  by (auto simp: atomic_write_bytes_def dest!: next_faultD split: prod.splits fault.splits)

lemma write_Inl:
  "atomic_write_bytes p b w = (Inl x, w') \<Longrightarrow> files w' = files w \<or> files w' = hm_put p b (files w)"
  by (auto simp: atomic_write_bytes_def dest!: next_faultD split: prod.splits fault.splits)

lemma remove_Inr: "remove_file p w = (Inr x, w') \<Longrightarrow> files w' = hm_del p (files w)"
  by (auto simp: remove_file_def dest!: next_faultD split: prod.splits fault.splits if_splits)

lemma remove_Inl: "remove_file p w = (Inl x, w') \<Longrightarrow> files w' = files w \<or> files w' = hm_del p (files w)"
  by (auto simp: remove_file_def dest!: next_faultD split: prod.splits fault.splits if_splits)

lemma encrypted_paths_Inr:
  "encrypted_paths d e w = (Inr ps, w') \<Longrightarrow> ps = encrypted_names d e w \<and> files w' = files w"
  using encrypted_paths_files [of d e w]
  by (auto simp: encrypted_paths_def encrypted_names_def dest: next_faultD split: prod.splits if_splits)

lemma next_fault_sound [simp]: "faults w = [] \<Longrightarrow> next_fault w = (Fine, w)"
  by (simp add: next_fault_def)

end
