(* ===== verification/Vault.thy ===== *)
theory Vault
  imports Disk
begin

text \<open>
  The vault's records on disk (\<open>crates/aipass-vault/src/lib.rs\<close>): the manifest header, the
  object envelope every encrypted file is, the keys an unlocked session holds, and the two
  functions all record access goes through, \<open>encrypt_envelope\<close> and
  \<open>decrypt_envelope_with_epoch\<close>.  \<open>serde_json\<close>, the \<open>uuid\<close> crate, the random source and the
  clock are the fields of \<open>platform\<close>; \<open>platform_ok\<close> states what they promise: parsing undoes
  printing, a draw has the length asked for, and an identifier prints as hex digits and
  hyphens.
\<close>

section \<open>Stored data\<close>

record vault_header =
  h_format :: string
  h_version :: u16
  h_vault_id :: uuid
  h_kdf :: kdf_params
  wrapped_root_key :: ciphertext
  recovery_wrapped_root_key :: ciphertext
  wrapped_epoch_key :: ciphertext
  wrapped_index_key :: ciphertext
  current_epoch :: vault_epoch
  h_created_at :: int
  h_updated_at :: int

record object_envelope =
  o_format :: string
  o_version :: u16
  o_vault_id :: uuid
  object_id :: uuid
  object_type :: string
  schema_version :: u16
  crypto_version :: u16
  o_device_id :: uuid
  lamport :: u64
  o_updated_at :: int
  o_wrapped_dek :: "wrapped_dek option"
  o_payload :: "ciphertext option"
  tombstone :: bool

record audit_event =
  event_id :: uuid
  event_at :: int
  event_action :: string
  event_record :: "uuid option"
  event_detail :: "string option"

record device_record =
  device_id :: uuid
  device_name :: string
  trusted :: bool
  first_seen_at :: int
  last_seen_at :: int
  revoked_at :: "int option"
  last_epoch :: u64

record vault_snapshot =
  snap_format :: string
  snap_version :: u16
  parents :: "string list"
  snap_created_at :: int
  snap_header :: vault_header
  snap_payload :: ciphertext

record encrypted_export =
  exp_format :: string
  exp_version :: u16
  exp_vault_id :: uuid
  exp_kdf :: kdf_params
  exp_created_at :: int
  exp_payload :: ciphertext

record export_file =
  relative_path :: path
  bytes_b64 :: string

record platform =
  prims :: primitives
  header_json :: "vault_header \<Rightarrow> bytes"
  header_pretty :: "vault_header \<Rightarrow> bytes"
  header_parse :: "bytes \<Rightarrow> vault_header option"
  envelope_json :: "object_envelope \<Rightarrow> bytes"
  envelope_pretty :: "object_envelope \<Rightarrow> bytes"
  envelope_parse :: "bytes \<Rightarrow> object_envelope option"
  snapshot_json :: "vault_snapshot \<Rightarrow> bytes"
  snapshot_parse :: "bytes \<Rightarrow> vault_snapshot option"
  files_json :: "(string \<times> string) list \<Rightarrow> bytes"
  files_parse :: "bytes \<Rightarrow> (string \<times> string) list option"
  event_json :: "audit_event \<Rightarrow> bytes"
  device_json :: "device_record \<Rightarrow> bytes"
  device_parse :: "bytes \<Rightarrow> device_record option"
  aad_json :: "string \<Rightarrow> u16 \<Rightarrow> string list \<Rightarrow> int \<Rightarrow> vault_header \<Rightarrow> bytes"
  uuid_text :: "uuid \<Rightarrow> string"
  random_bytes :: "nat \<Rightarrow> nat \<Rightarrow> bytes"
  random_uuid :: "nat \<Rightarrow> uuid"
  now_utc :: "nat \<Rightarrow> int"

definition uuid_char :: "char \<Rightarrow> bool" where
  "uuid_char c \<longleftrightarrow> c \<in> set ''0123456789abcdef-''"

definition platform_ok :: "platform \<Rightarrow> bool" where
  "platform_ok c \<longleftrightarrow>
    primitives_ok (prims c) \<and>
    (\<forall>h. header_parse c (header_json c h) = Some h) \<and>
    (\<forall>h. header_parse c (header_pretty c h) = Some h) \<and>
    (\<forall>e. envelope_parse c (envelope_json c e) = Some e) \<and>
    (\<forall>e. envelope_parse c (envelope_pretty c e) = Some e) \<and>
    (\<forall>s. snapshot_parse c (snapshot_json c s) = Some s) \<and>
    (\<forall>f. files_parse c (files_json c f) = Some f) \<and>
    (\<forall>d. device_parse c (device_json c d) = Some d) \<and>
    (\<forall>u. uuid_text c u \<noteq> [] \<and> list_all uuid_char (uuid_text c u)) \<and>
    (\<forall>d n. length (random_bytes c d n) = n)"

text \<open>The cipher accepts every message the vault hands it (its limit is 256 GiB).\<close>

definition sealing_total :: "platform \<Rightarrow> bool" where
  "sealing_total c \<longleftrightarrow> (\<forall>k n a m. aead_seal (prims c) k n a m \<noteq> None)"

definition random_draw :: "platform \<Rightarrow> nat \<Rightarrow> bytes act" where
  "random_draw c n w = (Inr (random_bytes c (draws w) n), w\<lparr>draws := Suc (draws w)\<rparr>)"

definition new_uuid :: "platform \<Rightarrow> uuid act" where
  "new_uuid c w = (Inr (random_uuid c (draws w)), w\<lparr>draws := Suc (draws w)\<rparr>)"

definition read_clock :: "platform \<Rightarrow> int act" where
  "read_clock c w = (Inr (now_utc c (draws w)), w\<lparr>draws := Suc (draws w)\<rparr>)"

definition crypto :: "crypto_error + 'a \<Rightarrow> vault_error + 'a" where
  "crypto v = (case v of Inl e \<Rightarrow> Inl (CryptoFailure e) | Inr x \<Rightarrow> Inr x)"

lemma crypto_Inr [simp]: "crypto v = Inr x \<longleftrightarrow> v = Inr x" "Inr x = crypto v \<longleftrightarrow> v = Inr x"
  by (auto simp: crypto_def split: sum.splits)

definition seal_bytes :: "platform \<Rightarrow> bytes \<Rightarrow> bytes \<Rightarrow> bytes \<Rightarrow> ciphertext act" where
  "seal_bytes c key aad m =
    bind (random_draw c NONCE_LEN) (\<lambda>nonce. lift (crypto (encrypt_bytes (prims c) nonce key aad m)))"

section \<open>Envelopes\<close>

definition show_int :: "int \<Rightarrow> string" where
  "show_int i = (if i < 0 then ''-'' @ show_nat (nat (- i)) else show_nat (nat i))"

definition object_aad :: "platform \<Rightarrow> object_envelope \<Rightarrow> string" where
  "object_aad c e =
    ''vault='' @ uuid_text c (o_vault_id e) @ '';object='' @ uuid_text c (object_id e) @
    '';type='' @ object_type e @ '';schema='' @ show_nat (unat (schema_version e)) @
    '';crypto='' @ show_nat (unat (crypto_version e)) @ '';device='' @ uuid_text c (o_device_id e) @
    '';lamport='' @ show_nat (unat (lamport e)) @ '';updated_at='' @ show_int (o_updated_at e)"

definition encrypt_envelope :: "platform \<Rightarrow> object_envelope \<Rightarrow> bytes \<Rightarrow> epoch_key \<Rightarrow> object_envelope act" where
  "encrypt_envelope c e plaintext ek =
    (let aad = object_aad c e in
     bind (random_draw c KEY_LEN) (\<lambda>dek.
     bind (seal_bytes c dek aad plaintext) (\<lambda>body.
     bind (random_draw c NONCE_LEN) (\<lambda>nonce.
     bind (lift (crypto (wrap_record_dek (prims c) nonce ek dek aad))) (\<lambda>wrapped.
     yield (e\<lparr>o_payload := Some body, o_wrapped_dek := Some wrapped\<rparr>))))))"

definition decrypt_envelope_with_epoch :: "platform \<Rightarrow> object_envelope \<Rightarrow> epoch_key \<Rightarrow> vault_error + bytes" where
  "decrypt_envelope_with_epoch c e ek =
    (if tombstone e then Inl GrantExpired
     else and_then (ok_or GrantExpired (o_wrapped_dek e)) (\<lambda>wrapped.
          and_then (ok_or GrantExpired (o_payload e)) (\<lambda>body.
          and_then (crypto (unwrap_record_dek (prims c) ek wrapped (object_aad c e))) (\<lambda>dek.
          crypto (decrypt_bytes (prims c) dek (object_aad c e) body)))))"

section \<open>The header and the session's keys\<close>

record session =
  s_header :: vault_header
  root_key :: bytes
  epoch_key :: epoch_key
  index_key :: bytes
  s_device :: uuid

definition validate_header :: "vault_header \<Rightarrow> vault_error + unit" where
  "validate_header h = (if h_format h \<noteq> ''aipass-vault'' \<or> h_version h \<noteq> 2 then Inl UnsupportedVersion else Inr ())"

definition root_key_aad :: "platform \<Rightarrow> uuid \<Rightarrow> string" where
  "root_key_aad c v = ''aipass root key:vault='' @ uuid_text c v"

definition header_key_aad :: "platform \<Rightarrow> uuid \<Rightarrow> string \<Rightarrow> string" where
  "header_key_aad c v key_name = ''aipass '' @ key_name @ '' key:vault='' @ uuid_text c v"

definition clone_like :: "vault_error \<Rightarrow> vault_error" where
  "clone_like e = (if e \<in> {UnlockFailed, RecoveryFailed, UnsupportedVersion} then e else UnlockFailed)"

definition replace_error :: "vault_error \<Rightarrow> crypto_error + 'a \<Rightarrow> vault_error + 'a" where
  "replace_error e v = (case v of Inl _ \<Rightarrow> Inl (clone_like e) | Inr x \<Rightarrow> Inr x)"

lemma replace_error_Inr [simp]: "replace_error e v = Inr x \<longleftrightarrow> v = Inr x" "Inr x = replace_error e v \<longleftrightarrow> v = Inr x"
  by (auto simp: replace_error_def split: sum.splits)

definition unwrap_epoch_and_index_keys ::
  "platform \<Rightarrow> bytes \<Rightarrow> vault_header \<Rightarrow> vault_error \<Rightarrow> vault_error + (epoch_key \<times> bytes)" where
  "unwrap_epoch_and_index_keys c rk h e =
    and_then (replace_error e (decrypt_bytes (prims c) rk (header_key_aad c (h_vault_id h) ''epoch'')
      (wrapped_epoch_key h))) (\<lambda>eb.
    and_then (replace_error e (decrypt_bytes (prims c) rk (header_key_aad c (h_vault_id h) ''index'')
      (wrapped_index_key h))) (\<lambda>ib.
    if length eb \<noteq> KEY_LEN \<or> length ib \<noteq> KEY_LEN then Inl e
    else Inr (\<lparr>epoch_of = current_epoch h, epoch_bytes = eb\<rparr>, ib)))"

definition decrypt_root_key :: "platform \<Rightarrow> bytes \<Rightarrow> ciphertext \<Rightarrow> uuid \<Rightarrow> vault_error \<Rightarrow> vault_error + bytes" where
  "decrypt_root_key c wrapping_key body v e =
    and_then (replace_error e (decrypt_bytes (prims c) wrapping_key (root_key_aad c v) body)) (\<lambda>b.
      if length b \<noteq> KEY_LEN then Inl e else Inr b)"

definition manifest :: path where "manifest = [''manifest.aipmanifest'']"

definition read_header :: "platform \<Rightarrow> path \<Rightarrow> vault_header act" where
  "read_header c p = bind (read_file p) (\<lambda>b. lift (ok_or JsonError (header_parse c b)))"

definition read_envelope :: "platform \<Rightarrow> path \<Rightarrow> object_envelope act" where
  "read_envelope c p = bind (read_file p) (\<lambda>b. lift (ok_or JsonError (envelope_parse c b)))"

definition write_header :: "platform \<Rightarrow> path \<Rightarrow> vault_header \<Rightarrow> unit act" where
  "write_header c p h = atomic_write_bytes p (header_pretty c h)"

definition write_envelope_json :: "platform \<Rightarrow> path \<Rightarrow> object_envelope \<Rightarrow> unit act" where
  "write_envelope_json c p e = atomic_write_bytes p (envelope_pretty c e)"

text \<open>The session an unlocked vault has after \<open>reload_from_disk\<close>.\<close>

definition reload_from_disk :: "platform \<Rightarrow> session \<Rightarrow> session act" where
  "reload_from_disk c s =
    bind (read_header c manifest) (\<lambda>h.
    bind (lift (validate_header h)) (\<lambda>_.
    bind (lift (if h_vault_id h \<noteq> h_vault_id (s_header s) then Inl UnlockFailed else Inr ())) (\<lambda>_.
    bind (lift (unwrap_epoch_and_index_keys c (root_key s) h UnlockFailed)) (\<lambda>(ek, ik).
    yield (s\<lparr>s_header := h, epoch_key := ek, index_key := ik\<rparr>)))))"

section \<open>Exported files\<close>

definition BACKUP_ROOT_FILES :: "path list" where
  "BACKUP_ROOT_FILES =
    [manifest, [''sync-checkpoint.aipcheckpoint''], [''server-config.aipstate''], [''pricing.aipstate'']]"

definition sync_dirs :: "bool \<Rightarrow> (string \<times> string) list" where
  "sync_dirs include_audit =
    [(''objects'', ''aipobj''), (''grants'', ''aipgrant''), (''devices'', ''aipdevice'')] @
    (if include_audit then [(''audit'', ''aipaudit'')] else [])"

fun list_dirs :: "(string \<times> string) list \<Rightarrow> path list act" where
  "list_dirs [] = yield []"
| "list_dirs ((d, e) # ds) = bind (encrypted_paths d e) (\<lambda>ps. bind (list_dirs ds) (\<lambda>qs. yield (ps @ qs)))"

definition exportable_files :: "bool \<Rightarrow> path list act" where
  "exportable_files include_audit w =
    bind (list_dirs (sync_dirs include_audit))
      (\<lambda>ps. yield (sort (filter (\<lambda>p. path_exists p w) BACKUP_ROOT_FILES @ ps))) w"

fun read_files :: "platform \<Rightarrow> path list \<Rightarrow> export_file list act" where
  "read_files c [] = yield []"
| "read_files c (p # ps) =
     bind (read_file p) (\<lambda>b. bind (read_files c ps)
       (\<lambda>fs. yield (\<lparr>relative_path = p, bytes_b64 = b64_encode (prims c) b\<rparr> # fs)))"

definition sync_files :: "platform \<Rightarrow> bool \<Rightarrow> export_file list act" where
  "sync_files c include_audit =
    bind (exportable_files include_audit) (\<lambda>ps.
      read_files c (filter (\<lambda>p. sync_path_allowed p \<and> (include_audit \<or> \<not> in_audit p)) ps))"

text \<open>\<open>serde_json::to_vec\<close> of the payload, whose paths must be portable, and its inverse.\<close>

fun wire_files :: "export_file list \<Rightarrow> (string \<times> string) list option" where
  "wire_files [] = Some []"
| "wire_files (f # fs) =
     (case wire_path (relative_path f) of None \<Rightarrow> None
      | Some t \<Rightarrow> map_option (\<lambda>r. (t, bytes_b64 f) # r) (wire_files fs))"

fun unwire_files :: "(string \<times> string) list \<Rightarrow> export_file list option" where
  "unwire_files [] = Some []"
| "unwire_files ((t, b) # r) =
     (case unwire_path t of None \<Rightarrow> None
      | Some p \<Rightarrow> map_option (\<lambda>fs. \<lparr>relative_path = p, bytes_b64 = b\<rparr> # fs) (unwire_files r))"

definition print_payload :: "platform \<Rightarrow> export_file list \<Rightarrow> vault_error + bytes" where
  "print_payload c fs = ok_or JsonError (map_option (files_json c) (wire_files fs))"

definition parse_payload :: "platform \<Rightarrow> bytes \<Rightarrow> vault_error + export_file list" where
  "parse_payload c b = ok_or JsonError (Option.bind (files_parse c b) unwire_files)"

section \<open>Writing a record\<close>

text \<open>\<open>read_json::<ObjectEnvelope>(path).ok()\<close>, reduced to its lamport clock.\<close>

definition read_lamport :: "platform \<Rightarrow> path \<Rightarrow> u64 option act" where
  "read_lamport c p =
    bind (read_ok p) (\<lambda>b. yield (map_option lamport (Option.bind b (envelope_parse c))))"

fun read_lamports :: "platform \<Rightarrow> path list \<Rightarrow> u64 list act" where
  "read_lamports c [] = yield []"
| "read_lamports c (p # ps) =
     bind (read_lamport c p) (\<lambda>l. bind (read_lamports c ps)
       (\<lambda>ls. yield (case l of None \<Rightarrow> ls | Some x \<Rightarrow> x # ls)))"

definition next_lamport :: "int \<Rightarrow> u64 option \<Rightarrow> u64 list \<Rightarrow> u64" where
  "next_lamport updated_at previous known =
    sat_add (max (max (word_of_int (max updated_at 0)) (unwrap_or previous 0)) (unwrap_or (list_max known) 0)) 1"

definition build_envelope :: "platform \<Rightarrow> session \<Rightarrow> path \<Rightarrow> uuid \<Rightarrow> string \<Rightarrow> u16 \<Rightarrow> bytes \<Rightarrow> object_envelope act" where
  "build_envelope c s p ident type schema plaintext =
    bind (read_clock c) (\<lambda>at.
    bind (read_lamport c p) (\<lambda>previous.
    bind (encrypted_paths ''objects'' ''aipobj'') (\<lambda>ps.
    bind (read_lamports c ps) (\<lambda>known.
    encrypt_envelope c
      \<lparr>o_format = ''aipass-object'', o_version = 1, o_vault_id = h_vault_id (s_header s), object_id = ident,
       object_type = type, schema_version = schema, crypto_version = 1, o_device_id = s_device s,
       lamport = next_lamport at previous known, o_updated_at = at, o_wrapped_dek = None, o_payload = None,
       tombstone = False\<rparr> plaintext (epoch_key s)))))"

definition write_envelope :: "platform \<Rightarrow> session \<Rightarrow> path \<Rightarrow> uuid \<Rightarrow> string \<Rightarrow> u16 \<Rightarrow> bytes \<Rightarrow> unit act" where
  "write_envelope c s p ident type schema plaintext =
    bind (build_envelope c s p ident type schema plaintext) (write_envelope_json c p)"

definition decrypt_envelope_path :: "platform \<Rightarrow> session \<Rightarrow> path \<Rightarrow> bytes act" where
  "decrypt_envelope_path c s p =
    bind (read_envelope c p) (\<lambda>e. lift (decrypt_envelope_with_epoch c e (epoch_key s)))"

definition record_path :: "platform \<Rightarrow> uuid \<Rightarrow> path" where
  "record_path c u = [''objects'', uuid_text c u @ ''.aipobj'']"

definition grant_path :: "platform \<Rightarrow> uuid \<Rightarrow> path" where
  "grant_path c u = [''grants'', uuid_text c u @ ''.aipgrant'']"

definition device_path :: "platform \<Rightarrow> uuid \<Rightarrow> path" where
  "device_path c u = [''devices'', uuid_text c u @ ''.aipdevice'']"

definition audit_path :: "platform \<Rightarrow> uuid \<Rightarrow> path" where
  "audit_path c u = [''audit'', uuid_text c u @ ''.aipaudit'']"

section \<open>Audit events and their retention\<close>

text \<open>
  \<open>crates/aipass-vault/src/audit_retention.rs\<close>.  \<open>stat\<close> gives the modification time and the
  allocated bytes of a file.  The \<open>audit\<close> directory exists: every way to a session creates it.
\<close>

definition retention_marker :: path where "retention_marker = [''audit-retention.state'']"

definition MAX_AUDIT_ALLOCATED_BYTES :: u64 where "MAX_AUDIT_ALLOCATED_BYTES = 64 * 1024 * 1024"
definition RETAIN_FOR :: duration where "RETAIN_FOR = from_secs (30 * 24 * 60 * 60)"
definition CHECK_EVERY :: nat where "CHECK_EVERY = 60 * 60"

definition checked_recently :: "(string \<Rightarrow> u64 option) \<Rightarrow> nat \<Rightarrow> bytes option \<Rightarrow> bool" where
  "checked_recently parse now_secs marker =
    is_some_and (Option.bind marker (\<lambda>b. parse (trim b)))
      (\<lambda>previous. unat previous \<le> now_secs \<and> now_secs - unat previous < CHECK_EVERY)"

fun prune :: "instant \<Rightarrow> u64 \<Rightarrow> (instant \<times> path \<times> u64) list \<Rightarrow> unit act" where
  "prune cutoff used [] = yield ()"
| "prune cutoff used ((modified, p, len) # rest) =
     (if cutoff \<le> modified \<and> used \<le> MAX_AUDIT_ALLOCATED_BYTES then yield ()
      else bind (remove_file p) (\<lambda>_. prune cutoff (sat_sub used len) rest))"

definition maintain :: "(string \<Rightarrow> u64 option) \<Rightarrow> (path \<Rightarrow> instant \<times> u64) \<Rightarrow> instant \<Rightarrow> unit act" where
  "maintain parse stat now =
    (let now_secs = now div 1000000000 in
     bind (read_ok retention_marker) (\<lambda>marker.
      if checked_recently parse now_secs marker then yield ()
      else bind (encrypted_paths ''audit'' ''aipaudit'') (\<lambda>ps.
        let entries = map (\<lambda>p. (fst (stat p), p, snd (stat p))) ps;
            used = fold (\<lambda>(m, p, len) t. sat_add t len) entries 0
        in bind (prune (now - RETAIN_FOR) used (sort_key (\<lambda>(m, p, len). m) (sort_key (\<lambda>(m, p, len). p) entries)))
             (\<lambda>_. atomic_write_bytes retention_marker (show_nat now_secs)))))"

text \<open>\<open>Vault::audit\<close>: the event is written; retention runs afterwards and its failure is ignored.\<close>

definition redact_detail :: "(string \<Rightarrow> string) \<Rightarrow> string \<Rightarrow> string" where
  "redact_detail lowercase v =
    (if length v \<le> 64 \<and> \<not> (contains_part ''sk-'' v \<or> contains_part ''sk-ant-'' v \<or> contains_part ''AIza'' v \<or>
        contains_part ''api_key'' (lowercase v) \<or> contains_part ''authorization'' (lowercase v))
     then v else ''[redacted]'')"

definition ignoring :: "'a act \<Rightarrow> unit act" where
  "ignoring f w = (Inr (), snd (f w))"

definition audit ::
  "platform \<Rightarrow> (string \<Rightarrow> string) \<Rightarrow> unit act \<Rightarrow> session \<Rightarrow> string \<Rightarrow> uuid option \<Rightarrow> string option \<Rightarrow> unit act" where
  "audit c lowercase upkeep s action record detail =
    bind (new_uuid c) (\<lambda>ident.
    bind (read_clock c) (\<lambda>at.
    bind (write_envelope c s (audit_path c ident) ident ''audit_event'' 1
      (event_json c \<lparr>event_id = ident, event_at = at, event_action = action, event_record = record,
        event_detail = map_option (redact_detail lowercase) detail\<rparr>)) (\<lambda>_. ignoring upkeep)))"

end
