(* ===== verification/VaultSync.thy ===== *)
theory VaultSync
  imports Vault
begin

text \<open>
  Snapshots of a vault and the journal that applies them
  (\<open>crates/aipass-vault/src/sync_snapshot.rs\<close>): \<open>encode_snapshot\<close> and \<open>decode_snapshot\<close>, the
  three-way merge, \<open>apply_sync_snapshot\<close> with its rollback, and \<open>finish_pending_sync\<close>, which
  both commits a snapshot and recovers an interrupted one.
\<close>

section \<open>Snapshots\<close>

definition PENDING :: path where "PENDING = [''pending-sync.aipsnapshot'']"

definition validate_import_kdf :: "kdf_params \<Rightarrow> vault_error + unit" where
  "validate_import_kdf k =
    (if kdf_algorithm k \<noteq> ''argon2id'' \<or> 1024 * 1024 < memory_kib k \<or> 10 < iterations k \<or> 16 < parallelism k
     then Inl InvalidExport else Inr ())"

definition is_ascii_hexdigit :: "char \<Rightarrow> bool" where
  "is_ascii_hexdigit ch =
    (let b = byte_val ch in 48 \<le> b \<and> b \<le> 57 \<or> 65 \<le> b \<and> b \<le> 70 \<or> 97 \<le> b \<and> b \<le> 102)"

definition is_ascii_uppercase :: "char \<Rightarrow> bool" where
  "is_ascii_uppercase ch = (65 \<le> byte_val ch \<and> byte_val ch \<le> 90)"

definition bad_parent :: "string \<Rightarrow> bool" where
  "bad_parent t = (length t \<noteq> 64 \<or> \<not> list_all (\<lambda>ch. is_ascii_hexdigit ch \<and> \<not> is_ascii_uppercase ch) t)"

definition parse_snapshot :: "platform \<Rightarrow> bytes \<Rightarrow> vault_error + vault_snapshot" where
  "parse_snapshot c b =
    and_then (ok_or JsonError (snapshot_parse c b)) (\<lambda>snap.
      if snap_format snap \<noteq> ''aipass-vault-sync'' \<or> snap_version snap \<notin> {1, 2} then Inl UnsupportedVersion
      else and_then (validate_header (snap_header snap)) (\<lambda>_.
           and_then (validate_import_kdf (h_kdf (snap_header snap))) (\<lambda>_.
           if list_ex bad_parent (parents snap) then Inl InvalidExport else Inr snap)))"

definition snapshot_aad :: "platform \<Rightarrow> vault_snapshot \<Rightarrow> bytes" where
  "snapshot_aad c snap =
    aad_json c (snap_format snap) (snap_version snap) (parents snap) (snap_created_at snap) (snap_header snap)"

text \<open>\<open>bootstrap\<close>: the journal before the manifest, so that the first unlock materialises it.\<close>

definition bootstrap :: "platform \<Rightarrow> vault_snapshot \<Rightarrow> unit act" where
  "bootstrap c snap w =
    (if path_exists manifest w then (Inl AlreadyExists, w)
     else bind (atomic_write_bytes PENDING (snapshot_json c snap)) (\<lambda>_. write_header c manifest (snap_header snap)) w)"

definition encode_snapshot ::
  "platform \<Rightarrow> session \<Rightarrow> vault_header \<Rightarrow> export_file list \<Rightarrow> string list \<Rightarrow> u16 \<Rightarrow> bytes act" where
  "encode_snapshot c s h fs ps version =
    bind (lift (print_payload c fs)) (\<lambda>payload.
    bind (read_clock c) (\<lambda>at.
    bind (seal_bytes c (root_key s) (aad_json c ''aipass-vault-sync'' version ps at h) payload) (\<lambda>body.
    yield (snapshot_json c \<lparr>snap_format = ''aipass-vault-sync'', snap_version = version, parents = ps,
      snap_created_at = at, snap_header = h, snap_payload = body\<rparr>))))"

definition export_sync_snapshot :: "platform \<Rightarrow> session \<Rightarrow> bytes act" where
  "export_sync_snapshot c s = bind (sync_files c True) (\<lambda>fs. encode_snapshot c s (s_header s) fs [] 1)"

definition export_sync_snapshot_with_parents :: "platform \<Rightarrow> session \<Rightarrow> string list \<Rightarrow> bytes act" where
  "export_sync_snapshot_with_parents c s ps =
    bind (sync_files c False) (\<lambda>fs. encode_snapshot c s (s_header s) fs ps 2)"

text \<open>One file of a decoded payload, after its path has been checked.\<close>

definition check_file :: "platform \<Rightarrow> vault_snapshot \<Rightarrow> epoch_key \<Rightarrow> export_file \<Rightarrow> vault_error + unit" where
  "check_file c snap ek f =
    and_then (ok_or InvalidExport (b64_decode (prims c) (bytes_b64 f))) (\<lambda>b.
    and_then (ok_or JsonError (envelope_parse c b)) (\<lambda>e.
      if o_vault_id e \<noteq> h_vault_id (snap_header snap) \<or> o_format e \<noteq> ''aipass-object'' \<or> o_version e \<noteq> 1
      then Inl InvalidExport
      else if file_stem (relative_path f) \<noteq> Some (uuid_text c (object_id e)) then Inl InvalidExport
      else if tombstone e then Inr ()
      else and_then (decrypt_envelope_with_epoch c e ek) (\<lambda>_. Inr ())))"

fun check_files :: "platform \<Rightarrow> vault_snapshot \<Rightarrow> epoch_key \<Rightarrow> path set \<Rightarrow> export_file list \<Rightarrow> vault_error + unit" where
  "check_files c snap ek seen [] = Inr ()"
| "check_files c snap ek seen (f # fs) =
     (if \<not> sync_path_allowed (relative_path f) \<or> (snap_version snap = 2 \<and> in_audit (relative_path f)) \<or>
         relative_path f \<in> seen
      then Inl InvalidExport
      else and_then (check_file c snap ek f) (\<lambda>_. check_files c snap ek (insert (relative_path f) seen) fs))"

definition decode_snapshot :: "platform \<Rightarrow> session \<Rightarrow> bytes \<Rightarrow> vault_error + (vault_snapshot \<times> export_file list)" where
  "decode_snapshot c s b =
    and_then (parse_snapshot c b) (\<lambda>snap.
      if h_vault_id (snap_header snap) \<noteq> h_vault_id (s_header s) then Inl UnlockFailed
      else and_then (crypto (decrypt_bytes (prims c) (root_key s) (snapshot_aad c snap) (snap_payload snap))) (\<lambda>decoded.
           and_then (parse_payload c decoded) (\<lambda>fs.
           and_then (unwrap_epoch_and_index_keys c (root_key s) (snap_header snap) UnlockFailed) (\<lambda>(ek, ik).
           and_then (check_files c snap ek {} fs) (\<lambda>_. Inr (snap, fs))))))"

section \<open>Three-way merge\<close>

definition merge_map :: "export_file list \<Rightarrow> (path, string) hmap" where
  "merge_map fs =
    fold (\<lambda>f. hm_put (relative_path f) (bytes_b64 f)) (filter (\<lambda>f. \<not> in_audit (relative_path f)) fs) []"

definition three_way :: "string option \<Rightarrow> string option \<Rightarrow> string option \<Rightarrow> string option option" where
  "three_way local remote base =
    (if local = remote \<or> remote = base then Some local else if local = base then Some remote else None)"

fun merge_paths ::
  "(path, string) hmap \<Rightarrow> (path, string) hmap \<Rightarrow> (path, string) hmap \<Rightarrow> path list \<Rightarrow> export_file list option" where
  "merge_paths local remote base [] = Some []"
| "merge_paths local remote base (p # ps) =
     (case three_way (hm_get local p) (hm_get remote p) (hm_get base p) of
        None \<Rightarrow> None
      | Some None \<Rightarrow> merge_paths local remote base ps
      | Some (Some b) \<Rightarrow>
          map_option (\<lambda>fs. \<lparr>relative_path = p, bytes_b64 = b\<rparr> # fs) (merge_paths local remote base ps))"

definition merge_files :: "export_file list \<Rightarrow> export_file list \<Rightarrow> export_file list \<Rightarrow> export_file list option" where
  "merge_files local remote base =
    (let l = merge_map local; r = merge_map remote; b = merge_map base in
     merge_paths l r b (sort (remdups (map fst l @ map fst r @ map fst b))))"

definition merge_sync_snapshot :: "platform \<Rightarrow> session \<Rightarrow> bytes \<Rightarrow> bytes \<Rightarrow> bytes option act" where
  "merge_sync_snapshot c s remote base =
    bind (lift (decode_snapshot c s remote)) (\<lambda>(rsnap, rfiles).
    bind (lift (decode_snapshot c s base)) (\<lambda>(bsnap, bfiles).
      if header_json c (snap_header rsnap) \<noteq> header_json c (s_header s) \<or>
         header_json c (snap_header bsnap) \<noteq> header_json c (s_header s)
      then yield None
      else bind (sync_files c False) (\<lambda>lfiles.
        case merge_files lfiles rfiles bfiles of
          None \<Rightarrow> yield None
        | Some fs \<Rightarrow> bind (encode_snapshot c s (s_header s) fs [] 2) (\<lambda>b. yield (Some b)))))"

section \<open>Committing a snapshot\<close>

definition ensure_sync_ready :: "unit act" where
  "ensure_sync_ready w = (if path_exists PENDING w then (Inl IoError, w) else (Inr (), w))"

definition rewrap_one :: "platform \<Rightarrow> session \<Rightarrow> vault_header \<Rightarrow> epoch_key \<Rightarrow> path \<Rightarrow> unit act" where
  "rewrap_one c s h next_epoch p =
    bind (read_envelope c p) (\<lambda>e.
      if tombstone e then yield ()
      else case decrypt_envelope_with_epoch c e next_epoch of
        Inr _ \<Rightarrow> yield ()
      | Inl _ \<Rightarrow>
          bind (lift (decrypt_envelope_with_epoch c e (epoch_key s))) (\<lambda>plaintext.
          bind (encrypt_envelope c
            (e\<lparr>o_device_id := s_device s, o_updated_at := h_updated_at h, lamport := sat_add (lamport e) 1\<rparr>)
            plaintext next_epoch) (write_envelope_json c p)))"

definition rewrap_local_audit :: "platform \<Rightarrow> session \<Rightarrow> vault_header \<Rightarrow> unit act" where
  "rewrap_local_audit c s h =
    bind (lift (unwrap_epoch_and_index_keys c (root_key s) h UnlockFailed)) (\<lambda>(next_epoch, ik).
    bind (encrypted_paths ''audit'' ''aipaudit'') (for_each (rewrap_one c s h next_epoch)))"

definition install_file :: "platform \<Rightarrow> export_file \<Rightarrow> unit act" where
  "install_file c f =
    bind (lift (ok_or InvalidExport (b64_decode (prims c) (bytes_b64 f)))) (\<lambda>b.
    bind (read_ok (relative_path f)) (\<lambda>old.
      if old \<noteq> Some b then atomic_write_bytes (relative_path f) b else yield ()))"

definition remove_stale :: "u16 \<Rightarrow> path set \<Rightarrow> path \<Rightarrow> unit act" where
  "remove_stale version retained p =
    (if sync_path_allowed p \<and> (version = 1 \<or> \<not> in_audit p) \<and> p \<notin> retained then remove_file p else yield ())"

text \<open>
  Everything \<open>finish_pending_sync\<close> does before the manifest is replaced, and the manifest;
  then the session is reloaded and the journal removed.
\<close>

definition exchange_files :: "platform \<Rightarrow> vault_snapshot \<Rightarrow> export_file list \<Rightarrow> unit act" where
  "exchange_files c snap fs =
    bind (exportable_files (snap_version snap = 1)) (\<lambda>old_paths.
    bind (for_each (install_file c) fs) (\<lambda>_.
    for_each (remove_stale (snap_version snap) (set (map relative_path fs))) old_paths))"

definition install_files :: "platform \<Rightarrow> session \<Rightarrow> vault_header act" where
  "install_files c s =
    bind (read_file PENDING) (\<lambda>b.
    bind (lift (decode_snapshot c s b)) (\<lambda>(snap, fs).
    bind (exchange_files c snap fs) (\<lambda>_.
    bind (if snap_version snap = 2 \<and> current_epoch (snap_header snap) \<noteq> current_epoch (s_header s)
          then rewrap_local_audit c s (snap_header snap) else yield ()) (\<lambda>_.
    yield (snap_header snap)))))"

definition install_snapshot :: "platform \<Rightarrow> session \<Rightarrow> unit act" where
  "install_snapshot c s = bind (install_files c s) (write_header c manifest)"

definition finish_pending_sync :: "platform \<Rightarrow> session \<Rightarrow> world \<Rightarrow> (vault_error + unit) \<times> session \<times> world" where
  "finish_pending_sync c s w =
    (if \<not> path_exists PENDING w then (Inr (), s, w)
     else case bind (install_snapshot c s) (\<lambda>_. reload_from_disk c s) w of
       (Inl e, w') \<Rightarrow> (Inl e, s, w')
     | (Inr s', w') \<Rightarrow> (case remove_file PENDING w' of (r, w'') \<Rightarrow> (r, s', w'')))"

text \<open>\<open>recover_pending_sync\<close> is \<open>finish_pending_sync\<close>.\<close>

definition journal :: "platform \<Rightarrow> session \<Rightarrow> bytes \<Rightarrow> bytes act" where
  "journal c s b =
    bind (lift (decode_snapshot c s b)) (\<lambda>_.
    bind ensure_sync_ready (\<lambda>_.
    bind (export_sync_snapshot c s) (\<lambda>original.
    bind (atomic_write_bytes PENDING b) (\<lambda>_. yield original))))"

definition roll_back :: "platform \<Rightarrow> vault_error \<Rightarrow> bytes \<Rightarrow> session \<Rightarrow> world \<Rightarrow> (vault_error + unit) \<times> session \<times> world" where
  "roll_back c e original s w =
    (case atomic_write_bytes PENDING original w of
       (Inl e', w') \<Rightarrow> (Inl e', s, w')
     | (Inr _, w') \<Rightarrow>
         (case finish_pending_sync c s w' of
            (Inl e', s', w'') \<Rightarrow> (Inl e', s', w'')
          | (Inr _, s', w'') \<Rightarrow> (Inl e, s', w'')))"

definition apply_sync_snapshot ::
  "platform \<Rightarrow> session \<Rightarrow> bytes \<Rightarrow> world \<Rightarrow> (vault_error + unit) \<times> session \<times> world" where
  "apply_sync_snapshot c s b w =
    (case journal c s b w of
       (Inl e, w') \<Rightarrow> (Inl e, s, w')
     | (Inr original, w') \<Rightarrow>
         (case finish_pending_sync c s w' of
            (Inr _, s', w'') \<Rightarrow> (Inr (), s', w'')
          | (Inl e, s', w'') \<Rightarrow> roll_back c e original s' w''))"

section \<open>What a decoded snapshot guarantees\<close>

text \<open>A file the vault with identifier \<open>vid\<close> can read under an epoch key.\<close>

definition sound_file :: "platform \<Rightarrow> uuid \<Rightarrow> epoch_key \<Rightarrow> path \<Rightarrow> bytes \<Rightarrow> bool" where
  "sound_file c vid ek p b \<longleftrightarrow>
    (\<exists>e. envelope_parse c b = Some e \<and> o_vault_id e = vid \<and> o_format e = ''aipass-object'' \<and> o_version e = 1 \<and>
      file_stem p = Some (uuid_text c (object_id e)) \<and>
      (tombstone e \<or> (\<exists>m. decrypt_envelope_with_epoch c e ek = Inr m)))"

lemma check_file_iff:
  "check_file c snap ek f = Inr () \<longleftrightarrow>
    (\<exists>b. b64_decode (prims c) (bytes_b64 f) = Some b \<and>
         sound_file c (h_vault_id (snap_header snap)) ek (relative_path f) b)"
  by (cases "b64_decode (prims c) (bytes_b64 f)")
     (auto simp: check_file_def sound_file_def and_then_Inr ok_or_Inr split: if_splits)

lemma check_files_iff:
  "check_files c snap ek seen fs = Inr () \<longleftrightarrow>
    distinct (map relative_path fs) \<and> relative_path ` set fs \<inter> seen = {} \<and>
    (\<forall>f\<in>set fs. sync_path_allowed (relative_path f) \<and> \<not> (snap_version snap = 2 \<and> in_audit (relative_path f)) \<and>
      check_file c snap ek f = Inr ())"
proof (induction fs arbitrary: seen)
  case (Cons f fs)
  show ?case by (auto simp: and_then_Inr Cons.IH)
qed simp

lemma decode_snapshot_Inr:
  "decode_snapshot c s b = Inr (snap, fs) \<longleftrightarrow>
    parse_snapshot c b = Inr snap \<and> h_vault_id (snap_header snap) = h_vault_id (s_header s) \<and>
    (\<exists>d ek ik. decrypt_bytes (prims c) (root_key s) (snapshot_aad c snap) (snap_payload snap) = Inr d \<and>
       parse_payload c d = Inr fs \<and>
       unwrap_epoch_and_index_keys c (root_key s) (snap_header snap) UnlockFailed = Inr (ek, ik) \<and>
       check_files c snap ek {} fs = Inr ())"
  by (auto simp: decode_snapshot_def and_then_Inr split: if_splits prod.splits)

lemma decode_other_session:
  "root_key s' = root_key s \<Longrightarrow> h_vault_id (s_header s') = h_vault_id (s_header s) \<Longrightarrow>
   decode_snapshot c s' b = decode_snapshot c s b"
  by (simp add: decode_snapshot_def cong: if_cong)

text \<open>The bytes a decoded payload gives a path.\<close>

definition payload_at :: "platform \<Rightarrow> export_file list \<Rightarrow> path \<Rightarrow> bytes option" where
  "payload_at c fs p =
    Option.bind (map_of (map (\<lambda>f. (relative_path f, bytes_b64 f)) fs) p) (b64_decode (prims c))"

lemma payload_at_Nil [simp]: "payload_at c [] p = None"
  by (simp add: payload_at_def)

lemma payload_at_mem:
  "distinct (map relative_path fs) \<Longrightarrow> f \<in> set fs \<Longrightarrow> payload_at c fs (relative_path f) = b64_decode (prims c) (bytes_b64 f)"
proof -
  assume d: "distinct (map relative_path fs)" and f: "f \<in> set fs"
  have "map_of (map (\<lambda>f. (relative_path f, bytes_b64 f)) fs) (relative_path f) = Some (bytes_b64 f)"
    using d f by (intro map_of_is_SomeI) (auto simp: comp_def)
  then show ?thesis by (simp add: payload_at_def)
qed

lemma payload_at_None: "p \<notin> relative_path ` set fs \<Longrightarrow> payload_at c fs p = None"
proof -
  assume "p \<notin> relative_path ` set fs"
  then have "map_of (map (\<lambda>f. (relative_path f, bytes_b64 f)) fs) p = None"
    by (auto simp: map_of_eq_None_iff)
  then show ?thesis by (simp add: payload_at_def)
qed

lemma wire_unwire: "list_all (\<lambda>f. portable (relative_path f)) fs \<Longrightarrow>
  \<exists>ts. wire_files fs = Some ts \<and> unwire_files ts = Some fs"
  by (induction fs) (auto simp: wire_round_trip)

lemma print_parse_payload:
  assumes "platform_ok c" "list_all (\<lambda>f. portable (relative_path f)) fs"
  shows "\<exists>b. print_payload c fs = Inr b \<and> parse_payload c b = Inr fs"
  using wire_unwire [OF assms(2)] assms(1)
  by (auto simp: print_payload_def parse_payload_def platform_ok_def)

lemma seal_opens:
  assumes "platform_ok c" "seal_bytes c k a m w = (Inr x, w')"
  shows "decrypt_bytes (prims c) k a x = Inr m"
  using assms
  by (auto simp: seal_bytes_def bind_Inr random_draw_def platform_ok_def intro!: decrypt_encrypt [where nonce = "random_bytes c (draws w) NONCE_LEN"])

text \<open>A snapshot this session encodes decodes to the files it was given, exactly when they are sound.\<close>

lemma parse_encoded:
  assumes "platform_ok c" "list_all (\<lambda>f. portable (relative_path f)) fs"
    and "encode_snapshot c s h fs ps version w = (Inr b, w')"
  shows "\<exists>snap d. snapshot_parse c b = Some snap \<and> snap_format snap = ''aipass-vault-sync'' \<and>
    snap_version snap = version \<and> parents snap = ps \<and> snap_header snap = h \<and>
    decrypt_bytes (prims c) (root_key s) (snapshot_aad c snap) (snap_payload snap) = Inr d \<and>
    parse_payload c d = Inr fs"
proof -
  obtain d where d: "print_payload c fs = Inr d" "parse_payload c d = Inr fs"
    using print_parse_payload [OF assms(1,2)] by blast
  then obtain at v body v' where body: "seal_bytes c (root_key s) (aad_json c ''aipass-vault-sync'' version ps at h) d v = (Inr body, v')"
    and b: "b = snapshot_json c \<lparr>snap_format = ''aipass-vault-sync'', snap_version = version, parents = ps,
      snap_created_at = at, snap_header = h, snap_payload = body\<rparr>"
    using assms(3) by (auto simp: encode_snapshot_def bind_Inr)
  show ?thesis
    using seal_opens [OF assms(1) body] d assms(1) by (simp add: b platform_ok_def snapshot_aad_def)
qed

lemma decode_encoded:
  assumes "platform_ok c" "list_all (\<lambda>f. portable (relative_path f)) fs"
    and "encode_snapshot c s h fs ps version w = (Inr b, w')"
    and "version \<in> {1, 2}" "validate_header h = Inr ()" "validate_import_kdf (h_kdf h) = Inr ()"
    and "\<not> list_ex bad_parent ps" "h_vault_id h = h_vault_id (s_header s)"
    and "unwrap_epoch_and_index_keys c (root_key s) h UnlockFailed = Inr (ek, ik)"
  shows "\<exists>snap. snap_version snap = version \<and> snap_header snap = h \<and> parents snap = ps \<and>
    decode_snapshot c s b = and_then (check_files c snap ek {} fs) (\<lambda>_. Inr (snap, fs))"
proof -
  obtain snap d where snap: "snapshot_parse c b = Some snap" "snap_format snap = ''aipass-vault-sync''"
      "snap_version snap = version" "parents snap = ps" "snap_header snap = h"
    and d: "decrypt_bytes (prims c) (root_key s) (snapshot_aad c snap) (snap_payload snap) = Inr d"
      "parse_payload c d = Inr fs"
    using parse_encoded [OF assms(1-3)] by blast
  have "parse_snapshot c b = Inr snap"
    using assms(4-7) snap by (auto simp: parse_snapshot_def)
  then have "decode_snapshot c s b = and_then (check_files c snap ek {} fs) (\<lambda>_. Inr (snap, fs))"
    using snap d assms(8,9) by (simp add: decode_snapshot_def crypto_def)
  with snap show ?thesis by blast
qed

section \<open>What the listings contain\<close>

lemma set_encrypted_names:
  "set (encrypted_names d e w) =
    {p. hm_get (files w) p \<noteq> None \<and> length p = 2 \<and> hd p = d \<and> list_all normal_component p \<and> extension p = Some e}"
  by (auto simp: encrypted_names_def hm_get_def map_of_eq_None_iff)

lemma list_dirs_Inr:
  "list_dirs ds w = (Inr ps, w') \<Longrightarrow>
    files w' = files w \<and> set ps = (\<Union>(d, e)\<in>set ds. set (encrypted_names d e w))"
proof (induction ds arbitrary: w ps)
  case (Cons de ds)
  obtain d e where de: "de = (d, e)" by (cases de)
  from Cons.prems obtain qs v rs where q: "encrypted_paths d e w = (Inr qs, v)"
    and r: "list_dirs ds v = (Inr rs, w')" and ps: "ps = qs @ rs"
    by (auto simp: de bind_Inr)
  have "qs = encrypted_names d e w" "files v = files w" using encrypted_paths_Inr [OF q] by auto
  moreover have "encrypted_names d' e' v = encrypted_names d' e' w" for d' e'
    using encrypted_paths_Inr [OF q] by (simp add: encrypted_names_def)
  ultimately show ?case using Cons.IH [OF r] by (auto simp: de ps)
qed simp

text \<open>The files on disk a listing offers for exchange.\<close>

lemma exportable_allowed:
  assumes "exportable_files inc w = (Inr ps, w')"
  shows "files w' = files w \<and>
    {p \<in> set ps. sync_path_allowed p} =
      {p. hm_get (files w) p \<noteq> None \<and> sync_path_allowed p \<and> (inc \<or> \<not> in_audit p)}"
proof -
  obtain qs where q: "list_dirs (sync_dirs inc) w = (Inr qs, w')"
    and ps: "ps = sort (filter (\<lambda>p. path_exists p w) BACKUP_ROOT_FILES @ qs)"
    using assms by (auto simp: exportable_files_def bind_Inr)
  have root: "\<not> sync_path_allowed p" if "p \<in> set BACKUP_ROOT_FILES" for p
    using that by (auto simp: BACKUP_ROOT_FILES_def manifest_def sync_path_allowed_def)
  have mem: "(p \<in> set qs) = (hm_get (files w) p \<noteq> None \<and> (inc \<or> \<not> in_audit p))" if a: "sync_path_allowed p" for p
  proof -
    obtain d n where p: "p = [d, n]"
      using a by (auto simp: sync_path_allowed_def length_Suc_conv eval_nat_numeral)
    show ?thesis
      using a list_dirs_Inr [OF q]
      by (auto simp: p set_encrypted_names sync_dirs_def sync_path_allowed_def in_audit_def dir_extension_def
          split: if_splits)
  qed
  have "(p \<in> set ps) = (p \<in> set qs)" if "sync_path_allowed p" for p
    using root that by (auto simp: ps)
  with mem have "{p \<in> set ps. sync_path_allowed p} =
      {p. hm_get (files w) p \<noteq> None \<and> sync_path_allowed p \<and> (inc \<or> \<not> in_audit p)}" by blast
  with list_dirs_Inr [OF q] show ?thesis by blast
qed

lemma list_dirs_distinct:
  "list_dirs ds w = (Inr ps, w') \<Longrightarrow> hm_wf (files w) \<Longrightarrow> distinct (map fst ds) \<Longrightarrow> distinct ps"
proof (induction ds arbitrary: w ps)
  case (Cons de ds)
  obtain d e where de: "de = (d, e)" by (cases de)
  from Cons.prems(1) obtain qs v rs where q: "encrypted_paths d e w = (Inr qs, v)"
    and r: "list_dirs ds v = (Inr rs, w')" and ps: "ps = qs @ rs"
    by (auto simp: de bind_Inr)
  have v: "files v = files w" and qs: "qs = encrypted_names d e w" using encrypted_paths_Inr [OF q] by auto
  have "distinct rs" using Cons.IH [OF r] Cons.prems v by auto
  moreover have "distinct qs" using Cons.prems(2) by (simp add: qs encrypted_names_def hm_wf_def)
  moreover have "set qs \<inter> set rs = {}"
    using list_dirs_Inr [OF r] Cons.prems(3) by (force simp: qs de set_encrypted_names)
  ultimately show ?case by (simp add: ps)
qed simp

lemma exportable_distinct:
  assumes "exportable_files inc w = (Inr ps, w')" "hm_wf (files w)"
  shows "distinct ps"
proof -
  obtain qs where q: "list_dirs (sync_dirs inc) w = (Inr qs, w')"
    and ps: "ps = sort (filter (\<lambda>p. path_exists p w) BACKUP_ROOT_FILES @ qs)"
    using assms(1) by (auto simp: exportable_files_def bind_Inr)
  have "distinct qs" using list_dirs_distinct [OF q assms(2)] by (simp add: sync_dirs_def)
  moreover have "length p = 2" if "p \<in> set qs" for p
    using that list_dirs_Inr [OF q] by (auto simp: set_encrypted_names)
  then have "set (filter (\<lambda>p. path_exists p w) BACKUP_ROOT_FILES) \<inter> set qs = {}"
    by (force simp: BACKUP_ROOT_FILES_def manifest_def)
  moreover have "distinct BACKUP_ROOT_FILES" by (simp add: BACKUP_ROOT_FILES_def manifest_def)
  ultimately show ?thesis by (simp add: ps)
qed

lemma read_files_Inr:
  "read_files c ps w = (Inr fs, w') \<Longrightarrow>
    files w' = files w \<and> map relative_path fs = ps \<and>
    (\<forall>f\<in>set fs. \<exists>b. hm_get (files w) (relative_path f) = Some b \<and> bytes_b64 f = b64_encode (prims c) b)"
proof (induction ps arbitrary: w fs)
  case (Cons p ps)
  from Cons.prems obtain b v gs where b: "read_file p w = (Inr b, v)"
    and g: "read_files c ps v = (Inr gs, w')" and fs: "fs = \<lparr>relative_path = p, bytes_b64 = b64_encode (prims c) b\<rparr> # gs"
    by (auto simp: bind_Inr)
  show ?case using Cons.IH [OF g] read_file_Inr [OF b] by (auto simp: fs)
qed simp

lemma sync_files_Inr:
  assumes "sync_files c inc w = (Inr fs, w')" "hm_wf (files w)" "platform_ok c"
  shows "files w' = files w \<and> distinct (map relative_path fs) \<and>
    relative_path ` set fs = {p. hm_get (files w) p \<noteq> None \<and> sync_path_allowed p \<and> (inc \<or> \<not> in_audit p)} \<and>
    (\<forall>f\<in>set fs. b64_decode (prims c) (bytes_b64 f) = hm_get (files w) (relative_path f) \<and>
      Some (bytes_b64 f) = map_option (b64_encode (prims c)) (hm_get (files w) (relative_path f)))"
proof -
  obtain ps v where e: "exportable_files inc w = (Inr ps, v)"
    and r: "read_files c (filter (\<lambda>p. sync_path_allowed p \<and> (inc \<or> \<not> in_audit p)) ps) v = (Inr fs, w')"
    using assms(1) by (auto simp: sync_files_def bind_Inr)
  note ex = exportable_allowed [OF e] and rd = read_files_Inr [OF r]
  have paths: "map relative_path fs = filter (\<lambda>p. sync_path_allowed p \<and> (inc \<or> \<not> in_audit p)) ps" using rd by simp
  have "distinct (map relative_path fs)"
    unfolding paths using exportable_distinct [OF e assms(2)] by simp
  moreover have "relative_path ` set fs = {p. hm_get (files w) p \<noteq> None \<and> sync_path_allowed p \<and> (inc \<or> \<not> in_audit p)}"
    using arg_cong [OF paths, of set] ex by auto
  moreover have "b64_decode (prims c) (bytes_b64 f) = hm_get (files w) (relative_path f) \<and>
      Some (bytes_b64 f) = map_option (b64_encode (prims c)) (hm_get (files w) (relative_path f))" if "f \<in> set fs" for f
    using that rd ex assms(3) by (auto simp: platform_ok_def primitives_ok_def)
  ultimately show ?thesis using rd ex by simp
qed

section \<open>The merge is the three-way merge\<close>

lemma hm_wf_merge_map: "hm_wf (merge_map fs)"
proof -
  have "hm_wf m \<Longrightarrow> hm_wf (fold (\<lambda>f. hm_put (relative_path f) (bytes_b64 f)) gs m)"
    for gs :: "export_file list" and m
    by (induction gs arbitrary: m) auto
  then show ?thesis unfolding merge_map_def by (blast intro: hm_wf_Nil)
qed

lemma get_merge_map:
  assumes "distinct (map relative_path fs)"
  shows "hm_get (merge_map fs) p =
    (if in_audit p then None else map_of (map (\<lambda>f. (relative_path f, bytes_b64 f)) fs) p)"
proof -
  have "hm_get (fold (\<lambda>f. hm_put (relative_path f) (bytes_b64 f)) (filter (\<lambda>f. \<not> in_audit (relative_path f)) fs) m) p =
      (if in_audit p \<or> p \<notin> relative_path ` set fs then hm_get m p
       else map_of (map (\<lambda>f. (relative_path f, bytes_b64 f)) fs) p)" for m
    using assms
  proof (induction fs arbitrary: m)
    case (Cons f fs)
    then show ?case by (auto simp: map_of_eq_None_iff)
  qed simp
  then show ?thesis by (auto simp: merge_map_def map_of_eq_None_iff [THEN iffD2] intro!: map_of_eq_None_iff [THEN iffD2, symmetric])
qed

lemma three_way_sym: "three_way l r b = three_way r l b"
  by (auto simp: three_way_def)

lemma three_way_None: "three_way l r b = None \<longleftrightarrow> l \<noteq> r \<and> l \<noteq> b \<and> r \<noteq> b"
  by (auto simp: three_way_def)

lemma merge_paths_None:
  "merge_paths l r b ps = None \<longleftrightarrow> (\<exists>p\<in>set ps. three_way (hm_get l p) (hm_get r p) (hm_get b p) = None)"
  by (induction ps) (auto split: option.splits)

lemma merge_paths_Some:
  "merge_paths l r b ps = Some fs \<Longrightarrow> distinct ps \<Longrightarrow>
    distinct (map relative_path fs) \<and> relative_path ` set fs \<subseteq> set ps \<and>
    (\<forall>p\<in>set ps. three_way (hm_get l p) (hm_get r p) (hm_get b p) =
      Some (map_of (map (\<lambda>f. (relative_path f, bytes_b64 f)) fs) p))"
proof (induction ps arbitrary: fs)
  case (Cons p ps)
  show ?case
  proof (cases "the (three_way (hm_get l p) (hm_get r p) (hm_get b p))")
    case None
    with Cons.prems have t: "three_way (hm_get l p) (hm_get r p) (hm_get b p) = Some None"
      and m: "merge_paths l r b ps = Some fs" by (auto split: option.splits)
    from Cons.IH [OF m] Cons.prems(2) have IH: "distinct (map relative_path fs)" "relative_path ` set fs \<subseteq> set ps"
      "\<forall>p\<in>set ps. three_way (hm_get l p) (hm_get r p) (hm_get b p) =
        Some (map_of (map (\<lambda>f. (relative_path f, bytes_b64 f)) fs) p)" by auto
    have "map_of (map (\<lambda>f. (relative_path f, bytes_b64 f)) fs) p = None"
      using IH(2) Cons.prems(2) by (auto simp: map_of_eq_None_iff)
    with IH t show ?thesis by auto
  next
    case (Some x)
    with Cons.prems obtain gs where t: "three_way (hm_get l p) (hm_get r p) (hm_get b p) = Some (Some x)"
      and m: "merge_paths l r b ps = Some gs" and fs: "fs = \<lparr>relative_path = p, bytes_b64 = x\<rparr> # gs"
      by (auto split: option.splits)
    from Cons.IH [OF m] Cons.prems(2) show ?thesis by (auto simp: fs t)
  qed
qed simp

lemma parse_payload_portable:
  "parse_payload c d = Inr fs \<Longrightarrow> list_all (\<lambda>f. portable (relative_path f)) fs"
proof -
  have "unwire_files ts = Some gs \<Longrightarrow> list_all (\<lambda>f. portable (relative_path f)) gs" for ts gs
    by (induction ts arbitrary: gs rule: unwire_files.induct) (auto split: option.splits dest: unwire_portable)
  then show "parse_payload c d = Inr fs \<Longrightarrow> ?thesis"
    by (auto simp: parse_payload_def ok_or_Inr bind_eq_Some_conv)
qed

text \<open>
  An unlocked vault in order: the directory is a map, the manifest on disk is the session's
  header, the session holds its keys, and every file that takes part in synchronisation has
  a portable name and opens under the epoch key.
\<close>

definition ready :: "platform \<Rightarrow> session \<Rightarrow> world \<Rightarrow> bool" where
  "ready c s w \<longleftrightarrow>
    hm_wf (files w) \<and> validate_header (s_header s) = Inr () \<and> validate_import_kdf (h_kdf (s_header s)) = Inr () \<and>
    unwrap_epoch_and_index_keys c (root_key s) (s_header s) UnlockFailed = Inr (epoch_key s, index_key s) \<and>
    hm_get (files w) manifest = Some (header_pretty c (s_header s)) \<and>
    (\<forall>p b. hm_get (files w) p = Some b \<and> sync_path_allowed p \<longrightarrow>
      portable p \<and> sound_file c (h_vault_id (s_header s)) (epoch_key s) p b)"

definition file_at :: "export_file list \<Rightarrow> path \<Rightarrow> string option" where
  "file_at fs p = map_of (map (\<lambda>f. (relative_path f, bytes_b64 f)) fs) p"

definition local_at :: "platform \<Rightarrow> world \<Rightarrow> path \<Rightarrow> string option" where
  "local_at c w p = (if sync_path_allowed p then map_option (b64_encode (prims c)) (hm_get (files w) p) else None)"

text \<open>The outcome of a merge at one path: a change made on one side only is kept.\<close>

definition merged_at :: "string option \<Rightarrow> string option \<Rightarrow> string option \<Rightarrow> string option \<Rightarrow> bool" where
  "merged_at l r b m \<longleftrightarrow> (l = b \<longrightarrow> m = r) \<and> (r = b \<longrightarrow> m = l) \<and> (l = r \<longrightarrow> m = l) \<and> (l = r \<or> l = b \<or> r = b)"

lemma three_way_merged: "three_way l r b = Some m \<longleftrightarrow> merged_at l r b m"
  by (auto simp: three_way_def merged_at_def)

lemma file_at_mem: "file_at fs p = Some x \<Longrightarrow> \<exists>f\<in>set fs. relative_path f = p \<and> bytes_b64 f = x"
  by (auto simp: file_at_def dest!: map_of_SomeD)

lemma file_at_distinct:
  "distinct (map relative_path fs) \<Longrightarrow> f \<in> set fs \<Longrightarrow> file_at fs (relative_path f) = Some (bytes_b64 f)"
  unfolding file_at_def by (intro map_of_is_SomeI) (auto simp: comp_def)

lemma get_merge_map_file_at:
  "distinct (map relative_path fs) \<Longrightarrow> hm_get (merge_map fs) p = (if in_audit p then None else file_at fs p)"
  by (simp add: get_merge_map file_at_def)

lemma merge_files_sym: "merge_files l r b = merge_files r l b"
proof -
  have "merge_paths x y z ps = merge_paths y x z ps" for x y z ps
    by (induction ps) (simp_all add: three_way_sym [of "hm_get x _" "hm_get y _"] cong: option.case_cong)
  moreover have "sort (remdups (xs @ ys @ zs)) = sort (remdups (ys @ xs @ zs))" for xs ys zs :: "path list"
    by (rule sorted_distinct_set_unique) auto
  ultimately show ?thesis by (simp add: merge_files_def Let_def)
qed

lemma merge_files_Some:
  assumes "merge_files l r b = Some fs"
    and "distinct (map relative_path l)" "distinct (map relative_path r)" "distinct (map relative_path b)"
  shows "distinct (map relative_path fs) \<and>
    (\<forall>p. if in_audit p then file_at fs p = None else merged_at (file_at l p) (file_at r p) (file_at b p) (file_at fs p))"
proof -
  let ?ps = "sort (remdups (map fst (merge_map l) @ map fst (merge_map r) @ map fst (merge_map b)))"
  have m: "merge_paths (merge_map l) (merge_map r) (merge_map b) ?ps = Some fs"
    using assms(1) by (simp add: merge_files_def Let_def)
  from merge_paths_Some [OF m] have d: "distinct (map relative_path fs)"
    and sub: "relative_path ` set fs \<subseteq> set ?ps"
    and tw: "\<forall>p\<in>set ?ps. three_way (hm_get (merge_map l) p) (hm_get (merge_map r) p) (hm_get (merge_map b) p)
      = Some (file_at fs p)"
    by (auto simp: file_at_def)
  have absent: "hm_get (merge_map x) p = None" if "p \<notin> fst ` set (merge_map x)" for x p
    using that by (auto simp: hm_get_def map_of_eq_None_iff)
  have none: "file_at fs p = None" if "p \<notin> set ?ps" for p
  proof -
    have "p \<notin> relative_path ` set fs" using that sub by blast
    then show ?thesis by (auto simp: file_at_def map_of_eq_None_iff)
  qed
  have all: "three_way (hm_get (merge_map l) p) (hm_get (merge_map r) p) (hm_get (merge_map b) p) = Some (file_at fs p)" for p
  proof (cases "p \<in> set ?ps")
    case False
    then have "hm_get (merge_map l) p = None" "hm_get (merge_map r) p = None" "hm_get (merge_map b) p = None"
      by (auto intro!: absent)
    with none [OF False] show ?thesis by (simp add: three_way_def)
  qed (use tw in blast)
  have "if in_audit p then file_at fs p = None
        else merged_at (file_at l p) (file_at r p) (file_at b p) (file_at fs p)" for p
    using all [of p] by (simp add: get_merge_map_file_at assms(2-4) three_way_merged)
      (auto simp: merged_at_def)
  with d show ?thesis by blast
qed

lemma file_at_sync_files:
  assumes "sync_files c inc w = (Inr fs, w')" "hm_wf (files w)" "platform_ok c"
  shows "file_at fs p = (if inc \<or> \<not> in_audit p then local_at c w p else None)"
proof (cases "p \<in> relative_path ` set fs")
  case True
  then obtain f where f: "f \<in> set fs" "p = relative_path f" by blast
  with sync_files_Inr [OF assms] file_at_distinct [of fs f]
  have "file_at fs p = Some (bytes_b64 f)"
      "Some (bytes_b64 f) = map_option (b64_encode (prims c)) (hm_get (files w) p)"
      "sync_path_allowed p \<and> (inc \<or> \<not> in_audit p)"
    by auto
  then show ?thesis by (auto simp: local_at_def)
next
  case False
  then have "file_at fs p = None" by (auto simp: file_at_def map_of_eq_None_iff)
  with False sync_files_Inr [OF assms] show ?thesis by (auto simp: local_at_def)
qed

lemma merged_at_source: "merged_at l r b (Some x) \<Longrightarrow> l = Some x \<or> r = Some x"
  by (auto simp: merged_at_def)

lemma platform_inj: "platform_ok c \<Longrightarrow> header_json c h = header_json c h' \<longleftrightarrow> h = h'"
  unfolding platform_ok_def by (metis option.inject)

lemma seal_bytes_files: "seal_bytes c k a m w = (r, w') \<Longrightarrow> files w' = files w"
  by (auto simp: seal_bytes_def bind_def random_draw_def)

lemma encode_snapshot_files: "encode_snapshot c s h fs ps v w = (r, w') \<Longrightarrow> files w' = files w"
  by (auto simp: encode_snapshot_def bind_def read_clock_def yield_def lift_def dest: seal_bytes_files
      split: sum.splits prod.splits)

lemma checked_portable:
  assumes "decode_snapshot c s b = Inr (snap, fs)"
  shows "distinct (map relative_path fs)" "f \<in> set fs \<Longrightarrow> sync_path_allowed (relative_path f)"
    "f \<in> set fs \<Longrightarrow> portable (relative_path f)"
    "f \<in> set fs \<Longrightarrow> snap_version snap = 2 \<Longrightarrow> \<not> in_audit (relative_path f)"
  using assms parse_payload_portable by (auto simp: decode_snapshot_Inr check_files_iff list_all_iff)

text \<open>The files a merge picks are sound, since both sides are.\<close>

lemma merge_picks_sound:
  assumes "platform_ok c" "ready c s w" "sync_files c False w = (Inr lfs, w1)"
    and "decode_snapshot c s remote = Inr (rsnap, rfs)" "snap_header rsnap = s_header s"
    and "merge_files lfs rfs bfs = Some fs" "distinct (map relative_path bfs)"
    and "h_vault_id (snap_header snap) = h_vault_id (s_header s)"
    and "f \<in> set fs"
  shows "sync_path_allowed (relative_path f) \<and> \<not> in_audit (relative_path f) \<and> portable (relative_path f) \<and>
    check_file c snap (epoch_key s) f = Inr ()"
proof -
  have wf: "hm_wf (files w)" using assms(2) by (simp add: ready_def)
  note l = sync_files_Inr [OF assms(3) wf assms(1)]
  note r = checked_portable [OF assms(4)]
  from merge_files_Some [OF assms(6) _ r(1) assms(7)] l
  have d: "distinct (map relative_path fs)"
    and at: "\<And>p. if in_audit p then file_at fs p = None
       else merged_at (file_at lfs p) (file_at rfs p) (file_at bfs p) (file_at fs p)" by auto
  let ?p = "relative_path f"
  have f: "file_at fs ?p = Some (bytes_b64 f)" using file_at_distinct [OF d assms(9)] .
  with at [of ?p] have audit: "\<not> in_audit ?p" by (auto split: if_splits)
  with at [of ?p] f have src: "file_at lfs ?p = Some (bytes_b64 f) \<or> file_at rfs ?p = Some (bytes_b64 f)"
    using merged_at_source by fastforce
  show ?thesis
  proof (cases "file_at rfs ?p = Some (bytes_b64 f)")
    case True
    then obtain g where g: "g \<in> set rfs" "relative_path g = ?p" "bytes_b64 g = bytes_b64 f"
      using file_at_mem by blast
    obtain ek ik where "unwrap_epoch_and_index_keys c (root_key s) (s_header s) UnlockFailed = Inr (ek, ik)"
        "check_files c rsnap ek {} rfs = Inr ()"
      using assms(4,5) by (auto simp: decode_snapshot_Inr)
    with g assms(2) have "check_file c rsnap (epoch_key s) g = Inr ()"
      by (auto simp: ready_def check_files_iff)
    with g assms(5,8) have "check_file c snap (epoch_key s) f = Inr ()" by (simp add: check_file_iff)
    with g r(2,3) audit show ?thesis by metis
  next
    case False
    then have "file_at lfs ?p = Some (bytes_b64 f)" using src by simp
    then obtain g where g: "g \<in> set lfs" "relative_path g = ?p" "bytes_b64 g = bytes_b64 f"
      using file_at_mem by blast
    with l obtain b where b: "hm_get (files w) ?p = Some b" "b64_decode (prims c) (bytes_b64 f) = Some b"
      "sync_path_allowed ?p" by (metis (mono_tags, lifting) image_eqI mem_Collect_eq option.exhaust)
    then have "portable ?p" "sound_file c (h_vault_id (s_header s)) (epoch_key s) ?p b"
      using assms(2) by (auto simp: ready_def)
    with b audit assms(8) show ?thesis by (simp add: check_file_iff)
  qed
qed

text \<open>
  C13. A successful merge leaves the disk alone and yields a snapshot that this vault accepts,
  whose header is the vault's own and whose files are, path by path, the change made on one
  side since the common ancestor, the unchanged file, or the change both sides made; the
  local side is what is on disk.  Audit history never enters it.
\<close>

theorem merge_keeps_both_sides:
  assumes "platform_ok c" "ready c s w"
    and "merge_sync_snapshot c s remote base w = (Inr (Some out), w')"
  shows "\<exists>rsnap rfs bsnap bfs snap fs.
    decode_snapshot c s remote = Inr (rsnap, rfs) \<and> decode_snapshot c s base = Inr (bsnap, bfs) \<and>
    decode_snapshot c s out = Inr (snap, fs) \<and> snap_header snap = s_header s \<and> snap_version snap = 2 \<and>
    files w' = files w \<and>
    (\<forall>p. if in_audit p then file_at fs p = None
         else merged_at (local_at c w p) (file_at rfs p) (file_at bfs p) (file_at fs p))"
proof -
  from assms(3) obtain rsnap rfs bsnap bfs lfs w1 fs where
    r: "decode_snapshot c s remote = Inr (rsnap, rfs)" and b: "decode_snapshot c s base = Inr (bsnap, bfs)"
    and h: "header_json c (snap_header rsnap) = header_json c (s_header s)"
      "header_json c (snap_header bsnap) = header_json c (s_header s)"
    and l: "sync_files c False w = (Inr lfs, w1)" and m: "merge_files lfs rfs bfs = Some fs"
    and e: "encode_snapshot c s (s_header s) fs [] 2 w1 = (Inr out, w')"
    by (auto simp: merge_sync_snapshot_def bind_Inr split: if_splits option.splits)
  have wf: "hm_wf (files w)" and hdr: "validate_header (s_header s) = Inr ()"
      "validate_import_kdf (h_kdf (s_header s)) = Inr ()"
      "unwrap_epoch_and_index_keys c (root_key s) (s_header s) UnlockFailed = Inr (epoch_key s, index_key s)"
    using assms(2) by (simp_all add: ready_def)
  have rh: "snap_header rsnap = s_header s" using h platform_inj [OF assms(1)] by simp
  note pick = merge_picks_sound [OF assms(1,2) l r rh m checked_portable(1) [OF b]]
  have port: "list_all (\<lambda>f. portable (relative_path f)) fs"
    using pick [of rsnap] rh by (simp add: list_all_iff)
  obtain snap where snap: "snap_version snap = 2" "snap_header snap = s_header s"
      "decode_snapshot c s out = and_then (check_files c snap (epoch_key s) {} fs) (\<lambda>_. Inr (snap, fs))"
    using decode_encoded [OF assms(1) port e _ hdr(1,2) _ refl hdr(3)] by auto
  note ls = sync_files_Inr [OF l wf assms(1)]
  note mf = merge_files_Some [OF m _ checked_portable(1) [OF r] checked_portable(1) [OF b]]
  have "check_files c snap (epoch_key s) {} fs = Inr ()"
    using pick [of snap] snap(2) mf ls by (auto simp: check_files_iff)
  moreover have "if in_audit p then file_at fs p = None
      else merged_at (local_at c w p) (file_at rfs p) (file_at bfs p) (file_at fs p)" for p
    using conjunct2 [OF mf, THEN spec, of p] ls file_at_sync_files [OF l wf assms(1), of p]
    by (cases "in_audit p") simp_all
  moreover have "files w' = files w" using encode_snapshot_files [OF e] ls by simp
  ultimately show ?thesis using r b snap by (intro exI) auto
qed

end
