(* ===== verification/Journal.thy ===== *)
theory Journal
  imports VaultSync
begin

text \<open>
  The synchronisation journal as a transaction: whatever the disk does, a snapshot is applied
  completely or not at all, or the journal stays and says which of the two an unlock must
  finish.  The lemmas describe \<open>finish_pending_sync\<close> phase by phase, first what it can touch
  under any faults, then what it has done when it reports success.
\<close>

section \<open>Loops over files\<close>

lemma for_each_keeps:
  assumes "\<And>x v r v'. x \<in> set xs \<Longrightarrow> I v \<Longrightarrow> f x v = (r, v') \<Longrightarrow> I v'"
  shows "I w \<Longrightarrow> for_each f xs w = (r, w') \<Longrightarrow> I w'"
  using assms
proof (induction xs arbitrary: w)
  case (Cons x xs)
  obtain a v where a: "f x w = (a, v)" by (cases "f x w")
  with Cons.prems(1,3) have v: "I v" by auto
  show ?case
  proof (cases a)
    case (Inl e)
    with a v Cons.prems(2) show ?thesis by (auto simp: bind_def)
  next
    case (Inr u)
    with a Cons.prems(2) have "for_each f xs v = (r, w')" by (simp add: bind_def)
    then show ?thesis using Cons.IH [OF v] Cons.prems(3) by (metis list.set_intros(2))
  qed
qed simp

lemma for_each_done:
  assumes "for_each f xs w = (Inr u, w')" "distinct xs"
    and "\<And>x v v'. x \<in> set xs \<Longrightarrow> f x v = (Inr (), v') \<Longrightarrow> Q x v'"
    and "\<And>x y v v' r. x \<in> set xs \<Longrightarrow> y \<in> set xs \<Longrightarrow> x \<noteq> y \<Longrightarrow> Q x v \<Longrightarrow> f y v = (r, v') \<Longrightarrow> Q x v'"
  shows "\<forall>x\<in>set xs. Q x w'"
  using assms
proof (induction xs arbitrary: w)
  case (Cons x xs)
  from Cons.prems(1) obtain v where v: "f x w = (Inr (), v)" and r: "for_each f xs v = (Inr u, w')"
    by (auto simp: bind_Inr)
  have x: "Q x w'"
  proof (rule for_each_keeps [where I = "Q x", OF _ _ r])
    fix y a ra va assume "y \<in> set xs" "Q x a" "f y a = (ra, va)"
    then show "Q x va" using Cons.prems(2) Cons.prems(4) [of x y a ra va] by auto
  qed (rule Cons.prems(3) [OF _ v], simp)
  have "\<forall>y\<in>set xs. Q y w'"
  proof (rule Cons.IH [OF r])
    show "distinct xs" using Cons.prems(2) by simp
    show "\<And>y v v'. y \<in> set xs \<Longrightarrow> f y v = (Inr (), v') \<Longrightarrow> Q y v'"
      using Cons.prems(3) by simp
    show "\<And>y z v v' r. y \<in> set xs \<Longrightarrow> z \<in> set xs \<Longrightarrow> y \<noteq> z \<Longrightarrow> Q y v \<Longrightarrow> f z v = (r, v') \<Longrightarrow> Q y v'"
      by (rule Cons.prems(4)) simp_all
  qed
  with x show ?case by simp
qed simp

section \<open>What each step can touch\<close>

lemma touches_draw [act]:
  "touches R (random_draw c n)" "touches R (new_uuid c)" "touches R (read_clock c)"
  by (auto simp: touches_def same_outside_def random_draw_def new_uuid_def read_clock_def)

lemma touches_seal [act]: "touches R (seal_bytes c k a m)"
  unfolding seal_bytes_def by (intro act)

lemma touches_encrypt_envelope [act]: "touches R (encrypt_envelope c e m ek)"
  unfolding encrypt_envelope_def Let_def by (intro act)

lemma touches_read_envelope [act]: "touches R (read_envelope c p)" and touches_read_header [act]: "touches R (read_header c p)"
  unfolding read_envelope_def read_header_def by (intro act)+

lemma touches_install_file [act]: "relative_path f \<in> R \<Longrightarrow> touches R (install_file c f)"
  unfolding install_file_def by (intro act) (simp add: act)

lemma touches_remove_stale [act]: "(sync_path_allowed p \<and> (v = 1 \<or> \<not> in_audit p) \<Longrightarrow> p \<in> R) \<Longrightarrow> touches R (remove_stale v S p)"
  unfolding remove_stale_def by (simp add: act)

lemma touches_rewrap_one [act]: "p \<in> R \<Longrightarrow> touches R (rewrap_one c s h ek p)"
  unfolding rewrap_one_def write_envelope_json_def
  by (intro act) (auto intro!: act split: sum.splits)

lemma touches_reload [act]: "touches R (reload_from_disk c s)"
  unfolding reload_from_disk_def by (intro act) (auto intro!: act split: prod.splits)

lemma touches_list_dirs [act]: "touches R (list_dirs ds)"
  by (induction ds) (auto intro!: act)

lemma touches_exportable [act]: "touches R (exportable_files inc)"
proof -
  have "touches R (bind (list_dirs (sync_dirs inc)) (\<lambda>ps. yield (sort (xs @ ps))))" for xs
    by (intro act)
  then show ?thesis by (simp add: touches_def exportable_files_def)
qed

lemma encrypt_envelope_Inr:
  assumes "platform_ok c" "encrypt_envelope c e m ek w = (Inr e', w')"
  shows "\<exists>body d. e' = e\<lparr>o_payload := Some body, o_wrapped_dek := Some d\<rparr> \<and>
    dek_epoch d = epoch_number (epoch_of ek) \<and>
    (\<not> tombstone e \<longrightarrow> decrypt_envelope_with_epoch c e' ek = Inr m)"
proof -
  let ?a = "object_aad c e"
  let ?dek = "random_bytes c (draws w) KEY_LEN"
  from assms(2) obtain body v nonce d where
    b: "seal_bytes c ?dek ?a m (w\<lparr>draws := Suc (draws w)\<rparr>) = (Inr body, v)"
    and n: "nonce = random_bytes c (draws v) NONCE_LEN"
    and d: "wrap_record_dek (prims c) nonce ek ?dek ?a = Inr d"
    and e': "e' = e\<lparr>o_payload := Some body, o_wrapped_dek := Some d\<rparr>"
    by (auto simp: encrypt_envelope_def Let_def bind_Inr random_draw_def)
  have "unwrap_record_dek (prims c) ek d ?a = Inr ?dek"
    using assms(1) by (intro unwrap_wrap [OF _ d]) (auto simp: platform_ok_def n)
  moreover have "decrypt_bytes (prims c) ?dek ?a body = Inr m" by (rule seal_opens [OF assms(1) b])
  moreover have "object_aad c e' = ?a" by (simp add: e' object_aad_def)
  moreover have "dek_epoch d = epoch_number (epoch_of ek)" using d by (auto simp: wrap_record_dek_def and_then_Inr)
  ultimately show ?thesis by (auto simp: e' decrypt_envelope_with_epoch_def crypto_def)
qed

section \<open>Audit files across an epoch\<close>

definition opens :: "platform \<Rightarrow> epoch_key \<Rightarrow> bytes \<Rightarrow> bytes \<Rightarrow> bool" where
  "opens c ek b m \<longleftrightarrow> (\<exists>e. envelope_parse c b = Some e \<and> decrypt_envelope_with_epoch c e ek = Inr m)"

text \<open>The same record, left alone or sealed anew under the next epoch with the same content.\<close>

definition same_object :: "object_envelope \<Rightarrow> object_envelope \<Rightarrow> bool" where
  "same_object e e' \<longleftrightarrow>
    o_vault_id e' = o_vault_id e \<and> object_id e' = object_id e \<and> object_type e' = object_type e \<and>
    o_format e' = o_format e \<and> o_version e' = o_version e \<and> tombstone e' = tombstone e"

definition carried :: "platform \<Rightarrow> epoch_key \<Rightarrow> epoch_key \<Rightarrow> bytes \<Rightarrow> bytes \<Rightarrow> bool" where
  "carried c old new b b' \<longleftrightarrow>
    b' = b \<or>
    (\<nexists>m. opens c new b m) \<and> (\<exists>m. opens c old b m \<and> opens c new b' m) \<and>
    (\<exists>e e'. envelope_parse c b = Some e \<and> envelope_parse c b' = Some e' \<and> same_object e e')"

definition audit_carried :: "platform \<Rightarrow> epoch_key \<Rightarrow> epoch_key \<Rightarrow> world \<Rightarrow> world \<Rightarrow> bool" where
  "audit_carried c old new w0 w \<longleftrightarrow>
    (\<forall>p. sync_path_allowed p \<and> in_audit p \<longrightarrow>
      rel_option (carried c old new) (hm_get (files w0) p) (hm_get (files w) p))"

text \<open>Readable under the next epoch, or a marker of a deletion.\<close>

definition rewrapped :: "platform \<Rightarrow> epoch_key \<Rightarrow> bytes \<Rightarrow> bool" where
  "rewrapped c new b \<longleftrightarrow> (\<exists>e. envelope_parse c b = Some e \<and> (tombstone e \<or> (\<exists>m. opens c new b m)))"

lemma carried_refl [simp]: "carried c old new b b"
  by (simp add: carried_def)

lemma audit_carried_refl [simp]: "audit_carried c old new w w"
  by (auto simp: audit_carried_def option.rel_refl)

lemma audit_carried_cong:
  assumes "audit_carried c old new w0 w"
    and "\<And>p. sync_path_allowed p \<Longrightarrow> in_audit p \<Longrightarrow> hm_get (files w') p = hm_get (files w) p"
  shows "audit_carried c old new w0 w'"
  using assms by (simp add: audit_carried_def)

lemma read_envelope_Inr:
  "read_envelope c p w = (Inr e, w') \<Longrightarrow>
    \<exists>b. hm_get (files w) p = Some b \<and> envelope_parse c b = Some e \<and> files w' = files w"
  by (auto simp: read_envelope_def bind_Inr ok_or_Inr dest!: read_file_Inr)

lemma rewrap_one_cases:
  assumes "rewrap_one c s h ek p w = (r, w')" "platform_ok c"
  obtains (kept) "\<And>q. hm_get (files w') q = hm_get (files w) q"
      "r = Inr () \<longrightarrow> (\<exists>b. hm_get (files w) p = Some b \<and> rewrapped c ek b)"
  | (sealed) b b' where "hm_get (files w) p = Some b" "carried c (epoch_key s) ek b b'" "rewrapped c ek b'"
      "\<nexists>m. opens c ek b m" "\<exists>m. opens c (epoch_key s) b m"
      "\<And>q. hm_get (files w') q = (if q = p then Some b' else hm_get (files w) q)"
proof (cases "read_envelope c p w")
  case (Pair a v)
  have fv: "hm_get (files v) q = hm_get (files w) q" for q
    using touchesD [OF touches_read_envelope [of "{}"] Pair] by (simp add: same_outside_def)
  show ?thesis
  proof (cases a)
    case (Inl e)
    with assms(1) Pair have "r = Inl e" "w' = v" by (simp_all add: rewrap_one_def bind_def)
    with fv show ?thesis by (intro kept) simp_all
  next
    case (Inr e)
    then obtain b where b: "hm_get (files w) p = Some b" "envelope_parse c b = Some e"
      using read_envelope_Inr Pair by blast
    show ?thesis
    proof (cases "tombstone e \<or> (\<exists>m. decrypt_envelope_with_epoch c e ek = Inr m)")
      case True
      then have "r = Inr ()" "w' = v" using assms(1) Pair Inr
        by (cases "tombstone e"; auto simp: rewrap_one_def bind_def yield_def)+
      moreover have "rewrapped c ek b" using True b by (auto simp: rewrapped_def opens_def)
      ultimately show ?thesis using b(1) fv by (intro kept) auto
    next
      case False
      then obtain x where x: "decrypt_envelope_with_epoch c e ek = Inl x" and nt: "\<not> tombstone e"
        by (cases "decrypt_envelope_with_epoch c e ek") auto
      let ?e = "e\<lparr>o_device_id := s_device s, o_updated_at := h_updated_at h, lamport := sat_add (lamport e) 1\<rparr>"
      have run: "bind (lift (decrypt_envelope_with_epoch c e (epoch_key s))) (\<lambda>m.
          bind (encrypt_envelope c ?e m ek) (write_envelope_json c p)) v = (r, w')"
        using assms(1) Pair Inr x nt by (simp add: rewrap_one_def bind_def)
      show ?thesis
      proof (cases "decrypt_envelope_with_epoch c e (epoch_key s)")
        case (Inl y)
        with run have "r = Inl y" "w' = v" by (simp_all add: bind_def lift_def)
        with fv show ?thesis by (intro kept) simp_all
      next
        case m: (Inr m)
        obtain a1 v1 where e1: "encrypt_envelope c ?e m ek v = (a1, v1)" by (cases "encrypt_envelope c ?e m ek v")
        have fv1: "hm_get (files v1) q = hm_get (files w) q" for q
          using touchesD [OF touches_encrypt_envelope [of "{}"] e1] fv by (simp add: same_outside_def)
        show ?thesis
        proof (cases a1)
          case (Inl y)
          with run e1 m have "r = Inl y" "w' = v1" by (simp_all add: bind_def lift_def)
          with fv1 show ?thesis by (intro kept) simp_all
        next
          case (Inr e')
          with run e1 m have wr: "atomic_write_bytes p (envelope_pretty c e') v1 = (r, w')"
            by (simp add: bind_def lift_def write_envelope_json_def)
          obtain body d where
            e': "e' = ?e\<lparr>o_payload := Some body, o_wrapped_dek := Some d\<rparr>"
            and imp: "\<not> tombstone ?e \<longrightarrow> decrypt_envelope_with_epoch c e' ek = Inr m"
            using encrypt_envelope_Inr [OF assms(2) e1 [unfolded Inr]] by blast
          have op: "decrypt_envelope_with_epoch c e' ek = Inr m" using imp nt by simp
          let ?b = "envelope_pretty c e'"
          have pb: "envelope_parse c ?b = Some e'" using assms(2) by (simp add: platform_ok_def)
          have "same_object e e'" by (simp add: e' same_object_def)
          moreover have no: "\<nexists>m. opens c ek b m" using x b by (simp add: opens_def)
          moreover have yes: "opens c (epoch_key s) b m" "opens c ek ?b m" using m b op pb by (simp_all add: opens_def)
          ultimately have car: "carried c (epoch_key s) ek b ?b" using b pb by (auto simp: carried_def)
          have old: "\<exists>m. opens c (epoch_key s) b m" using yes(1) by (rule exI)
          have rew: "rewrapped c ek ?b" using yes pb by (auto simp: rewrapped_def)
          show ?thesis
          proof (cases "files w' = hm_put p ?b (files v1)")
            case True
            show ?thesis
              by (rule sealed [OF b(1) car rew no old]) (simp add: True fv1)
          next
            case False
            with wr write_Inr [of p ?b v1 _ w'] write_Inl [of p ?b v1 _ w'] have "files w' = files v1" "r \<noteq> Inr ()"
              by (cases r; blast)+
            with fv1 show ?thesis by (intro kept) simp_all
          qed
        qed
      qed
    qed
  qed
qed

lemma rewrap_one_carried:
  assumes "rewrap_one c s h ek p w = (r, w')" "platform_ok c" "audit_carried c (epoch_key s) ek w0 w"
  shows "audit_carried c (epoch_key s) ek w0 w'"
  using assms(1,2)
proof (cases rule: rewrap_one_cases)
  case kept
  with assms(3) show ?thesis by (simp add: audit_carried_def)
next
  case (sealed b b')
  have "rel_option (carried c (epoch_key s) ek) (hm_get (files w0) q) (hm_get (files w') q)"
    if "sync_path_allowed q" "in_audit q" for q
  proof (cases "q = p")
    case True
    with assms(3) that sealed(1) have "rel_option (carried c (epoch_key s) ek) (hm_get (files w0) p) (Some b)"
      by (force simp: audit_carried_def)
    then obtain b0 where b0: "hm_get (files w0) p = Some b0" "carried c (epoch_key s) ek b0 b"
      by (auto simp: option_rel_Some2)
    with sealed(4) have "b0 = b" by (auto simp: carried_def)
    with b0 sealed True show ?thesis by simp
  next
    case False
    with assms(3) that sealed(6) show ?thesis by (simp add: audit_carried_def)
  qed
  then show ?thesis by (simp add: audit_carried_def)
qed

lemma rewrap_one_done:
  assumes "rewrap_one c s h ek p w = (Inr (), w')" "platform_ok c"
  shows "\<exists>b. hm_get (files w') p = Some b \<and> rewrapped c ek b"
  using assms by (cases rule: rewrap_one_cases) auto

lemma same_outsideD: "same_outside R w w' \<Longrightarrow> p \<notin> R \<Longrightarrow> hm_get (files w') p = hm_get (files w) p"
  "same_outside R w w' \<Longrightarrow> hm_wf (files w) \<Longrightarrow> hm_wf (files w')"
  by (auto simp: same_outside_def)

lemma audit_names:
  assumes "encrypted_paths ''audit'' ''aipaudit'' w = (Inr ps, w')" "hm_wf (files w)"
  shows "distinct ps" "p \<in> set ps \<longleftrightarrow> hm_get (files w) p \<noteq> None \<and> sync_path_allowed p \<and> in_audit p"
proof -
  have ps: "ps = encrypted_names ''audit'' ''aipaudit'' w" using encrypted_paths_Inr [OF assms(1)] by simp
  show "distinct ps" using assms(2) by (simp add: ps encrypted_names_def hm_wf_def)
  have "length p = 2 \<and> hd p = ''audit'' \<longleftrightarrow> length p = 2 \<and> in_audit p"
    by (auto simp: in_audit_def length_Suc_conv eval_nat_numeral)
  then show "p \<in> set ps \<longleftrightarrow> hm_get (files w) p \<noteq> None \<and> sync_path_allowed p \<and> in_audit p"
    by (auto simp: ps set_encrypted_names sync_path_allowed_def dir_extension_def in_audit_def
        length_Suc_conv eval_nat_numeral)
qed

lemma rewrap_local_audit_any:
  assumes "rewrap_local_audit c s h w = (r, w')" "platform_ok c" "hm_wf (files w)"
    and "unwrap_epoch_and_index_keys c (root_key s) h UnlockFailed = Inr (ek, ik)"
  shows "audit_carried c (epoch_key s) ek w w' \<and> same_outside {p. sync_path_allowed p \<and> in_audit p} w w' \<and>
    (r = Inr () \<longrightarrow> (\<forall>p b. sync_path_allowed p \<and> in_audit p \<and> hm_get (files w') p = Some b \<longrightarrow> rewrapped c ek b))"
proof -
  obtain a v where a: "encrypted_paths ''audit'' ''aipaudit'' w = (a, v)"
    by (cases "encrypted_paths ''audit'' ''aipaudit'' w")
  have fv: "files v = files w" using encrypted_paths_files [OF a] .
  show ?thesis
  proof (cases a)
    case (Inl e)
    then have "w' = v" "r = Inl e" using assms(1,4) a by (auto simp: rewrap_local_audit_def bind_def lift_def)
    with fv show ?thesis by (auto simp: audit_carried_def same_outside_def option.rel_refl)
  next
    case (Inr ps)
    then have run: "for_each (rewrap_one c s h ek) ps v = (r, w')"
      using assms(1,4) a by (simp add: rewrap_local_audit_def bind_def lift_def)
    note names = audit_names [OF a [unfolded Inr] assms(3)]
    let ?R = "{p. sync_path_allowed p \<and> in_audit p}"
    have inv: "hm_wf (files w') \<and> audit_carried c (epoch_key s) ek w w' \<and> same_outside ?R w w'"
    proof (rule for_each_keeps [OF _ _ run])
      show "hm_wf (files v) \<and> audit_carried c (epoch_key s) ek w v \<and> same_outside ?R w v"
        using fv assms(3) by (auto simp: audit_carried_def same_outside_def option.rel_refl)
      fix p u q u'
      assume p: "p \<in> set ps" and I: "hm_wf (files u) \<and> audit_carried c (epoch_key s) ek w u \<and> same_outside ?R w u"
        and st: "rewrap_one c s h ek p u = (q, u')"
      have "same_outside ?R u u'" using names(2) [of p] p by (intro touchesD [OF touches_rewrap_one st]) simp
      with I rewrap_one_carried [OF st assms(2), of w]
      show "hm_wf (files u') \<and> audit_carried c (epoch_key s) ek w u' \<and> same_outside ?R w u'"
        by (blast intro: same_outside_trans dest: same_outsideD(2))
    qed
    have "rewrapped c ek b" if "r = Inr ()" "p \<in> ?R" "hm_get (files w') p = Some b" for p b
    proof -
      have "\<forall>p\<in>set ps. \<exists>b. hm_get (files w') p = Some b \<and> rewrapped c ek b"
      proof (rule for_each_done [OF run [unfolded that(1)] names(1)])
        fix p u u' assume "rewrap_one c s h ek p u = (Inr (), u')"
        from rewrap_one_done [OF this assms(2)] show "\<exists>b. hm_get (files u') p = Some b \<and> rewrapped c ek b" .
      next
        fix p q u u' t
        assume "p \<noteq> q" "\<exists>b. hm_get (files u) p = Some b \<and> rewrapped c ek b" "rewrap_one c s h ek q u = (t, u')"
        then show "\<exists>b. hm_get (files u') p = Some b \<and> rewrapped c ek b"
          using same_outsideD(1) [OF touchesD [OF touches_rewrap_one [of q "{q}"]], of c s h ek u t u' p] by simp
      qed
      moreover have "p \<in> set ps" using names(2) [of p] that inv by (auto simp: audit_carried_def option_rel_Some2)
      ultimately show ?thesis using inv that by auto
    qed
    with inv show ?thesis by blast
  qed
qed

section \<open>Installing the files of a snapshot\<close>

definition exchanged :: "u16 \<Rightarrow> path set" where
  "exchanged version = {p. sync_path_allowed p \<and> (version = 1 \<or> \<not> in_audit p)}"

lemma install_file_Inr:
  assumes "install_file c f w = (Inr (), w')"
  shows "hm_get (files w') (relative_path f) = b64_decode (prims c) (bytes_b64 f)"
proof -
  from assms obtain b old v where b: "b64_decode (prims c) (bytes_b64 f) = Some b"
    and o: "read_ok (relative_path f) w = (Inr old, v)"
    and r: "(if old \<noteq> Some b then atomic_write_bytes (relative_path f) b else yield ()) v = (Inr (), w')"
    by (auto simp: install_file_def bind_Inr ok_or_Inr)
  show ?thesis
  proof (cases "old = Some b")
    case True
    with r have "w' = v" by simp
    with True read_ok_Some o b show ?thesis using read_ok_files [OF o] by fastforce
  next
    case False
    with r have "atomic_write_bytes (relative_path f) b v = (Inr (), w')" by simp
    from write_Inr [OF this] b show ?thesis by simp
  qed
qed

lemma install_loop:
  assumes "for_each (install_file c) fs w = (r, w')" "distinct (map relative_path fs)"
  shows "same_outside (relative_path ` set fs) w w'"
    and "r = Inr () \<Longrightarrow> f \<in> set fs \<Longrightarrow> hm_get (files w') (relative_path f) = b64_decode (prims c) (bytes_b64 f)"
proof -
  show "same_outside (relative_path ` set fs) w w'"
    by (rule touchesD [OF touches_for_each assms(1)]) (simp add: act)
  assume r: "r = Inr ()" and f: "f \<in> set fs"
  have "\<forall>f\<in>set fs. hm_get (files w') (relative_path f) = b64_decode (prims c) (bytes_b64 f)"
  proof (rule for_each_done [OF assms(1) [unfolded r]])
    show "distinct fs" using assms(2) by (simp add: distinct_map)
  next
    fix g u u' assume "install_file c g u = (Inr (), u')"
    then show "hm_get (files u') (relative_path g) = b64_decode (prims c) (bytes_b64 g)" by (rule install_file_Inr)
  next
    fix g h u u' t
    assume gh: "g \<in> set fs" "h \<in> set fs" "g \<noteq> h" and old: "hm_get (files u) (relative_path g) = b64_decode (prims c) (bytes_b64 g)"
      and st: "install_file c h u = (t, u')"
    have "relative_path g \<noteq> relative_path h" using gh assms(2) by (auto simp: distinct_map inj_on_def)
    then show "hm_get (files u') (relative_path g) = b64_decode (prims c) (bytes_b64 g)"
      using same_outsideD(1) [OF touchesD [OF touches_install_file [of h "{relative_path h}"] st]] old by simp
  qed
  with f show "hm_get (files w') (relative_path f) = b64_decode (prims c) (bytes_b64 f)" by blast
qed

lemma remove_loop:
  assumes "for_each (remove_stale v S) ps w = (r, w')" "distinct ps"
  shows "same_outside {p \<in> set ps. p \<in> exchanged v \<and> p \<notin> S} w w'"
    and "r = Inr () \<Longrightarrow> p \<in> set ps \<Longrightarrow> p \<in> exchanged v \<Longrightarrow> p \<notin> S \<Longrightarrow> hm_get (files w') p = None"
proof -
  have one: "same_outside {q. q = p \<and> q \<in> exchanged v \<and> q \<notin> S} u u'" if "remove_stale v S p u = (t, u')" for p u t u'
  proof (cases "p \<in> exchanged v \<and> p \<notin> S")
    case True
    then have "remove_file p u = (t, u')" using that by (simp add: remove_stale_def exchanged_def)
    then show ?thesis using True by (intro touchesD [OF touches_remove]) auto
  next
    case False
    then have "u' = u" using that by (auto simp: remove_stale_def exchanged_def split: if_splits)
    then show ?thesis by simp
  qed
  show "same_outside {p \<in> set ps. p \<in> exchanged v \<and> p \<notin> S} w w'"
  proof (rule for_each_keeps [OF _ _ assms(1)])
    fix p u t u' assume p: "p \<in> set ps" and I: "same_outside {p \<in> set ps. p \<in> exchanged v \<and> p \<notin> S} w u"
      and st: "remove_stale v S p u = (t, u')"
    have "same_outside {p \<in> set ps. p \<in> exchanged v \<and> p \<notin> S} u u'"
      by (rule same_outside_mono [OF one [OF st]]) (use p in auto)
    with I show "same_outside {p \<in> set ps. p \<in> exchanged v \<and> p \<notin> S} w u'" by (rule same_outside_trans)
  qed simp
  assume r: "r = Inr ()" and p: "p \<in> set ps" "p \<in> exchanged v" "p \<notin> S"
  have "\<forall>p\<in>set ps. p \<in> exchanged v \<and> p \<notin> S \<longrightarrow> hm_get (files w') p = None"
  proof (rule for_each_done [OF assms(1) [unfolded r] assms(2)])
    fix q u u' assume "remove_stale v S q u = (Inr (), u')"
    then show "q \<in> exchanged v \<and> q \<notin> S \<longrightarrow> hm_get (files u') q = None"
      by (auto simp: remove_stale_def exchanged_def dest!: remove_Inr)
  next
    fix q q' u u' t
    assume "q \<noteq> q'" "q \<in> exchanged v \<and> q \<notin> S \<longrightarrow> hm_get (files u) q = None" "remove_stale v S q' u = (t, u')"
    then show "q \<in> exchanged v \<and> q \<notin> S \<longrightarrow> hm_get (files u') q = None"
      using same_outsideD(1) [OF one, of q' u t u' q] by auto
  qed
  with p show "hm_get (files w') p = None" by blast
qed

text \<open>What has been done to the files once the manifest may be replaced.\<close>

definition installed :: "platform \<Rightarrow> session \<Rightarrow> vault_snapshot \<Rightarrow> export_file list \<Rightarrow> epoch_key \<Rightarrow> world \<Rightarrow> bool" where
  "installed c s snap fs ek w \<longleftrightarrow>
    (\<forall>p\<in>exchanged (snap_version snap). hm_get (files w) p = payload_at c fs p) \<and>
    (snap_version snap = 2 \<and> current_epoch (snap_header snap) \<noteq> current_epoch (s_header s) \<longrightarrow>
      (\<forall>p b. sync_path_allowed p \<and> in_audit p \<and> hm_get (files w) p = Some b \<longrightarrow> rewrapped c ek b))"

text \<open>How local audit history may change while a snapshot without history is applied.\<close>

definition audit_progress :: "platform \<Rightarrow> session \<Rightarrow> vault_snapshot \<Rightarrow> epoch_key \<Rightarrow> world \<Rightarrow> world \<Rightarrow> bool" where
  "audit_progress c s snap ek w0 w \<longleftrightarrow>
    snap_version snap = 2 \<longrightarrow>
    (if current_epoch (snap_header snap) = current_epoch (s_header s)
     then \<forall>p. sync_path_allowed p \<and> in_audit p \<longrightarrow> hm_get (files w) p = hm_get (files w0) p
     else audit_carried c (epoch_key s) ek w0 w)"

lemma PENDING_not_allowed [simp]: "\<not> sync_path_allowed PENDING" "\<not> sync_path_allowed manifest" "PENDING \<noteq> manifest" "manifest \<noteq> PENDING"
  by (simp_all add: PENDING_def manifest_def sync_path_allowed_def)

lemma exchanged_files:
  assumes "for_each (install_file c) fs w1 = (Inr (), w2)"
    and "for_each (remove_stale v (relative_path ` set fs)) ps w2 = (Inr (), w3)"
    and "distinct (map relative_path fs)" "distinct ps"
    and "\<And>p. p \<in> exchanged v \<Longrightarrow> p \<in> set ps \<longleftrightarrow> hm_get (files w1) p \<noteq> None"
    and "p \<in> exchanged v"
  shows "hm_get (files w3) p = payload_at c fs p"
proof (cases "p \<in> relative_path ` set fs")
  case True
  then obtain f where f: "f \<in> set fs" "p = relative_path f" by blast
  have "hm_get (files w3) p = hm_get (files w2) p"
    using same_outsideD(1) [OF remove_loop(1) [OF assms(2,4)], of p] True by simp
  also have "\<dots> = b64_decode (prims c) (bytes_b64 f)"
    using install_loop(2) [OF assms(1,3) refl f(1)] f(2) by simp
  finally show ?thesis using payload_at_mem [OF assms(3) f(1), of c] f(2) by simp
next
  case False
  have w2: "hm_get (files w2) p = hm_get (files w1) p"
    using same_outsideD(1) [OF install_loop(1) [OF assms(1,3)] False] .
  have "hm_get (files w3) p = None"
  proof (cases "p \<in> set ps")
    case True
    then show ?thesis using remove_loop(2) [OF assms(2,4) refl True assms(6) False] by simp
  next
    case np: False
    then have "hm_get (files w3) p = hm_get (files w2) p"
      using same_outsideD(1) [OF remove_loop(1) [OF assms(2,4)], of p] by simp
    with np w2 assms(5,6) show ?thesis by auto
  qed
  with payload_at_None [OF False] show ?thesis by simp
qed

lemma bind_run: "f w = (Inr x, v) \<Longrightarrow> bind f g w = g x v"
  by (simp add: bind_def)

lemma bind_fail: "f w = (Inl e, v) \<Longrightarrow> bind f g w = (Inl e, v)"
  by (simp add: bind_def)

lemma exchange_any:
  assumes "exchange_files c snap fs w = (r, w')" "relative_path ` set fs \<subseteq> exchanged (snap_version snap)"
  shows "same_outside (exchanged (snap_version snap)) w w'"
proof -
  have "touches (exchanged (snap_version snap)) (exchange_files c snap fs)"
    unfolding exchange_files_def by (intro act) (use assms(2) in \<open>auto simp: exchanged_def\<close>)
  then show ?thesis using assms(1) by (rule touchesD)
qed

lemma exchange_Inr:
  assumes "exchange_files c snap fs w = (Inr (), w')" "hm_wf (files w)" "distinct (map relative_path fs)"
    and "snap_version snap = 1 \<or> snap_version snap = 2" "p \<in> exchanged (snap_version snap)"
  shows "hm_get (files w') p = payload_at c fs p"
proof -
  obtain ps w1 w2 where e: "exportable_files (snap_version snap = 1) w = (Inr ps, w1)"
    and i: "for_each (install_file c) fs w1 = (Inr (), w2)"
    and r: "for_each (remove_stale (snap_version snap) (relative_path ` set fs)) ps w2 = (Inr (), w')"
    using assms(1) by (auto simp: exchange_files_def bind_Inr)
  have "p \<in> set ps \<longleftrightarrow> hm_get (files w1) p \<noteq> None" if "p \<in> exchanged (snap_version snap)" for p
    using exportable_allowed [OF e] assms(4) that by (auto simp: exchanged_def)
  then show ?thesis
    by (rule exchanged_files [OF i r assms(3) exportable_distinct [OF e assms(2)] _ assms(5)])
qed

text \<open>The last step before the manifest: local audit history follows the epoch.\<close>

lemma rewrap_step:
  assumes "(if snap_version snap = 2 \<and> current_epoch (snap_header snap) \<noteq> current_epoch (s_header s)
      then rewrap_local_audit c s (snap_header snap) else yield ()) w4 = (r, w')"
    and c: "platform_ok c" and wf: "hm_wf (files w4)"
    and o4: "same_outside (exchanged (snap_version snap)) w w4"
    and k: "unwrap_epoch_and_index_keys c (root_key s) (snap_header snap) UnlockFailed = Inr (ek, ik)"
    and pay: "\<And>p. p \<in> exchanged (snap_version snap) \<Longrightarrow> hm_get (files w4) p = payload_at c fs p"
  shows "same_outside {p. sync_path_allowed p} w w' \<and>
    audit_progress c s snap ek w w' \<and> (r = Inr () \<longrightarrow> installed c s snap fs ek w')"
proof (cases "snap_version snap = 2 \<and> current_epoch (snap_header snap) \<noteq> current_epoch (s_header s)")
  case True
  then have run: "rewrap_local_audit c s (snap_header snap) w4 = (r, w')" using assms(1) by simp
  note rw = rewrap_local_audit_any [OF run c wf k]
  have same: "hm_get (files w4) p = hm_get (files w) p" if "in_audit p" for p
    using same_outsideD(1) [OF o4, of p] True that by (auto simp: exchanged_def)
  have "same_outside {p. sync_path_allowed p} w w4" "same_outside {p. sync_path_allowed p} w4 w'"
    by (rule same_outside_mono [OF o4]; auto simp: exchanged_def)
      (rule same_outside_mono [OF conjunct1 [OF conjunct2 [OF rw]]]; auto)
  then have "same_outside {p. sync_path_allowed p} w w'" by (rule same_outside_trans)
  moreover have "audit_carried c (epoch_key s) ek w w'"
    using rw same by (simp add: audit_carried_def)
  moreover have "hm_get (files w') p = payload_at c fs p" if "p \<in> exchanged (snap_version snap)" for p
    using same_outsideD(1) [OF conjunct1 [OF conjunct2 [OF rw]], of p] that pay True by (auto simp: exchanged_def)
  ultimately show ?thesis using rw True by (auto simp: installed_def audit_progress_def)
next
  case False
  then have w': "w' = w4" "r = Inr ()" using assms(1) by (auto split: if_splits)
  have "same_outside {p. sync_path_allowed p} w w4"
    by (rule same_outside_mono [OF o4]) (auto simp: exchanged_def)
  moreover have "hm_get (files w4) p = hm_get (files w) p" if "snap_version snap = 2" "in_audit p" for p
    using same_outsideD(1) [OF o4, of p] that by (auto simp: exchanged_def)
  ultimately show ?thesis using pay False by (auto simp: w' installed_def audit_progress_def)
qed

lemma install_files_any:
  assumes run: "install_files c s w = (r, w')" and c: "platform_ok c" and wf: "hm_wf (files w)"
    and j: "hm_get (files w) PENDING = Some b" and d: "decode_snapshot c s b = Inr (snap, fs)"
    and k: "unwrap_epoch_and_index_keys c (root_key s) (snap_header snap) UnlockFailed = Inr (ek, ik)"
  shows "same_outside {p. sync_path_allowed p} w w' \<and>
    audit_progress c s snap ek w w' \<and>
    (\<forall>h. r = Inr h \<longrightarrow> h = snap_header snap \<and> installed c s snap fs ek w')"
proof -
  let ?v = "snap_version snap"
  have v12: "?v = 1 \<or> ?v = 2" using d by (auto simp: decode_snapshot_Inr parse_snapshot_def and_then_Inr split: if_splits)
  note chk = checked_portable [OF d]
  have paths: "relative_path ` set fs \<subseteq> exchanged ?v" using chk(2,4) v12 by (auto simp: exchanged_def)
  have stop: ?thesis if "same_outside (exchanged ?v) w w'" "\<exists>e. r = Inl e"
  proof -
    have "same_outside {p. sync_path_allowed p} w w'"
      by (rule same_outside_mono [OF that(1)]) (auto simp: exchanged_def)
    moreover have "hm_get (files w') p = hm_get (files w) p" if "?v = 2" "in_audit p" for p
      using same_outsideD(1) [OF \<open>same_outside (exchanged ?v) w w'\<close>, of p] that by (auto simp: exchanged_def)
    then have "audit_progress c s snap ek w w'"
      by (auto simp: audit_progress_def audit_carried_def option.rel_refl)
    ultimately show ?thesis using that(2) by auto
  qed
  obtain r1 w1 where s1: "read_file PENDING w = (r1, w1)" by (cases "read_file PENDING w")
  have f1: "files w1 = files w" using read_file_files [OF s1] .
  show ?thesis
  proof (cases r1)
    case (Inl e)
    with run s1 have "r = Inl e" "w' = w1" by (simp_all add: install_files_def bind_def)
    with f1 show ?thesis by (intro stop) (auto simp: same_outside_def)
  next
    case (Inr b1)
    then have s1': "read_file PENDING w = (Inr b, w1)" using read_file_Inr s1 j by fastforce
    obtain r2 w2 where s2: "exchange_files c snap fs w1 = (r2, w2)" by (cases "exchange_files c snap fs w1")
    have o2: "same_outside (exchanged ?v) w w2"
      using exchange_any [OF s2 paths] f1 by (simp add: same_outside_def)
    show ?thesis
    proof (cases r2)
      case (Inl e)
      with run s1' d s2 have "r = Inl e" "w' = w2" by (simp_all add: install_files_def bind_def lift_def)
      with o2 show ?thesis by (intro stop) auto
    next
      case (Inr u2)
      then have s2': "exchange_files c snap fs w1 = (Inr (), w2)" using s2 by simp
      have pay: "hm_get (files w2) p = payload_at c fs p" if "p \<in> exchanged ?v" for p
        using exchange_Inr [OF s2' _ chk(1) v12 that] wf f1 by simp
      obtain r3 w3 where s3: "(if ?v = 2 \<and> current_epoch (snap_header snap) \<noteq> current_epoch (s_header s)
          then rewrap_local_audit c s (snap_header snap) else yield ()) w2 = (r3, w3)" by fastforce
      note rw = rewrap_step [OF s3 c same_outsideD(2) [OF o2 wf] o2 k pay]
      have "w' = w3" "r = (case r3 of Inl e \<Rightarrow> Inl e | Inr _ \<Rightarrow> Inr (snap_header snap))"
        using run s1' d s2' s3
        by (cases r3; simp add: install_files_def bind_def lift_def yield_def)+
      with rw show ?thesis by (cases r3) auto
    qed
  qed
qed

section \<open>Committing or failing\<close>

definition session_on :: "session \<Rightarrow> vault_header \<Rightarrow> epoch_key \<Rightarrow> bytes \<Rightarrow> session" where
  "session_on s h ek ik = s\<lparr>s_header := h, epoch_key := ek, index_key := ik\<rparr>"

definition same_files :: "world \<Rightarrow> world \<Rightarrow> bool" where
  "same_files w w' \<longleftrightarrow> (\<forall>p. hm_get (files w') p = hm_get (files w) p)"

abbreviation vault_files :: "path set" where
  "vault_files \<equiv> {p. sync_path_allowed p} \<union> {manifest}"

lemma read_header_Inr:
  assumes "read_header c p w = (Inr h', v)" "hm_get (files w) p = Some (header_pretty c h)" "platform_ok c"
  shows "h' = h \<and> files v = files w"
  using assms by (auto simp: read_header_def bind_Inr ok_or_Inr platform_ok_def dest!: read_file_Inr)

lemma reload_Inr:
  assumes "reload_from_disk c s w = (Inr s', w')" "platform_ok c"
    and "hm_get (files w) manifest = Some (header_pretty c h)"
    and "unwrap_epoch_and_index_keys c (root_key s) h UnlockFailed = Inr (ek, ik)"
  shows "s' = session_on s h ek ik"
proof -
  from assms(1) obtain h' v where r: "read_header c manifest w = (Inr h', v)"
    and rest: "bind (lift (unwrap_epoch_and_index_keys c (root_key s) h' UnlockFailed))
      (\<lambda>(ek, ik). yield (s\<lparr>s_header := h', epoch_key := ek, index_key := ik\<rparr>)) v = (Inr s', w')"
    by (auto simp: reload_from_disk_def bind_Inr split: if_splits)
  have "h' = h" using read_header_Inr [OF r assms(3,2)] by simp
  with rest assms(4) show ?thesis by (simp add: bind_def lift_def session_on_def)
qed

text \<open>An attempt that did not commit, and one that did.\<close>

definition not_committed ::
  "platform \<Rightarrow> session \<Rightarrow> vault_snapshot \<Rightarrow> export_file list \<Rightarrow> epoch_key \<Rightarrow> world \<Rightarrow> world \<Rightarrow> bool" where
  "not_committed c s snap fs ek w w' \<longleftrightarrow>
    hm_wf (files w') \<and> same_outside vault_files w w' \<and> audit_progress c s snap ek w w' \<and>
    (hm_get (files w') manifest = hm_get (files w) manifest \<or>
     hm_get (files w') manifest = Some (header_pretty c (snap_header snap)) \<and> installed c s snap fs ek w')"

definition committed ::
  "platform \<Rightarrow> session \<Rightarrow> vault_snapshot \<Rightarrow> export_file list \<Rightarrow> epoch_key \<Rightarrow> world \<Rightarrow> world \<Rightarrow> bool" where
  "committed c s snap fs ek w w' \<longleftrightarrow>
    hm_wf (files w') \<and> same_outside (insert PENDING vault_files) w w' \<and> audit_progress c s snap ek w w' \<and>
    hm_get (files w') manifest = Some (header_pretty c (snap_header snap)) \<and> installed c s snap fs ek w'"

lemma installed_cong:
  assumes "installed c s snap fs ek w" "\<And>p. sync_path_allowed p \<Longrightarrow> hm_get (files w') p = hm_get (files w) p"
  shows "installed c s snap fs ek w'"
  using assms by (auto simp: installed_def exchanged_def)

lemma audit_progress_cong:
  assumes "audit_progress c s snap ek w0 w" "\<And>p. sync_path_allowed p \<Longrightarrow> hm_get (files w') p = hm_get (files w) p"
  shows "audit_progress c s snap ek w0 w'"
  using assms by (auto simp: audit_progress_def audit_carried_def split: if_splits)

lemma committedI:
  assumes nc: "not_committed c s snap fs ek w w1" and o: "same_outside {PENDING} w1 w3"
    and m: "hm_get (files w1) manifest = Some (header_pretty c (snap_header snap))" "installed c s snap fs ek w1"
  shows "committed c s snap fs ek w w3"
proof -
  have get: "hm_get (files w3) p = hm_get (files w1) p" if "p \<noteq> PENDING" for p
    using same_outsideD(1) [OF o, of p] that by simp
  have allowed: "hm_get (files w3) p = hm_get (files w1) p" if "sync_path_allowed p" for p
    by (rule get) (use that in auto)
  have "same_outside (insert PENDING vault_files) w w1" "same_outside (insert PENDING vault_files) w1 w3"
    using nc same_outside_mono [OF o, of "insert PENDING vault_files"]
    by (auto simp: not_committed_def elim: same_outside_mono)
  then have "same_outside (insert PENDING vault_files) w w3" by (rule same_outside_trans)
  moreover have "hm_wf (files w3)" using same_outsideD(2) [OF o] nc by (simp add: not_committed_def)
  moreover have "audit_progress c s snap ek w w3"
    using nc by (intro audit_progress_cong [OF _ allowed]) (simp add: not_committed_def)
  ultimately show ?thesis
    using m(1) get [of manifest] installed_cong [OF m(2) allowed] by (simp add: committed_def)
qed

lemma not_committed_cong:
  assumes nc: "not_committed c s snap fs ek w w1" and o: "same_outside {} w1 w2"
  shows "not_committed c s snap fs ek w w2"
proof -
  have get: "hm_get (files w2) p = hm_get (files w1) p" for p using same_outsideD(1) [OF o, of p] by simp
  have "same_outside vault_files w w2"
    using nc same_outside_mono [OF o, of vault_files]
    by (auto simp: not_committed_def intro: same_outside_trans)
  moreover have "hm_wf (files w2)" using same_outsideD(2) [OF o] nc by (simp add: not_committed_def)
  moreover have "audit_progress c s snap ek w w2"
    using nc by (intro audit_progress_cong [OF _ get]) (simp add: not_committed_def)
  moreover have "installed c s snap fs ek w1 \<Longrightarrow> installed c s snap fs ek w2" by (rule installed_cong [OF _ get])
  ultimately show ?thesis using nc get [of manifest] by (auto simp: not_committed_def)
qed

lemma install_snapshot_any:
  assumes run: "install_snapshot c s w = (r, w')" and c: "platform_ok c" and wf: "hm_wf (files w)"
    and j: "hm_get (files w) PENDING = Some b" and d: "decode_snapshot c s b = Inr (snap, fs)"
    and k: "unwrap_epoch_and_index_keys c (root_key s) (snap_header snap) UnlockFailed = Inr (ek, ik)"
  shows "not_committed c s snap fs ek w w' \<and>
    (r = Inr () \<longrightarrow> hm_get (files w') manifest = Some (header_pretty c (snap_header snap)) \<and> installed c s snap fs ek w')"
proof -
  obtain r1 w1 where s1: "install_files c s w = (r1, w1)" by (cases "install_files c s w")
  note in1 = install_files_any [OF s1 c wf j d k]
  have o1: "same_outside vault_files w w1" using in1 by (blast intro: same_outside_mono)
  show ?thesis
  proof (cases r1)
    case (Inl e)
    then have "w' = w1" "r = Inl e" using run s1 by (simp_all add: install_snapshot_def bind_def)
    with in1 o1 show ?thesis
      using same_outsideD(1) [of "{p. sync_path_allowed p}" w w1 manifest] same_outsideD(2) [OF o1 wf]
      by (simp add: not_committed_def)
  next
    case (Inr h)
    with in1 have h: "h = snap_header snap" and ins: "installed c s snap fs ek w1" by auto
    let ?m = "header_pretty c (snap_header snap)"
    have wr: "atomic_write_bytes manifest ?m w1 = (r, w')"
      using run s1 Inr h by (simp add: install_snapshot_def bind_def write_header_def)
    have o2: "same_outside {manifest} w1 w'" by (rule touchesD [OF touches_write wr]) simp
    then have eq: "hm_get (files w') p = hm_get (files w1) p" if "sync_path_allowed p" for p
      using that by (auto dest: same_outsideD(1) [of _ _ _ p])
    have o: "same_outside vault_files w w'"
      by (rule same_outside_trans [OF o1 same_outside_mono [OF o2]]) simp
    have man: "hm_get (files w') manifest = hm_get (files w) manifest \<or> hm_get (files w') manifest = Some ?m"
      using write_Inr [of manifest ?m w1 _ w'] write_Inl [of manifest ?m w1 _ w'] wr in1
        same_outsideD(1) [of "{p. sync_path_allowed p}" w w1 manifest]
      by (cases r) auto
    have "r = Inr () \<Longrightarrow> hm_get (files w') manifest = Some ?m" using wr write_Inr by fastforce
    moreover have "not_committed c s snap fs ek w w'"
      using o same_outsideD(2) [OF o wf] in1 man installed_cong [OF ins eq] audit_progress_cong [of c s snap ek w w1 w'] eq
      by (auto simp: not_committed_def)
    ultimately show ?thesis using installed_cong [OF ins eq] by blast
  qed
qed

lemma finish_any:
  assumes run: "finish_pending_sync c s w = (r, s', w')" and c: "platform_ok c" and wf: "hm_wf (files w)"
    and j: "hm_get (files w) PENDING = Some b" and d: "decode_snapshot c s b = Inr (snap, fs)"
    and k: "unwrap_epoch_and_index_keys c (root_key s) (snap_header snap) UnlockFailed = Inr (ek, ik)"
  obtains (short) e where "r = Inl e" "s' = s" "not_committed c s snap fs ek w w'" "hm_get (files w') PENDING = Some b"
  | (whole) "s' = session_on s (snap_header snap) ek ik" "committed c s snap fs ek w w'"
      "hm_get (files w') PENDING = None \<or> (\<exists>e. r = Inl e) \<and> hm_get (files w') PENDING = Some b"
proof -
  obtain r1 w1 where s1: "install_snapshot c s w = (r1, w1)" by (cases "install_snapshot c s w")
  note in1 = install_snapshot_any [OF s1 c wf j d k]
  have p1: "hm_get (files w1) PENDING = Some b"
    using in1 j same_outsideD(1) [of vault_files w w1 PENDING] by (simp add: not_committed_def)
  have ex: "path_exists PENDING w" using j by (simp add: path_exists_def)
  show thesis
  proof (cases r1)
    case (Inl e)
    then have "r = Inl e" "s' = s" "w' = w1" using run s1 ex by (simp_all add: finish_pending_sync_def bind_def)
    then show thesis using in1 p1 by (intro short) simp_all
  next
    case (Inr u)
    then have s1': "install_snapshot c s w = (Inr (), w1)" using s1 by simp
    with in1 s1 have m1: "hm_get (files w1) manifest = Some (header_pretty c (snap_header snap))"
      "installed c s snap fs ek w1" by auto
    obtain r2 w2 where s2: "reload_from_disk c s w1 = (r2, w2)" by (cases "reload_from_disk c s w1")
    have o2: "same_outside {} w1 w2" by (rule touchesD [OF touches_reload s2])
    then have f2: "hm_get (files w2) p = hm_get (files w1) p" for p by (simp add: same_outside_def)
    have nc2: "not_committed c s snap fs ek w w2" using in1 not_committed_cong [OF _ o2] by blast
    show thesis
    proof (cases r2)
      case (Inl e)
      then have "r = Inl e" "s' = s" "w' = w2" using run s1' s2 ex by (simp_all add: finish_pending_sync_def bind_def)
      then show thesis using nc2 p1 f2 [of PENDING] by (intro short) simp_all
    next
      case (Inr s2')
      have s': "s2' = session_on s (snap_header snap) ek ik" by (rule reload_Inr [OF s2 [unfolded Inr] c m1(1) k])
      obtain r3 w3 where s3: "remove_file PENDING w2 = (r3, w3)" by (cases "remove_file PENDING w2")
      have fin: "r = r3" "s' = s2'" "w' = w3"
        using run s1' s2 Inr ex s3 by (simp_all add: finish_pending_sync_def bind_def)
      have o3: "same_outside {PENDING} w2 w3" by (rule touchesD [OF touches_remove s3]) simp
      have com: "committed c s snap fs ek w w3"
      proof (rule committedI [OF conjunct1 [OF in1] _ m1])
        show "same_outside {PENDING} w1 w3"
          using same_outside_mono [OF o2, of "{PENDING}"] o3 by (blast intro: same_outside_trans)
      qed
      have "hm_get (files w3) PENDING = None \<or> (\<exists>e. r3 = Inl e) \<and> hm_get (files w3) PENDING = Some b"
        using remove_Inr [of PENDING w2 _ w3] remove_Inl [of PENDING w2 _ w3] s3 p1 f2 [of PENDING] by (cases r3) auto
      then show thesis using s' com fin by (intro whole) simp_all
    qed
  qed
qed

section \<open>Applying a snapshot\<close>

text \<open>The rollback journal: it decodes, and its files are those on disk when it was written.\<close>

definition restores :: "platform \<Rightarrow> session \<Rightarrow> world \<Rightarrow> vault_snapshot \<Rightarrow> export_file list \<Rightarrow> bool" where
  "restores c s w osnap ofs \<longleftrightarrow>
    snap_version osnap = 1 \<and> snap_header osnap = s_header s \<and>
    (\<forall>p. sync_path_allowed p \<longrightarrow> payload_at c ofs p = hm_get (files w) p)"

lemma ready_header:
  assumes "ready c s w"
  shows "validate_header (s_header s) = Inr ()" "validate_import_kdf (h_kdf (s_header s)) = Inr ()"
    "unwrap_epoch_and_index_keys c (root_key s) (s_header s) UnlockFailed = Inr (epoch_key s, index_key s)"
    "hm_wf (files w)" "hm_get (files w) manifest = Some (header_pretty c (s_header s))"
  using assms by (simp_all add: ready_def)

text \<open>What a vault in order exports, it accepts.\<close>

lemma exported_decodes:
  assumes l: "sync_files c inc w = (Inr fs, w1)" and e: "encode_snapshot c s (s_header s) fs ps version w1 = (Inr b, w')"
    and c: "platform_ok c" and rdy: "ready c s w" and v: "version = 1 \<or> version = 2 \<and> \<not> inc"
    and ps: "\<not> list_ex bad_parent ps"
  shows "\<exists>snap. decode_snapshot c s b = Inr (snap, fs) \<and> snap_version snap = version \<and> snap_header snap = s_header s \<and>
    (\<forall>p. sync_path_allowed p \<and> (inc \<or> \<not> in_audit p) \<longrightarrow> payload_at c fs p = hm_get (files w) p)"
proof -
  note hdr = ready_header [OF rdy]
  have sound: "\<And>p b. hm_get (files w) p = Some b \<Longrightarrow> sync_path_allowed p \<Longrightarrow>
      portable p \<and> sound_file c (h_vault_id (s_header s)) (epoch_key s) p b"
    using rdy by (simp add: ready_def)
  from sync_files_Inr [OF l hdr(4) c] have d: "distinct (map relative_path fs)"
    and names: "relative_path ` set fs = {p. hm_get (files w) p \<noteq> None \<and> sync_path_allowed p \<and> (inc \<or> \<not> in_audit p)}"
    and dec: "\<And>f. f \<in> set fs \<Longrightarrow> b64_decode (prims c) (bytes_b64 f) = hm_get (files w) (relative_path f)"
    by simp_all
  have each: "sync_path_allowed (relative_path f)" "inc \<or> \<not> in_audit (relative_path f)" "portable (relative_path f)"
      "\<exists>b. hm_get (files w) (relative_path f) = Some b \<and> sound_file c (h_vault_id (s_header s)) (epoch_key s) (relative_path f) b"
    if "f \<in> set fs" for f
  proof -
    have "relative_path f \<in> {p. hm_get (files w) p \<noteq> None \<and> sync_path_allowed p \<and> (inc \<or> \<not> in_audit p)}"
      using that names by blast
    then obtain b where "hm_get (files w) (relative_path f) = Some b" "sync_path_allowed (relative_path f)"
      and "inc \<or> \<not> in_audit (relative_path f)" by auto
    with sound show "sync_path_allowed (relative_path f)" "inc \<or> \<not> in_audit (relative_path f)" "portable (relative_path f)"
      "\<exists>b. hm_get (files w) (relative_path f) = Some b \<and> sound_file c (h_vault_id (s_header s)) (epoch_key s) (relative_path f) b"
      by blast+
  qed
  have port: "list_all (\<lambda>f. portable (relative_path f)) fs" using each(3) by (simp add: list_all_iff)
  obtain snap where snap: "snap_version snap = version" "snap_header snap = s_header s"
      "decode_snapshot c s b = and_then (check_files c snap (epoch_key s) {} fs) (\<lambda>_. Inr (snap, fs))"
    using decode_encoded [OF c port e _ hdr(1,2) ps refl hdr(3)] v by auto
  have "check_files c snap (epoch_key s) {} fs = Inr ()"
    using d each dec snap v by (auto simp: check_files_iff check_file_iff)
  moreover have "payload_at c fs p = hm_get (files w) p" if "sync_path_allowed p" "inc \<or> \<not> in_audit p" for p
  proof (cases "p \<in> relative_path ` set fs")
    case True
    then obtain f where "f \<in> set fs" "p = relative_path f" by blast
    with payload_at_mem [OF d] dec show ?thesis by simp
  next
    case False
    with names that payload_at_None [OF False] show ?thesis by auto
  qed
  ultimately show ?thesis using snap by auto
qed

lemma exported_journal:
  assumes "export_sync_snapshot c s w = (Inr b, w')" "platform_ok c" "ready c s w"
  shows "\<exists>osnap ofs. decode_snapshot c s b = Inr (osnap, ofs) \<and> restores c s w osnap ofs"
proof -
  from assms(1) obtain fs w1 where l: "sync_files c True w = (Inr fs, w1)"
    and e: "encode_snapshot c s (s_header s) fs [] 1 w1 = (Inr b, w')"
    by (auto simp: export_sync_snapshot_def bind_Inr)
  from exported_decodes [OF l e assms(2,3)] show ?thesis by (auto simp: restores_def)
qed

text \<open>
  Interrupted: the journal is in place and decodes.  It is the new snapshot, some of which may
  be installed, or the rollback to the state before.
\<close>

definition interrupted :: "platform \<Rightarrow> session \<Rightarrow> bytes \<Rightarrow> world \<Rightarrow> world \<Rightarrow> bool" where
  "interrupted c s b w w' \<longleftrightarrow>
    hm_wf (files w') \<and> same_outside (insert PENDING vault_files) w w' \<and>
    (\<exists>snap fs ek ik. decode_snapshot c s b = Inr (snap, fs) \<and>
      unwrap_epoch_and_index_keys c (root_key s) (snap_header snap) UnlockFailed = Inr (ek, ik) \<and>
      (hm_get (files w') manifest = hm_get (files w) manifest \<or>
       hm_get (files w') manifest = Some (header_pretty c (snap_header snap))) \<and>
      (hm_get (files w') PENDING = Some b \<and> audit_progress c s snap ek w w' \<and>
         (hm_get (files w') manifest = hm_get (files w) manifest \<or> installed c s snap fs ek w') \<or>
       (\<exists>j osnap ofs. hm_get (files w') PENDING = Some j \<and> decode_snapshot c s j = Inr (osnap, ofs) \<and>
         restores c s w osnap ofs)))"

lemma touches_read_files [act]: "touches R (read_files c ps)"
  by (induction ps) (auto intro!: act)

lemma touches_export [act]: "touches R (export_sync_snapshot c s)"
  unfolding export_sync_snapshot_def sync_files_def encode_snapshot_def by (intro act)

lemma same_outside_empty: "same_outside {} w w' \<Longrightarrow> same_outside R w w'"
  by (auto simp: same_outside_def)

lemma write_outside:
  "files w' = hm_put p b (files w) \<Longrightarrow> same_outside {p} w w' \<and> hm_get (files w') p = Some b"
  "files w' = files w \<Longrightarrow> same_outside R w w'"
  by (auto simp: same_outside_def)

lemma same_outside_files: "same_outside {} w w' \<Longrightarrow> same_files w w'"
  by (simp add: same_outside_def same_files_def)

lemma journal_any:
  assumes "journal c s b w = (r, w')" "platform_ok c" "ready c s w"
  obtains (untouched) e where "r = Inl e" "same_files w w'"
  | (torn) e snap fs where "r = Inl e" "decode_snapshot c s b = Inr (snap, fs)" "same_outside {PENDING} w w'"
      "hm_get (files w') PENDING = Some b"
  | (written) original snap fs osnap ofs where "r = Inr original" "decode_snapshot c s b = Inr (snap, fs)"
      "decode_snapshot c s original = Inr (osnap, ofs)" "restores c s w osnap ofs"
      "same_outside {PENDING} w w'" "hm_get (files w') PENDING = Some b" "hm_get (files w) PENDING = None"
proof (cases "decode_snapshot c s b")
  case (Inl e)
  then have "r = Inl e" "w' = w" using assms(1) by (simp_all add: journal_def bind_def lift_def)
  then show thesis by (intro untouched) (auto simp: same_files_def)
next
  case d: (Inr sf)
  obtain snap fs where sf: "sf = (snap, fs)" by (cases sf)
  show thesis
  proof (cases "path_exists PENDING w")
    case True
    then have "r = Inl IoError" "w' = w"
      using assms(1) d by (simp_all add: journal_def bind_def lift_def ensure_sync_ready_def)
    then show thesis by (intro untouched) (auto simp: same_files_def)
  next
    case False
    obtain r1 w1 where e: "export_sync_snapshot c s w = (r1, w1)" by (cases "export_sync_snapshot c s w")
    have o1: "same_outside {} w w1" by (rule touchesD [OF touches_export e])
    show thesis
    proof (cases r1)
      case (Inl e')
      then have "r = Inl e'" "w' = w1"
        using assms(1) d False e by (simp_all add: journal_def bind_def lift_def ensure_sync_ready_def)
      then show thesis using same_outside_files [OF o1] by (intro untouched) simp_all
    next
      case (Inr original)
      obtain r2 w2 where wr: "atomic_write_bytes PENDING b w1 = (r2, w2)" by (cases "atomic_write_bytes PENDING b w1")
      have w': "w' = w2" "r = (case r2 of Inl e \<Rightarrow> Inl e | Inr _ \<Rightarrow> Inr original)"
        using assms(1) d False e Inr wr
        by (cases r2; simp add: journal_def bind_def lift_def ensure_sync_ready_def yield_def)+
      obtain osnap ofs where o: "decode_snapshot c s original = Inr (osnap, ofs)" "restores c s w osnap ofs"
        using exported_journal [OF e [unfolded Inr] assms(2,3)] by blast
      show thesis
      proof (cases r2)
        case (Inl e2)
        then consider "files w2 = files w1" | "files w2 = hm_put PENDING b (files w1)"
          using write_Inl wr by metis
        then show thesis
        proof cases
          case 1
          then have "same_files w w2" using same_outside_files [OF o1] by (simp add: same_files_def)
          then show thesis using w' Inl by (intro untouched) simp_all
        next
          case 2
          from write_outside(1) [OF this] same_outside_empty [OF o1, of "{PENDING}"]
          have "same_outside {PENDING} w w2" "hm_get (files w2) PENDING = Some b"
            by (blast intro: same_outside_trans)+
          then show thesis using w' Inl d sf by (intro torn) simp_all
        qed
      next
        case (Inr u)
        then have "files w2 = hm_put PENDING b (files w1)" using write_Inr wr by metis
        from write_outside(1) [OF this] same_outside_empty [OF o1, of "{PENDING}"]
        have "same_outside {PENDING} w w2" "hm_get (files w2) PENDING = Some b"
          by (blast intro: same_outside_trans)+
        then show thesis using w' Inr d sf o False by (intro written) (simp_all add: path_exists_def)
      qed
    qed
  qed
qed

lemma restored_files:
  assumes com: "committed c s1 osnap ofs ek w1 w2" and res: "restores c s w osnap ofs" and rdy: "ready c s w"
    and o: "same_outside (insert PENDING vault_files) w w1"
    and "hm_get (files w) PENDING = None" "hm_get (files w2) PENDING = None"
  shows "same_files w w2"
proof -
  have "hm_get (files w2) p = hm_get (files w) p" for p
  proof -
    consider "p = PENDING" | "p = manifest" | "sync_path_allowed p" | "p \<notin> insert PENDING vault_files" by auto
    then show ?thesis
    proof cases
      case 1
      with assms(5,6) show ?thesis by simp
    next
      case 2
      with com res rdy show ?thesis by (simp add: committed_def restores_def ready_def)
    next
      case 3
      with com res show ?thesis by (simp add: committed_def restores_def installed_def exchanged_def)
    next
      case 4
      with com same_outsideD(1) [OF o 4] show ?thesis
        using same_outsideD(1) [of "insert PENDING vault_files" w1 w2 p] by (simp add: committed_def)
    qed
  qed
  then show ?thesis by (simp add: same_files_def)
qed

lemma roll_back_any:
  assumes run: "roll_back c e original s1 w1 = (r, s2, w2)" and c: "platform_ok c" and rdy: "ready c s w"
    and d: "decode_snapshot c s original = Inr (osnap, ofs)" and res: "restores c s w osnap ofs"
    and s1: "root_key s1 = root_key s" "h_vault_id (s_header s1) = h_vault_id (s_header s)"
      "session_on s1 (s_header s) (epoch_key s) (index_key s) = s"
    and wf: "hm_wf (files w1)" and o: "same_outside (insert PENDING vault_files) w w1"
    and none: "hm_get (files w) PENDING = None"
  shows "(\<exists>x. r = Inl x) \<and>
    (s2 = s1 \<and> files w2 = files w1 \<or>
     s2 = s \<and> same_files w w2 \<or>
     hm_wf (files w2) \<and> same_outside (insert PENDING vault_files) w w2 \<and> hm_get (files w2) PENDING = Some original \<and>
       (hm_get (files w2) manifest = hm_get (files w1) manifest \<or> hm_get (files w2) manifest = hm_get (files w) manifest))"
proof -
  obtain ra wa where wr: "atomic_write_bytes PENDING original w1 = (ra, wa)" by (cases "atomic_write_bytes PENDING original w1")
  have oa: "same_outside {PENDING} w1 wa" by (rule touchesD [OF touches_write wr]) simp
  have wfa: "hm_wf (files wa)" and ma: "hm_get (files wa) manifest = hm_get (files w1) manifest"
    using same_outsideD(2) [OF oa wf] same_outsideD(1) [OF oa, of manifest] by simp_all
  have oa': "same_outside (insert PENDING vault_files) w wa"
    using o same_outside_mono [OF oa, of "insert PENDING vault_files"] by (blast intro: same_outside_trans)
  show ?thesis
  proof (cases ra)
    case (Inl x)
    then have r: "r = Inl x" "s2 = s1" "w2 = wa" using run wr by (simp_all add: roll_back_def)
    from Inl wr consider "files wa = files w1" | "files wa = hm_put PENDING original (files w1)"
      using write_Inl by blast
    then show ?thesis
    proof cases
      case 2
      with r wfa oa' ma show ?thesis by simp
    qed (use r in simp)
  next
    case (Inr u)
    have fa: "files wa = hm_put PENDING original (files w1)" by (rule write_Inr [OF wr [unfolded Inr]])
    obtain rb sb wb where fin: "finish_pending_sync c s1 wa = (rb, sb, wb)" by (rule prod_cases3)
    have "roll_back c e original s1 w1 = (case rb of Inl x \<Rightarrow> Inl x | Inr _ \<Rightarrow> Inl e, sb, wb)"
      unfolding roll_back_def wr Inr sum.case prod.case fin by (simp split: sum.splits)
    with run have r: "r = (case rb of Inl x \<Rightarrow> Inl x | Inr _ \<Rightarrow> Inl e)" "s2 = sb" "w2 = wb" by simp_all
    have d1: "decode_snapshot c s1 original = Inr (osnap, ofs)" unfolding decode_other_session [OF s1(1,2)] by (rule d)
    have hdr: "snap_header osnap = s_header s" using res by (simp add: restores_def)
    have k: "unwrap_epoch_and_index_keys c (root_key s1) (snap_header osnap) UnlockFailed = Inr (epoch_key s, index_key s)"
      using rdy unfolding hdr s1(1) by (simp add: ready_def)
    have man: "hm_get (files w) manifest = Some (header_pretty c (s_header s))" using rdy by (simp add: ready_def)
    have pa: "hm_get (files wa) PENDING = Some original" by (simp add: fa)
    from fin c wfa pa d1 k show ?thesis
    proof (cases rule: finish_any)
      case (short x)
      have "same_outside (insert PENDING vault_files) w wb"
        using oa' same_outside_mono [of vault_files wa wb "insert PENDING vault_files"] short(3)
        by (intro same_outside_trans [of _ w wa wb]) (auto simp: not_committed_def)
      moreover have "hm_wf (files wb)" "hm_get (files wb) manifest = hm_get (files w1) manifest \<or>
          hm_get (files wb) manifest = hm_get (files w) manifest"
        using short(3) ma man hdr by (auto simp: not_committed_def)
      ultimately show ?thesis using short(1,4) r by simp
    next
      case whole
      have "same_outside (insert PENDING vault_files) w wb"
        using oa' whole(2) by (intro same_outside_trans [of _ w wa wb]) (simp_all add: committed_def)
      moreover have "sb = s" using whole(1) s1(3) hdr by simp
      moreover have "hm_get (files wb) PENDING = None \<longrightarrow> same_files w wb"
        using restored_files [OF whole(2) res rdy oa' none] by blast
      moreover have "hm_wf (files wb)" "hm_get (files wb) manifest = hm_get (files w) manifest"
        using whole(2) man hdr by (simp_all add: committed_def)
      moreover have "\<exists>x. r = Inl x" using r by (cases rb) simp_all
      moreover have "hm_get (files wb) PENDING = None \<or> hm_get (files wb) PENDING = Some original"
        using whole(3) by blast
      ultimately show ?thesis unfolding r(2,3) by (elim disjE) simp_all
    qed
  qed
qed

text \<open>The snapshot is in force: its files and manifest are on disk, the session runs on its header.\<close>

definition in_force :: "platform \<Rightarrow> session \<Rightarrow> bytes \<Rightarrow> world \<Rightarrow> session \<Rightarrow> world \<Rightarrow> bool" where
  "in_force c s b w s' w' \<longleftrightarrow>
    (\<exists>snap fs ek ik. decode_snapshot c s b = Inr (snap, fs) \<and>
      unwrap_epoch_and_index_keys c (root_key s) (snap_header snap) UnlockFailed = Inr (ek, ik) \<and>
      s' = session_on s (snap_header snap) ek ik \<and> committed c s snap fs ek w w' \<and> \<not> path_exists PENDING w')"

lemma progress_from:
  assumes "audit_progress c s snap ek w1 w2" "same_outside {PENDING} w w1"
  shows "audit_progress c s snap ek w w2"
proof -
  have "hm_get (files w1) p = hm_get (files w) p" if "sync_path_allowed p" for p
    using same_outsideD(1) [OF assms(2), of p] that PENDING_not_allowed(1) by (cases "p = PENDING") simp_all
  with assms(1) show ?thesis by (auto simp: audit_progress_def audit_carried_def split: if_splits)
qed

lemma committed_from:
  assumes "committed c s snap fs ek w1 w2" "same_outside {PENDING} w w1"
  shows "committed c s snap fs ek w w2"
proof -
  have "same_outside (insert PENDING vault_files) w w1"
    using assms(2) by (rule same_outside_mono) simp
  moreover have "same_outside (insert PENDING vault_files) w1 w2" using assms(1) by (simp add: committed_def)
  ultimately have "same_outside (insert PENDING vault_files) w w2" by (rule same_outside_trans)
  then show ?thesis using assms(1) progress_from [OF _ assms(2)] by (auto simp: committed_def)
qed

lemma interruptedI:
  assumes "decode_snapshot c s b = Inr (snap, fs)"
    and "unwrap_epoch_and_index_keys c (root_key s) (snap_header snap) UnlockFailed = Inr (ek, ik)"
    and "hm_wf (files w')" "same_outside (insert PENDING vault_files) w w'"
    and "hm_get (files w') manifest = hm_get (files w) manifest \<or>
       hm_get (files w') manifest = Some (header_pretty c (snap_header snap))"
    and "hm_get (files w') PENDING = Some b \<and> audit_progress c s snap ek w w' \<and>
         (hm_get (files w') manifest = hm_get (files w) manifest \<or> installed c s snap fs ek w') \<or>
       (\<exists>j osnap ofs. hm_get (files w') PENDING = Some j \<and> decode_snapshot c s j = Inr (osnap, ofs) \<and>
         restores c s w osnap ofs)"
  shows "interrupted c s b w w'"
  using assms unfolding interrupted_def by blast

lemma session_on_back:
  "ready c s w \<Longrightarrow> session_on (session_on s h ek ik) (s_header s) (epoch_key s) (index_key s) = s"
  by (simp add: session_on_def)

lemma decode_unwraps:
  assumes "decode_snapshot c s b = Inr (snap, fs)"
  obtains ek ik where "unwrap_epoch_and_index_keys c (root_key s) (snap_header snap) UnlockFailed = Inr (ek, ik)"
    "h_vault_id (snap_header snap) = h_vault_id (s_header s)"
  using assms by (auto simp: decode_snapshot_Inr)

text \<open>What a failed commit followed by the rollback leaves.\<close>

lemma failed_commit:
  assumes c: "platform_ok c" and rdy: "ready c s w"
    and d: "decode_snapshot c s b = Inr (snap, fs)" "decode_snapshot c s original = Inr (osnap, ofs)" "restores c s w osnap ofs"
    and k: "unwrap_epoch_and_index_keys c (root_key s) (snap_header snap) UnlockFailed = Inr (ek, ik)"
    and w1: "same_outside {PENDING} w w1" "hm_get (files w1) PENDING = Some b" "hm_get (files w) PENDING = None"
    and fin: "finish_pending_sync c s w1 = (Inl e, s2, w2)" and rb: "roll_back c e original s2 w2 = (r, s3, w3)"
  shows "\<exists>x. r = Inl x"
    "s3 = s \<and> same_files w w3 \<or> in_force c s b w s3 w3 \<or> interrupted c s b w w3"
proof -
  have wf1: "hm_wf (files w1)" using rdy same_outsideD(2) [OF w1(1)] by (simp add: ready_def)
  have m1: "hm_get (files w1) manifest = hm_get (files w) manifest" using same_outsideD(1) [OF w1(1)] by simp
  have vid: "h_vault_id (snap_header snap) = h_vault_id (s_header s)" using d(1) by (rule decode_unwraps)
  have s2: "root_key s2 = root_key s" "h_vault_id (s_header s2) = h_vault_id (s_header s)"
      "session_on s2 (s_header s) (epoch_key s) (index_key s) = s"
    and w2: "hm_wf (files w2)" "same_outside (insert PENDING vault_files) w w2"
      "hm_get (files w2) manifest = hm_get (files w) manifest \<or>
       hm_get (files w2) manifest = Some (header_pretty c (snap_header snap))"
    and stay: "interrupted c s b w w2 \<or> in_force c s b w s2 w2"
  proof -
    have o: "same_outside (insert PENDING vault_files) w w1"
      using w1(1) by (rule same_outside_mono) simp
    have "(root_key s2 = root_key s \<and> h_vault_id (s_header s2) = h_vault_id (s_header s) \<and>
        session_on s2 (s_header s) (epoch_key s) (index_key s) = s) \<and>
      (hm_wf (files w2) \<and> same_outside (insert PENDING vault_files) w w2 \<and>
        (hm_get (files w2) manifest = hm_get (files w) manifest \<or>
         hm_get (files w2) manifest = Some (header_pretty c (snap_header snap)))) \<and>
      (interrupted c s b w w2 \<or> in_force c s b w s2 w2)"
      using fin c wf1 w1(2) d(1) k
    proof (cases rule: finish_any)
      case (short x)
      have o2: "same_outside (insert PENDING vault_files) w w2"
        using o same_outside_mono [of vault_files w1 w2 "insert PENDING vault_files"] short(3)
        by (intro same_outside_trans [of _ w w1 w2]) (auto simp: not_committed_def)
      have "audit_progress c s snap ek w w2"
        using short(3) progress_from [OF _ w1(1)] by (simp add: not_committed_def)
      then have "interrupted c s b w w2"
        using short(3,4) m1 o2 by (intro interruptedI [OF d(1) k]) (auto simp: not_committed_def)
      then show ?thesis using short(2,3) o2 m1 by (auto simp: session_on_def not_committed_def)
    next
      case whole
      note com = committed_from [OF whole(2) w1(1)]
      have "interrupted c s b w w2 \<or> in_force c s b w s2 w2"
      proof (cases "hm_get (files w2) PENDING = None")
        case True
        then show ?thesis using com whole(1) d(1) k by (auto simp: in_force_def path_exists_def)
      next
        case False
        then have "hm_get (files w2) PENDING = Some b" using whole(3) by auto
        then have "interrupted c s b w w2"
          using com by (intro interruptedI [OF d(1) k]) (simp_all add: committed_def)
        then show ?thesis by simp
      qed
      then show ?thesis using whole(1) com vid by (simp add: committed_def session_on_def)
    qed
    then show "root_key s2 = root_key s" "h_vault_id (s_header s2) = h_vault_id (s_header s)"
      "session_on s2 (s_header s) (epoch_key s) (index_key s) = s" "hm_wf (files w2)"
      "same_outside (insert PENDING vault_files) w w2"
      "hm_get (files w2) manifest = hm_get (files w) manifest \<or>
       hm_get (files w2) manifest = Some (header_pretty c (snap_header snap))"
      "interrupted c s b w w2 \<or> in_force c s b w s2 w2" by blast+
  qed
  note undo = roll_back_any [OF rb c rdy d(2,3) s2 w2(1,2) w1(3)]
  show "\<exists>x. r = Inl x" using undo by blast
  from undo consider "s3 = s2" "files w3 = files w2" | "s3 = s" "same_files w w3"
    | "hm_wf (files w3)" "same_outside (insert PENDING vault_files) w w3" "hm_get (files w3) PENDING = Some original"
      "hm_get (files w3) manifest = hm_get (files w2) manifest \<or> hm_get (files w3) manifest = hm_get (files w) manifest"
    by blast
  then show "s3 = s \<and> same_files w w3 \<or> in_force c s b w s3 w3 \<or> interrupted c s b w w3"
  proof cases
    case 1
    then have "interrupted c s b w w3 = interrupted c s b w w2" "in_force c s b w s2 w3 = in_force c s b w s2 w2"
      by (simp_all add: interrupted_def in_force_def committed_def same_outside_def audit_progress_def
          audit_carried_def installed_def path_exists_def)
    with stay 1(1) show ?thesis by blast
  next
    case 3
    have "interrupted c s b w w3"
      using 3 w2(3) d(2,3) by (intro interruptedI [OF d(1) k]) auto
    then show ?thesis by simp
  qed simp
qed

lemma apply_outcome:
  assumes "platform_ok c" "ready c s w"
  shows "case apply_sync_snapshot c s b w of (r, s', w') \<Rightarrow>
    in_force c s b w s' w' \<or> r \<noteq> Inr () \<and> s' = s \<and> same_files w w' \<or> r \<noteq> Inr () \<and> interrupted c s b w w'"
proof -
  obtain rj w1 where j: "journal c s b w = (rj, w1)" by (cases "journal c s b w")
  obtain r s' w' where ap: "apply_sync_snapshot c s b w = (r, s', w')" by (rule prod_cases3)
  have wf: "hm_wf (files w)" using assms(2) by (simp add: ready_def)
  have "in_force c s b w s' w' \<or> r \<noteq> Inr () \<and> s' = s \<and> same_files w w' \<or> r \<noteq> Inr () \<and> interrupted c s b w w'"
    using j assms
  proof (cases rule: journal_any)
    case (untouched e)
    then have "r = Inl e" "s' = s" "w' = w1" using ap j by (simp_all add: apply_sync_snapshot_def)
    then show ?thesis using untouched by simp
  next
    case (torn e snap fs)
    then have r: "r = Inl e" "w' = w1" using ap j by (simp_all add: apply_sync_snapshot_def)
    obtain ek ik where k: "unwrap_epoch_and_index_keys c (root_key s) (snap_header snap) UnlockFailed = Inr (ek, ik)"
      using decode_unwraps [OF torn(2)] by blast
    have p: "audit_progress c s snap ek w w1"
      by (rule progress_from [OF _ torn(3)]) (simp add: audit_progress_def)
    have m: "hm_get (files w1) manifest = hm_get (files w) manifest"
      using same_outsideD(1) [OF torn(3), of manifest] by simp
    have "same_outside (insert PENDING vault_files) w w1" using torn(3) by (rule same_outside_mono) simp
    then have "interrupted c s b w w1"
      using same_outsideD(2) [OF torn(3) wf] torn(4) p m by (intro interruptedI [OF torn(2) k]) simp_all
    then show ?thesis using r by simp
  next
    case (written original snap fs osnap ofs)
    obtain ek ik where k: "unwrap_epoch_and_index_keys c (root_key s) (snap_header snap) UnlockFailed = Inr (ek, ik)"
      using decode_unwraps [OF written(2)] by blast
    have wf1: "hm_wf (files w1)" using same_outsideD(2) [OF written(5) wf] .
    obtain rf sf w2 where fin: "finish_pending_sync c s w1 = (rf, sf, w2)" by (rule prod_cases3)
    show ?thesis
    proof (cases rf)
      case (Inl e)
      then have "roll_back c e original sf w2 = (r, s', w')" using ap j written(1) fin
        by (simp add: apply_sync_snapshot_def)
      from failed_commit [OF assms written(2-4) k written(5-7) fin [unfolded Inl] this] show ?thesis by blast
    next
      case (Inr u)
      then have r: "r = Inr ()" "s' = sf" "w' = w2" using ap j written(1) fin
        by (simp_all add: apply_sync_snapshot_def)
      from fin assms(1) wf1 written(6) written(2) k have "in_force c s b w sf w2"
      proof (cases rule: finish_any)
        case whole
        have "hm_get (files w2) PENDING = None" using whole(3) Inr by simp
        then show ?thesis using committed_from [OF whole(2) written(5)] whole(1) written(2) k
          by (auto simp: in_force_def path_exists_def)
      qed (use Inr in simp)
      then show ?thesis using r by simp
    qed
  qed
  then show ?thesis by (simp add: ap)
qed

text \<open>
  C11. Applying a synchronisation snapshot is a transaction, whatever faults the disk has in
  store and wherever they strike: the snapshot is in force (its files and manifest on disk, the
  journal gone, the session on its keys), or the disk and the session are exactly as before and
  an error is reported, or an error is reported and the journal stays, naming the snapshot to
  finish or the state to go back to.
\<close>

theorem snapshot_applies_whole_or_not_at_all:
  assumes "platform_ok c" "ready c s w"
  shows "case apply_sync_snapshot c s b w of (r, s', w') \<Rightarrow>
    in_force c s b w s' w' \<or> r \<noteq> Inr () \<and> s' = s \<and> same_files w w' \<or> r \<noteq> Inr () \<and> interrupted c s b w w'"
  using assms by (rule apply_outcome)

end
