(* ===== verification/Unlock.thy ===== *)
theory Unlock
  imports Journal
begin

text \<open>
  Unlocking a vault: \<open>open_with_root_key\<close> finishes a journal before the session is handed out
  (\<open>crates/aipass-vault/src/lib.rs\<close>, \<open>remote_unlock.rs\<close>).  On a disk that works, an interrupted
  snapshot is completed or undone; the one state it cannot leave by itself, a rollback journal
  that holds an unreadable file, is exhibited.
\<close>

section \<open>A disk that works\<close>

lemma calm_steps [simp]:
  assumes "faults w = []"
  shows "read_file p w = (ok_or IoError (hm_get (files w) p), w)"
    "read_ok p w = (Inr (hm_get (files w) p), w)"
    "atomic_write_bytes p b w = (Inr (), w\<lparr>files := hm_put p b (files w)\<rparr>)"
    "encrypted_paths d e w = (Inr (encrypted_names d e w), w)"
    "path_exists p w \<Longrightarrow> remove_file p w = (Inr (), w\<lparr>files := hm_del p (files w)\<rparr>)"
  using assms
  by (cases "hm_get (files w) p";
      simp add: read_file_def read_ok_def atomic_write_bytes_def encrypted_paths_def remove_file_def)+

text \<open>An operation that meets no fault leaves none behind.\<close>

definition quiet :: "'a act \<Rightarrow> bool" where
  "quiet f \<longleftrightarrow> (\<forall>w. faults w = [] \<longrightarrow> faults (snd (f w)) = [])"

lemma quietD: "quiet f \<Longrightarrow> f w = (r, w') \<Longrightarrow> faults w = [] \<Longrightarrow> faults w' = []"
  unfolding quiet_def by (metis snd_conv)

named_theorems quiet_act "operations that leave a working disk working"

lemma quiet_basic [quiet_act]:
  "quiet (yield x)" "quiet (lift v)" "quiet (read_file p)" "quiet (read_ok p)" "quiet (atomic_write_bytes p b)"
  "quiet (encrypted_paths d e)" "quiet (random_draw c n)" "quiet (new_uuid c)" "quiet (read_clock c)"
  by (auto simp: quiet_def yield_def lift_def random_draw_def new_uuid_def read_clock_def)

lemma quiet_remove [quiet_act]: "quiet (remove_file p)"
  by (auto simp: quiet_def remove_file_def)

lemma quiet_bind [quiet_act]:
  assumes "quiet f" "\<And>x. quiet (g x)"
  shows "quiet (bind f g)"
  using assms by (auto simp: quiet_def bind_def split: prod.splits sum.splits)

lemma quiet_for_each [quiet_act]: "(\<And>x. quiet (f x)) \<Longrightarrow> quiet (for_each f xs)"
  by (induction xs) (auto intro!: quiet_act)

lemma quiet_seal [quiet_act]: "quiet (seal_bytes c k a m)"
  unfolding seal_bytes_def by (intro quiet_act)

lemma quiet_encrypt_envelope [quiet_act]: "quiet (encrypt_envelope c e m ek)"
  unfolding encrypt_envelope_def Let_def by (intro quiet_act)

lemma quiet_install_file [quiet_act]: "quiet (install_file c f)"
  unfolding install_file_def by (auto intro!: quiet_act)

lemma quiet_remove_stale [quiet_act]: "quiet (remove_stale v S p)"
  unfolding remove_stale_def by (simp add: quiet_act)

lemma quiet_rewrap_one [quiet_act]: "quiet (rewrap_one c s h ek p)"
  unfolding rewrap_one_def write_envelope_json_def read_envelope_def
  by (intro quiet_act) (auto intro!: quiet_act split: sum.splits)

lemma quiet_list_dirs [quiet_act]: "quiet (list_dirs ds)"
  by (induction ds) (auto intro!: quiet_act)

lemma quiet_exportable [quiet_act]: "quiet (exportable_files inc)"
proof -
  have "quiet (bind (list_dirs (sync_dirs inc)) (\<lambda>ps. yield (sort (xs @ ps))))" for xs
    by (intro quiet_act)
  then show ?thesis by (simp add: quiet_def exportable_files_def)
qed

lemma quiet_read_files [quiet_act]: "quiet (read_files c ps)"
  by (induction ps) (auto intro!: quiet_act)

lemma quiet_export [quiet_act]: "quiet (export_sync_snapshot c s)"
  unfolding export_sync_snapshot_def sync_files_def encode_snapshot_def by (intro quiet_act)

lemma quiet_exchange [quiet_act]: "quiet (exchange_files c snap fs)"
  unfolding exchange_files_def by (intro quiet_act)

lemma quiet_rewrap [quiet_act]: "quiet (rewrap_local_audit c s h)"
  unfolding rewrap_local_audit_def by (intro quiet_act) (auto intro!: quiet_act split: prod.splits)

lemma quiet_install_snapshot [quiet_act]: "quiet (install_snapshot c s)"
  unfolding install_snapshot_def install_files_def write_header_def
  by (intro quiet_act) (auto intro!: quiet_act split: prod.splits)

lemma quiet_reload [quiet_act]: "quiet (reload_from_disk c s)"
  unfolding reload_from_disk_def read_header_def
  by (intro quiet_act) (auto intro!: quiet_act split: prod.splits)

section \<open>Finishing a journal on a disk that works\<close>

lemma list_dirs_calm: "faults w = [] \<Longrightarrow> \<exists>ps. list_dirs ds w = (Inr ps, w)"
proof (induction ds)
  case (Cons de ds)
  then obtain ps where "list_dirs ds w = (Inr ps, w)" by blast
  with Cons.prems show ?case by (cases de) (simp add: bind_def yield_def)
qed (simp add: yield_def)

lemma exportable_calm: "faults w = [] \<Longrightarrow> \<exists>ps. exportable_files inc w = (Inr ps, w)"
  using list_dirs_calm [of w "sync_dirs inc"] by (auto simp: exportable_files_def bind_def yield_def)

lemma for_each_succeeds:
  assumes "\<And>x. x \<in> set xs \<Longrightarrow> P x w" "distinct xs" "faults w = []" "\<And>x. quiet (f x)"
    and "\<And>x v. x \<in> set xs \<Longrightarrow> faults v = [] \<Longrightarrow> P x v \<Longrightarrow> \<exists>v'. f x v = (Inr (), v')"
    and "\<And>x y v v'. x \<in> set xs \<Longrightarrow> y \<in> set xs \<Longrightarrow> x \<noteq> y \<Longrightarrow> P x v \<Longrightarrow> f y v = (Inr (), v') \<Longrightarrow> P x v'"
  shows "\<exists>w'. for_each f xs w = (Inr (), w')"
  using assms
proof (induction xs arbitrary: w)
  case Nil
  show ?case by simp
next
  case (Cons x xs)
  obtain v where v: "f x w = (Inr (), v)" using Cons.prems(1,3,5) by fastforce
  have "\<exists>w'. for_each f xs v = (Inr (), w')"
  proof (rule Cons.IH)
    show "faults v = []" by (rule quietD [OF Cons.prems(4) v Cons.prems(3)])
    show "distinct xs" using Cons.prems(2) by simp
    show "\<And>y. y \<in> set xs \<Longrightarrow> P y v"
      using Cons.prems(6) [OF _ _ _ _ v] Cons.prems(1,2) by fastforce
    show "\<And>y u. y \<in> set xs \<Longrightarrow> faults u = [] \<Longrightarrow> P y u \<Longrightarrow> \<exists>v'. f y u = (Inr (), v')"
      using Cons.prems(5) by simp
    show "\<And>y z u u'. y \<in> set xs \<Longrightarrow> z \<in> set xs \<Longrightarrow> y \<noteq> z \<Longrightarrow> P y u \<Longrightarrow> f z u = (Inr (), u') \<Longrightarrow> P y u'"
      using Cons.prems(6) by (metis list.set_intros(2))
  qed (rule Cons.prems(4))
  with v show ?case by (simp add: bind_def)
qed

lemma exchange_succeeds:
  assumes "faults w = []" "hm_wf (files w)" "decode_snapshot c s b = Inr (snap, fs)"
  shows "\<exists>w'. exchange_files c snap fs w = (Inr (), w')"
proof -
  let ?S = "relative_path ` set fs"
  obtain ps where e: "exportable_files (snap_version snap = 1) w = (Inr ps, w)" using exportable_calm [OF assms(1)] by blast
  note chk = checked_portable [OF assms(3)]
  have dec: "\<exists>x. b64_decode (prims c) (bytes_b64 f) = Some x" if "f \<in> set fs" for f
    using assms(3) that by (auto simp: decode_snapshot_Inr check_files_iff check_file_iff)
  have "\<exists>v. for_each (install_file c) fs w = (Inr (), v)"
  proof (rule for_each_succeeds [where P = "\<lambda>_ _. True"])
    show "distinct fs" using chk(1) by (simp add: distinct_map)
    fix f and v :: world assume "f \<in> set fs" "faults v = []"
    with dec [of f] show "\<exists>v'. install_file c f v = (Inr (), v')"
      by (auto simp: install_file_def bind_def lift_def)
  qed (use assms(1) quiet_install_file in auto)
  then obtain v where v: "for_each (install_file c) fs w = (Inr (), v)" by blast
  have fv: "faults v = []" by (rule quietD [OF quiet_for_each [OF quiet_install_file] v assms(1)])
  have present: "path_exists p v" if "p \<in> set ps" "p \<in> exchanged (snap_version snap)" "p \<notin> ?S" for p
    using that exportable_allowed [OF e] same_outsideD(1) [OF install_loop(1) [OF v chk(1)] that(3)]
    by (auto simp: exchanged_def path_exists_def)
  have "\<exists>w'. for_each (remove_stale (snap_version snap) ?S) ps v = (Inr (), w')"
  proof (rule for_each_succeeds [where P = "\<lambda>p v. p \<in> exchanged (snap_version snap) \<and> p \<notin> ?S \<longrightarrow> path_exists p v"])
    show "distinct ps" by (rule exportable_distinct [OF e assms(2)])
    show "faults v = []" by (rule fv)
    fix p and u :: world assume "faults u = []" "p \<in> exchanged (snap_version snap) \<and> p \<notin> ?S \<longrightarrow> path_exists p u"
    then show "\<exists>v'. remove_stale (snap_version snap) ?S p u = (Inr (), v')"
      by (auto simp: remove_stale_def exchanged_def)
  next
    fix p q u u'
    assume "p \<noteq> q" "p \<in> exchanged (snap_version snap) \<and> p \<notin> ?S \<longrightarrow> path_exists p u"
      "remove_stale (snap_version snap) ?S q u = (Inr (), u')"
    then show "p \<in> exchanged (snap_version snap) \<and> p \<notin> ?S \<longrightarrow> path_exists p u'"
      by (auto simp: remove_stale_def path_exists_def split: if_splits dest!: remove_Inr)
  qed (use present quiet_remove_stale in auto)
  with v e show ?thesis by (auto simp: exchange_files_def bind_def)
qed

text \<open>A local audit file the journal can carry into the next epoch.\<close>

definition convertible :: "platform \<Rightarrow> epoch_key \<Rightarrow> epoch_key \<Rightarrow> bytes \<Rightarrow> bool" where
  "convertible c old new b \<longleftrightarrow>
    (\<exists>e. envelope_parse c b = Some e \<and> (tombstone e \<or> (\<exists>m. opens c new b m) \<or> (\<exists>m. opens c old b m)))"

lemma seal_succeeds:
  assumes "sealing_total c"
  shows "\<exists>x w'. seal_bytes c k a m w = (Inr x, w')"
proof -
  obtain y where "aead_seal (prims c) k (random_bytes c (draws w) NONCE_LEN) a m = Some y"
    using assms unfolding sealing_total_def by blast
  then show ?thesis
    by (simp add: seal_bytes_def bind_def random_draw_def lift_def crypto_def encrypt_bytes_def)
qed

lemma encrypt_envelope_succeeds:
  assumes "sealing_total c"
  shows "\<exists>e' w'. encrypt_envelope c e m ek w = (Inr e', w')"
proof -
  let ?dek = "random_bytes c (draws w) KEY_LEN"
  obtain body v where b: "seal_bytes c ?dek (object_aad c e) m (w\<lparr>draws := Suc (draws w)\<rparr>) = (Inr body, v)"
    using seal_succeeds [OF assms] by blast
  obtain y where "aead_seal (prims c) (epoch_bytes ek) (random_bytes c (draws v) NONCE_LEN) (object_aad c e) ?dek = Some y"
    using assms unfolding sealing_total_def by blast
  then show ?thesis
    by (simp add: encrypt_envelope_def Let_def bind_def random_draw_def lift_def yield_def b crypto_def
        wrap_record_dek_def encrypt_bytes_def)
qed

lemma rewrap_succeeds:
  assumes "platform_ok c" "sealing_total c" "faults w = []" "hm_wf (files w)"
    and "unwrap_epoch_and_index_keys c (root_key s) h UnlockFailed = Inr (ek, ik)"
    and "\<And>p b. sync_path_allowed p \<Longrightarrow> in_audit p \<Longrightarrow> hm_get (files w) p = Some b \<Longrightarrow> convertible c (epoch_key s) ek b"
  shows "\<exists>w'. rewrap_local_audit c s h w = (Inr (), w')"
proof -
  have e: "encrypted_paths ''audit'' ''aipaudit'' w = (Inr (encrypted_names ''audit'' ''aipaudit'' w), w)"
    using assms(3) by simp
  note names = audit_names [OF e assms(4)]
  let ?P = "\<lambda>p v. \<exists>b. hm_get (files v) p = Some b \<and> convertible c (epoch_key s) ek b"
  have "\<exists>w'. for_each (rewrap_one c s h ek) (encrypted_names ''audit'' ''aipaudit'' w) w = (Inr (), w')"
  proof (rule for_each_succeeds [where P = ?P])
    fix p assume "p \<in> set (encrypted_names ''audit'' ''aipaudit'' w)"
    then show "?P p w" using names(2) [of p] assms(6) by auto
  next
    fix p and v :: world assume v: "faults v = []" and P: "?P p v"
    then obtain b e where b: "hm_get (files v) p = Some b" "envelope_parse c b = Some e"
      and cv: "tombstone e \<or> (\<exists>m. opens c ek b m) \<or> (\<exists>m. opens c (epoch_key s) b m)"
      by (auto simp: convertible_def)
    have rd: "read_envelope c p v = (Inr e, v)" using v b by (simp add: read_envelope_def bind_def lift_def)
    show "\<exists>v'. rewrap_one c s h ek p v = (Inr (), v')"
    proof (cases "tombstone e \<or> (\<exists>m. opens c ek b m)")
      case True
      then show ?thesis using rd b by (cases "tombstone e") (auto simp: rewrap_one_def bind_def yield_def opens_def)
    next
      case False
      let ?e = "e\<lparr>o_device_id := s_device s, o_updated_at := h_updated_at h, lamport := sat_add (lamport e) 1\<rparr>"
      obtain x m where x: "decrypt_envelope_with_epoch c e ek = Inl x" and m: "decrypt_envelope_with_epoch c e (epoch_key s) = Inr m"
        and t: "\<not> tombstone e"
        using False cv b by (cases "decrypt_envelope_with_epoch c e ek") (auto simp: opens_def)
      obtain e' v1 where "encrypt_envelope c ?e m ek v = (Inr e', v1)" using encrypt_envelope_succeeds [OF assms(2)] by blast
      moreover from quietD [OF quiet_encrypt_envelope this v] have "faults v1 = []" .
      ultimately show ?thesis using rd x m t
        by (simp add: rewrap_one_def bind_def lift_def write_envelope_json_def)
    qed
  next
    fix p q v v' assume "p \<noteq> q" "?P p v" "rewrap_one c s h ek q v = (Inr (), v')"
    then show "?P p v'"
      using same_outsideD(1) [OF touchesD [OF touches_rewrap_one [of q "{q}"]], of c s h ek v "Inr ()" v' p] by auto
  qed (use assms(3) names(1) quiet_rewrap_one in auto)
  with assms(5) e show ?thesis by (auto simp: rewrap_local_audit_def bind_def lift_def)
qed

lemma parsed_header:
  assumes "decode_snapshot c s b = Inr (snap, fs)"
  shows "validate_header (snap_header snap) = Inr ()" "snap_version snap = 1 \<or> snap_version snap = 2"
  using assms by (auto simp: decode_snapshot_Inr parse_snapshot_def and_then_Inr split: if_splits)

lemma finish_succeeds:
  assumes c: "platform_ok c" "sealing_total c" and calm: "faults w = []" and wf: "hm_wf (files w)"
    and j: "hm_get (files w) PENDING = Some b" and d: "decode_snapshot c s b = Inr (snap, fs)"
    and k: "unwrap_epoch_and_index_keys c (root_key s) (snap_header snap) UnlockFailed = Inr (ek, ik)"
    and cv: "\<And>p x. snap_version snap = 2 \<Longrightarrow> current_epoch (snap_header snap) \<noteq> current_epoch (s_header s) \<Longrightarrow>
      sync_path_allowed p \<Longrightarrow> in_audit p \<Longrightarrow> hm_get (files w) p = Some x \<Longrightarrow> convertible c (epoch_key s) ek x"
  shows "\<exists>s' w'. finish_pending_sync c s w = (Inr (), s', w')"
proof -
  obtain w1 where e: "exchange_files c snap fs w = (Inr (), w1)" using exchange_succeeds [OF calm wf d] by blast
  have f1: "faults w1 = []" by (rule quietD [OF quiet_exchange e calm])
  have o1: "same_outside (exchanged (snap_version snap)) w w1"
    using exchange_any [OF e] checked_portable(2,4) [OF d] parsed_header(2) [OF d] by (auto simp: exchanged_def)
  have wf1: "hm_wf (files w1)" using same_outsideD(2) [OF o1 wf] .
  let ?rw = "if snap_version snap = 2 \<and> current_epoch (snap_header snap) \<noteq> current_epoch (s_header s)
    then rewrap_local_audit c s (snap_header snap) else yield ()"
  have "\<exists>w2. ?rw w1 = (Inr (), w2)"
  proof (cases "snap_version snap = 2 \<and> current_epoch (snap_header snap) \<noteq> current_epoch (s_header s)")
    case True
    have "convertible c (epoch_key s) ek x" if "sync_path_allowed p" "in_audit p" "hm_get (files w1) p = Some x" for p x
      using cv [of p x] that True same_outsideD(1) [OF o1, of p] by (auto simp: exchanged_def)
    with rewrap_succeeds [OF c f1 wf1 k] True show ?thesis by auto
  qed (auto simp: yield_def)
  then obtain w2 where r: "?rw w1 = (Inr (), w2)" by blast
  have q: "quiet ?rw" by (simp add: quiet_act)
  have f2: "faults w2 = []" by (rule quietD [OF q r f1])
  let ?w3 = "w2\<lparr>files := hm_put manifest (header_pretty c (snap_header snap)) (files w2)\<rparr>"
  have ins: "install_snapshot c s w = (Inr (), ?w3)"
    using calm j d e r f2 by (simp add: install_snapshot_def install_files_def bind_def lift_def yield_def write_header_def)
  have vid: "h_vault_id (snap_header snap) = h_vault_id (s_header s)" using d by (simp add: decode_snapshot_Inr)
  have rl: "reload_from_disk c s ?w3 = (Inr (session_on s (snap_header snap) ek ik), ?w3)"
    using c(1) f2 parsed_header(1) [OF d] vid k
    by (simp add: reload_from_disk_def read_header_def bind_def lift_def yield_def platform_ok_def session_on_def)
  have "path_exists PENDING ?w3"
    using install_snapshot_any [OF ins c(1) wf j d k] same_outsideD(1) [of vault_files w ?w3 PENDING] j
    by (simp add: not_committed_def path_exists_def)
  then show ?thesis
    using j f2 ins rl by (auto simp: finish_pending_sync_def path_exists_def bind_def)
qed

section \<open>An interrupted snapshot is recovered\<close>

lemma sound_convertible:
  "sound_file c vid ek p b \<Longrightarrow> convertible c ek new b"
  by (auto simp: sound_file_def convertible_def opens_def)

lemma carried_convertible:
  assumes "carried c old new b b'" "convertible c old new b"
  shows "convertible c old new b'"
  using assms by (auto simp: carried_def convertible_def)

lemma progress_trans:
  assumes "audit_progress c s snap ek w w1" "audit_progress c s snap ek w1 w2"
  shows "audit_progress c s snap ek w w2"
proof -
  have carr: "carried c old new x z" if "carried c old new x y" "carried c old new y z" for old new x y z
    using that by (auto simp: carried_def)
  have "rel_option (carried c old new) a d" if "rel_option (carried c old new) a b" "rel_option (carried c old new) b d" for old new a b d
    using that carr by (cases a; cases b; cases d) auto
  with assms show ?thesis by (auto simp: audit_progress_def audit_carried_def split: if_splits)
qed

text \<open>The session an unlock starts from: the root key and the manifest on disk.\<close>

definition unlocked_from :: "platform \<Rightarrow> session \<Rightarrow> bytes \<Rightarrow> world \<Rightarrow> bool" where
  "unlocked_from c s2 rk w \<longleftrightarrow>
    root_key s2 = rk \<and> Option.bind (hm_get (files w) manifest) (header_parse c) = Some (s_header s2) \<and>
    unwrap_epoch_and_index_keys c rk (s_header s2) UnlockFailed = Inr (epoch_key s2, index_key s2)"

lemma unlocked_header:
  assumes "unlocked_from c s2 (root_key s) w" "platform_ok c" "hm_get (files w) manifest = Some (header_pretty c h)"
    and "unwrap_epoch_and_index_keys c (root_key s) h UnlockFailed = Inr (ek, ik)"
  shows "root_key s2 = root_key s \<and> s_header s2 = h \<and> epoch_key s2 = ek"
  using assms by (auto simp: unlocked_from_def platform_ok_def)

definition forward_done :: "platform \<Rightarrow> session \<Rightarrow> bytes \<Rightarrow> world \<Rightarrow> session \<Rightarrow> world \<Rightarrow> bool" where
  "forward_done c s b w s' w' \<longleftrightarrow>
    (\<exists>snap fs ek. decode_snapshot c s b = Inr (snap, fs) \<and> s_header s' = snap_header snap \<and>
      epoch_key s' = ek \<and> committed c s snap fs ek w w')"

lemma finish_whole:
  assumes "finish_pending_sync c s w = (Inr (), s', w')" "platform_ok c" "hm_wf (files w)"
    and "hm_get (files w) PENDING = Some b" "decode_snapshot c s b = Inr (snap, fs)"
    and "unwrap_epoch_and_index_keys c (root_key s) (snap_header snap) UnlockFailed = Inr (ek, ik)"
  shows "committed c s snap fs ek w w' \<and> s' = session_on s (snap_header snap) ek ik \<and> \<not> path_exists PENDING w'"
  using assms by (cases rule: finish_any) (auto simp: path_exists_def)

text \<open>Finishing the new snapshot, from a manifest that was not replaced yet.\<close>

lemma progress_session:
  "s_header s2 = s_header s \<Longrightarrow> epoch_key s2 = epoch_key s \<Longrightarrow>
    audit_progress c s2 snap ek w1 w2 = audit_progress c s snap ek w1 w2"
  by (simp add: audit_progress_def cong: if_cong)

lemma committed_chain:
  assumes "committed c s2 snap fs ek w1 w2" "s_header s2 = s_header s" "epoch_key s2 = epoch_key s"
    and "same_outside (insert PENDING vault_files) w w1" "audit_progress c s snap ek w w1"
  shows "committed c s snap fs ek w w2"
proof -
  have "same_outside (insert PENDING vault_files) w w2"
    using assms(1,4) by (intro same_outside_trans [of _ w w1 w2]) (simp_all add: committed_def)
  moreover have "audit_progress c s snap ek w1 w2"
    using assms(1) progress_session [OF assms(2,3)] by (simp add: committed_def)
  ultimately show ?thesis
    using assms(1,2,5) progress_trans by (auto simp: committed_def installed_def)
qed

text \<open>Finishing it once the manifest is the new one: only the journal and the exchanged files remain.\<close>

lemma committed_again:
  assumes "committed c s2 snap fs ek w1 w2" "s_header s2 = snap_header snap"
    and "same_outside (insert PENDING vault_files) w w1" "audit_progress c s snap ek w w1"
    and "installed c s snap fs ek w1" "snap_version snap = 1 \<or> snap_version snap = 2"
  shows "committed c s snap fs ek w w2"
proof -
  have o: "same_outside (insert PENDING vault_files) w w2"
    using assms(1,3) by (intro same_outside_trans [of _ w w1 w2]) (simp_all add: committed_def)
  have aud: "hm_get (files w2) p = hm_get (files w1) p"
    if "sync_path_allowed p" "in_audit p" "snap_version snap = 2" for p
    using assms(1,2) that by (simp add: committed_def audit_progress_def)
  have "audit_progress c s snap ek w w2"
    using assms(4) aud by (auto simp: audit_progress_def audit_carried_def split: if_splits)
  moreover have "installed c s snap fs ek w2"
    using assms(1,5) aud by (auto simp: committed_def installed_def)
  ultimately show ?thesis using o assms(1) by (simp add: committed_def)
qed

lemma recover_forward:
  assumes c: "platform_ok c" "sealing_total c" and rdy: "ready c s w" and calm: "faults w1 = []"
    and u: "unlocked_from c s2 (root_key s) w1"
    and wf: "hm_wf (files w1)" and o: "same_outside (insert PENDING vault_files) w w1"
    and d: "decode_snapshot c s b = Inr (snap, fs)"
    and k: "unwrap_epoch_and_index_keys c (root_key s) (snap_header snap) UnlockFailed = Inr (ek, ik)"
    and j: "hm_get (files w1) PENDING = Some b" and prog: "audit_progress c s snap ek w w1"
    and m: "hm_get (files w1) manifest = hm_get (files w) manifest \<or>
      hm_get (files w1) manifest = Some (header_pretty c (snap_header snap)) \<and> installed c s snap fs ek w1"
  shows "\<exists>s3 w2. finish_pending_sync c s2 w1 = (Inr (), s3, w2) \<and> \<not> path_exists PENDING w2 \<and> forward_done c s b w s3 w2"
proof -
  have vid: "h_vault_id (snap_header snap) = h_vault_id (s_header s)" using d by (simp add: decode_snapshot_Inr)
  have old: "hm_get (files w) manifest = Some (header_pretty c (s_header s))"
      "unwrap_epoch_and_index_keys c (root_key s) (s_header s) UnlockFailed = Inr (epoch_key s, index_key s)"
    using rdy by (simp_all add: ready_def)
  consider "hm_get (files w1) manifest = Some (header_pretty c (s_header s))"
    | "hm_get (files w1) manifest = Some (header_pretty c (snap_header snap))" "installed c s snap fs ek w1"
    using m old(1) by auto
  then show ?thesis
  proof cases
    case 1
    have s2: "root_key s2 = root_key s" "s_header s2 = s_header s" "epoch_key s2 = epoch_key s"
      using unlocked_header [OF u c(1) 1 old(2)] by simp_all
    have d2: "decode_snapshot c s2 b = Inr (snap, fs)" using decode_other_session [OF s2(1)] s2(2) d by simp
    have k2: "unwrap_epoch_and_index_keys c (root_key s2) (snap_header snap) UnlockFailed = Inr (ek, ik)" using k s2 by simp
    have "convertible c (epoch_key s) ek x"
      if "snap_version snap = 2" "current_epoch (snap_header snap) \<noteq> current_epoch (s_header s)"
        "sync_path_allowed p" "in_audit p" "hm_get (files w1) p = Some x" for p x
    proof -
      have "rel_option (carried c (epoch_key s) ek) (hm_get (files w) p) (Some x)"
        using prog that by (force simp: audit_progress_def audit_carried_def)
      then obtain y where y: "hm_get (files w) p = Some y" "carried c (epoch_key s) ek y x"
        by (auto simp: option_rel_Some2)
      then have "convertible c (epoch_key s) ek y" using rdy that by (auto simp: ready_def intro: sound_convertible)
      with y(2) show ?thesis by (rule carried_convertible)
    qed
    then obtain s3 w2 where fin: "finish_pending_sync c s2 w1 = (Inr (), s3, w2)"
      using finish_succeeds [OF c calm wf j d2 k2] s2 by auto
    note fw = finish_whole [OF fin c(1) wf j d2 k2]
    have "committed c s snap fs ek w w2" by (rule committed_chain [OF conjunct1 [OF fw] s2(2,3) o prog])
    with fin fw d show ?thesis by (auto simp: forward_done_def session_on_def)
  next
    case 2
    have s2: "root_key s2 = root_key s" "s_header s2 = snap_header snap" "epoch_key s2 = ek"
      using unlocked_header [OF u c(1) 2(1) k] by simp_all
    have d2: "decode_snapshot c s2 b = Inr (snap, fs)" using decode_other_session [OF s2(1)] s2(2) vid d by simp
    have k2: "unwrap_epoch_and_index_keys c (root_key s2) (snap_header snap) UnlockFailed = Inr (ek, ik)" using k s2 by simp
    obtain s3 w2 where fin: "finish_pending_sync c s2 w1 = (Inr (), s3, w2)"
      using finish_succeeds [OF c calm wf j d2 k2] s2 by auto
    note fw = finish_whole [OF fin c(1) wf j d2 k2]
    have "committed c s snap fs ek w w2"
      by (rule committed_again [OF conjunct1 [OF fw] s2(2) o prog 2(2) parsed_header(2) [OF d]])
    with fin fw d show ?thesis by (auto simp: forward_done_def session_on_def)
  qed
qed

lemma recover_backward:
  assumes c: "platform_ok c" "sealing_total c" and rdy: "ready c s w" and calm: "faults w1 = []"
    and s2: "root_key s2 = root_key s" "h_vault_id (s_header s2) = h_vault_id (s_header s)"
    and wf: "hm_wf (files w1)" and o: "same_outside (insert PENDING vault_files) w w1"
    and j: "hm_get (files w1) PENDING = Some j" and d: "decode_snapshot c s j = Inr (osnap, ofs)"
    and res: "restores c s w osnap ofs" and none: "hm_get (files w) PENDING = None"
  shows "\<exists>s3 w2. finish_pending_sync c s2 w1 = (Inr (), s3, w2) \<and> \<not> path_exists PENDING w2 \<and>
    same_files w w2 \<and> s_header s3 = s_header s"
proof -
  have d2: "decode_snapshot c s2 j = Inr (osnap, ofs)" using decode_other_session [OF s2] d by simp
  have hdr: "snap_header osnap = s_header s" "snap_version osnap = 1" using res by (simp_all add: restores_def)
  have k2: "unwrap_epoch_and_index_keys c (root_key s2) (snap_header osnap) UnlockFailed = Inr (epoch_key s, index_key s)"
    using rdy by (simp add: ready_def hdr s2)
  obtain s3 w2 where fin: "finish_pending_sync c s2 w1 = (Inr (), s3, w2)"
    using finish_succeeds [OF c calm wf j d2 k2] hdr(2) by auto
  note fw = finish_whole [OF fin c(1) wf j d2 k2]
  have "same_files w w2"
    using restored_files [OF conjunct1 [OF fw] res rdy o none] fw by (simp add: path_exists_def)
  with fin fw hdr show ?thesis by (auto simp: session_on_def)
qed

text \<open>
  C12. A synchronisation interrupted at any point, by a crash or by a disk that refused even the
  rollback, is settled by the next unlock once the disk works: whichever manifest it finds, the
  journal is finished without an error and removed, and the vault then holds either the whole
  new snapshot or exactly the files it had before.
\<close>

theorem interrupted_snapshot_is_recovered:
  assumes "platform_ok c" "sealing_total c" "ready c s w" "\<not> path_exists PENDING w"
    and "interrupted c s b w w1" "unlocked_from c s2 (root_key s) w1" "faults w1 = []"
  shows "\<exists>s3 w2. finish_pending_sync c s2 w1 = (Inr (), s3, w2) \<and> \<not> path_exists PENDING w2 \<and>
    (forward_done c s b w s3 w2 \<or> same_files w w2 \<and> s_header s3 = s_header s)"
proof -
  from assms(5) obtain snap fs ek ik where i: "hm_wf (files w1)" "same_outside (insert PENDING vault_files) w w1"
      "decode_snapshot c s b = Inr (snap, fs)"
      "unwrap_epoch_and_index_keys c (root_key s) (snap_header snap) UnlockFailed = Inr (ek, ik)"
    and m: "hm_get (files w1) manifest = hm_get (files w) manifest \<or>
       hm_get (files w1) manifest = Some (header_pretty c (snap_header snap))"
    and alt: "hm_get (files w1) PENDING = Some b \<and> audit_progress c s snap ek w w1 \<and>
         (hm_get (files w1) manifest = hm_get (files w) manifest \<or> installed c s snap fs ek w1) \<or>
       (\<exists>j osnap ofs. hm_get (files w1) PENDING = Some j \<and> decode_snapshot c s j = Inr (osnap, ofs) \<and>
         restores c s w osnap ofs)"
    unfolding interrupted_def by blast
  have none: "hm_get (files w) PENDING = None" using assms(4) by (simp add: path_exists_def)
  from alt show ?thesis
  proof (elim disjE exE conjE)
    assume "hm_get (files w1) PENDING = Some b" "audit_progress c s snap ek w w1"
      "hm_get (files w1) manifest = hm_get (files w) manifest"
    with recover_forward [OF assms(1-3,7,6) i] show ?thesis by blast
  next
    assume "hm_get (files w1) PENDING = Some b" "audit_progress c s snap ek w w1" "installed c s snap fs ek w1"
    with recover_forward [OF assms(1-3,7,6) i] m show ?thesis by blast
  next
    fix j osnap ofs
    assume j: "hm_get (files w1) PENDING = Some j" "decode_snapshot c s j = Inr (osnap, ofs)" "restores c s w osnap ofs"
    have "root_key s2 = root_key s \<and> h_vault_id (s_header s2) = h_vault_id (s_header s)"
    proof (cases "hm_get (files w1) manifest = hm_get (files w) manifest")
      case True
      with assms(1,3,6) show ?thesis by (auto simp: ready_def unlocked_from_def platform_ok_def)
    next
      case False
      with m have "hm_get (files w1) manifest = Some (header_pretty c (snap_header snap))" by simp
      with unlocked_header [OF assms(6,1) this i(4)] i(3) show ?thesis by (simp add: decode_snapshot_Inr)
    qed
    with recover_backward [OF assms(1-3,7) _ _ i(1,2) j none, of s2] show ?thesis by blast
  qed
qed

section \<open>The journal that cannot be finished\<close>

lemma finish_quiet:
  assumes "finish_pending_sync c s w = (r, s', w')" "faults w = []"
  shows "faults w' = []"
proof -
  have q: "quiet (bind (install_snapshot c s) (\<lambda>_. reload_from_disk c s))" by (intro quiet_act)
  obtain a v where a: "bind (install_snapshot c s) (\<lambda>_. reload_from_disk c s) w = (a, v)"
    by (cases "bind (install_snapshot c s) (\<lambda>_. reload_from_disk c s) w")
  have v: "faults v = []" by (rule quietD [OF q a assms(2)])
  obtain b u where b: "remove_file PENDING v = (b, u)" by (cases "remove_file PENDING v")
  have u: "faults u = []" by (rule quietD [OF quiet_remove b v])
  show ?thesis using assms a b v u by (cases a) (auto simp: finish_pending_sync_def split: if_splits)
qed

lemma finish_undecodable:
  assumes "hm_get (files w) PENDING = Some j" "decode_snapshot c s j = Inl e"
  shows "\<exists>e' w'. finish_pending_sync c s w = (Inl e', s, w') \<and> same_files w w'"
proof -
  obtain r w1 where r: "read_file PENDING w = (r, w1)" by (cases "read_file PENDING w")
  have f: "files w1 = files w" by (rule read_file_files [OF r])
  have "\<exists>e'. install_snapshot c s w = (Inl e', w1)"
  proof (cases r)
    case (Inl x)
    with r show ?thesis by (simp add: install_snapshot_def install_files_def bind_def)
  next
    case (Inr b)
    then have "b = j" using read_file_Inr r assms(1) by fastforce
    with r Inr assms(2) show ?thesis by (simp add: install_snapshot_def install_files_def bind_def lift_def)
  qed
  then obtain e' where "install_snapshot c s w = (Inl e', w1)" by blast
  with assms(1) f show ?thesis
    by (auto simp: finish_pending_sync_def path_exists_def bind_def same_files_def)
qed

lemma read_files_calm:
  "faults w = [] \<Longrightarrow> (\<And>p. p \<in> set ps \<Longrightarrow> path_exists p w) \<Longrightarrow> \<exists>fs. read_files c ps w = (Inr fs, w)"
proof (induction ps)
  case (Cons p ps)
  then obtain fs where "read_files c ps w = (Inr fs, w)" by auto
  moreover obtain b where "hm_get (files w) p = Some b" using Cons.prems(2) [of p] by (auto simp: path_exists_def)
  ultimately show ?case using Cons.prems(1) by (simp add: bind_def yield_def)
qed (simp add: yield_def)

lemma sync_files_calm:
  assumes "faults w = []"
  shows "\<exists>fs. sync_files c inc w = (Inr fs, w)"
proof -
  obtain ps where e: "exportable_files inc w = (Inr ps, w)" using exportable_calm [OF assms] by blast
  have "path_exists p w" if "p \<in> set ps" "sync_path_allowed p" for p
    using that exportable_allowed [OF e] by (auto simp: path_exists_def)
  then obtain fs where "read_files c (filter (\<lambda>p. sync_path_allowed p \<and> (inc \<or> \<not> in_audit p)) ps) w = (Inr fs, w)"
    using read_files_calm [OF assms, of "filter (\<lambda>p. sync_path_allowed p \<and> (inc \<or> \<not> in_audit p)) ps" c] by auto
  with e show ?thesis by (simp add: sync_files_def bind_def)
qed

text \<open>A file under \<open>audit\<close> that is not an envelope at all, such as an empty or truncated one.\<close>

definition damaged :: "platform \<Rightarrow> world \<Rightarrow> path \<Rightarrow> bool" where
  "damaged c w p \<longleftrightarrow> sync_path_allowed p \<and> in_audit p \<and>
    (\<exists>x. hm_get (files w) p = Some x \<and> envelope_parse c x = None)"

lemma damaged_export:
  assumes c: "platform_ok c" "sealing_total c" and calm: "faults w = []" and wf: "hm_wf (files w)"
    and hdr: "validate_header (s_header s) = Inr ()" "validate_import_kdf (h_kdf (s_header s)) = Inr ()"
      "unwrap_epoch_and_index_keys c (root_key s) (s_header s) UnlockFailed = Inr (ek, ik)"
    and port: "\<And>p. sync_path_allowed p \<Longrightarrow> path_exists p w \<Longrightarrow> portable p" and dam: "damaged c w p0"
  shows "\<exists>original w1 e. export_sync_snapshot c s w = (Inr original, w1) \<and> decode_snapshot c s original = Inl e"
proof -
  obtain fs where l: "sync_files c True w = (Inr fs, w)" using sync_files_calm [OF calm] by blast
  have all: "relative_path ` set fs = {p. hm_get (files w) p \<noteq> None \<and> sync_path_allowed p}"
    and dec: "\<And>f. f \<in> set fs \<Longrightarrow> b64_decode (prims c) (bytes_b64 f) = hm_get (files w) (relative_path f)"
    using sync_files_Inr [OF l wf c(1)] by simp_all
  have pf: "list_all (\<lambda>f. portable (relative_path f)) fs"
    using all port by (force simp: list_all_iff path_exists_def)
  obtain d where d: "print_payload c fs = Inr d" using print_parse_payload [OF c(1) pf] by blast
  let ?at = "now_utc c (draws w)"
  obtain body v where "seal_bytes c (root_key s) (aad_json c ''aipass-vault-sync'' 1 [] ?at (s_header s)) d
      (w\<lparr>draws := Suc (draws w)\<rparr>) = (Inr body, v)"
    using seal_succeeds [OF c(2)] by blast
  with d obtain original where e: "encode_snapshot c s (s_header s) fs [] 1 w = (Inr original, v)"
    by (simp add: encode_snapshot_def bind_def lift_def read_clock_def yield_def)
  from l e have ex: "export_sync_snapshot c s w = (Inr original, v)" by (simp add: export_sync_snapshot_def bind_def)
  obtain snap where dn: "decode_snapshot c s original = and_then (check_files c snap ek {} fs) (\<lambda>_. Inr (snap, fs))"
    using decode_encoded [OF c(1) pf e _ hdr(1,2) _ refl hdr(3)] by auto
  from dam obtain x where x: "sync_path_allowed p0" "hm_get (files w) p0 = Some x" "envelope_parse c x = None"
    by (auto simp: damaged_def)
  with all obtain f where f: "f \<in> set fs" "relative_path f = p0" by (force simp: image_iff)
  have "check_file c snap ek f \<noteq> Inr ()" using f dec x by (auto simp: check_file_iff sound_file_def)
  then have "check_files c snap ek {} fs \<noteq> Inr ()" using f by (auto simp: check_files_iff)
  then obtain e where "check_files c snap ek {} fs = Inl e" by (cases "check_files c snap ek {} fs") auto
  with dn ex show ?thesis by auto
qed

lemma damaged_never_commits:
  assumes "committed c s snap fs ek w1 w2" "snap_version snap = 2" "current_epoch (snap_header snap) \<noteq> current_epoch (s_header s)"
    and "damaged c w1 p"
  shows False
proof -
  from assms(4) obtain x where x: "sync_path_allowed p" "in_audit p" "hm_get (files w1) p = Some x" "envelope_parse c x = None"
    by (auto simp: damaged_def)
  have "rel_option (carried c (epoch_key s) ek) (Some x) (hm_get (files w2) p)"
    using assms(1-3) x(1-3) by (force simp: committed_def audit_progress_def audit_carried_def)
  then have "hm_get (files w2) p = Some x" using x(4) by (auto simp: option_rel_Some1 carried_def)
  then have "rewrapped c ek x" using assms(1-3) x by (auto simp: committed_def installed_def)
  with x(4) show False by (simp add: rewrapped_def)
qed

text \<open>
  C14. One damaged local audit file is enough to lose the vault: when a remote snapshot with
  another epoch arrives, re-encrypting the audit history fails on that file, and so does the
  rollback, because the rollback journal contains the file and is validated before it is
  applied.  No fault of the disk is involved.  The journal stays, and from then on every attempt
  to finish it, in this session or at any later unlock with the same root key, on a working
  disk or not, fails and leaves every file as it is; unlocking refuses a vault whose journal
  cannot be finished.
\<close>

theorem damaged_audit_file_blocks_the_vault:
  assumes "platform_ok c" "sealing_total c" "faults w = []" "hm_wf (files w)" "\<not> path_exists PENDING w"
    and "validate_header (s_header s) = Inr ()" "validate_import_kdf (h_kdf (s_header s)) = Inr ()"
    and "unwrap_epoch_and_index_keys c (root_key s) (s_header s) UnlockFailed = Inr (epoch_key s, index_key s)"
    and "\<And>p. sync_path_allowed p \<Longrightarrow> path_exists p w \<Longrightarrow> portable p" and "damaged c w p0"
    and "decode_snapshot c s b = Inr (snap, fs)" "snap_version snap = 2"
    and "current_epoch (snap_header snap) \<noteq> current_epoch (s_header s)"
  shows "\<exists>e s' w' j. apply_sync_snapshot c s b w = (Inl e, s', w') \<and> hm_get (files w') PENDING = Some j \<and>
    (\<forall>s2 w2. root_key s2 = root_key s \<and> h_vault_id (s_header s2) = h_vault_id (s_header s) \<and>
        hm_get (files w2) PENDING = Some j \<longrightarrow>
      (\<exists>e2 w3. finish_pending_sync c s2 w2 = (Inl e2, s2, w3) \<and> same_files w2 w3))"
proof -
  obtain original w1 x where ex: "export_sync_snapshot c s w = (Inr original, w1)" and bad: "decode_snapshot c s original = Inl x"
    using damaged_export [OF assms(1-4,6-8) _ assms(10)] assms(9) by blast
  have o1: "same_outside {} w w1" by (rule touchesD [OF touches_export ex])
  have f1: "faults w1 = []" by (rule quietD [OF quiet_export ex assms(3)])
  let ?w2 = "w1\<lparr>files := hm_put PENDING b (files w1)\<rparr>"
  have j: "journal c s b w = (Inr original, ?w2)"
    using assms(5,11) ex f1 by (simp add: journal_def bind_def lift_def ensure_sync_ready_def yield_def)
  have get2: "hm_get (files ?w2) p = hm_get (files w) p" if "p \<noteq> PENDING" for p
    using that same_outsideD(1) [OF o1, of p] by simp
  have wf2: "hm_wf (files ?w2)" using same_outsideD(2) [OF o1 assms(4)] by simp
  have dam2: "damaged c ?w2 p0" using assms(10) get2 [of p0] PENDING_not_allowed(1) by (auto simp: damaged_def)
  obtain ek ik where k: "unwrap_epoch_and_index_keys c (root_key s) (snap_header snap) UnlockFailed = Inr (ek, ik)"
    using decode_unwraps [OF assms(11)] by blast
  have p2: "path_exists PENDING ?w2" "hm_get (files ?w2) PENDING = Some b" by (simp_all add: path_exists_def)
  obtain rf sf w3 where fin: "finish_pending_sync c s ?w2 = (rf, sf, w3)" by (rule prod_cases3)
  have "\<exists>e. rf = Inl e \<and> sf = s"
    using fin assms(1) wf2 p2(2) assms(11) k
    by (cases rule: finish_any) (use damaged_never_commits [OF _ assms(12,13) dam2] in auto)
  then obtain e where rf: "rf = Inl e" "sf = s" by blast
  have f3: "faults w3 = []" by (rule finish_quiet [OF fin]) (simp add: f1)
  let ?w4 = "w3\<lparr>files := hm_put PENDING original (files w3)\<rparr>"
  have p4: "hm_get (files ?w4) PENDING = Some original" by simp
  obtain e4 w5 where fin4: "finish_pending_sync c s ?w4 = (Inl e4, s, w5)" "same_files ?w4 w5"
    using finish_undecodable [OF p4 bad] by blast
  have "apply_sync_snapshot c s b w = (Inl e4, s, w5)"
    using j fin rf f3 fin4 by (simp add: apply_sync_snapshot_def roll_back_def)
  moreover have "hm_get (files w5) PENDING = Some original" using fin4(2) by (simp add: same_files_def)
  moreover have "\<exists>e2 w3. finish_pending_sync c s2 w2 = (Inl e2, s2, w3) \<and> same_files w2 w3"
    if "root_key s2 = root_key s" "h_vault_id (s_header s2) = h_vault_id (s_header s)" "hm_get (files w2) PENDING = Some original"
    for s2 w2
    using finish_undecodable [OF that(3)] decode_other_session [OF that(1,2)] bad by metis
  ultimately show ?thesis by blast
qed

end
