(* ===== verification/Records.thy ===== *)
theory Records
  imports Unlock
begin

text \<open>
  Writing a record keeps an unlocked vault in order: whatever fault strikes, the file holds its
  old content or an envelope this session opens, so the state every synchronisation starts from
  is an invariant of the vault's own writes.
\<close>

section \<open>Names of records\<close>

lemma split_on_append:
  "c \<notin> set t \<Longrightarrow> c \<notin> set e \<Longrightarrow> split_on c (t @ c # e) = [t, e]"
proof (induction t)
  case Nil
  then show ?case by (induction e) auto
qed auto

lemma split_name_ext:
  assumes "CHR ''.'' \<notin> set t" "t \<noteq> []" "CHR ''.'' \<notin> set e" "e \<noteq> []"
  shows "split_name (t @ CHR ''.'' # e) = (t, Some e)"
proof -
  have "t @ CHR ''.'' # e \<noteq> ''..''"
  proof
    assume "t @ CHR ''.'' # e = ''..''"
    then have "set e \<subseteq> {CHR ''.''}" by (cases t) (auto simp: append_eq_Cons_conv)
    with assms(3,4) show False by (cases e) auto
  qed
  then show ?thesis
    using assms by (simp add: split_name_def split_on_append)
qed

definition record_dirs :: "(string \<times> string) list" where
  "record_dirs = [(''objects'', ''aipobj''), (''grants'', ''aipgrant''), (''devices'', ''aipdevice''), (''audit'', ''aipaudit'')]"

lemma record_name:
  assumes "platform_ok c" "(d, e) \<in> set record_dirs"
  shows "sync_path_allowed [d, uuid_text c u @ CHR ''.'' # e]" "portable [d, uuid_text c u @ CHR ''.'' # e]"
    "file_stem [d, uuid_text c u @ CHR ''.'' # e] = Some (uuid_text c u)"
proof -
  let ?t = "uuid_text c u"
  have t: "?t \<noteq> []" "\<And>x. x \<in> set ?t \<Longrightarrow> x \<in> set ''0123456789abcdef-''"
    using assms(1) by (auto simp: platform_ok_def list_all_iff uuid_char_def)
  have no: "CHR ''.'' \<notin> set ?t" "CHR ''/'' \<notin> set ?t" "CHR '':'' \<notin> set ?t" "CHR 0x00 \<notin> set ?t" "backslash \<notin> set ?t"
    using t(2) by (force simp: backslash_def)+
  have e: "CHR ''.'' \<notin> set e" "CHR ''/'' \<notin> set e" "CHR '':'' \<notin> set e" "CHR 0x00 \<notin> set e" "backslash \<notin> set e" "e \<noteq> []"
    "portable_component d" "dir_extension d = Some e" "hd e = CHR ''a''"
    using assms(2) by (auto simp: record_dirs_def backslash_def portable_component_def normal_component_def dir_extension_def)
  let ?n = "?t @ CHR ''.'' # e"
  have sp: "split_name ?n = (?t, Some e)" by (rule split_name_ext [OF no(1) t(1) e(1,6)])
  have "?n \<noteq> ''.''" "?n \<noteq> ''..''" "?n \<noteq> []"
    using t(1) no(1) by (auto simp: append_eq_Cons_conv)
  then have n: "portable_component ?n"
    using no e by (simp add: portable_component_def normal_component_def backslash_def)
  show "portable [d, ?n]" using n e(7) by (simp add: portable_def)
  have "last [d, ?n] \<noteq> ''..''" using \<open>?n \<noteq> ''..''\<close> by simp
  then show "file_stem [d, ?n] = Some ?t" "sync_path_allowed [d, ?n]"
    using sp n e(7,8) by (simp_all add: file_stem_def sync_path_allowed_def extension_def portable_component_def)
qed

section \<open>The invariant\<close>

lemma build_envelope_Inr:
  assumes "platform_ok c" "build_envelope c s p ident type schema m w = (Inr e, w')"
  shows "o_vault_id e = h_vault_id (s_header s) \<and> o_format e = ''aipass-object'' \<and> o_version e = 1 \<and>
    object_id e = ident \<and> object_type e = type \<and> \<not> tombstone e \<and>
    decrypt_envelope_with_epoch c e (epoch_key s) = Inr m"
proof -
  from assms(2) obtain e0 v where e0: "encrypt_envelope c e0 m (epoch_key s) v = (Inr e, w')"
    and f: "o_vault_id e0 = h_vault_id (s_header s)" "o_format e0 = ''aipass-object''" "o_version e0 = 1"
      "object_id e0 = ident" "object_type e0 = type" "\<not> tombstone e0"
    by (fastforce simp: build_envelope_def bind_Inr)
  from encrypt_envelope_Inr [OF assms(1) e0] f show ?thesis by auto
qed

lemma touches_read_lamports [act]: "touches R (read_lamport c p)" "touches R (read_lamports c ps)"
proof -
  show one: "touches R (read_lamport c p)" for p unfolding read_lamport_def by (intro act)
  show "touches R (read_lamports c ps)" by (induction ps) (auto intro!: act one)
qed

lemma touches_build [act]: "touches R (build_envelope c s p ident type schema m)"
  unfolding build_envelope_def by (intro act)

lemma ready_put:
  assumes "ready c s w" "same_outside {p} w w'" "p \<noteq> manifest"
    and "hm_get (files w') p = hm_get (files w) p \<or>
      (\<exists>b. hm_get (files w') p = Some b \<and> portable p \<and> sound_file c (h_vault_id (s_header s)) (epoch_key s) p b)"
  shows "ready c s w'"
proof -
  have other: "hm_get (files w') q = hm_get (files w) q" if "q \<noteq> p" for q
    using same_outsideD(1) [OF assms(2), of q] that by simp
  have old: "portable q \<and> sound_file c (h_vault_id (s_header s)) (epoch_key s) q b"
    if "hm_get (files w) q = Some b" "sync_path_allowed q" for q b
    using assms(1) that by (simp add: ready_def)
  have "portable q \<and> sound_file c (h_vault_id (s_header s)) (epoch_key s) q b"
    if q: "hm_get (files w') q = Some b" "sync_path_allowed q" for q b
  proof (cases "hm_get (files w') q = hm_get (files w) q")
    case True
    with q show ?thesis by (intro old) simp_all
  next
    case False
    then have "q = p" using other by blast
    with False assms(4) q(1) show ?thesis by auto
  qed
  then show ?thesis
    using assms(1,3) other [of manifest] same_outsideD(2) [OF assms(2)] by (auto simp: ready_def)
qed

lemma write_ready:
  assumes "platform_ok c" "ready c s w" "(d, e) \<in> set record_dirs"
  shows "ready c s (snd (write_envelope c s [d, uuid_text c u @ CHR ''.'' # e] u type schema m w))"
proof -
  let ?p = "[d, uuid_text c u @ CHR ''.'' # e]"
  obtain r w1 where b: "build_envelope c s ?p u type schema m w = (r, w1)" by (cases "build_envelope c s ?p u type schema m w")
  have o1: "same_outside {} w w1" by (rule touchesD [OF touches_build b])
  have rdy1: "ready c s w1"
    by (rule ready_put [OF assms(2) same_outside_empty [OF o1, of "{[]}"]]) (use same_outsideD(1) [OF o1] in \<open>auto simp: manifest_def\<close>)
  show ?thesis
  proof (cases r)
    case (Inl x)
    with b rdy1 show ?thesis by (simp add: write_envelope_def bind_def)
  next
    case (Inr env)
    obtain r2 w2 where wr: "atomic_write_bytes ?p (envelope_pretty c env) w1 = (r2, w2)"
      by (cases "atomic_write_bytes ?p (envelope_pretty c env) w1")
    have o2: "same_outside {?p} w1 w2" by (rule touchesD [OF touches_write wr]) simp
    have "sound_file c (h_vault_id (s_header s)) (epoch_key s) ?p (envelope_pretty c env)"
      using build_envelope_Inr [OF assms(1) b [unfolded Inr]] record_name(3) [OF assms(1,3), of u] assms(1)
      by (auto simp: sound_file_def platform_ok_def)
    moreover have "hm_get (files w2) ?p = hm_get (files w1) ?p \<or> hm_get (files w2) ?p = Some (envelope_pretty c env)"
      using wr write_Inr [of ?p _ w1 _ w2] write_Inl [of ?p _ w1 _ w2] by (cases r2) fastforce+
    ultimately have "ready c s w2"
      using record_name(2) [OF assms(1,3), of u] by (intro ready_put [OF rdy1 o2]) (auto simp: manifest_def)
    with b Inr wr show ?thesis by (simp add: write_envelope_def bind_def write_envelope_json_def)
  qed
qed

text \<open>
  C20. Writing a record, a grant, a device or an audit event under its own identifier keeps the
  vault in order, whatever fault the disk has in store and whether or not the write reports
  success: every synchronised file still opens under the session's epoch key.
\<close>

theorem write_keeps_the_vault_ready:
  assumes "platform_ok c" "ready c s w" "(d, e) \<in> set record_dirs"
  shows "ready c s (snd (write_envelope c s [d, uuid_text c u @ CHR ''.'' # e] u type schema m w))"
  using assms by (rule write_ready)

end
