(* ===== verification/Rotation.thy ===== *)
theory Rotation
  imports Records
begin

text \<open>
  Opening a vault and moving it to another epoch or another machine
  (\<open>crates/aipass-vault/src/lib.rs\<close>, \<open>sync_snapshot.rs\<close>, \<open>remote_unlock.rs\<close>): the password, the
  recovery key and the remote access code all end in \<open>open_with_root_key\<close>; a change of password,
  a recovery, a revoked device and a plain rotation all prepare the next epoch as one snapshot
  and commit it through the journal; an encrypted backup is restored file by file with the
  manifest last.
\<close>

section \<open>Unlocking\<close>

definition create_dirs :: "unit act" where
  "create_dirs w = (case next_fault w of (f, w') \<Rightarrow> if f = Fine then (Inr (), w') else (Inl IoError, w'))"

text \<open>
  \<open>upkeep\<close> is the retention pass over audit files, whose result is ignored.  A vault whose journal
  cannot be finished is not opened.
\<close>

definition open_with_root_key ::
  "platform \<Rightarrow> unit act \<Rightarrow> vault_header \<Rightarrow> bytes \<Rightarrow> vault_error \<Rightarrow> session act" where
  "open_with_root_key c upkeep h rk err =
    bind (lift (unwrap_epoch_and_index_keys c rk h err)) (\<lambda>(ek, ik).
    bind (new_uuid c) (\<lambda>device w.
      (case finish_pending_sync c
          \<lparr>s_header = h, root_key = rk, epoch_key = ek, index_key = ik, s_device = device\<rparr> w of
         (Inl e, s', w') \<Rightarrow> (Inl e, w')
       | (Inr _, s', w') \<Rightarrow> (Inr s', snd (upkeep w')))))"

definition require_manifest :: "unit act" where
  "require_manifest w = (if path_exists manifest w then (Inr (), w) else (Inl NotFound, w))"

definition open_vault :: "platform \<Rightarrow> unit act \<Rightarrow> string \<Rightarrow> session act" where
  "open_vault c upkeep password =
    bind require_manifest (\<lambda>_.
    bind create_dirs (\<lambda>_.
    bind (read_header c manifest) (\<lambda>h.
    bind (lift (validate_header h)) (\<lambda>_.
    bind (lift (replace_error UnlockFailed (derive_master_key (prims c) password (h_kdf h)))) (\<lambda>pk.
    bind (lift (decrypt_root_key c pk (wrapped_root_key h) (h_vault_id h) UnlockFailed)) (\<lambda>rk.
    open_with_root_key c upkeep h rk UnlockFailed))))))"

record remote_unlock =
  ru_version :: u32
  ru_vault_id :: uuid
  ru_password_revision :: bytes
  ru_salt :: uuid
  ru_wrapped_root_key :: ciphertext

text \<open>
  \<open>revision\<close> is the SHA-256 of the JSON of the vault identifier, the KDF parameters and the
  wrapped root key; \<open>aad\<close> the JSON of the envelope's own fields.
\<close>

definition matches_header :: "(uuid \<Rightarrow> kdf_params \<Rightarrow> ciphertext \<Rightarrow> bytes) \<Rightarrow> remote_unlock \<Rightarrow> vault_header \<Rightarrow> bool" where
  "matches_header revision ru h \<longleftrightarrow>
    ru_version ru = 1 \<and> ru_vault_id ru = h_vault_id h \<and>
    ru_password_revision ru = revision (h_vault_id h) (h_kdf h) (wrapped_root_key h)"

definition open_with_remote_unlock ::
  "platform \<Rightarrow> unit act \<Rightarrow> (uuid \<Rightarrow> kdf_params \<Rightarrow> ciphertext \<Rightarrow> bytes) \<Rightarrow>
    (u32 \<Rightarrow> uuid \<Rightarrow> bytes \<Rightarrow> uuid \<Rightarrow> bytes) \<Rightarrow>
    (string \<Rightarrow> bytes option) \<Rightarrow> (uuid \<Rightarrow> bytes) \<Rightarrow> string \<Rightarrow> remote_unlock \<Rightarrow> session act" where
  "open_with_remote_unlock c upkeep revision aad url_decode uuid_bytes code ru =
    bind (read_header c manifest) (\<lambda>h.
    bind (lift (validate_header h)) (\<lambda>_.
    if \<not> matches_header revision ru h then lift (Inl UnlockFailed)
    else bind (lift (replace_error UnlockFailed
           (derive_remote_unlock_key (prims c) url_decode code (uuid_bytes (ru_salt ru))))) (\<lambda>key.
         bind (lift (replace_error UnlockFailed (decrypt_bytes (prims c) key
           (aad (ru_version ru) (ru_vault_id ru) (ru_password_revision ru) (ru_salt ru)) (ru_wrapped_root_key ru)))) (\<lambda>rk.
         if length rk \<noteq> KEY_LEN then lift (Inl UnlockFailed)
         else bind (open_with_root_key c upkeep h rk UnlockFailed) (\<lambda>s.
              if \<not> matches_header revision ru (s_header s) then lift (Inl UnlockFailed) else yield s)))))"

section \<open>The next epoch\<close>

definition revoke_in :: "int \<Rightarrow> u64 \<Rightarrow> device_record \<Rightarrow> device_record" where
  "revoke_in at epoch d = d\<lparr>trusted := False, revoked_at := Some at, last_epoch := epoch\<rparr>"

definition rotate_plaintext :: "platform \<Rightarrow> int \<Rightarrow> epoch_key \<Rightarrow> uuid option \<Rightarrow> path \<Rightarrow> bytes \<Rightarrow> vault_error + bytes" where
  "rotate_plaintext c at next_epoch revoked p m =
    (if is_some_and revoked (\<lambda>d. device_path c d = p)
     then and_then (ok_or JsonError (device_parse c m)) (\<lambda>d.
       Inr (device_json c (revoke_in at (epoch_number (epoch_of next_epoch)) d)))
     else Inr m)"

definition rotate_file ::
  "platform \<Rightarrow> session \<Rightarrow> int \<Rightarrow> epoch_key \<Rightarrow> uuid option \<Rightarrow> export_file \<Rightarrow> export_file act" where
  "rotate_file c s at next_epoch revoked f =
    bind (lift (ok_or InvalidExport (b64_decode (prims c) (bytes_b64 f)))) (\<lambda>b.
    bind (lift (ok_or JsonError (envelope_parse c b))) (\<lambda>e.
    if tombstone e then yield f
    else bind (lift (decrypt_envelope_with_epoch c e (epoch_key s))) (\<lambda>m.
         bind (lift (rotate_plaintext c at next_epoch revoked (relative_path f) m)) (\<lambda>m'.
         bind (encrypt_envelope c
           (e\<lparr>o_device_id := s_device s, o_updated_at := at, lamport := sat_add (lamport e) 1\<rparr>) m' next_epoch) (\<lambda>e'.
         yield (f\<lparr>bytes_b64 := b64_encode (prims c) (envelope_json c e')\<rparr>))))))"

fun rotate_files ::
  "platform \<Rightarrow> session \<Rightarrow> int \<Rightarrow> epoch_key \<Rightarrow> uuid option \<Rightarrow> export_file list \<Rightarrow> export_file list act" where
  "rotate_files c s at ne rv [] = yield []"
| "rotate_files c s at ne rv (f # fs) =
     bind (rotate_file c s at ne rv f) (\<lambda>g. bind (rotate_files c s at ne rv fs) (\<lambda>gs. yield (g # gs)))"

definition draw_next_epoch :: "platform \<Rightarrow> session \<Rightarrow> epoch_key act" where
  "draw_next_epoch c s =
    bind (random_draw c KEY_LEN) (\<lambda>fresh.
    bind (new_uuid c) (\<lambda>ident.
    bind (read_clock c) (\<lambda>now. lift (crypto (advance_epoch (prims c) fresh ident now (epoch_key s))))))"

definition rotation_event :: "platform \<Rightarrow> session \<Rightarrow> uuid \<Rightarrow> int \<Rightarrow> string \<Rightarrow> export_file act" where
  "rotation_event c s ident at reason =
    bind (build_envelope c s (audit_path c ident) ident ''audit_event'' 1
      (event_json c \<lparr>event_id = ident, event_at = at, event_action = reason, event_record = None,
        event_detail = Some ''epoch advanced''\<rparr>)) (\<lambda>e.
    yield \<lparr>relative_path = audit_path c ident, bytes_b64 = b64_encode (prims c) (envelope_json c e)\<rparr>)"

definition prepare_epoch_rotation :: "platform \<Rightarrow> session \<Rightarrow> vault_header \<Rightarrow> string \<Rightarrow> uuid option \<Rightarrow> bytes act" where
  "prepare_epoch_rotation c s h reason revoked =
    bind ensure_sync_ready (\<lambda>_.
    bind (draw_next_epoch c s) (\<lambda>ne.
    bind (sync_files c True) (\<lambda>fs.
    bind (new_uuid c) (\<lambda>ident.
    bind (read_clock c) (\<lambda>at.
    bind (rotation_event c s ident at reason) (\<lambda>ev.
    bind (rotate_files c s at ne revoked (fs @ [ev])) (\<lambda>gs.
    bind (seal_bytes c (root_key s) (header_key_aad c (h_vault_id h) ''epoch'') (epoch_bytes ne)) (\<lambda>wk.
    encode_snapshot c s (h\<lparr>wrapped_epoch_key := wk, current_epoch := epoch_of ne, h_updated_at := at\<rparr>) gs [] 1))))))))"

definition commit_epoch_rotation ::
  "platform \<Rightarrow> session \<Rightarrow> vault_header \<Rightarrow> string \<Rightarrow> uuid option \<Rightarrow> world \<Rightarrow> (vault_error + unit) \<times> session \<times> world" where
  "commit_epoch_rotation c s h reason revoked w =
    (case prepare_epoch_rotation c s h reason revoked w of
       (Inl e, w') \<Rightarrow> (Inl e, s, w')
     | (Inr b, w') \<Rightarrow> apply_sync_snapshot c s b w')"

text \<open>The header a new password asks for: only its KDF and its wrapping of the root key change.\<close>

definition rewrap_root_key_for_new_password :: "platform \<Rightarrow> session \<Rightarrow> vault_header \<Rightarrow> string \<Rightarrow> kdf_params \<Rightarrow> vault_header act" where
  "rewrap_root_key_for_new_password c s h password kdf =
    bind (lift (crypto (derive_master_key (prims c) password kdf))) (\<lambda>pk.
    bind (seal_bytes c pk (root_key_aad c (h_vault_id (s_header s))) (root_key s)) (\<lambda>wk.
    yield (h\<lparr>h_kdf := kdf, wrapped_root_key := wk\<rparr>)))"

definition change_master_password ::
  "platform \<Rightarrow> session \<Rightarrow> string \<Rightarrow> kdf_params \<Rightarrow> world \<Rightarrow> (vault_error + unit) \<times> session \<times> world" where
  "change_master_password c s password kdf w =
    (case rewrap_root_key_for_new_password c s (s_header s) password kdf w of
       (Inl e, w') \<Rightarrow> (Inl e, s, w')
     | (Inr h, w') \<Rightarrow> commit_epoch_rotation c s h ''vault.password_changed'' None w')"

definition rewrap_root_key_for_new_password_and_recovery ::
  "platform \<Rightarrow> session \<Rightarrow> vault_header \<Rightarrow> string \<Rightarrow> kdf_params \<Rightarrow> (vault_header \<times> string) act" where
  "rewrap_root_key_for_new_password_and_recovery c s h password kdf =
    bind (rewrap_root_key_for_new_password c s h password kdf) (\<lambda>h'.
    bind (random_draw c RECOVERY_SECRET_LEN) (\<lambda>secret.
    bind (lift (crypto (derive_recovery_key (prims c) (generate_recovery_secret secret)))) (\<lambda>rk.
    bind (seal_bytes c rk (root_key_aad c (h_vault_id (s_header s))) (root_key s)) (\<lambda>wk.
    yield (h'\<lparr>recovery_wrapped_root_key := wk\<rparr>, generate_recovery_secret secret)))))"

definition recover_master_password ::
  "platform \<Rightarrow> unit act \<Rightarrow> string \<Rightarrow> string \<Rightarrow> kdf_params \<Rightarrow> world \<Rightarrow> (vault_error + session \<times> string) \<times> world" where
  "recover_master_password c upkeep code password kdf =
    bind require_manifest (\<lambda>_.
    bind create_dirs (\<lambda>_.
    bind (read_header c manifest) (\<lambda>h.
    bind (lift (validate_header h)) (\<lambda>_.
    bind (lift (replace_error RecoveryFailed (derive_recovery_key (prims c) code))) (\<lambda>ck.
    bind (lift (decrypt_root_key c ck (recovery_wrapped_root_key h) (h_vault_id h) RecoveryFailed)) (\<lambda>rk.
    bind (open_with_root_key c upkeep h rk RecoveryFailed) (\<lambda>s.
    bind (rewrap_root_key_for_new_password_and_recovery c s (s_header s) password kdf) (\<lambda>(h', kit) w.
      (case commit_epoch_rotation c s h' ''vault.recovered'' None w of
         (Inl e, s', w') \<Rightarrow> (Inl e, w')
       | (Inr _, s', w') \<Rightarrow> (Inr (s', kit), w'))))))))))"

section \<open>Encrypted backups\<close>

definition export_encrypted ::
  "platform \<Rightarrow> (uuid \<Rightarrow> int \<Rightarrow> string) \<Rightarrow> session \<Rightarrow> string \<Rightarrow> kdf_params \<Rightarrow> encrypted_export act" where
  "export_encrypted c aad s password kdf =
    bind (lift (crypto (derive_master_key (prims c) password kdf))) (\<lambda>key.
    bind (exportable_files True) (\<lambda>ps.
    bind (read_files c ps) (\<lambda>fs.
    bind (read_clock c) (\<lambda>at.
    bind (lift (print_payload c fs)) (\<lambda>payload.
    bind (seal_bytes c key (aad (h_vault_id (s_header s)) at) payload) (\<lambda>body.
    yield \<lparr>exp_format = ''aipass-encrypted-vault-export'', exp_version = 1, exp_vault_id = h_vault_id (s_header s),
      exp_kdf = kdf, exp_created_at = at, exp_payload = body\<rparr>))))))"

definition export_aad :: "platform \<Rightarrow> uuid \<Rightarrow> int \<Rightarrow> string" where
  "export_aad c v at = ''aipass-export:vault='' @ uuid_text c v @ '';created_at='' @ show_int at"

fun import_files :: "platform \<Rightarrow> (path, bytes) hmap \<Rightarrow> export_file list \<Rightarrow> vault_error + (path, bytes) hmap" where
  "import_files c m [] = Inr m"
| "import_files c m (f # fs) =
     (if ''..'' \<in> set (relative_path f) then Inl NotFound
      else if \<not> sync_path_allowed (relative_path f) \<and> relative_path f \<notin> set BACKUP_ROOT_FILES then Inl InvalidExport
      else and_then (ok_or InvalidExport (b64_decode (prims c) (bytes_b64 f))) (\<lambda>b.
        if hm_get m (relative_path f) \<noteq> None then Inl InvalidExport
        else import_files c (hm_put (relative_path f) b m) fs))"

definition checked_import :: "platform \<Rightarrow> string \<Rightarrow> encrypted_export \<Rightarrow> vault_error + (bytes \<times> (path, bytes) hmap)" where
  "checked_import c password x =
    (if exp_format x \<noteq> ''aipass-encrypted-vault-export'' \<or> exp_version x \<noteq> 1 then Inl InvalidExport
     else and_then (validate_import_kdf (exp_kdf x)) (\<lambda>_.
          and_then (crypto (derive_master_key (prims c) password (exp_kdf x))) (\<lambda>key.
          and_then (crypto (decrypt_bytes (prims c) key (export_aad c (exp_vault_id x) (exp_created_at x)) (exp_payload x))) (\<lambda>d.
          and_then (parse_payload c d) (\<lambda>fs.
          and_then (import_files c [] fs) (\<lambda>m.
          and_then (ok_or InvalidExport (hm_get m manifest)) (\<lambda>mb.
          and_then (ok_or JsonError (header_parse c mb)) (\<lambda>h.
          and_then (validate_header h) (\<lambda>_.
          if h_vault_id h \<noteq> exp_vault_id x then Inl InvalidExport else Inr (mb, hm_del manifest m))))))))))"

text \<open>The checked files in path order, then the manifest, whose presence is what makes it a vault.\<close>

definition import_encrypted :: "platform \<Rightarrow> string \<Rightarrow> encrypted_export \<Rightarrow> unit act" where
  "import_encrypted c password x w =
    (if path_exists manifest w then (Inl AlreadyExists, w)
     else bind (lift (checked_import c password x)) (\<lambda>(mb, m).
          bind (for_each (\<lambda>(p, b). atomic_write_bytes p b) (sort_key fst m)) (\<lambda>_.
          bind (atomic_write_bytes manifest mb) (\<lambda>_. create_dirs))) w)"

end
