(* ===== verification/Epochs.thy ===== *)
theory Epochs
  imports Rotation
begin

text \<open>
  What a snapshot in force and a committed rotation leave behind: a vault in order again, whose
  every record opens under the new epoch key with the content it had, and under the old key no
  more.
\<close>

section \<open>A snapshot in force leaves the vault in order\<close>

lemma sync_files_portable:
  assumes "sync_files c inc w = (Inr fs, w1)" "platform_ok c" "ready c s w"
  shows "list_all (\<lambda>f. portable (relative_path f)) fs"
proof -
  have "relative_path ` set fs = {p. hm_get (files w) p \<noteq> None \<and> sync_path_allowed p \<and> (inc \<or> \<not> in_audit p)}"
    using sync_files_Inr [OF assms(1) _ assms(2)] ready_header(4) [OF assms(3)] by simp
  then have "relative_path f \<in> {p. hm_get (files w) p \<noteq> None \<and> sync_path_allowed p}" if "f \<in> set fs" for f
    using that by blast
  then show ?thesis using assms(3) by (auto simp: list_all_iff ready_def)
qed

lemma payload_file:
  assumes "decode_snapshot c s b = Inr (snap, fs)" "payload_at c fs p = Some x"
    and "unwrap_epoch_and_index_keys c (root_key s) (snap_header snap) UnlockFailed = Inr (ek, ik)"
  shows "portable p \<and> sound_file c (h_vault_id (snap_header snap)) ek p x"
proof -
  from assms(2) obtain f where f: "f \<in> set fs" "relative_path f = p" "b64_decode (prims c) (bytes_b64 f) = Some x"
    by (auto simp: payload_at_def bind_eq_Some_conv dest!: map_of_SomeD)
  from assms(1,3) have "check_files c snap ek {} fs = Inr ()" by (auto simp: decode_snapshot_Inr)
  with f have "sound_file c (h_vault_id (snap_header snap)) ek p x" by (auto simp: check_files_iff check_file_iff)
  then show ?thesis using checked_portable(3) [OF assms(1) f(1)] f(2) by simp
qed

lemma carried_sound:
  assumes "carried c old new b b'" "rewrapped c new b'" "sound_file c vid old p b"
  shows "sound_file c vid new p b'"
proof (cases "b' = b")
  case True
  with assms(2,3) show ?thesis by (auto simp: sound_file_def rewrapped_def opens_def)
next
  case False
  with assms(1,3) show ?thesis by (auto simp: carried_def sound_file_def same_object_def opens_def)
qed

lemma in_force_ready:
  assumes c: "platform_ok c" "ready c s w" "in_force c s b w s' w'"
    and key: "\<And>snap fs ek ik. decode_snapshot c s b = Inr (snap, fs) \<Longrightarrow> snap_version snap = 2 \<Longrightarrow>
      unwrap_epoch_and_index_keys c (root_key s) (snap_header snap) UnlockFailed = Inr (ek, ik) \<Longrightarrow>
      current_epoch (snap_header snap) = current_epoch (s_header s) \<Longrightarrow> ek = epoch_key s"
  shows "ready c s' w'"
proof -
  from c(3) obtain snap fs ek ik where d: "decode_snapshot c s b = Inr (snap, fs)"
    and k: "unwrap_epoch_and_index_keys c (root_key s) (snap_header snap) UnlockFailed = Inr (ek, ik)"
    and s': "s' = session_on s (snap_header snap) ek ik" and com: "committed c s snap fs ek w w'"
    by (auto simp: in_force_def)
  have parsed: "validate_header (snap_header snap) = Inr ()" "validate_import_kdf (h_kdf (snap_header snap)) = Inr ()"
      "snap_version snap = 1 \<or> snap_version snap = 2" "h_vault_id (snap_header snap) = h_vault_id (s_header s)"
    using d by (auto simp: decode_snapshot_Inr parse_snapshot_def and_then_Inr split: if_splits)
  have "portable p \<and> sound_file c (h_vault_id (snap_header snap)) ek p x"
    if p: "hm_get (files w') p = Some x" "sync_path_allowed p" for p x
  proof (cases "p \<in> exchanged (snap_version snap)")
    case True
    then have "payload_at c fs p = Some x" using com p(1) by (auto simp: committed_def installed_def)
    then show ?thesis by (rule payload_file [OF d _ k])
  next
    case False
    then have v: "snap_version snap = 2" "in_audit p" using parsed(3) p(2) by (auto simp: exchanged_def)
    have old: "portable p \<and> sound_file c (h_vault_id (s_header s)) (epoch_key s) p y" if "hm_get (files w) p = Some y" for y
      using c(2) p(2) that by (simp add: ready_def)
    show ?thesis
    proof (cases "current_epoch (snap_header snap) = current_epoch (s_header s)")
      case True
      then have "hm_get (files w) p = Some x" using com v p by (simp add: committed_def audit_progress_def)
      with old key [OF d v(1) k True] parsed(4) show ?thesis by simp
    next
      case False
      then have "rel_option (carried c (epoch_key s) ek) (hm_get (files w) p) (Some x)" and r: "rewrapped c ek x"
        using com v p by (auto simp: committed_def audit_progress_def audit_carried_def installed_def simp flip: p(1))
      then obtain y where "hm_get (files w) p = Some y" "carried c (epoch_key s) ek y x"
        by (cases "hm_get (files w) p") auto
      with old [of y] carried_sound [OF _ r] parsed(4) show ?thesis by simp
    qed
  qed
  with com parsed k show ?thesis by (simp add: s' session_on_def ready_def committed_def)
qed

section \<open>What a rotation does to one file\<close>

text \<open>
  A file sealed anew: the same content, or the record of the revoked device marked as revoked,
  readable under the new key and not under the old one.  A deletion marker is left alone.
\<close>

definition resealed ::
  "platform \<Rightarrow> epoch_key \<Rightarrow> epoch_key \<Rightarrow> int \<Rightarrow> uuid option \<Rightarrow> path \<Rightarrow> bytes \<Rightarrow> bytes \<Rightarrow> bool" where
  "resealed c old new at revoked p b b' \<longleftrightarrow>
    (\<exists>e. envelope_parse c b = Some e \<and> tombstone e \<and> b' = b) \<or>
    (\<exists>e e' m m'. envelope_parse c b = Some e \<and> envelope_parse c b' = Some e' \<and> same_object e e' \<and>
      decrypt_envelope_with_epoch c e old = Inr m \<and> rotate_plaintext c at new revoked p m = Inr m' \<and>
      decrypt_envelope_with_epoch c e' new = Inr m' \<and> (\<forall>x. decrypt_envelope_with_epoch c e' old \<noteq> Inr x))"

lemma resealed_sound: "resealed c old new at rv p b b' \<Longrightarrow> sound_file c vid old p b \<Longrightarrow> sound_file c vid new p b'"
  by (auto simp: resealed_def sound_file_def same_object_def)

lemma other_epoch_refuses:
  "o_wrapped_dek e = Some d \<Longrightarrow> dek_epoch d \<noteq> epoch_number (epoch_of ek) \<Longrightarrow> decrypt_envelope_with_epoch c e ek \<noteq> Inr x"
  by (auto simp: decrypt_envelope_with_epoch_def unwrap_record_dek_def and_then_Inr)

lemma rotate_file_Inr:
  assumes c: "platform_ok c" and r: "rotate_file c s at ne rv f w = (Inr g, w')"
    and ne: "epoch_number (epoch_of ne) \<noteq> epoch_number (epoch_of (epoch_key s))"
  shows "relative_path g = relative_path f \<and> (\<exists>b b'. b64_decode (prims c) (bytes_b64 f) = Some b \<and>
    b64_decode (prims c) (bytes_b64 g) = Some b' \<and> resealed c (epoch_key s) ne at rv (relative_path f) b b')"
proof -
  from r obtain b e where b: "b64_decode (prims c) (bytes_b64 f) = Some b" and e: "envelope_parse c b = Some e"
    and rest: "tombstone e \<and> g = f \<or> \<not> tombstone e \<and> (\<exists>m m' e' v. decrypt_envelope_with_epoch c e (epoch_key s) = Inr m \<and>
        rotate_plaintext c at ne rv (relative_path f) m = Inr m' \<and>
        encrypt_envelope c (e\<lparr>o_device_id := s_device s, o_updated_at := at, lamport := sat_add (lamport e) 1\<rparr>) m' ne w
          = (Inr e', v) \<and>
        g = f\<lparr>bytes_b64 := b64_encode (prims c) (envelope_json c e')\<rparr>)"
    by (auto simp: rotate_file_def bind_Inr ok_or_Inr split: if_splits)
  show ?thesis
  proof (cases "tombstone e")
    case True
    with b e rest show ?thesis by (auto simp: resealed_def)
  next
    case False
    with rest obtain m m' e' v where m: "decrypt_envelope_with_epoch c e (epoch_key s) = Inr m"
        "rotate_plaintext c at ne rv (relative_path f) m = Inr m'"
      and e': "encrypt_envelope c (e\<lparr>o_device_id := s_device s, o_updated_at := at, lamport := sat_add (lamport e) 1\<rparr>)
          m' ne w = (Inr e', v)"
      and g: "g = f\<lparr>bytes_b64 := b64_encode (prims c) (envelope_json c e')\<rparr>" by blast
    from encrypt_envelope_Inr [OF c e'] False obtain d where d: "o_wrapped_dek e' = Some d"
        "dek_epoch d = epoch_number (epoch_of ne)" and new: "decrypt_envelope_with_epoch c e' ne = Inr m'"
      and same: "same_object e e'"
      by (auto simp: same_object_def)
    have "decrypt_envelope_with_epoch c e' (epoch_key s) \<noteq> Inr x" for x
      by (rule other_epoch_refuses [of _ d]) (use d ne in simp_all)
    moreover have "envelope_parse c (envelope_json c e') = Some e'" using c by (simp add: platform_ok_def)
    ultimately have "resealed c (epoch_key s) ne at rv (relative_path f) b (envelope_json c e')"
      unfolding resealed_def using m e new same by blast
    then show ?thesis using b c by (simp add: g platform_ok_def primitives_ok_def)
  qed
qed

lemma rotate_files_Inr:
  assumes "platform_ok c" "rotate_files c s at ne rv fs w = (Inr gs, w')"
    and "epoch_number (epoch_of ne) \<noteq> epoch_number (epoch_of (epoch_key s))"
  shows "list_all2 (\<lambda>f g. relative_path g = relative_path f \<and> (\<exists>b b'. b64_decode (prims c) (bytes_b64 f) = Some b \<and>
    b64_decode (prims c) (bytes_b64 g) = Some b' \<and> resealed c (epoch_key s) ne at rv (relative_path f) b b')) fs gs"
  using assms(2)
proof (induction fs arbitrary: w gs)
  case (Cons f fs)
  then obtain g w1 hs where g: "rotate_file c s at ne rv f w = (Inr g, w1)"
    and hs: "rotate_files c s at ne rv fs w1 = (Inr hs, w')" and gs: "gs = g # hs"
    by (auto simp: bind_Inr)
  from rotate_file_Inr [OF assms(1) g assms(3)] Cons.IH [OF hs] show ?case by (simp add: gs)
qed simp

lemma touches_rotate [act]: "touches R (rotate_file c s at ne rv f)" "touches R (rotate_files c s at ne rv fs)"
proof -
  show one: "touches R (rotate_file c s at ne rv f)" for f
    unfolding rotate_file_def by (intro act) (simp add: act)
  show "touches R (rotate_files c s at ne rv fs)" by (induction fs) (auto intro!: act one)
qed

lemma touches_prepare: "touches R (prepare_epoch_rotation c s h reason revoked)"
proof -
  have "touches R (sync_files c True)" unfolding sync_files_def by (intro act)
  moreover have "touches R (draw_next_epoch c s)" unfolding draw_next_epoch_def by (intro act)
  moreover have "touches R ensure_sync_ready" by (simp add: touches_def ensure_sync_ready_def)
  moreover have "touches R (encode_snapshot c s h fs [] 1)" for h fs unfolding encode_snapshot_def by (intro act)
  moreover have "touches R (rotation_event c s ident at reason)" for ident at unfolding rotation_event_def by (intro act)
  ultimately show ?thesis unfolding prepare_epoch_rotation_def by (intro act)
qed

section \<open>A committed rotation\<close>

text \<open>What a prepared rotation contains.\<close>

definition rotation_of ::
  "platform \<Rightarrow> session \<Rightarrow> vault_header \<Rightarrow> uuid option \<Rightarrow> world \<Rightarrow> epoch_key \<Rightarrow> int \<Rightarrow> vault_header \<Rightarrow> export_file list \<Rightarrow> bool" where
  "rotation_of c s h revoked w ne at h' gs \<longleftrightarrow>
    epoch_number (epoch_of ne) = epoch_number (epoch_of (epoch_key s)) + 1 \<and>
    (\<exists>wk. h' = h\<lparr>wrapped_epoch_key := wk, current_epoch := epoch_of ne, h_updated_at := at\<rparr> \<and>
      decrypt_bytes (prims c) (root_key s) (header_key_aad c (h_vault_id h) ''epoch'') wk = Inr (epoch_bytes ne)) \<and>
    (\<forall>g\<in>set gs. portable (relative_path g) \<and>
      (in_audit (relative_path g) \<or> hm_get (files w) (relative_path g) \<noteq> None)) \<and>
    (\<forall>p b. sync_path_allowed p \<and> hm_get (files w) p = Some b \<longrightarrow>
      (\<exists>g\<in>set gs. \<exists>b'. relative_path g = p \<and> b64_decode (prims c) (bytes_b64 g) = Some b' \<and>
        resealed c (epoch_key s) ne at revoked p b b'))"

lemma draw_next_epoch_Inr:
  "draw_next_epoch c s w = (Inr ne, w') \<Longrightarrow>
    epoch_number (epoch_of ne) = epoch_number (epoch_of (epoch_key s)) + 1 \<and> files w' = files w"
  by (auto simp: draw_next_epoch_def bind_Inr random_draw_def new_uuid_def read_clock_def advance_epoch_def and_then_Inr)

lemma all2_mem:
  assumes "list_all2 P xs ys"
  shows "x \<in> set xs \<Longrightarrow> \<exists>y\<in>set ys. P x y" "y \<in> set ys \<Longrightarrow> \<exists>x\<in>set xs. P x y"
  using assms by (induction rule: list_all2_induct) auto

lemma prepare_Inr:
  assumes c: "platform_ok c" "ready c s w" and p: "prepare_epoch_rotation c s h reason revoked w = (Inr b, w')"
  shows "\<exists>ne at h' gs v. rotation_of c s h revoked w ne at h' gs \<and> encode_snapshot c s h' gs [] 1 v = (Inr b, w')"
proof -
  from p obtain ne w1 w2 fs w3 ident w4 at w5 ev w6 gs w7 wk w8 where
    w1: "ensure_sync_ready w = (Inr (), w1)" and ne: "draw_next_epoch c s w1 = (Inr ne, w2)"
    and fs: "sync_files c True w2 = (Inr fs, w3)" and ident: "new_uuid c w3 = (Inr ident, w4)"
    and ev: "rotation_event c s ident at reason w5 = (Inr ev, w6)"
    and gs: "rotate_files c s at ne revoked (fs @ [ev]) w6 = (Inr gs, w7)"
    and wk: "seal_bytes c (root_key s) (header_key_aad c (h_vault_id h) ''epoch'') (epoch_bytes ne) w7 = (Inr wk, w8)"
    and enc: "encode_snapshot c s (h\<lparr>wrapped_epoch_key := wk, current_epoch := epoch_of ne, h_updated_at := at\<rparr>) gs [] 1 w8
      = (Inr b, w')"
    by (auto simp: prepare_epoch_rotation_def bind_Inr)
  have "w1 = w" using w1 by (simp add: ensure_sync_ready_def split: if_splits)
  then have ne': "epoch_number (epoch_of ne) = epoch_number (epoch_of (epoch_key s)) + 1" and w2: "files w2 = files w"
    using draw_next_epoch_Inr [OF ne] by simp_all
  have rdy: "ready c s w2" using c(2) w2 by (simp add: ready_def)
  note l = sync_files_Inr [OF fs ready_header(4) [OF rdy] c(1)]
  note all2 = rotate_files_Inr [OF c(1) gs, simplified ne', simplified]
  have evp: "relative_path ev = audit_path c ident" using ev by (auto simp: rotation_event_def bind_Inr)
  have "audit_path c ident = [''audit'', uuid_text c ident @ CHR ''.'' # ''aipaudit'']" by (simp add: audit_path_def)
  then have evx: "portable (audit_path c ident)" "in_audit (audit_path c ident)"
    using record_name(2) [OF c(1), of "''audit''" "''aipaudit''" ident] by (simp_all add: record_dirs_def in_audit_def)
  have fsx: "portable (relative_path f) \<and> hm_get (files w) (relative_path f) \<noteq> None" if "f \<in> set fs" for f
  proof -
    have "relative_path f \<in> relative_path ` set fs" using that by simp
    then show ?thesis using l sync_files_portable [OF fs c(1) rdy] that w2 by (auto simp: list_all_iff)
  qed
  have one: "portable (relative_path g) \<and> (in_audit (relative_path g) \<or> hm_get (files w) (relative_path g) \<noteq> None)"
    if "g \<in> set gs" for g
  proof -
    have "\<exists>f\<in>set (fs @ [ev]). relative_path g = relative_path f" using all2_mem(2) [OF all2 that] by blast
    then show ?thesis using fsx evx evp by auto
  qed
  have two: "\<exists>g\<in>set gs. \<exists>x'. relative_path g = q \<and> b64_decode (prims c) (bytes_b64 g) = Some x' \<and>
      resealed c (epoch_key s) ne at revoked q x x'" if q: "sync_path_allowed q" "hm_get (files w) q = Some x" for q x
  proof -
    have "q \<in> relative_path ` set fs" using l q w2 by simp
    then obtain f where f: "f \<in> set fs" "q = relative_path f" by blast
    with l have "b64_decode (prims c) (bytes_b64 f) = Some x" using q w2 by simp
    moreover have "f \<in> set (fs @ [ev])" using f(1) by simp
    ultimately show ?thesis using all2_mem(1) [OF all2, of f] f(2) by fastforce
  qed
  show ?thesis
    using one two ne' seal_opens [OF c(1) wk] enc unfolding rotation_of_def by blast
qed

lemma commit_Inr:
  assumes c: "platform_ok c" "ready c s w" and k: "commit_epoch_rotation c s h reason revoked w = (Inr (), s', w')"
  shows "\<exists>ne at h' gs ik. rotation_of c s h revoked w ne at h' gs \<and> s' = session_on s h' ne ik \<and> ready c s' w' \<and>
    \<not> path_exists PENDING w' \<and> distinct (map relative_path gs) \<and>
    (\<forall>p. sync_path_allowed p \<longrightarrow> hm_get (files w') p = payload_at c gs p)"
proof -
  from k obtain b w1 where p: "prepare_epoch_rotation c s h reason revoked w = (Inr b, w1)"
    and ap: "apply_sync_snapshot c s b w1 = (Inr (), s', w')"
    by (auto simp: commit_epoch_rotation_def split: prod.splits sum.splits)
  obtain ne at h' gs v where rot: "rotation_of c s h revoked w ne at h' gs"
    and enc: "encode_snapshot c s h' gs [] 1 v = (Inr b, w1)" using prepare_Inr [OF c p] by blast
  have o: "same_outside {} w w1" by (rule touchesD [OF touches_prepare p])
  have rdy: "ready c s w1" using c(2) same_outsideD [OF o] by (simp add: ready_def)
  have inf: "in_force c s b w1 s' w'" using apply_outcome [OF c(1) rdy, of b] ap by simp
  then obtain snap fs ek ik where d: "decode_snapshot c s b = Inr (snap, fs)"
    and u: "unwrap_epoch_and_index_keys c (root_key s) (snap_header snap) UnlockFailed = Inr (ek, ik)"
    and s': "s' = session_on s (snap_header snap) ek ik" and com: "committed c s snap fs ek w1 w'"
    and np: "\<not> path_exists PENDING w'" by (auto simp: in_force_def)
  have "list_all (\<lambda>f. portable (relative_path f)) gs" using rot by (simp add: rotation_of_def list_all_iff)
  from parse_encoded [OF c(1) this enc] d have snap: "snap_header snap = h'" "snap_version snap = 1" "fs = gs"
    by (auto simp: decode_snapshot_Inr parse_snapshot_def and_then_Inr ok_or_Inr split: if_splits)
  have ek: "ek = ne"
    using u rot by (auto simp: snap rotation_of_def unwrap_epoch_and_index_keys_def and_then_Inr replace_error_def split: if_splits)
  have "ready c s' w'"
    by (rule in_force_ready [OF c(1) rdy inf]) (use d snap in simp)
  moreover have "hm_get (files w') q = payload_at c gs q" if "sync_path_allowed q" for q
    using com that by (simp add: committed_def installed_def exchanged_def snap)
  moreover have "s' = session_on s h' ne ik" by (simp add: s' snap ek)
  moreover have "distinct (map relative_path gs)" using checked_portable(1) [OF d] by (simp add: snap)
  ultimately show ?thesis using rot np by blast
qed

text \<open>
  C1. A rotation that reports success has moved the whole vault to the next epoch: the session
  holds the key of the following epoch number, the vault is in order under it, no journal is
  left, and every synchronised file of before (audit history included) is still there, as the
  same deletion marker or with the same content readable under the new key and unreadable under
  the old one; only the record of the revoked device differs, now marked as not trusted.  The
  password and recovery wrappings are those of the header the rotation was asked for, and no
  file appears but the audit event.
\<close>

theorem rotation_moves_every_record:
  assumes "platform_ok c" "ready c s w"
    and "commit_epoch_rotation c s h reason revoked w = (Inr (), s', w')"
  shows "epoch_number (epoch_of (epoch_key s')) = epoch_number (epoch_of (epoch_key s)) + 1 \<and>
    ready c s' w' \<and> \<not> path_exists PENDING w' \<and>
    h_kdf (s_header s') = h_kdf h \<and> wrapped_root_key (s_header s') = wrapped_root_key h \<and>
    recovery_wrapped_root_key (s_header s') = recovery_wrapped_root_key h \<and>
    (\<exists>at. \<forall>p b. sync_path_allowed p \<and> hm_get (files w) p = Some b \<longrightarrow>
      (\<exists>b'. hm_get (files w') p = Some b' \<and> resealed c (epoch_key s) (epoch_key s') at revoked p b b')) \<and>
    (\<forall>p. sync_path_allowed p \<and> hm_get (files w) p = None \<and> hm_get (files w') p \<noteq> None \<longrightarrow> in_audit p)"
proof -
  obtain ne at h' gs ik where rot: "rotation_of c s h revoked w ne at h' gs" and s': "s' = session_on s h' ne ik"
    and r: "ready c s' w'" "\<not> path_exists PENDING w'"
    and at: "\<And>p. sync_path_allowed p \<Longrightarrow> hm_get (files w') p = payload_at c gs p" "distinct (map relative_path gs)"
    using commit_Inr [OF assms] by blast
  have key: "epoch_key s' = ne" "s_header s' = h'" by (simp_all add: s' session_on_def)
  have kept: "\<exists>b'. hm_get (files w') p = Some b' \<and> resealed c (epoch_key s) ne at revoked p b b'"
    if p: "sync_path_allowed p" "hm_get (files w) p = Some b" for p b
  proof -
    obtain g b' where "g \<in> set gs" "relative_path g = p" "b64_decode (prims c) (bytes_b64 g) = Some b'"
      "resealed c (epoch_key s) ne at revoked p b b'"
      using rot p unfolding rotation_of_def by blast
    then show ?thesis using at(1) [OF p(1)] payload_at_mem [OF at(2), of g] by auto
  qed
  have "in_audit p" if "sync_path_allowed p" "hm_get (files w) p = None" "hm_get (files w') p \<noteq> None" for p
  proof -
    have "p \<in> relative_path ` set gs" using at(1) [OF that(1)] that(3) payload_at_None by fastforce
    then show ?thesis using rot that(2) by (auto simp: rotation_of_def)
  qed
  with kept r rot show ?thesis by (auto simp: key rotation_of_def)
qed

end
