(* ===== verification/VaultDemo.thy ===== *)
theory VaultDemo
  imports Epochs "HOL-Library.Countable"
begin

text \<open>
  A concrete platform and a concrete vault, at which the theorems about the vault are applied.
  Every structure prints as a tag and a number in unary, the number coding its fields, so that
  all the laws of \<open>platform_ok\<close> and \<open>sealing_total\<close> hold by computation.
\<close>

section \<open>Numbers that code structures\<close>

definition str_nat :: "string \<Rightarrow> nat" where
  "str_nat s = list_encode (map of_char s)"

definition nat_str :: "nat \<Rightarrow> string" where
  "nat_str n = map char_of (list_decode n)"

lemma nat_str_nat [simp]: "nat_str (str_nat s) = s"
  by (simp add: nat_str_def str_nat_def comp_def)

definition word_nat :: "'a::len word \<Rightarrow> nat" where
  "word_nat w = unat w"

lemma of_word_nat [simp]: "of_nat (word_nat w) = w"
  by (simp add: word_nat_def)

definition list_nat :: "('a \<Rightarrow> nat) \<Rightarrow> 'a list \<Rightarrow> nat" where
  "list_nat f xs = list_encode (map f xs)"

definition nat_list :: "(nat \<Rightarrow> 'a) \<Rightarrow> nat \<Rightarrow> 'a list" where
  "nat_list g n = map g (list_decode n)"

lemma nat_list_nat: "(\<And>x. g (f x) = x) \<Longrightarrow> nat_list g (list_nat f xs) = xs"
  by (simp add: nat_list_def list_nat_def comp_def)

definition option_nat :: "('a \<Rightarrow> nat) \<Rightarrow> 'a option \<Rightarrow> nat" where
  "option_nat f x = (case x of None \<Rightarrow> 0 | Some y \<Rightarrow> Suc (f y))"

definition nat_option :: "(nat \<Rightarrow> 'a) \<Rightarrow> nat \<Rightarrow> 'a option" where
  "nat_option g n = (case n of 0 \<Rightarrow> None | Suc k \<Rightarrow> Some (g k))"

lemma nat_option_nat: "(\<And>x. g (f x) = x) \<Longrightarrow> nat_option g (option_nat f x) = x"
  by (simp add: nat_option_def option_nat_def split: option.splits)

abbreviation fields :: "nat list \<Rightarrow> nat" where "fields \<equiv> list_encode"

abbreviation field :: "nat \<Rightarrow> nat \<Rightarrow> nat" where "field n i \<equiv> list_decode n ! i"

definition kdf_nat :: "kdf_params \<Rightarrow> nat" where
  "kdf_nat k = fields [str_nat (kdf_algorithm k), word_nat (memory_kib k), word_nat (iterations k),
    word_nat (parallelism k), str_nat (salt_b64 k)]"

definition nat_kdf :: "nat \<Rightarrow> kdf_params" where
  "nat_kdf n = \<lparr>kdf_algorithm = nat_str (field n 0), memory_kib = of_nat (field n 1), iterations = of_nat (field n 2),
    parallelism = of_nat (field n 3), salt_b64 = nat_str (field n 4)\<rparr>"

definition cipher_nat :: "ciphertext \<Rightarrow> nat" where
  "cipher_nat x = fields [str_nat (aead x), str_nat (nonce_b64 x), str_nat (ciphertext_b64 x)]"

definition nat_cipher :: "nat \<Rightarrow> ciphertext" where
  "nat_cipher n = \<lparr>aead = nat_str (field n 0), nonce_b64 = nat_str (field n 1), ciphertext_b64 = nat_str (field n 2)\<rparr>"

definition epoch_nat :: "vault_epoch \<Rightarrow> nat" where
  "epoch_nat x = fields [word_nat (epoch_number x), word_nat (key_id x), int_encode (epoch_created_at x)]"

definition nat_epoch :: "nat \<Rightarrow> vault_epoch" where
  "nat_epoch n = \<lparr>epoch_number = of_nat (field n 0), key_id = of_nat (field n 1), epoch_created_at = int_decode (field n 2)\<rparr>"

definition dek_nat :: "wrapped_dek \<Rightarrow> nat" where
  "dek_nat x = fields [word_nat (dek_epoch x), word_nat (dek_key_id x), str_nat (dek_nonce_b64 x), str_nat (dek_ciphertext_b64 x)]"

definition nat_dek :: "nat \<Rightarrow> wrapped_dek" where
  "nat_dek n = \<lparr>dek_epoch = of_nat (field n 0), dek_key_id = of_nat (field n 1), dek_nonce_b64 = nat_str (field n 2),
    dek_ciphertext_b64 = nat_str (field n 3)\<rparr>"

lemma small_codes [simp]:
  "nat_kdf (kdf_nat k) = k" "nat_cipher (cipher_nat x) = x" "nat_epoch (epoch_nat e) = e" "nat_dek (dek_nat d) = d"
  by (simp_all add: kdf_nat_def nat_kdf_def cipher_nat_def nat_cipher_def epoch_nat_def nat_epoch_def dek_nat_def nat_dek_def)

definition header_nat :: "vault_header \<Rightarrow> nat" where
  "header_nat h = fields [str_nat (h_format h), word_nat (h_version h), word_nat (h_vault_id h), kdf_nat (h_kdf h),
    cipher_nat (wrapped_root_key h), cipher_nat (recovery_wrapped_root_key h), cipher_nat (wrapped_epoch_key h),
    cipher_nat (wrapped_index_key h), epoch_nat (current_epoch h), int_encode (h_created_at h), int_encode (h_updated_at h)]"

definition nat_header :: "nat \<Rightarrow> vault_header" where
  "nat_header n = \<lparr>h_format = nat_str (field n 0), h_version = of_nat (field n 1), h_vault_id = of_nat (field n 2),
    h_kdf = nat_kdf (field n 3), wrapped_root_key = nat_cipher (field n 4), recovery_wrapped_root_key = nat_cipher (field n 5),
    wrapped_epoch_key = nat_cipher (field n 6), wrapped_index_key = nat_cipher (field n 7),
    current_epoch = nat_epoch (field n 8), h_created_at = int_decode (field n 9), h_updated_at = int_decode (field n 10)\<rparr>"

definition envelope_nat :: "object_envelope \<Rightarrow> nat" where
  "envelope_nat e = fields [str_nat (o_format e), word_nat (o_version e), word_nat (o_vault_id e), word_nat (object_id e),
    str_nat (object_type e), word_nat (schema_version e), word_nat (crypto_version e), word_nat (o_device_id e),
    word_nat (lamport e), int_encode (o_updated_at e), option_nat dek_nat (o_wrapped_dek e),
    option_nat cipher_nat (o_payload e), (if tombstone e then 1 else 0)]"

definition nat_envelope :: "nat \<Rightarrow> object_envelope" where
  "nat_envelope n = \<lparr>o_format = nat_str (field n 0), o_version = of_nat (field n 1), o_vault_id = of_nat (field n 2),
    object_id = of_nat (field n 3), object_type = nat_str (field n 4), schema_version = of_nat (field n 5),
    crypto_version = of_nat (field n 6), o_device_id = of_nat (field n 7), lamport = of_nat (field n 8),
    o_updated_at = int_decode (field n 9), o_wrapped_dek = nat_option nat_dek (field n 10),
    o_payload = nat_option nat_cipher (field n 11), tombstone = (field n 12 = 1)\<rparr>"

definition snapshot_nat :: "vault_snapshot \<Rightarrow> nat" where
  "snapshot_nat s = fields [str_nat (snap_format s), word_nat (snap_version s), list_nat str_nat (parents s),
    int_encode (snap_created_at s), header_nat (snap_header s), cipher_nat (snap_payload s)]"

definition nat_snapshot :: "nat \<Rightarrow> vault_snapshot" where
  "nat_snapshot n = \<lparr>snap_format = nat_str (field n 0), snap_version = of_nat (field n 1), parents = nat_list nat_str (field n 2),
    snap_created_at = int_decode (field n 3), snap_header = nat_header (field n 4), snap_payload = nat_cipher (field n 5)\<rparr>"

definition pair_nat :: "string \<times> string \<Rightarrow> nat" where
  "pair_nat x = prod_encode (str_nat (fst x), str_nat (snd x))"

definition nat_pair :: "nat \<Rightarrow> string \<times> string" where
  "nat_pair n = map_prod nat_str nat_str (prod_decode n)"

definition device_nat :: "device_record \<Rightarrow> nat" where
  "device_nat d = fields [word_nat (device_id d), str_nat (device_name d), (if trusted d then 1 else 0),
    int_encode (first_seen_at d), int_encode (last_seen_at d), option_nat int_encode (revoked_at d), word_nat (last_epoch d)]"

definition nat_device :: "nat \<Rightarrow> device_record" where
  "nat_device n = \<lparr>device_id = of_nat (field n 0), device_name = nat_str (field n 1), trusted = (field n 2 = 1),
    first_seen_at = int_decode (field n 3), last_seen_at = int_decode (field n 4),
    revoked_at = nat_option int_decode (field n 5), last_epoch = of_nat (field n 6)\<rparr>"

lemma header_code [simp]: "nat_header (header_nat h) = h"
  by (simp add: header_nat_def nat_header_def)

lemma big_codes [simp]:
  "nat_envelope (envelope_nat e) = e" "nat_snapshot (snapshot_nat s) = s" "nat_device (device_nat d) = d" "nat_pair (pair_nat x) = x"
  by (simp_all add: envelope_nat_def nat_envelope_def snapshot_nat_def nat_snapshot_def device_nat_def nat_device_def
      pair_nat_def nat_pair_def nat_option_nat nat_list_nat)

section \<open>A concrete platform\<close>

definition unary :: "char \<Rightarrow> nat \<Rightarrow> bytes" where
  "unary tag n = tag # replicate n CHR ''.''"

definition read_unary :: "char \<Rightarrow> (nat \<Rightarrow> 'a) \<Rightarrow> bytes \<Rightarrow> 'a option" where
  "read_unary tag f b = (case b of [] \<Rightarrow> None | x # r \<Rightarrow> if x = tag then Some (f (length r)) else None)"

lemma read_unary [simp]: "read_unary tag f (unary tag n) = Some (f n)"
  by (simp add: unary_def read_unary_def)

definition demo_seal :: "bytes \<Rightarrow> bytes \<Rightarrow> bytes \<Rightarrow> bytes \<Rightarrow> bytes" where
  "demo_seal k n a m = unary CHR ''c'' (fields [str_nat k, str_nat n, str_nat a, str_nat m])"

definition demo_open :: "bytes \<Rightarrow> bytes \<Rightarrow> bytes \<Rightarrow> bytes \<Rightarrow> bytes option" where
  "demo_open k n a b =
    (case read_unary CHR ''c'' list_decode b of
       Some [k', n', a', m] \<Rightarrow> (if k' = str_nat k \<and> n' = str_nat n \<and> a' = str_nat a then Some (nat_str m) else None)
     | _ \<Rightarrow> None)"

lemma demo_open_seal [simp]: "demo_open k n a (demo_seal k n a m) = Some m"
  by (simp add: demo_open_def demo_seal_def)

definition demo_primitives :: primitives where
  "demo_primitives = \<lparr>b64_encode = id, b64_decode = Some, aead_seal = (\<lambda>k n a m. Some (demo_seal k n a m)),
    aead_open = demo_open, hkdf_sha256 = (\<lambda>_ _ _ n. Some (replicate n CHR ''k'')), hmac_sha256 = (\<lambda>_ _. replicate 32 CHR ''h''),
    argon2_accepts = (\<lambda>_ _ _. True), argon2id = (\<lambda>_ _ _ _ _. Some (replicate 32 CHR ''a''))\<rparr>"

definition demo :: platform where
  "demo = \<lparr>prims = demo_primitives,
    header_json = (\<lambda>h. unary CHR ''h'' (header_nat h)), header_pretty = (\<lambda>h. unary CHR ''h'' (header_nat h)),
    header_parse = read_unary CHR ''h'' nat_header,
    envelope_json = (\<lambda>e. unary CHR ''e'' (envelope_nat e)), envelope_pretty = (\<lambda>e. unary CHR ''e'' (envelope_nat e)),
    envelope_parse = read_unary CHR ''e'' nat_envelope,
    snapshot_json = (\<lambda>s. unary CHR ''s'' (snapshot_nat s)), snapshot_parse = read_unary CHR ''s'' nat_snapshot,
    files_json = (\<lambda>f. unary CHR ''f'' (list_nat pair_nat f)), files_parse = read_unary CHR ''f'' (nat_list nat_pair),
    event_json = (\<lambda>_. []), device_json = (\<lambda>d. unary CHR ''d'' (device_nat d)), device_parse = read_unary CHR ''d'' nat_device,
    aad_json = (\<lambda>f v ps t h. f), uuid_text = (\<lambda>u. show_nat (unat u)),
    random_bytes = (\<lambda>d n. replicate n (char_of d)), random_uuid = of_nat, now_utc = int\<rparr>"

lemma show_nat_chars: "show_nat n \<noteq> [] \<and> list_all uuid_char (show_nat n)"
proof (induction n rule: show_nat.induct)
  case (1 n)
  have digit: "uuid_char (char_of (48 + k))" if "k < 10" for k :: nat
  proof -
    have "k \<in> {0, 1, 2, 3, 4, 5, 6, 7, 8, 9}" using nibble_cases [of k] that by auto
    then have "char_of (48 + k) \<in> set ''0123456789''" by (elim insertE emptyE) (simp; code_simp)+
    then show ?thesis by (auto simp: uuid_char_def)
  qed
  show ?case using 1 digit [of n] digit [of "n mod 10"] by (cases "n < 10") (simp_all add: show_nat.simps [of n])
qed

lemma demo_ok: "platform_ok demo" "sealing_total demo"
proof -
  have "nat_list nat_pair (list_nat pair_nat f) = f" for f by (rule nat_list_nat) simp
  then show "platform_ok demo"
    using show_nat_chars by (simp add: platform_ok_def primitives_ok_def demo_def demo_primitives_def)
  show "sealing_total demo" by (simp add: sealing_total_def demo_def demo_primitives_def)
qed

section \<open>A concrete vault\<close>

definition demo_cipher :: "bytes \<Rightarrow> string \<Rightarrow> bytes \<Rightarrow> ciphertext" where
  "demo_cipher k a m = \<lparr>aead = ''xchacha20poly1305'', nonce_b64 = replicate 24 CHR ''n'',
    ciphertext_b64 = demo_seal k (replicate 24 CHR ''n'') a m\<rparr>"

lemma demo_decrypt [simp]: "decrypt_bytes (prims demo) k a (demo_cipher k a m) = Inr m"
  by (simp add: decrypt_bytes_def demo_cipher_def demo_def demo_primitives_def NONCE_LEN_def)

definition demo_root :: bytes where "demo_root = replicate 32 CHR ''r''"
definition demo_index :: bytes where "demo_index = replicate 32 CHR ''i''"

definition demo_key :: "nat \<Rightarrow> epoch_key" where
  "demo_key e = \<lparr>epoch_of = \<lparr>epoch_number = of_nat e, key_id = of_nat (Suc e), epoch_created_at = 0\<rparr>,
    epoch_bytes = replicate 32 (char_of (97 + e))\<rparr>"

definition demo_header :: "nat \<Rightarrow> vault_header" where
  "demo_header e = \<lparr>h_format = ''aipass-vault'', h_version = 2, h_vault_id = 7,
    h_kdf = \<lparr>kdf_algorithm = ''argon2id'', memory_kib = 65536, iterations = 3, parallelism = 1, salt_b64 = ''salt''\<rparr>,
    wrapped_root_key = demo_cipher (replicate 32 CHR ''a'') (root_key_aad demo 7) demo_root,
    recovery_wrapped_root_key = demo_cipher (replicate 32 CHR ''k'') (root_key_aad demo 7) demo_root,
    wrapped_epoch_key = demo_cipher demo_root (header_key_aad demo 7 ''epoch'') (epoch_bytes (demo_key e)),
    wrapped_index_key = demo_cipher demo_root (header_key_aad demo 7 ''index'') demo_index,
    current_epoch = epoch_of (demo_key e), h_created_at = 0, h_updated_at = int e\<rparr>"

definition demo_session :: "nat \<Rightarrow> session" where
  "demo_session e = \<lparr>s_header = demo_header e, root_key = demo_root, epoch_key = demo_key e, index_key = demo_index, s_device = 5\<rparr>"

lemma demo_keys: "unwrap_epoch_and_index_keys demo demo_root (demo_header e) UnlockFailed = Inr (demo_key e, demo_index)"
  by (simp add: unwrap_epoch_and_index_keys_def demo_header_def replace_error_def KEY_LEN_def demo_key_def demo_index_def)

definition empty_vault :: "nat \<Rightarrow> world" where
  "empty_vault e = \<lparr>files = [(manifest, header_pretty demo (demo_header e))], faults = [], draws = 0\<rparr>"

lemma demo_header_valid [simp]:
  "validate_header (demo_header e) = Inr ()" "validate_import_kdf (h_kdf (demo_header e)) = Inr ()"
  by (simp_all add: demo_header_def validate_header_def validate_import_kdf_def)

lemma empty_ready: "ready demo (demo_session e) (empty_vault e)"
  by (auto simp: ready_def empty_vault_def demo_session_def demo_keys hm_wf_def hm_get_def split: if_splits)

text \<open>The vault with one record, written by the program.\<close>

definition demo_world :: "nat \<Rightarrow> world" where
  "demo_world e = snd (write_envelope demo (demo_session e) (record_path demo 9) 9 ''provider_entry'' 1 ''secret'' (empty_vault e))"

lemma record_path_shape: "record_path c u = [''objects'', uuid_text c u @ CHR ''.'' # ''aipobj'']"
  by (simp add: record_path_def)

lemma demo_ready: "ready demo (demo_session e) (demo_world e)"
  unfolding demo_world_def record_path_shape
  by (rule write_ready [OF demo_ok(1) empty_ready]) (simp add: record_dirs_def)

section \<open>On a working disk the operations succeed\<close>

lemma quiet_write_envelope: "quiet (write_envelope c s p u ty sc m)"
proof -
  have one: "quiet (read_lamport c q)" for q unfolding read_lamport_def by (intro quiet_act)
  have "quiet (read_lamports c ps)" for ps by (induction ps) (auto intro!: quiet_act one)
  then show ?thesis
    unfolding write_envelope_def build_envelope_def write_envelope_json_def by (intro quiet_act one)
qed

lemma encode_succeeds:
  assumes "platform_ok c" "sealing_total c" "list_all (\<lambda>f. portable (relative_path f)) fs"
  shows "\<exists>b w'. encode_snapshot c s h fs ps version w = (Inr b, w')"
proof -
  obtain d where d: "print_payload c fs = Inr d" using print_parse_payload [OF assms(1,3)] by blast
  obtain body v where "seal_bytes c (root_key s) (aad_json c ''aipass-vault-sync'' version ps (now_utc c (draws w)) h) d
      (w\<lparr>draws := Suc (draws w)\<rparr>) = (Inr body, v)"
    using seal_succeeds [OF assms(2)] by blast
  with d show ?thesis by (simp add: encode_snapshot_def bind_def lift_def read_clock_def yield_def)
qed

lemma export_succeeds:
  assumes "platform_ok c" "sealing_total c" "ready c s w" "faults w = []"
  shows "\<exists>b snap fs. fst (export_sync_snapshot_with_parents c s [] w) = Inr b \<and> sync_files c False w = (Inr fs, w) \<and>
    decode_snapshot c s b = Inr (snap, fs) \<and> snap_version snap = 2 \<and> snap_header snap = s_header s"
proof -
  obtain fs where l: "sync_files c False w = (Inr fs, w)" using sync_files_calm [OF assms(4)] by blast
  obtain b w' where e: "encode_snapshot c s (s_header s) fs [] 2 w = (Inr b, w')"
    using encode_succeeds [OF assms(1,2) sync_files_portable [OF l assms(1,3)]] by blast
  from exported_decodes [OF l e assms(1,3)] l e show ?thesis
    by (auto simp: export_sync_snapshot_with_parents_def bind_def)
qed

lemma merge_files_self: "\<exists>gs. merge_files fs fs fs = Some gs"
proof -
  have "merge_paths m m m ps \<noteq> None" for m ps by (simp add: merge_paths_None three_way_None)
  then show ?thesis by (auto simp: merge_files_def Let_def)
qed

lemma merge_succeeds:
  assumes "platform_ok c" "sealing_total c" "ready c s w" "faults w = []"
    and b: "decode_snapshot c s b = Inr (snap, fs)" "snap_header snap = s_header s" and l: "sync_files c False w = (Inr fs, w)"
  shows "\<exists>out w'. merge_sync_snapshot c s b b w = (Inr (Some out), w')"
proof -
  obtain gs where m: "merge_files fs fs fs = Some gs" using merge_files_self by blast
  have "list_all (\<lambda>f. portable (relative_path f)) gs"
    using merge_picks_sound [OF assms(1,3) l b m checked_portable(1) [OF b(1)], of snap] b(2) by (simp add: list_all_iff)
  from encode_succeeds [OF assms(1,2) this] obtain out w' where "encode_snapshot c s (s_header s) gs [] 2 w = (Inr out, w')"
    by blast
  with b l m show ?thesis by (auto simp: merge_sync_snapshot_def bind_def lift_def yield_def)
qed

section \<open>The theorems at the concrete vault\<close>

lemma demo_calm: "faults (demo_world e) = []"
proof -
  have "faults (empty_vault e) = []" by (simp add: empty_vault_def)
  then show ?thesis using quiet_write_envelope by (simp add: demo_world_def quiet_def)
qed

lemma write_touches: "touches {p} (write_envelope c s p u ty sc m)"
  unfolding write_envelope_def write_envelope_json_def by (intro act) simp

lemma demo_no_journal: "\<not> path_exists PENDING (demo_world e)"
proof -
  have "same_outside {record_path demo 9} (empty_vault e) (demo_world e)"
    using write_touches by (simp add: demo_world_def touches_def)
  then have "hm_get (files (demo_world e)) PENDING = hm_get (files (empty_vault e)) PENDING"
    by (rule same_outsideD(1)) (simp add: record_path_def PENDING_def)
  then show ?thesis by (simp add: path_exists_def empty_vault_def hm_get_def PENDING_def manifest_def)
qed

theorem write_keeps_the_vault_ready_witness:
  "ready demo (demo_session 0)
    (snd (write_envelope demo (demo_session 0) [''objects'', uuid_text demo 9 @ CHR ''.'' # ''aipobj''] 9
      ''provider_entry'' 1 ''secret'' (empty_vault 0)))"
  by (rule write_keeps_the_vault_ready [OF demo_ok(1) empty_ready]) (simp add: record_dirs_def)

theorem merge_keeps_both_sides_witness:
  "\<exists>b out w' snap fs. merge_sync_snapshot demo (demo_session 0) b b (demo_world 0) = (Inr (Some out), w') \<and>
    decode_snapshot demo (demo_session 0) out = Inr (snap, fs) \<and> snap_header snap = demo_header 0 \<and>
    files w' = files (demo_world 0)"
proof -
  obtain b snap fs where b: "decode_snapshot demo (demo_session 0) b = Inr (snap, fs)" "snap_header snap = s_header (demo_session 0)"
      "sync_files demo False (demo_world 0) = (Inr fs, demo_world 0)"
    using export_succeeds [OF demo_ok demo_ready demo_calm] by blast
  obtain out w' where m: "merge_sync_snapshot demo (demo_session 0) b b (demo_world 0) = (Inr (Some out), w')"
    using merge_succeeds [OF demo_ok demo_ready demo_calm b(1,2,3)] by blast
  have "s_header (demo_session 0) = demo_header 0" by (simp add: demo_session_def)
  with merge_keeps_both_sides [OF demo_ok(1) demo_ready m] m show ?thesis by metis
qed

lemma journal_succeeds:
  assumes "platform_ok c" "sealing_total c" "ready c s w" "faults w = []" "\<not> path_exists PENDING w"
    and "decode_snapshot c s b = Inr (snap, fs)"
  shows "\<exists>original w'. journal c s b w = (Inr original, w')"
proof -
  obtain lfs where l: "sync_files c True w = (Inr lfs, w)" using sync_files_calm [OF assms(4)] by blast
  obtain original w1 where e: "encode_snapshot c s (s_header s) lfs [] 1 w = (Inr original, w1)"
    using encode_succeeds [OF assms(1,2) sync_files_portable [OF l assms(1,3)]] by blast
  from l e have x: "export_sync_snapshot c s w = (Inr original, w1)" by (simp add: export_sync_snapshot_def bind_def)
  have "faults w1 = []" by (rule quietD [OF quiet_export x assms(4)])
  with x assms(5,6) show ?thesis by (simp add: journal_def bind_def lift_def ensure_sync_ready_def yield_def)
qed

lemma apply_succeeds:
  assumes c: "platform_ok c" "sealing_total c" "ready c s w" and w: "faults w = []" "\<not> path_exists PENDING w"
    and d: "decode_snapshot c s b = Inr (snap, fs)"
    and na: "\<And>p. sync_path_allowed p \<Longrightarrow> in_audit p \<Longrightarrow> hm_get (files w) p = None"
  shows "\<exists>s' w'. apply_sync_snapshot c s b w = (Inr (), s', w')"
proof -
  obtain original w1 where j: "journal c s b w = (Inr original, w1)" using journal_succeeds [OF c w d] by blast
  have o: "same_outside {PENDING} w w1" "hm_get (files w1) PENDING = Some b"
    using j c(1,3) by (cases rule: journal_any; simp)+
  have q: "quiet (journal c s b)"
    unfolding journal_def by (intro quiet_act) (auto simp: quiet_def ensure_sync_ready_def)
  have f1: "faults w1 = []" by (rule quietD [OF q j w(1)])
  obtain ek ik where k: "unwrap_epoch_and_index_keys c (root_key s) (snap_header snap) UnlockFailed = Inr (ek, ik)"
    using decode_unwraps [OF d] by blast
  have "hm_get (files w1) p = None" if "sync_path_allowed p" "in_audit p" for p
    using same_outsideD(1) [OF o(1), of p] na [OF that] that PENDING_not_allowed(1) by (cases "p = PENDING") simp_all
  then obtain s' w' where "finish_pending_sync c s w1 = (Inr (), s', w')"
    using finish_succeeds [OF c(1,2) f1 same_outsideD(2) [OF o(1) ready_header(4) [OF c(3)]] o(2) d k] by auto
  with j show ?thesis by (simp add: apply_sync_snapshot_def)
qed

lemma demo_files: "same_outside {record_path demo 9} (empty_vault e) (demo_world e)"
  using write_touches by (simp add: demo_world_def touches_def)

lemma demo_no_audit: "in_audit p \<Longrightarrow> hm_get (files (demo_world e)) p = None"
proof -
  assume "in_audit p"
  then have "p \<noteq> record_path demo 9" "p \<noteq> manifest" by (auto simp: in_audit_def record_path_def manifest_def)
  with same_outsideD(1) [OF demo_files, of p e] show ?thesis by (simp add: empty_vault_def hm_get_def)
qed

text \<open>A snapshot of the next epoch, taken on another device of the same vault.\<close>

lemma demo_remote:
  "\<exists>b snap fs. decode_snapshot demo (demo_session 0) b = Inr (snap, fs) \<and> snap_version snap = 2 \<and>
    snap_header snap = demo_header 1"
proof -
  obtain b snap fs where b: "decode_snapshot demo (demo_session 1) b = Inr (snap, fs)" "snap_version snap = 2"
      "snap_header snap = s_header (demo_session 1)"
    using export_succeeds [OF demo_ok demo_ready demo_calm] by blast
  have "decode_snapshot demo (demo_session 0) b = decode_snapshot demo (demo_session 1) b"
    by (rule decode_other_session) (simp_all add: demo_session_def demo_header_def)
  with b show ?thesis by (auto simp: demo_session_def)
qed

theorem snapshot_applies_whole_or_not_at_all_witness:
  "\<exists>b s' w'. apply_sync_snapshot demo (demo_session 0) b (demo_world 0) = (Inr (), s', w') \<and>
    in_force demo (demo_session 0) b (demo_world 0) s' w'"
proof -
  obtain b snap fs where d: "decode_snapshot demo (demo_session 0) b = Inr (snap, fs)" using demo_remote by blast
  obtain s' w' where a: "apply_sync_snapshot demo (demo_session 0) b (demo_world 0) = (Inr (), s', w')"
    using apply_succeeds [OF demo_ok demo_ready demo_calm demo_no_journal d demo_no_audit] by blast
  with snapshot_applies_whole_or_not_at_all [OF demo_ok(1) demo_ready, of 0 b] show ?thesis by auto
qed

theorem interrupted_snapshot_is_recovered_witness:
  "\<exists>b s3 w2. finish_pending_sync demo (demo_session 0)
      (demo_world 0\<lparr>files := hm_put PENDING b (files (demo_world 0))\<rparr>) = (Inr (), s3, w2) \<and>
    \<not> path_exists PENDING w2"
proof -
  obtain b snap fs where d: "decode_snapshot demo (demo_session 0) b = Inr (snap, fs)" using demo_remote by blast
  obtain ek ik where k: "unwrap_epoch_and_index_keys demo (root_key (demo_session 0)) (snap_header snap) UnlockFailed = Inr (ek, ik)"
    using decode_unwraps [OF d] by blast
  let ?w = "demo_world 0\<lparr>files := hm_put PENDING b (files (demo_world 0))\<rparr>"
  note hdr = ready_header [OF demo_ready [of 0]]
  have o: "same_outside {PENDING} (demo_world 0) ?w" by (simp add: same_outside_def)
  have "audit_progress demo (demo_session 0) snap ek (demo_world 0) ?w"
    by (rule progress_from [OF _ o]) (simp add: audit_progress_def)
  then have i: "interrupted demo (demo_session 0) b (demo_world 0) ?w"
    using hdr(4) by (intro interruptedI [OF d k] same_outside_mono [OF o]) simp_all
  have u: "unlocked_from demo (demo_session 0) (root_key (demo_session 0)) ?w"
    using hdr(3,5) demo_ok(1) by (simp add: unlocked_from_def platform_ok_def)
  from interrupted_snapshot_is_recovered [OF demo_ok demo_ready demo_no_journal i u] demo_calm show ?thesis by auto
qed

definition damaged_world :: world where
  "damaged_world = \<lparr>files = [(manifest, header_pretty demo (demo_header 0)), ([''audit'', ''1.aipaudit''], ''broken'')],
    faults = [], draws = 0\<rparr>"

theorem damaged_audit_file_blocks_the_vault_witness:
  "\<exists>b e s' w' j. apply_sync_snapshot demo (demo_session 0) b damaged_world = (Inl e, s', w') \<and>
    hm_get (files w') PENDING = Some j \<and>
    (\<exists>e2 w3. finish_pending_sync demo (demo_session 0) w' = (Inl e2, demo_session 0, w3) \<and> same_files w' w3)"
proof -
  obtain b snap fs where d: "decode_snapshot demo (demo_session 0) b = Inr (snap, fs)" "snap_version snap = 2"
      "snap_header snap = demo_header 1" using demo_remote by blast
  let ?p = "[''audit'', ''1.aipaudit'']"
  have get: "hm_get (files damaged_world) q = (if q = manifest then Some (header_pretty demo (demo_header 0))
      else if q = ?p then Some ''broken'' else None)" for q
    by (simp add: damaged_world_def hm_get_def)
  have allowed: "sync_path_allowed ?p" "portable ?p" "in_audit ?p" by code_simp+
  have port: "portable q" if "sync_path_allowed q" "path_exists q damaged_world" for q
    using that allowed by (auto simp: path_exists_def get split: if_splits)
  have dam: "damaged demo damaged_world ?p"
    using allowed by (auto simp: damaged_def get manifest_def demo_def read_unary_def)
  have wf: "hm_wf (files damaged_world)" by (simp add: damaged_world_def hm_wf_def manifest_def)
  have ep: "current_epoch (snap_header snap) \<noteq> current_epoch (s_header (demo_session 0))"
    by (simp add: d(3) demo_session_def demo_header_def demo_key_def)
  have np: "\<not> path_exists PENDING damaged_world"
    by (simp add: path_exists_def get) (simp add: PENDING_def)
  have fl: "faults damaged_world = []" by (simp add: damaged_world_def)
  have keys: "validate_header (s_header (demo_session 0)) = Inr ()"
    "validate_import_kdf (h_kdf (s_header (demo_session 0))) = Inr ()"
    "unwrap_epoch_and_index_keys demo (root_key (demo_session 0)) (s_header (demo_session 0)) UnlockFailed =
      Inr (epoch_key (demo_session 0), index_key (demo_session 0))"
    using ready_header [OF empty_ready] by blast+
  from damaged_audit_file_blocks_the_vault [OF demo_ok fl wf np keys port dam d(1,2) ep]
  show ?thesis by metis
qed

end
