(* ===== verification/Access.thy ===== *)
theory Access
  imports Epochs
begin

text \<open>
  Creating a vault, changing its password and unlocking it
  (\<open>crates/aipass-vault/src/lib.rs\<close>, \<open>remote_unlock.rs\<close>): what opens a vault after each of these
  operations, and what they leave of the old ways in.
\<close>

section \<open>A new vault\<close>

definition write_device :: "platform \<Rightarrow> session \<Rightarrow> device_record \<Rightarrow> unit act" where
  "write_device c s d = write_envelope c s (device_path c (device_id d)) (device_id d) ''device_record'' 1 (device_json c d)"

definition new_epoch_key :: "platform \<Rightarrow> u64 \<Rightarrow> epoch_key act" where
  "new_epoch_key c n =
    bind (random_draw c KEY_LEN) (\<lambda>key.
    bind (new_uuid c) (\<lambda>ident.
    bind (read_clock c) (\<lambda>now.
    yield \<lparr>epoch_of = \<lparr>epoch_number = n, key_id = ident, epoch_created_at = now\<rparr>, epoch_bytes = key\<rparr>)))"

text \<open>The header of a new vault: the root key wrapped by the password and by the recovery key.\<close>

definition seal_header ::
  "platform \<Rightarrow> uuid \<Rightarrow> int \<Rightarrow> kdf_params \<Rightarrow> bytes \<Rightarrow> bytes \<Rightarrow> bytes \<Rightarrow> epoch_key \<Rightarrow> bytes \<Rightarrow> vault_header act" where
  "seal_header c vid now kdf pk ck rk ek ik =
    bind (seal_bytes c pk (root_key_aad c vid) rk) (\<lambda>wr.
    bind (seal_bytes c ck (root_key_aad c vid) rk) (\<lambda>wc.
    bind (seal_bytes c rk (header_key_aad c vid ''epoch'') (epoch_bytes ek)) (\<lambda>we.
    bind (seal_bytes c rk (header_key_aad c vid ''index'') ik) (\<lambda>wi.
    yield \<lparr>h_format = ''aipass-vault'', h_version = 2, h_vault_id = vid, h_kdf = kdf, wrapped_root_key = wr,
      recovery_wrapped_root_key = wc, wrapped_epoch_key = we, wrapped_index_key = wi, current_epoch = epoch_of ek,
      h_created_at = now, h_updated_at = now\<rparr>))))"

definition draw_session :: "platform \<Rightarrow> string \<Rightarrow> kdf_params \<Rightarrow> ((vault_header \<times> bytes \<times> epoch_key \<times> bytes) \<times> string) act" where
  "draw_session c password kdf =
    bind (lift (crypto (derive_master_key (prims c) password kdf))) (\<lambda>pk.
    bind (random_draw c KEY_LEN) (\<lambda>rk.
    bind (random_draw c RECOVERY_SECRET_LEN) (\<lambda>secret.
    bind (lift (crypto (derive_recovery_key (prims c) (generate_recovery_secret secret)))) (\<lambda>ck.
    bind (new_epoch_key c 0) (\<lambda>ek.
    bind (random_draw c KEY_LEN) (\<lambda>ik.
    bind (read_clock c) (\<lambda>now.
    bind (new_uuid c) (\<lambda>vid.
    bind (seal_header c vid now kdf pk ck rk ek ik) (\<lambda>h.
    yield ((h, rk, ek, ik), generate_recovery_secret secret))))))))))"

text \<open>The device record and the first audit event.\<close>

definition announce :: "platform \<Rightarrow> (string \<Rightarrow> string) \<Rightarrow> unit act \<Rightarrow> string \<Rightarrow> session \<Rightarrow> unit act" where
  "announce c lowercase upkeep name s =
    bind (write_device c s \<lparr>device_id = s_device s, device_name = name, trusted = True,
      first_seen_at = h_created_at (s_header s), last_seen_at = h_created_at (s_header s), revoked_at = None,
      last_epoch = 0\<rparr>) (\<lambda>_. audit c lowercase upkeep s ''vault.create'' None None)"

definition create_vault ::
  "platform \<Rightarrow> (string \<Rightarrow> string) \<Rightarrow> unit act \<Rightarrow> string \<Rightarrow> string \<Rightarrow> kdf_params \<Rightarrow> (session \<times> string) act" where
  "create_vault c lowercase upkeep password name kdf w =
    (if path_exists manifest w then (Inl AlreadyExists, w)
     else bind create_dirs (\<lambda>_.
          bind (draw_session c password kdf) (\<lambda>((h, rk, ek, ik), code).
          bind (write_header c manifest h) (\<lambda>_.
          bind (new_uuid c) (\<lambda>device.
          bind (announce c lowercase upkeep name
            \<lparr>s_header = h, root_key = rk, epoch_key = ek, index_key = ik, s_device = device\<rparr>) (\<lambda>_.
          yield (\<lparr>s_header = h, root_key = rk, epoch_key = ek, index_key = ik, s_device = device\<rparr>, code)))))) w)"

section \<open>Ways in\<close>

definition unlocks_with :: "platform \<Rightarrow> session \<Rightarrow> string \<Rightarrow> bool" where
  "unlocks_with c s password \<longleftrightarrow>
    (\<exists>pk. derive_master_key (prims c) password (h_kdf (s_header s)) = Inr pk \<and>
      decrypt_root_key c pk (wrapped_root_key (s_header s)) (h_vault_id (s_header s)) UnlockFailed = Inr (root_key s))"

definition recovers_with :: "platform \<Rightarrow> session \<Rightarrow> string \<Rightarrow> bool" where
  "recovers_with c s code \<longleftrightarrow>
    (\<exists>ck. derive_recovery_key (prims c) code = Inr ck \<and>
      decrypt_root_key c ck (recovery_wrapped_root_key (s_header s)) (h_vault_id (s_header s)) RecoveryFailed = Inr (root_key s))"

lemma open_root_key:
  assumes c: "platform_ok c" "ready c s w" and w: "\<not> path_exists PENDING w"
  shows "\<exists>d w1. open_with_root_key c upkeep (s_header s) (root_key s) e w = (Inr (s\<lparr>s_device := d\<rparr>), snd (upkeep w1)) \<and>
    files w1 = files w \<and> faults w1 = faults w"
proof -
  have "unwrap_epoch_and_index_keys c (root_key s) (s_header s) e = Inr (epoch_key s, index_key s)"
    using ready_header(3) [OF c(2)]
    by (auto simp: unwrap_epoch_and_index_keys_def and_then_Inr split: if_splits)
  then show ?thesis
    using w by (auto simp: open_with_root_key_def bind_def lift_def new_uuid_def finish_pending_sync_def path_exists_def
        intro!: exI [of _ "random_uuid c (draws w)"])
qed

text \<open>A vault in order opens with its password on a working disk.\<close>

lemma open_succeeds:
  assumes c: "platform_ok c" "ready c s w" and w: "\<not> path_exists PENDING w" "faults w = []" and p: "unlocks_with c s password"
  shows "\<exists>d w'. open_vault c upkeep password w = (Inr (s\<lparr>s_device := d\<rparr>), w')"
proof -
  obtain pk where pk: "derive_master_key (prims c) password (h_kdf (s_header s)) = Inr pk"
    "decrypt_root_key c pk (wrapped_root_key (s_header s)) (h_vault_id (s_header s)) UnlockFailed = Inr (root_key s)"
    using p by (auto simp: unlocks_with_def)
  note hdr = ready_header [OF c(2)]
  have "header_parse c (header_pretty c (s_header s)) = Some (s_header s)" using c(1) by (simp add: platform_ok_def)
  then have r: "read_header c manifest w = (Inr (s_header s), w)"
    using hdr(5) w(2) by (simp add: read_header_def bind_def lift_def)
  have "path_exists manifest w" using hdr(5) by (simp add: path_exists_def)
  with r hdr(1) pk open_root_key [OF c w(1), of upkeep UnlockFailed] w(2) show ?thesis
    by (auto simp: open_vault_def bind_def lift_def require_manifest_def create_dirs_def replace_error_def)
qed

section \<open>Retention touches audit history only\<close>

text \<open>Some audit files may go; every other file but the retention marker is as before.\<close>

definition prunes :: "world \<Rightarrow> world \<Rightarrow> bool" where
  "prunes w w' \<longleftrightarrow> (hm_wf (files w) \<longrightarrow> hm_wf (files w')) \<and>
    (\<forall>p. p \<noteq> retention_marker \<longrightarrow> hm_get (files w') p = hm_get (files w) p \<or> in_audit p \<and> hm_get (files w') p = None)"

lemma prunes_refl: "files w' = files w \<Longrightarrow> prunes w w'"
  by (simp add: prunes_def)

lemma prunes_trans:
  assumes "prunes w w1" "prunes w1 w2"
  shows "prunes w w2"
proof -
  have "hm_get (files w2) p = hm_get (files w) p \<or> in_audit p \<and> hm_get (files w2) p = None" if "p \<noteq> retention_marker" for p
    using assms that unfolding prunes_def by metis
  then show ?thesis using assms by (simp add: prunes_def)
qed

definition prunes_only :: "'a act \<Rightarrow> bool" where
  "prunes_only f \<longleftrightarrow> (\<forall>w. prunes w (snd (f w)))"

lemma prunes_bind:
  assumes "prunes_only f" "\<And>w x w'. f w = (Inr x, w') \<Longrightarrow> prunes_only (g x)"
  shows "prunes_only (bind f g)"
  unfolding prunes_only_def
proof
  fix w
  obtain r v where f: "f w = (r, v)" by (cases "f w")
  have v: "prunes w v" using assms(1) f unfolding prunes_only_def by (metis snd_conv)
  show "prunes w (snd (bind f g w))"
  proof (cases r)
    case (Inl e)
    with f v show ?thesis by (simp add: bind_def)
  next
    case (Inr x)
    with assms(2) f have "prunes v (snd (g x v))" unfolding prunes_only_def by blast
    with f v Inr show ?thesis by (auto simp: bind_def intro: prunes_trans)
  qed
qed

lemma prunes_steps:
  "prunes_only (yield x)" "prunes_only (read_ok p)" "prunes_only (encrypted_paths d e)"
  "prunes_only (atomic_write_bytes retention_marker b)"
proof -
  show "prunes_only (yield x)" by (simp add: prunes_only_def yield_def prunes_refl)
  show "prunes_only (read_ok p)" "prunes_only (encrypted_paths d e)"
    by (simp_all add: prunes_only_def prunes_refl read_ok_files [OF surjective_pairing]
        encrypted_paths_files [OF surjective_pairing])
  have "touches {retention_marker} (atomic_write_bytes retention_marker b)" by (rule touches_write) simp
  then show "prunes_only (atomic_write_bytes retention_marker b)"
    by (auto simp: prunes_only_def prunes_def touches_def same_outside_def)
qed

lemma prunes_remove: "in_audit p \<Longrightarrow> prunes_only (remove_file p)"
proof -
  assume a: "in_audit p"
  have "prunes w (snd (remove_file p w))" for w
  proof -
    obtain x v where v: "remove_file p w = (x, v)" by (cases "remove_file p w")
    then have "files v = files w \<or> files v = hm_del p (files w)"
      using remove_Inr [of p w _ v] remove_Inl [of p w _ v] by (cases x) auto
    with a v show ?thesis by (auto simp: prunes_def split: if_splits)
  qed
  then show ?thesis by (simp add: prunes_only_def)
qed

lemma prune_prunes: "\<forall>(m, p, l)\<in>set es. in_audit p \<Longrightarrow> prunes_only (prune cutoff used es)"
proof (induction cutoff used es rule: prune.induct)
  case (2 cutoff used modified p len rest)
  then have "prunes_only (bind (remove_file p) (\<lambda>_. prune cutoff (sat_sub used len) rest))" if "\<not> (cutoff \<le> modified \<and> used \<le> MAX_AUDIT_ALLOCATED_BYTES)"
    using that by (intro prunes_bind prunes_remove) auto
  then show ?case by (simp add: prunes_steps)
qed (simp add: prunes_steps)

lemma audit_listed:
  assumes "encrypted_paths ''audit'' e w = (Inr ps, w')" "p \<in> set ps"
  shows "in_audit p"
proof -
  have "p \<in> set (encrypted_names ''audit'' e w)" using encrypted_paths_Inr [OF assms(1)] assms(2) by simp
  then obtain a b where "p = [a, b]" "a = ''audit''"
    by (auto simp: set_encrypted_names length_Suc_conv eval_nat_numeral)
  then show ?thesis by (simp add: in_audit_def)
qed

lemma prunes_if: "prunes_only f \<Longrightarrow> prunes_only g \<Longrightarrow> prunes_only (if b then f else g)"
  by simp

lemma maintain_prunes: "prunes_only (maintain parse stat now)"
  unfolding maintain_def Let_def
  by (intro prunes_bind prunes_if prunes_steps prune_prunes) (auto dest: audit_listed)

lemma prunes_ready:
  assumes "prunes w w'" "ready c s w"
  shows "ready c s w'"
proof -
  have "manifest \<noteq> retention_marker" "\<not> in_audit manifest"
    by (simp_all add: in_audit_def manifest_def retention_marker_def)
  then have m: "hm_get (files w') manifest = Some (header_pretty c (s_header s))"
    using assms(1) ready_header(5) [OF assms(2)] unfolding prunes_def by metis
  have "portable p \<and> sound_file c (h_vault_id (s_header s)) (epoch_key s) p b"
    if p: "hm_get (files w') p = Some b" "sync_path_allowed p" for p b
  proof -
    have "p \<noteq> retention_marker" using p(2) by (auto simp: retention_marker_def sync_path_allowed_def)
    then have "hm_get (files w) p = Some b"
      using assms(1) p(1) unfolding prunes_def by (metis option.distinct(1))
    then show ?thesis using assms(2) p(2) unfolding ready_def by blast
  qed
  moreover have "hm_wf (files w')" using assms ready_header(4) unfolding prunes_def by blast
  ultimately show ?thesis using m ready_header(1-3) [OF assms(2)] unfolding ready_def by blast
qed

lemma audit_ready:
  assumes "platform_ok c" "ready c s w" "prunes_only upkeep"
  shows "ready c s (snd (audit c lowercase upkeep s action record detail w))"
proof -
  let ?u = "random_uuid c (draws w)"
  let ?w = "w\<lparr>draws := Suc (Suc (draws w))\<rparr>"
  let ?m = "event_json c \<lparr>event_id = ?u, event_at = now_utc c (Suc (draws w)), event_action = action, event_record = record,
        event_detail = map_option (redact_detail lowercase) detail\<rparr>"
  obtain r w1 where wr: "write_envelope c s (audit_path c ?u) ?u ''audit_event'' 1 ?m ?w = (r, w1)"
    by (cases "write_envelope c s (audit_path c ?u) ?u ''audit_event'' 1 ?m ?w")
  have "ready c s ?w" using assms(2) by (simp add: ready_def)
  from write_ready [OF assms(1) this, of "''audit''" "''aipaudit''" ?u "''audit_event''" 1 ?m] wr have "ready c s w1"
    by (simp add: audit_path_def record_dirs_def)
  moreover have "ready c s (snd (upkeep w1))"
    by (rule prunes_ready [OF _ calculation]) (use assms(3) in \<open>simp add: prunes_only_def\<close>)
  ultimately show ?thesis
    using wr by (auto simp: audit_def bind_def new_uuid_def read_clock_def ignoring_def split: sum.splits)
qed

lemma quiet_audit: "quiet upkeep \<Longrightarrow> quiet (audit c lowercase upkeep s action record detail)"
proof -
  assume q: "quiet upkeep"
  have one: "quiet (read_lamport c p)" for p unfolding read_lamport_def by (intro quiet_act)
  have "quiet (read_lamports c ps)" for ps by (induction ps) (auto intro!: quiet_act one)
  then show ?thesis
    unfolding audit_def write_envelope_def build_envelope_def write_envelope_json_def
    using q by (intro quiet_act one) (auto simp: quiet_def ignoring_def)
qed

section \<open>What creation leaves\<close>

lemma seal_files: "seal_bytes c k a m w = (r, w') \<Longrightarrow> files w' = files w \<and> faults w' = faults w"
  by (auto simp: seal_bytes_def bind_def random_draw_def split: sum.splits)

lemma seal_header_Inr:
  assumes c: "platform_ok c" and k: "length rk = KEY_LEN" "length (epoch_bytes ek) = KEY_LEN" "length ik = KEY_LEN"
    and h: "seal_header c vid now kdf pk ck rk ek ik w = (Inr h, w')"
  shows "files w' = files w \<and> faults w' = faults w \<and> h_vault_id h = vid \<and> h_kdf h = kdf \<and> validate_header h = Inr () \<and>
    unwrap_epoch_and_index_keys c rk h UnlockFailed = Inr (ek, ik) \<and>
    decrypt_root_key c pk (wrapped_root_key h) vid UnlockFailed = Inr rk \<and>
    decrypt_root_key c ck (recovery_wrapped_root_key h) vid RecoveryFailed = Inr rk"
proof -
  from h obtain wr w1 wc w2 we w3 wi where s: "seal_bytes c pk (root_key_aad c vid) rk w = (Inr wr, w1)"
      "seal_bytes c ck (root_key_aad c vid) rk w1 = (Inr wc, w2)"
      "seal_bytes c rk (header_key_aad c vid ''epoch'') (epoch_bytes ek) w2 = (Inr we, w3)"
      "seal_bytes c rk (header_key_aad c vid ''index'') ik w3 = (Inr wi, w')"
    and h: "h = \<lparr>h_format = ''aipass-vault'', h_version = 2, h_vault_id = vid, h_kdf = kdf, wrapped_root_key = wr,
      recovery_wrapped_root_key = wc, wrapped_epoch_key = we, wrapped_index_key = wi, current_epoch = epoch_of ek,
      h_created_at = now, h_updated_at = now\<rparr>"
    by (auto simp: seal_header_def bind_Inr)
  show ?thesis
    using s [THEN seal_files] s [THEN seal_opens [OF c]] k
    by (simp add: h validate_header_def unwrap_epoch_and_index_keys_def decrypt_root_key_def replace_error_def)
qed

text \<open>Draws never fail, so a run of them can be computed.\<close>

lemma bind_draws:
  "bind (random_draw c n) g w = g (random_bytes c (draws w) n) (w\<lparr>draws := Suc (draws w)\<rparr>)"
  "bind (new_uuid c) gu w = gu (random_uuid c (draws w)) (w\<lparr>draws := Suc (draws w)\<rparr>)"
  "bind (read_clock c) gc w = gc (now_utc c (draws w)) (w\<lparr>draws := Suc (draws w)\<rparr>)"
  "bind (lift (Inr x)) h w = h x w" "bind (yield x) h w = h x w"
  "bind (bind f k) h w = bind f (\<lambda>x. bind (k x) h) w"
  by (simp_all add: bind_def random_draw_def new_uuid_def read_clock_def lift_def yield_def split: prod.split sum.split)

lemma draw_session_Inr:
  assumes c: "platform_ok c" and d: "draw_session c password kdf w = (Inr ((h, rk, ek, ik), code), w')"
  shows "files w' = files w \<and> faults w' = faults w \<and> h_kdf h = kdf \<and> validate_header h = Inr () \<and> length rk = KEY_LEN \<and>
    unwrap_epoch_and_index_keys c rk h UnlockFailed = Inr (ek, ik) \<and>
    (\<exists>pk. derive_master_key (prims c) password kdf = Inr pk \<and>
      decrypt_root_key c pk (wrapped_root_key h) (h_vault_id h) UnlockFailed = Inr rk) \<and>
    (\<exists>ck. derive_recovery_key (prims c) code = Inr ck \<and>
      decrypt_root_key c ck (recovery_wrapped_root_key h) (h_vault_id h) RecoveryFailed = Inr rk)"
proof -
  obtain pk where pk: "derive_master_key (prims c) password kdf = Inr pk"
    using d by (cases "derive_master_key (prims c) password kdf") (simp_all add: draw_session_def bind_def lift_def crypto_def)
  let ?code = "generate_recovery_secret (random_bytes c (Suc (draws w)) RECOVERY_SECRET_LEN)"
  obtain ck where ck: "derive_recovery_key (prims c) ?code = Inr ck"
    using d pk by (cases "derive_recovery_key (prims c) ?code")
      (simp_all add: draw_session_def bind_def lift_def crypto_def random_draw_def)
  define n where "n = draws w"
  let ?rk = "random_bytes c n KEY_LEN"
  let ?ek = "\<lparr>epoch_of = \<lparr>epoch_number = 0, key_id = random_uuid c (Suc (Suc (Suc n))),
    epoch_created_at = now_utc c (Suc (Suc (Suc (Suc n))))\<rparr>, epoch_bytes = random_bytes c (Suc (Suc n)) KEY_LEN\<rparr>"
  let ?ik = "random_bytes c (Suc (Suc (Suc (Suc (Suc n))))) KEY_LEN"
  let ?now = "now_utc c (Suc (Suc (Suc (Suc (Suc (Suc n))))))"
  let ?vid = "random_uuid c (Suc (Suc (Suc (Suc (Suc (Suc (Suc n)))))))"
  let ?w = "w\<lparr>draws := Suc (Suc (Suc (Suc (Suc (Suc (Suc (Suc n)))))))\<rparr>"
  have "bind (seal_header c ?vid ?now kdf pk ck ?rk ?ek ?ik) (\<lambda>h. yield ((h, ?rk, ?ek, ?ik), ?code)) ?w
      = (Inr ((h, rk, ek, ik), code), w')"
    using d pk ck
    by (simp add: draw_session_def new_epoch_key_def bind_draws n_def crypto_def)
  then have h: "seal_header c ?vid ?now kdf pk ck ?rk ?ek ?ik ?w = (Inr h, w')"
    and eq: "rk = ?rk" "ek = ?ek" "ik = ?ik" "code = ?code"
    by (auto simp: bind_Inr)
  have len: "length (random_bytes c m k) = k" for m k using c by (simp add: platform_ok_def)
  have "length ?rk = KEY_LEN" "length (epoch_bytes ?ek) = KEY_LEN" "length ?ik = KEY_LEN" by (simp_all add: len)
  from seal_header_Inr [OF c this h] pk ck show ?thesis by (simp add: eq len)
qed

lemma create_Inr:
  assumes "create_vault c lowercase upkeep password name kdf w = (Inr (s, code), w')"
  obtains h rk ek ik w1 w2 device w3 where "files w1 = files w" "draw_session c password kdf w1 = (Inr ((h, rk, ek, ik), code), w2)"
    "write_header c manifest h w2 = (Inr (), w3)"
    "s = \<lparr>s_header = h, root_key = rk, epoch_key = ek, index_key = ik, s_device = device\<rparr>"
    "announce c lowercase upkeep name s (w3\<lparr>draws := Suc (draws w3)\<rparr>) = (Inr (), w')"
proof -
  from assms obtain w1 h rk ek ik w2 w3 where c: "create_dirs w = (Inr (), w1)"
    and d: "draw_session c password kdf w1 = (Inr ((h, rk, ek, ik), code), w2)"
    and m: "write_header c manifest h w2 = (Inr (), w3)"
    and s: "s = \<lparr>s_header = h, root_key = rk, epoch_key = ek, index_key = ik, s_device = random_uuid c (draws w3)\<rparr>"
    and a: "announce c lowercase upkeep name s (w3\<lparr>draws := Suc (draws w3)\<rparr>) = (Inr (), w')"
    by (auto simp: create_vault_def bind_Inr new_uuid_def split: if_splits)
  moreover have "files w1 = files w" using c by (auto simp: create_dirs_def dest: next_faultD split: prod.splits if_splits)
  ultimately show ?thesis using that by blast
qed

lemma bind_ready:
  assumes "\<And>v. ready c s v \<Longrightarrow> ready c s (snd (f v))" "\<And>v. ready c s v \<Longrightarrow> ready c s (snd (g v))" "ready c s w"
  shows "ready c s (snd (bind f (\<lambda>_. g) w))"
proof -
  obtain r v where f: "f w = (r, v)" by (cases "f w")
  have "ready c s v" using assms(1) [OF assms(3)] f by simp
  then show ?thesis using f assms(2) by (cases r) (simp_all add: bind_def)
qed

text \<open>
  C2. A vault that was created opens: on a directory without records, whenever creation reports
  success (whatever faults struck on the way), the vault on disk is in order at epoch 0, both
  the password and the printed recovery key unwrap its root key, and on a working disk with no
  stale journal the password opens it into the same session but for the device identifier.
\<close>

theorem created_vault_opens:
  assumes "platform_ok c" "hm_wf (files w)" "\<And>p. sync_path_allowed p \<Longrightarrow> hm_get (files w) p = None"
    and "validate_import_kdf kdf = Inr ()"
    and "create_vault c lowercase (maintain parse stat now) password name kdf w = (Inr (s, code), w')"
  shows "ready c s w' \<and> unlocks_with c s password \<and> recovers_with c s code \<and>
    (faults w' = [] \<and> \<not> path_exists PENDING w' \<longrightarrow>
      (\<exists>d w''. open_vault c upkeep password w' = (Inr (s\<lparr>s_device := d\<rparr>), w'')))"
proof -
  from assms(5) obtain h rk ek ik w1 w2 device w3 where w1: "files w1 = files w"
    and d: "draw_session c password kdf w1 = (Inr ((h, rk, ek, ik), code), w2)"
    and m: "write_header c manifest h w2 = (Inr (), w3)"
    and s: "s = \<lparr>s_header = h, root_key = rk, epoch_key = ek, index_key = ik, s_device = device\<rparr>"
    and r: "announce c lowercase (maintain parse stat now) name s (w3\<lparr>draws := Suc (draws w3)\<rparr>) = (Inr (), w')"
    by (rule create_Inr)
  note k = draw_session_Inr [OF assms(1) d]
  have w3: "files w3 = hm_put manifest (header_pretty c h) (files w)"
    using m k w1 by (auto simp: write_header_def dest!: write_Inr)
  have "ready c s (w3\<lparr>draws := Suc (draws w3)\<rparr>)"
    using k assms(2-4) by (auto simp: ready_def s w3)
  moreover have "ready c s (snd (write_device c s dr v))" if "ready c s v" for dr v
    using write_ready [OF assms(1) that, of "''devices''" "''aipdevice''"]
    by (simp add: write_device_def device_path_def record_dirs_def)
  ultimately have "ready c s (snd (announce c lowercase (maintain parse stat now) name s (w3\<lparr>draws := Suc (draws w3)\<rparr>)))"
    unfolding announce_def by (intro bind_ready audit_ready [OF assms(1) _ maintain_prunes])
  with r have ready: "ready c s w'" by simp
  have u: "unlocks_with c s password" "recovers_with c s code"
    using k by (auto simp: s unlocks_with_def recovers_with_def)
  from ready u open_succeeds [OF assms(1) ready _ _ u(1)] show ?thesis by blast
qed

section \<open>A new password\<close>

lemma rewrap_Inr:
  assumes c: "platform_ok c" "length (root_key s) = KEY_LEN"
    and r: "rewrap_root_key_for_new_password c s h password kdf w = (Inr h', w')"
  shows "files w' = files w \<and> (\<exists>wk pk. h' = h\<lparr>h_kdf := kdf, wrapped_root_key := wk\<rparr> \<and>
    derive_master_key (prims c) password kdf = Inr pk \<and>
    decrypt_root_key c pk wk (h_vault_id (s_header s)) UnlockFailed = Inr (root_key s))"
proof -
  from r obtain pk wk where pk: "derive_master_key (prims c) password kdf = Inr pk"
    and wk: "seal_bytes c pk (root_key_aad c (h_vault_id (s_header s))) (root_key s) w = (Inr wk, w')"
    and h': "h' = h\<lparr>h_kdf := kdf, wrapped_root_key := wk\<rparr>"
    by (auto simp: rewrap_root_key_for_new_password_def bind_Inr)
  show ?thesis using pk h' seal_files [OF wk] seal_opens [OF c(1) wk] c(2)
    by (auto simp: decrypt_root_key_def replace_error_def)
qed

text \<open>The ways in after a rotation are those of the header it was asked for.\<close>

lemma commit_ways_in:
  assumes c: "platform_ok c" "ready c s w" and k: "commit_epoch_rotation c s h reason revoked w = (Inr (), s', w')"
  shows "ready c s' w' \<and> \<not> path_exists PENDING w' \<and> root_key s' = root_key s \<and> h_vault_id (s_header s') = h_vault_id h \<and>
    epoch_number (epoch_of (epoch_key s')) = epoch_number (epoch_of (epoch_key s)) + 1 \<and>
    h_kdf (s_header s') = h_kdf h \<and> wrapped_root_key (s_header s') = wrapped_root_key h \<and>
    recovery_wrapped_root_key (s_header s') = recovery_wrapped_root_key h"
  using commit_Inr [OF assms] by (auto simp: rotation_of_def session_on_def)

text \<open>
  C3. After a change of the master password that reports success the new password opens the
  vault: the session is in order on the next epoch, keeps its root key, the header unwraps it
  with the new password, every recovery key that worked before still works, and on a working
  disk unlocking with the new password gives this session back but for the device identifier.
\<close>

theorem changed_password_opens:
  assumes "platform_ok c" "ready c s w" "length (root_key s) = KEY_LEN"
    and "change_master_password c s password kdf w = (Inr (), s', w')"
  shows "ready c s' w' \<and> root_key s' = root_key s \<and> unlocks_with c s' password \<and>
    epoch_number (epoch_of (epoch_key s')) = epoch_number (epoch_of (epoch_key s)) + 1 \<and>
    (\<forall>code. recovers_with c s code \<longrightarrow> recovers_with c s' code) \<and>
    (faults w' = [] \<longrightarrow> (\<exists>d w''. open_vault c upkeep password w' = (Inr (s'\<lparr>s_device := d\<rparr>), w'')))"
proof -
  from assms(4) obtain h w1 where r: "rewrap_root_key_for_new_password c s (s_header s) password kdf w = (Inr h, w1)"
    and k: "commit_epoch_rotation c s h ''vault.password_changed'' None w1 = (Inr (), s', w')"
    by (auto simp: change_master_password_def split: prod.splits sum.splits)
  obtain wk pk where w1: "files w1 = files w" and h: "h = (s_header s)\<lparr>h_kdf := kdf, wrapped_root_key := wk\<rparr>"
    and pk: "derive_master_key (prims c) password kdf = Inr pk"
      "decrypt_root_key c pk wk (h_vault_id (s_header s)) UnlockFailed = Inr (root_key s)"
    using rewrap_Inr [OF assms(1,3) r] by blast
  have rdy: "ready c s w1" using assms(2) w1 by (simp add: ready_def)
  note ways = commit_ways_in [OF assms(1) rdy k]
  have u: "unlocks_with c s' password" using ways pk by (auto simp: unlocks_with_def h)
  moreover have "recovers_with c s code \<longrightarrow> recovers_with c s' code" for code using ways by (auto simp: recovers_with_def h)
  ultimately show ?thesis using ways open_succeeds [OF assms(1) _ _ _ u] by blast
qed

lemma open_root_key_Inr:
  assumes c: "platform_ok c" "ready c s w" "\<not> path_exists PENDING w"
    and r: "open_with_root_key c upkeep (s_header s) (root_key s) e w = (Inr s', w')" and up: "prunes_only upkeep"
  shows "\<exists>d. s' = s\<lparr>s_device := d\<rparr> \<and> ready c s' w' \<and> (quiet upkeep \<longrightarrow> faults w = [] \<longrightarrow> faults w' = [])"
proof -
  obtain d w1 where o: "s' = s\<lparr>s_device := d\<rparr>" "w' = snd (upkeep w1)" "files w1 = files w" "faults w1 = faults w"
    using open_root_key [OF c, of upkeep e] r by auto
  have "ready c s w1" using c(2) o(3) by (simp add: ready_def)
  moreover have "prunes w1 w'" using up by (simp add: prunes_only_def o(2))
  ultimately have "ready c s w'" by (rule prunes_ready [rotated])
  then show ?thesis using o by (auto simp: ready_def quiet_def)
qed

lemma committed_kit:
  "(case x of (Inl e, t, v) \<Rightarrow> (Inl e, v) | (Inr u, t, v) \<Rightarrow> (Inr (t, k), v)) = (Inr (t', k'), v') \<longleftrightarrow>
    x = (Inr (), t', v') \<and> k = k'" for x :: "(vault_error + unit) \<times> session \<times> world"
  by (cases x; cases "fst x") auto

lemma header_on_disk:
  assumes "platform_ok c" "ready c s w" "read_header c manifest w = (Inr h, w')"
  shows "h = s_header s" "files w' = files w"
  using read_header_Inr [OF assms(3) ready_header(5) [OF assms(2)] assms(1)] by simp_all

text \<open>
  C4. The recovery key gives the vault back: recovering with a key that unwraps the root key
  ends, when it reports success, in a vault in order on the next epoch with the same root key,
  which the new password and the newly printed recovery key both unwrap and which the new
  password opens.
\<close>

theorem recovered_vault_opens:
  assumes "platform_ok c" "ready c s w" "\<not> path_exists PENDING w" "recovers_with c s code"
    and "recover_master_password c (maintain parse stat now) code password kdf w = (Inr (s', kit), w')"
  shows "ready c s' w' \<and> root_key s' = root_key s \<and> unlocks_with c s' password \<and> recovers_with c s' kit \<and>
    epoch_number (epoch_of (epoch_key s')) = epoch_number (epoch_of (epoch_key s)) + 1 \<and>
    (faults w' = [] \<longrightarrow> (\<exists>d w''. open_vault c upkeep password w' = (Inr (s'\<lparr>s_device := d\<rparr>), w'')))"
proof -
  let ?up = "maintain parse stat now"
  obtain ck where ck: "derive_recovery_key (prims c) code = Inr ck"
      "decrypt_root_key c ck (recovery_wrapped_root_key (s_header s)) (h_vault_id (s_header s)) RecoveryFailed = Inr (root_key s)"
    using assms(4) by (auto simp: recovers_with_def)
  from assms(5) obtain w1 h w2 where w1: "create_dirs w = (Inr (), w1)" and h: "read_header c manifest w1 = (Inr h, w2)"
    and rest: "bind (lift (validate_header h)) (\<lambda>_.
      bind (lift (replace_error RecoveryFailed (derive_recovery_key (prims c) code))) (\<lambda>ck.
      bind (lift (decrypt_root_key c ck (recovery_wrapped_root_key h) (h_vault_id h) RecoveryFailed)) (\<lambda>rk.
      bind (open_with_root_key c ?up h rk RecoveryFailed) (\<lambda>s.
      bind (rewrap_root_key_for_new_password_and_recovery c s (s_header s) password kdf) (\<lambda>(h', kit) w.
      (case commit_epoch_rotation c s h' ''vault.recovered'' None w of
         (Inl e, s', w') \<Rightarrow> (Inl e, w')
       | (Inr _, s', w') \<Rightarrow> (Inr (s', kit), w'))))))) w2 = (Inr (s', kit), w')"
    by (auto simp: recover_master_password_def bind_Inr [of require_manifest] bind_Inr [of create_dirs]
        bind_Inr [of "read_header c manifest"] require_manifest_def split: if_splits)
  have f1: "files w1 = files w" using w1 by (auto simp: create_dirs_def dest: next_faultD split: prod.splits if_splits)
  have r1: "ready c s w1" using assms(2) f1 by (simp add: ready_def)
  note disk = header_on_disk [OF assms(1) r1 h]
  have r2: "ready c s w2" "\<not> path_exists PENDING w2" using assms(2,3) f1 disk by (simp_all add: ready_def path_exists_def)
  from rest ck ready_header(1) [OF assms(2)] obtain s1 w3 h' w4 where
    o: "open_with_root_key c ?up (s_header s) (root_key s) RecoveryFailed w2 = (Inr s1, w3)"
    and rw: "rewrap_root_key_for_new_password_and_recovery c s1 (s_header s1) password kdf w3 = (Inr (h', kit), w4)"
    and k: "commit_epoch_rotation c s1 h' ''vault.recovered'' None w4 = (Inr (), s', w')"
    by (auto simp: disk(1) bind_Inr committed_kit)
  obtain d where s1: "s1 = s\<lparr>s_device := d\<rparr>" and r3: "ready c s1 w3"
    using open_root_key_Inr [OF assms(1) r2 o maintain_prunes] by blast
  have len: "length (root_key s1) = KEY_LEN" using ck(2) by (auto simp: s1 decrypt_root_key_def and_then_Inr split: if_splits)
  from rw obtain h1 w5 ck2 wk where rp: "rewrap_root_key_for_new_password c s1 (s_header s1) password kdf w3 = (Inr h1, w5)"
    and ck2: "derive_recovery_key (prims c) kit = Inr ck2"
    and wk: "seal_bytes c ck2 (root_key_aad c (h_vault_id (s_header s1))) (root_key s1) (w5\<lparr>draws := Suc (draws w5)\<rparr>) = (Inr wk, w4)"
    and h': "h' = h1\<lparr>recovery_wrapped_root_key := wk\<rparr>"
    unfolding rewrap_root_key_for_new_password_and_recovery_def bind_Inr random_draw_def by auto
  obtain wp pk where w5: "files w5 = files w3" and h1: "h1 = (s_header s1)\<lparr>h_kdf := kdf, wrapped_root_key := wp\<rparr>"
    and pk: "derive_master_key (prims c) password kdf = Inr pk"
      "decrypt_root_key c pk wp (h_vault_id (s_header s1)) UnlockFailed = Inr (root_key s1)"
    using rewrap_Inr [OF assms(1) len rp] by blast
  have "ready c s1 w4" using r3 w5 seal_files [OF wk] by (simp add: ready_def)
  note ways = commit_ways_in [OF assms(1) this k]
  have u: "unlocks_with c s' password" using ways pk by (auto simp: unlocks_with_def h' h1)
  moreover have "recovers_with c s' kit"
    using ways ck2 seal_opens [OF assms(1) wk] len
    by (auto simp: recovers_with_def h' h1 decrypt_root_key_def replace_error_def)
  ultimately show ?thesis using ways s1 open_succeeds [OF assms(1) _ _ _ u] by (auto simp del: split_paired_Ex)
qed

section \<open>Remote access codes\<close>

definition seal_remote_unlock ::
  "platform \<Rightarrow> (uuid \<Rightarrow> kdf_params \<Rightarrow> ciphertext \<Rightarrow> bytes) \<Rightarrow> (u32 \<Rightarrow> uuid \<Rightarrow> bytes \<Rightarrow> uuid \<Rightarrow> bytes) \<Rightarrow>
    (string \<Rightarrow> bytes option) \<Rightarrow> (uuid \<Rightarrow> bytes) \<Rightarrow> session \<Rightarrow> string \<Rightarrow> remote_unlock act" where
  "seal_remote_unlock c revision aad url_decode uuid_bytes s code =
    (let h = s_header s; rev = revision (h_vault_id h) (h_kdf h) (wrapped_root_key h) in
     bind ensure_sync_ready (\<lambda>_.
     bind (new_uuid c) (\<lambda>salt.
     bind (lift (crypto (derive_remote_unlock_key (prims c) url_decode code (uuid_bytes salt)))) (\<lambda>key.
     bind (seal_bytes c key (aad 1 (h_vault_id h) rev salt) (root_key s)) (\<lambda>wk.
     yield \<lparr>ru_version = 1, ru_vault_id = h_vault_id h, ru_password_revision = rev, ru_salt = salt,
       ru_wrapped_root_key = wk\<rparr>)))))"

lemma seal_remote_Inr:
  assumes "platform_ok c" "seal_remote_unlock c revision aad url_decode uuid_bytes s code w = (Inr ru, w')"
  shows "files w' = files w \<and> faults w' = faults w \<and> \<not> path_exists PENDING w \<and> matches_header revision ru (s_header s) \<and>
    (\<exists>key. derive_remote_unlock_key (prims c) url_decode code (uuid_bytes (ru_salt ru)) = Inr key \<and>
      decrypt_bytes (prims c) key (aad (ru_version ru) (ru_vault_id ru) (ru_password_revision ru) (ru_salt ru))
        (ru_wrapped_root_key ru) = Inr (root_key s))"
proof -
  let ?h = "s_header s" and ?salt = "random_uuid c (draws w)"
  let ?rev = "revision (h_vault_id ?h) (h_kdf ?h) (wrapped_root_key ?h)"
  from assms(2) obtain key wk where p: "\<not> path_exists PENDING w"
    and k: "derive_remote_unlock_key (prims c) url_decode code (uuid_bytes ?salt) = Inr key"
    and wk: "seal_bytes c key (aad 1 (h_vault_id ?h) ?rev ?salt) (root_key s) (w\<lparr>draws := Suc (draws w)\<rparr>) = (Inr wk, w')"
    and ru: "ru = \<lparr>ru_version = 1, ru_vault_id = h_vault_id ?h, ru_password_revision = ?rev, ru_salt = ?salt,
       ru_wrapped_root_key = wk\<rparr>"
    by (auto simp: seal_remote_unlock_def Let_def bind_Inr ensure_sync_ready_def new_uuid_def split: if_splits)
  show ?thesis using p k seal_files [OF wk] seal_opens [OF assms(1) wk] by (simp add: ru matches_header_def)
qed

lemma remote_open_Inr:
  assumes "open_with_remote_unlock c upkeep revision aad url_decode uuid_bytes code ru w = (Inr s, w')"
  shows "matches_header revision ru (s_header s)"
  using assms by (auto simp: open_with_remote_unlock_def bind_Inr split: if_splits)

text \<open>
  C5. A remote access envelope opens exactly the password it was sealed under: on a working disk
  the code it was sealed for opens the vault, into the same session but for the device
  identifier; and whatever has happened to the directory since (a changed password, a
  synchronised one, a journal the unlock has to finish first), an unlock that succeeds ends on
  a header of the same vault with the password revision the envelope was sealed under.
\<close>

theorem remote_unlock_follows_the_password:
  assumes "platform_ok c" "ready c s w" "length (root_key s) = KEY_LEN"
    and "seal_remote_unlock c revision aad url_decode uuid_bytes s code w = (Inr ru, w')"
  shows "(faults w' = [] \<longrightarrow> (\<exists>d w''. open_with_remote_unlock c upkeep revision aad url_decode uuid_bytes code ru w'
      = (Inr (s\<lparr>s_device := d\<rparr>), w''))) \<and>
    (\<forall>code2 v s2 v2. open_with_remote_unlock c upkeep revision aad url_decode uuid_bytes code2 ru v = (Inr s2, v2) \<longrightarrow>
      h_vault_id (s_header s2) = h_vault_id (s_header s) \<and>
      revision (h_vault_id (s_header s2)) (h_kdf (s_header s2)) (wrapped_root_key (s_header s2)) =
      revision (h_vault_id (s_header s)) (h_kdf (s_header s)) (wrapped_root_key (s_header s)))"
proof -
  note ru = seal_remote_Inr [OF assms(1,4)]
  have r: "ready c s w'" "\<not> path_exists PENDING w'" using assms(2) ru by (simp_all add: ready_def path_exists_def)
  have parse: "header_parse c (header_pretty c (s_header s)) = Some (s_header s)" using assms(1) by (simp add: platform_ok_def)
  have "\<exists>d w''. open_with_remote_unlock c upkeep revision aad url_decode uuid_bytes code ru w' = (Inr (s\<lparr>s_device := d\<rparr>), w'')"
    if f: "faults w' = []"
  proof -
    obtain d w1 where o: "open_with_root_key c upkeep (s_header s) (root_key s) UnlockFailed w' = (Inr (s\<lparr>s_device := d\<rparr>), w1)"
      using open_root_key [OF assms(1) r] by blast
    have "read_header c manifest w' = (Inr (s_header s), w')"
      using parse f ready_header(5) [OF r(1)] by (simp add: read_header_def bind_def lift_def)
    with o ru ready_header(1) [OF r(1)] assms(3) show ?thesis
      by (auto simp: open_with_remote_unlock_def bind_def lift_def replace_error_def yield_def)
  qed
  moreover have "h_vault_id (s_header s2) = h_vault_id (s_header s) \<and>
      revision (h_vault_id (s_header s2)) (h_kdf (s_header s2)) (wrapped_root_key (s_header s2)) =
      revision (h_vault_id (s_header s)) (h_kdf (s_header s)) (wrapped_root_key (s_header s))"
    if "open_with_remote_unlock c upkeep revision aad url_decode uuid_bytes code2 ru v = (Inr s2, v2)" for code2 v s2 v2
    using remote_open_Inr [OF that] ru unfolding matches_header_def by metis
  ultimately show ?thesis by blast
qed

section \<open>Migrating an old password policy\<close>

definition migrated_header :: "platform \<Rightarrow> session \<Rightarrow> string \<Rightarrow> kdf_params \<Rightarrow> vault_header act" where
  "migrated_header c s password kdf =
    bind (lift (crypto (derive_master_key (prims c) password kdf))) (\<lambda>pk.
    bind (seal_bytes c pk (root_key_aad c (h_vault_id (s_header s))) (root_key s)) (\<lambda>wk.
    bind (read_clock c) (\<lambda>now.
    yield ((s_header s)\<lparr>h_kdf := kdf, wrapped_root_key := wk, h_updated_at := now\<rparr>))))"

text \<open>\<open>kdf\<close> is \<open>KdfParams::interactive()\<close>.  After a failed write the manifest is read back, as the write may have happened.\<close>

definition migrate_legacy_password_kdf ::
  "platform \<Rightarrow> session \<Rightarrow> string \<Rightarrow> kdf_params \<Rightarrow> world \<Rightarrow> (vault_error + bool) \<times> session \<times> world" where
  "migrate_legacy_password_kdf c s password kdf w =
    (if \<not> uses_legacy_interactive_policy (h_kdf (s_header s)) then (Inr False, s, w)
     else case migrated_header c s password kdf w of
       (Inl e, w1) \<Rightarrow> (Inl e, s, w1)
     | (Inr h, w1) \<Rightarrow>
         (case write_header c manifest h w1 of
            (Inr _, w2) \<Rightarrow> (Inr True, s\<lparr>s_header := h\<rparr>, w2)
          | (Inl e, w2) \<Rightarrow>
              (case read_header c manifest w2 of
                 (Inl _, w3) \<Rightarrow> (Inl e, s, w3)
               | (Inr h', w3) \<Rightarrow>
                   if header_json c h' = header_json c h then (Inr True, s\<lparr>s_header := h\<rparr>, w3) else (Inl e, s, w3))))"

lemma migrated_Inr:
  assumes c: "platform_ok c" "ready c s w" "length (root_key s) = KEY_LEN" "validate_import_kdf kdf = Inr ()"
    and m: "migrated_header c s password kdf w = (Inr h, w')"
  shows "files w' = files w \<and> h_kdf h = kdf \<and> unlocks_with c (s\<lparr>s_header := h\<rparr>) password \<and>
    (\<forall>v. files v = hm_put manifest (header_pretty c h) (files w) \<longrightarrow> ready c (s\<lparr>s_header := h\<rparr>) v)"
proof -
  from m obtain pk wk w1 where pk: "derive_master_key (prims c) password kdf = Inr pk"
    and wk: "seal_bytes c pk (root_key_aad c (h_vault_id (s_header s))) (root_key s) w = (Inr wk, w1)"
    and h: "h = (s_header s)\<lparr>h_kdf := kdf, wrapped_root_key := wk, h_updated_at := now_utc c (draws w1)\<rparr>"
    and w': "w' = w1\<lparr>draws := Suc (draws w1)\<rparr>"
    by (auto simp: migrated_header_def bind_Inr read_clock_def)
  have "ready c (s\<lparr>s_header := h\<rparr>) v" if v: "files v = hm_put manifest (header_pretty c h) (files w)" for v
  proof -
    have "\<not> sync_path_allowed manifest" by (simp add: sync_path_allowed_def manifest_def)
    moreover have "unwrap_epoch_and_index_keys c rk h e = unwrap_epoch_and_index_keys c rk (s_header s) e" for rk e
      unfolding unwrap_epoch_and_index_keys_def h by (simp cong: if_cong)
    moreover have "validate_header h = validate_header (s_header s)" "h_kdf h = kdf" "h_vault_id h = h_vault_id (s_header s)"
      by (simp_all add: h validate_header_def)
    ultimately show ?thesis using c(2,4) by (auto simp: ready_def v)
  qed
  then show ?thesis
    using pk seal_files [OF wk] seal_opens [OF c(1) wk] c(3)
    by (simp add: w' h unlocks_with_def decrypt_root_key_def replace_error_def)
qed

text \<open>
  C6. A password policy migration never locks the vault: wherever faults strike, the header on
  disk afterwards is one the password still opens, into the same keys; the session in memory
  agrees with it whenever the migration reports success, and the header then has the new policy
  exactly when it reports that it migrated.
\<close>

theorem migration_keeps_the_password:
  assumes "platform_ok c" "ready c s w" "length (root_key s) = KEY_LEN" "validate_import_kdf kdf = Inr ()"
    and "unlocks_with c s password"
    and "migrate_legacy_password_kdf c s password kdf w = (r, s', w')"
  shows "\<exists>h. ready c (s\<lparr>s_header := h\<rparr>) w' \<and> unlocks_with c (s\<lparr>s_header := h\<rparr>) password \<and>
    (s' = s \<or> s' = s\<lparr>s_header := h\<rparr>) \<and>
    (r = Inr True \<longrightarrow> s' = s\<lparr>s_header := h\<rparr> \<and> h_kdf h = kdf) \<and> (r = Inr False \<longrightarrow> h = s_header s)"
proof (cases "\<not> uses_legacy_interactive_policy (h_kdf (s_header s))")
  case True
  then show ?thesis using assms by (intro exI [of _ "s_header s"]) (auto simp: migrate_legacy_password_kdf_def)
next
  case legacy: False
  have keep: ?thesis if "files w' = files w" "s' = s" "\<exists>e. r = Inl e"
    using that assms(2,5) by (intro exI [of _ "s_header s"]) (auto simp: ready_def)
  obtain m w1 where m: "migrated_header c s password kdf w = (m, w1)" by (cases "migrated_header c s password kdf w")
  have f1: "files w1 = files w"
    using m seal_files
    by (auto simp: migrated_header_def bind_def lift_def read_clock_def yield_def split: sum.splits prod.splits)
  show ?thesis
  proof (cases m)
    case (Inl e)
    with assms(6) legacy m have "r = Inl e" "s' = s" "w' = w1" by (simp_all add: migrate_legacy_password_kdf_def)
    with keep f1 show ?thesis by blast
  next
    case h: (Inr h)
    note new = migrated_Inr [OF assms(1-4) m [unfolded h]]
    obtain x w2 where wr: "write_header c manifest h w1 = (x, w2)" by (cases "write_header c manifest h w1")
    have f2: "files w2 = hm_put manifest (header_pretty c h) (files w) \<or> files w2 = files w \<and> (\<exists>e. x = Inl e)"
      using wr f1 by (auto simp: write_header_def atomic_write_bytes_def dest: next_faultD split: prod.splits fault.splits)
    obtain y w3 where rd: "read_header c manifest w2 = (y, w3)" by (cases "read_header c manifest w2")
    have f3: "files w3 = files w2"
      using rd by (auto simp: read_header_def read_file_def bind_def lift_def dest: next_faultD split: prod.splits sum.splits if_splits)
    have fw: "files w' = files w2"
      using assms(6) legacy m h wr rd f3 by (auto simp: migrate_legacy_password_kdf_def split: sum.splits if_splits)
    have there: "header_json c h' = header_json c h \<Longrightarrow> h' = h" for h'
      using assms(1) unfolding platform_ok_def by (metis option.inject)
    have ok: "r = Inr True \<and> s' = s\<lparr>s_header := h\<rparr> \<or> s' = s \<and> (\<exists>e. r = Inl e)"
      using assms(6) legacy m h wr rd by (auto simp: migrate_legacy_password_kdf_def split: sum.splits if_splits)
    have told: "h = s_header s" if n: "files w2 \<noteq> hm_put manifest (header_pretty c h) (files w)" and yes: "r = Inr True"
    proof -
      obtain e where e: "files w2 = files w" "x = Inl e" using f2 n by blast
      then obtain h' where h': "read_header c manifest w2 = (Inr h', w3)" "header_json c h' = header_json c h"
        using yes assms(6) legacy m h wr rd by (auto simp: migrate_legacy_password_kdf_def split: sum.splits if_splits)
      have "hm_get (files w2) manifest = Some (header_pretty c (s_header s))" using e ready_header(5) [OF assms(2)] by simp
      from read_header_Inr [OF h'(1) this assms(1)] there [OF h'(2)] show ?thesis by simp
    qed
    show ?thesis
    proof (cases "files w2 = hm_put manifest (header_pretty c h) (files w)")
      case True
      with new fw ok show ?thesis by (intro exI [of _ h]) auto
    next
      case False
      with f2 fw have "files w' = files w" by simp
      then have "ready c s w'" using assms(2) by (simp add: ready_def)
      with told [OF False] ok new assms(5) show ?thesis by (intro exI [of _ "s_header s"]) auto
    qed
  qed
qed

end
