(* ===== verification/Calm.thy ===== *)
theory Calm
  imports Access
begin

text \<open>On a working disk, with a cipher that accepts every message, records and audit events are written.\<close>

lemma quiet_lamports [quiet_act]: "quiet (read_lamport c p)" "quiet (read_lamports c ps)"
proof -
  show one: "quiet (read_lamport c p)" for p unfolding read_lamport_def by (intro quiet_act)
  show "quiet (read_lamports c ps)" by (induction ps) (auto intro!: quiet_act one)
qed

lemma quiet_build [quiet_act]: "quiet (build_envelope c s p ident type schema m)"
  unfolding build_envelope_def by (intro quiet_act)

lemma build_succeeds:
  assumes "sealing_total c" "faults w = []"
  shows "\<exists>e w'. build_envelope c s p ident type schema m w = (Inr e, w')"
proof -
  have one: "\<exists>l v'. read_lamport c q v = (Inr l, v')" for q v
    by (auto simp: read_lamport_def read_ok_def bind_def yield_def split: prod.splits sum.splits)
  have many: "\<exists>ls v'. read_lamports c qs v = (Inr ls, v')" for qs v
  proof (induction qs arbitrary: v)
    case (Cons q qs)
    obtain l v1 where "read_lamport c q v = (Inr l, v1)" using one by blast
    moreover obtain ls v2 where "read_lamports c qs v1 = (Inr ls, v2)" using Cons.IH by blast
    ultimately show ?case by (simp add: bind_def yield_def)
  qed (simp add: yield_def)
  let ?w1 = "w\<lparr>draws := Suc (draws w)\<rparr>"
  obtain l w2 where l: "read_lamport c p ?w1 = (Inr l, w2)" using one by blast
  have f2: "faults w2 = []"
    using quietD [of "read_lamport c p" ?w1 "Inr l" w2] quiet_lamports(1) l assms(2) by simp
  obtain ls w3 where ls: "read_lamports c (encrypted_names ''objects'' ''aipobj'' w2) w2 = (Inr ls, w3)" using many by blast
  show ?thesis
    using encrypt_envelope_succeeds [OF assms(1)] l f2 ls
    by (simp add: build_envelope_def bind_def read_clock_def)
qed

lemma write_succeeds:
  assumes "sealing_total c" "faults w = []"
  shows "\<exists>w'. write_envelope c s p ident type schema m w = (Inr (), w') \<and> faults w' = []"
proof -
  obtain e w1 where b: "build_envelope c s p ident type schema m w = (Inr e, w1)" using build_succeeds [OF assms] by blast
  from quietD [OF quiet_build b assms(2)] b show ?thesis
    by (simp add: write_envelope_def bind_def write_envelope_json_def)
qed

lemma quiet_maintain: "quiet (maintain parse stat now)"
proof -
  have "quiet (prune cutoff used es)" for cutoff used es
    by (induction cutoff used es rule: prune.induct) (auto intro!: quiet_act)
  then show ?thesis unfolding maintain_def Let_def by (auto intro!: quiet_act)
qed

lemma audit_succeeds:
  assumes "sealing_total c" "faults w = []" "quiet upkeep"
  shows "\<exists>w'. audit c lowercase upkeep s action record detail w = (Inr (), w') \<and> faults w' = []"
proof -
  let ?w = "w\<lparr>draws := Suc (Suc (draws w))\<rparr>" and ?u = "random_uuid c (draws w)"
  let ?e = "event_json c \<lparr>event_id = ?u, event_at = now_utc c (Suc (draws w)), event_action = action, event_record = record,
        event_detail = map_option (redact_detail lowercase) detail\<rparr>"
  have "faults ?w = []" using assms(2) by simp
  from write_succeeds [OF assms(1) this, of s "audit_path c ?u" ?u "''audit_event''" 1 ?e]
  obtain w1 where w1: "write_envelope c s (audit_path c ?u) ?u ''audit_event'' 1 ?e ?w = (Inr (), w1)" "faults w1 = []" by blast
  then have "faults (snd (upkeep w1)) = []" using assms(3) by (simp add: quiet_def)
  with w1(1) show ?thesis by (simp add: audit_def bind_def new_uuid_def read_clock_def ignoring_def)
qed

end
