(* ===== verification/RotationDemo.thy ===== *)
theory RotationDemo
  imports VaultDemo Calm
begin

text \<open>Operations on the concrete vault that rewrite it: what they need to succeed, and the theorems about them there.\<close>

section \<open>A rotation that succeeds\<close>

text \<open>A header a rotation can be asked for: that of the session but for its ways in.\<close>

definition same_lock :: "vault_header \<Rightarrow> vault_header \<Rightarrow> bool" where
  "same_lock h h' \<longleftrightarrow> h_vault_id h' = h_vault_id h \<and> validate_header h' = Inr () \<and>
    validate_import_kdf (h_kdf h') = Inr () \<and> wrapped_index_key h' = wrapped_index_key h"

lemma ready_same_lock: "ready c s w \<Longrightarrow> same_lock (s_header s) (s_header s)"
  using ready_header(1,2) by (simp add: same_lock_def)

lemma rotate_files_succeed:
  assumes "sealing_total c"
    and "\<And>f. f \<in> set fs \<Longrightarrow> \<exists>b. b64_decode (prims c) (bytes_b64 f) = Some b \<and>
      sound_file c vid (epoch_key s) (relative_path f) b"
  shows "\<exists>gs w'. rotate_files c s at ne None fs w = (Inr gs, w')"
  using assms(2)
proof (induction fs arbitrary: w)
  case (Cons f fs)
  obtain b e where b: "b64_decode (prims c) (bytes_b64 f) = Some b" "envelope_parse c b = Some e"
    and o: "tombstone e \<or> (\<exists>m. decrypt_envelope_with_epoch c e (epoch_key s) = Inr m)"
    using Cons.prems [of f] by (auto simp: sound_file_def)
  have "\<exists>g v. rotate_file c s at ne None f w = (Inr g, v)"
  proof (cases "tombstone e")
    case True
    with b show ?thesis by (simp add: rotate_file_def bind_def lift_def yield_def)
  next
    case False
    with o obtain m where m: "decrypt_envelope_with_epoch c e (epoch_key s) = Inr m" by blast
    let ?e = "e\<lparr>o_device_id := s_device s, o_updated_at := at, lamport := sat_add (lamport e) 1\<rparr>"
    obtain e' v where "encrypt_envelope c ?e m ne w = (Inr e', v)" using encrypt_envelope_succeeds [OF assms(1)] by blast
    with b m False show ?thesis
      by (simp add: rotate_file_def bind_def lift_def yield_def rotate_plaintext_def is_some_and_def)
  qed
  then obtain g v where g: "rotate_file c s at ne None f w = (Inr g, v)" by blast
  moreover obtain gs w' where "rotate_files c s at ne None fs v = (Inr gs, w')" using Cons by fastforce
  ultimately show ?case by (simp add: bind_def yield_def)
qed (simp add: yield_def)

definition hkdf_total :: "platform \<Rightarrow> bool" where
  "hkdf_total c \<longleftrightarrow> (\<forall>salt k info n. \<exists>x. hkdf_sha256 (prims c) salt k info n = Some x \<and> length x = n)"

lemma draw_next_epoch_succeeds:
  assumes "hkdf_total c"
  shows "\<exists>ne n. draw_next_epoch c s w = (Inr ne, w\<lparr>draws := n\<rparr>) \<and> length (epoch_bytes ne) = KEY_LEN"
proof -
  obtain x where "hkdf_sha256 (prims c) (Some (random_bytes c (draws w) KEY_LEN)) (epoch_bytes (epoch_key s))
      ''aipass vault epoch advance'' KEY_LEN = Some x" "length x = KEY_LEN"
    using assms unfolding hkdf_total_def by blast
  then show ?thesis
    by (auto simp: draw_next_epoch_def bind_def random_draw_def new_uuid_def read_clock_def lift_def advance_epoch_def
        crypto_def intro!: exI [of _ "Suc (Suc (Suc (draws w)))"])
qed

lemma sound_sync_files:
  assumes "sync_files c inc w = (Inr fs, w1)" "platform_ok c" "ready c s w" "f \<in> set fs"
  shows "\<exists>b. b64_decode (prims c) (bytes_b64 f) = Some b \<and>
    sound_file c (h_vault_id (s_header s)) (epoch_key s) (relative_path f) b \<and> sync_path_allowed (relative_path f) \<and>
    hm_get (files w) (relative_path f) = Some b"
proof -
  note l = sync_files_Inr [OF assms(1) ready_header(4) [OF assms(3)] assms(2)]
  have "relative_path f \<in> relative_path ` set fs" using assms(4) by simp
  with l obtain b where "hm_get (files w) (relative_path f) = Some b" "sync_path_allowed (relative_path f)" by auto
  with l assms(3,4) show ?thesis by (auto simp: ready_def)
qed

lemma event_succeeds:
  assumes "platform_ok c" "sealing_total c" "faults w = []"
  shows "\<exists>ev w' b. rotation_event c s ident at reason w = (Inr ev, w') \<and> relative_path ev = audit_path c ident \<and>
    b64_decode (prims c) (bytes_b64 ev) = Some b \<and>
    sound_file c (h_vault_id (s_header s)) (epoch_key s) (audit_path c ident) b"
proof -
  have x: "audit_path c ident = [''audit'', uuid_text c ident @ CHR ''.'' # ''aipaudit'']" by (simp add: audit_path_def)
  let ?m = "event_json c \<lparr>event_id = ident, event_at = at, event_action = reason, event_record = None,
        event_detail = Some ''epoch advanced''\<rparr>"
  obtain e w' where e: "build_envelope c s (audit_path c ident) ident ''audit_event'' 1 ?m w = (Inr e, w')"
    using build_succeeds [OF assms(2,3)] by blast
  have "sound_file c (h_vault_id (s_header s)) (epoch_key s) (audit_path c ident) (envelope_json c e)"
    using build_envelope_Inr [OF assms(1) e] record_name(3) [OF assms(1), of "''audit''" "''aipaudit''" ident] assms(1)
    by (auto simp: sound_file_def platform_ok_def x record_dirs_def)
  then show ?thesis using assms(1) e
    by (auto simp: rotation_event_def bind_def yield_def platform_ok_def primitives_ok_def)
qed

lemma quiet_rotate_files: "quiet (rotate_files c s at ne rv fs)"
proof -
  have "quiet (rotate_file c s at ne rv f)" for f
    unfolding rotate_file_def by (intro quiet_act) (auto intro!: quiet_act)
  then show ?thesis by (induction fs) (auto intro!: quiet_act)
qed

lemma quiet_prepare: "quiet (prepare_epoch_rotation c s h reason rv)"
proof -
  have "quiet (rotation_event c s ident at reason)" for ident at
    unfolding rotation_event_def by (intro quiet_act)
  moreover have "quiet (sync_files c True)" unfolding sync_files_def by (intro quiet_act)
  moreover have "quiet (draw_next_epoch c s)" unfolding draw_next_epoch_def by (intro quiet_act)
  moreover have "quiet ensure_sync_ready" by (simp add: quiet_def ensure_sync_ready_def)
  moreover have "quiet (encode_snapshot c s h fs [] 1)" for h fs unfolding encode_snapshot_def by (intro quiet_act)
  ultimately show ?thesis
    unfolding prepare_epoch_rotation_def by (intro quiet_act quiet_rotate_files)
qed

lemma prepare_succeeds:
  assumes c: "platform_ok c" "sealing_total c" "hkdf_total c" "ready c s w" and w: "faults w = []" "\<not> path_exists PENDING w"
    and fresh: "\<And>u. hm_get (files w) (audit_path c u) = None" and h: "same_lock (s_header s) h"
  shows "\<exists>b w' snap fs. prepare_epoch_rotation c s h reason None w = (Inr b, w') \<and>
    decode_snapshot c s b = Inr (snap, fs) \<and> faults w' = []"
proof -
  let ?vid = "h_vault_id (s_header s)"
  obtain ne n where ne: "draw_next_epoch c s w = (Inr ne, w\<lparr>draws := n\<rparr>)" "length (epoch_bytes ne) = KEY_LEN"
    using draw_next_epoch_succeeds [OF c(3)] by blast
  let ?w1 = "w\<lparr>draws := n\<rparr>"
  have r1: "ready c s ?w1" "faults ?w1 = []" using c(4) w(1) by (simp_all add: ready_def)
  obtain fs where fs: "sync_files c True ?w1 = (Inr fs, ?w1)" using sync_files_calm [OF r1(2)] by blast
  define ident at w3 where d: "ident = random_uuid c n" "at = now_utc c (Suc n)" "w3 = w\<lparr>draws := Suc (Suc n)\<rparr>"
  obtain ev w4 x where ev: "rotation_event c s ident at reason w3 = (Inr ev, w4)" "relative_path ev = audit_path c ident"
      "b64_decode (prims c) (bytes_b64 ev) = Some x" "sound_file c ?vid (epoch_key s) (audit_path c ident) x"
    using event_succeeds [OF c(1,2), where w = w3 and s = s and ident = ident and at = at and reason = reason] w(1) d(3) by auto
  have evp: "sync_path_allowed (audit_path c ident)" "portable (audit_path c ident)"
    using record_name [OF c(1), of "''audit''" "''aipaudit''" ident] by (simp_all add: audit_path_def record_dirs_def)
  have each: "\<exists>b. b64_decode (prims c) (bytes_b64 f) = Some b \<and> sound_file c ?vid (epoch_key s) (relative_path f) b \<and>
      sync_path_allowed (relative_path f) \<and> portable (relative_path f)" if "f \<in> set (fs @ [ev])" for f
    using that sound_sync_files [OF fs c(1) r1(1)] sync_files_portable [OF fs c(1) r1(1)] ev evp
    by (auto simp: list_all_iff)
  obtain gs w5 where gs: "rotate_files c s at ne None (fs @ [ev]) w4 = (Inr gs, w5)"
    using rotate_files_succeed [OF c(2), where fs = "fs @ [ev]" and s = s and vid = ?vid] each by blast
  obtain wk w6 where wk: "seal_bytes c (root_key s) (header_key_aad c ?vid ''epoch'') (epoch_bytes ne) w5 = (Inr wk, w6)"
    using seal_succeeds [OF c(2)] by blast
  have num: "epoch_number (epoch_of ne) \<noteq> epoch_number (epoch_of (epoch_key s))" using draw_next_epoch_Inr [OF ne(1)] by simp
  note all2 = rotate_files_Inr [OF c(1) gs num]
  let ?h = "h\<lparr>wrapped_epoch_key := wk, current_epoch := epoch_of ne, h_updated_at := at\<rparr>"
  have gx: "\<exists>b. b64_decode (prims c) (bytes_b64 g) = Some b \<and> sound_file c ?vid ne (relative_path g) b \<and>
      sync_path_allowed (relative_path g) \<and> portable (relative_path g)" if "g \<in> set gs" for g
    using all2_mem(2) [OF all2 that] each resealed_sound by fastforce
  have paths: "map relative_path gs = map relative_path (fs @ [ev])"
    using all2 by (induction rule: list_all2_induct) auto
  have "relative_path ev \<notin> relative_path ` set fs"
    using sound_sync_files [OF fs c(1) r1(1)] ev(2) fresh [of ident] by fastforce
  then have dist: "distinct (map relative_path gs)"
    using sync_files_Inr [OF fs ready_header(4) [OF r1(1)] c(1)] by (simp add: paths)
  have port: "list_all (\<lambda>f. portable (relative_path f)) gs" using gx by (auto simp: list_all_iff)
  obtain b w7 where b: "encode_snapshot c s ?h gs [] 1 w6 = (Inr b, w7)" using encode_succeeds [OF c(1,2) port] by blast
  note hdr = ready_header [OF c(4)]
  have u: "unwrap_epoch_and_index_keys c (root_key s) ?h UnlockFailed = Inr (ne, index_key s)"
    using hdr(3) seal_opens [OF c(1) wk] ne(2) h
    by (auto simp: same_lock_def unwrap_epoch_and_index_keys_def and_then_Inr replace_error_def split: if_splits sum.splits)
  have v: "validate_header ?h = Inr ()" "validate_import_kdf (h_kdf ?h) = Inr ()" "h_vault_id ?h = ?vid"
    using h by (simp_all add: same_lock_def validate_header_def)
  obtain snap where snap: "snap_version snap = 1" "snap_header snap = ?h"
      "decode_snapshot c s b = and_then (check_files c snap ne {} gs) (\<lambda>_. Inr (snap, gs))"
    using decode_encoded [OF c(1) port b _ _ _ _ _ u] v by auto
  have "check_files c snap ne {} gs = Inr ()"
    using dist gx snap v(3) by (auto simp: check_files_iff check_file_iff)
  moreover have "prepare_epoch_rotation c s h reason None w = (Inr b, w7)"
    using w ne(1) h fs ev(1) gs wk b
    by (simp add: prepare_epoch_rotation_def bind_def ensure_sync_ready_def new_uuid_def read_clock_def d same_lock_def)
  moreover from quietD [OF quiet_prepare this w(1)] have "faults w7 = []" .
  ultimately show ?thesis using snap by auto
qed

lemma commit_succeeds:
  assumes c: "platform_ok c" "sealing_total c" "hkdf_total c" "ready c s w" and w: "faults w = []" "\<not> path_exists PENDING w"
    and fresh: "\<And>p. in_audit p \<Longrightarrow> hm_get (files w) p = None" and h: "same_lock (s_header s) h"
  shows "\<exists>s' w'. commit_epoch_rotation c s h reason None w = (Inr (), s', w')"
proof -
  have "in_audit (audit_path c u)" for u by (simp add: in_audit_def audit_path_def)
  then obtain b w1 snap fs where p: "prepare_epoch_rotation c s h reason None w = (Inr b, w1)"
    and d: "decode_snapshot c s b = Inr (snap, fs)" and f: "faults w1 = []"
    using prepare_succeeds [OF c w _ h, of reason] fresh by blast
  have o: "same_outside {} w w1" by (rule touchesD [OF touches_prepare p])
  have "ready c s w1" "\<not> path_exists PENDING w1" "\<And>q. in_audit q \<Longrightarrow> hm_get (files w1) q = None"
    using c(4) w(2) fresh same_outsideD [OF o] by (simp_all add: ready_def path_exists_def)
  with apply_succeeds [OF c(1,2) _ f _ d] p show ?thesis by (fastforce simp: commit_epoch_rotation_def)
qed

lemma demo_hkdf: "hkdf_total demo"
  by (simp add: hkdf_total_def demo_def demo_primitives_def)

lemma empty_calm: "faults (empty_vault e) = []"
  by (simp add: empty_vault_def)

lemma demo_record: "\<exists>b. hm_get (files (demo_world e)) (record_path demo 9) = Some b"
proof -
  obtain env w1 where b: "build_envelope demo (demo_session e) (record_path demo 9) 9 ''provider_entry'' 1 ''secret'' (empty_vault e)
      = (Inr env, w1)"
    using build_succeeds [OF demo_ok(2), of "empty_vault e"] by (metis empty_calm)
  from quietD [OF quiet_build b] have "faults w1 = []" by (simp add: empty_vault_def)
  with b show ?thesis by (simp add: demo_world_def write_envelope_def bind_def write_envelope_json_def)
qed

theorem rotation_moves_every_record_witness:
  "\<exists>s' w'. commit_epoch_rotation demo (demo_session 0) (demo_header 0) ''epoch.advance'' None (demo_world 0) = (Inr (), s', w') \<and>
    epoch_number (epoch_of (epoch_key s')) = 1 \<and> ready demo s' w' \<and>
    (\<exists>b b' at. hm_get (files (demo_world 0)) (record_path demo 9) = Some b \<and> hm_get (files w') (record_path demo 9) = Some b' \<and>
      resealed demo (demo_key 0) (epoch_key s') at None (record_path demo 9) b b')"
proof -
  have h: "s_header (demo_session 0) = demo_header 0" "epoch_key (demo_session 0) = demo_key 0" by (simp_all add: demo_session_def)
  obtain s' w' where k: "commit_epoch_rotation demo (demo_session 0) (demo_header 0) ''epoch.advance'' None (demo_world 0)
      = (Inr (), s', w')"
    using commit_succeeds [OF demo_ok demo_hkdf demo_ready demo_calm demo_no_journal demo_no_audit ready_same_lock [OF demo_ready]] h(1) by metis
  have number: "epoch_number (epoch_of (demo_key 0)) = 0" by (simp add: demo_key_def)
  have a: "sync_path_allowed (record_path demo 9)"
    using record_name(1) [OF demo_ok(1), of "''objects''" "''aipobj''"] by (simp add: record_path_shape record_dirs_def)
  obtain b where b: "hm_get (files (demo_world 0)) (record_path demo 9) = Some b"
    using demo_record by blast
  from rotation_moves_every_record [OF demo_ok(1) demo_ready k] k a b h(2) number
  show ?thesis unfolding h(2) by (metis add_0)
qed

end
