(* ===== verification/AccessDemo.thy ===== *)
theory AccessDemo
  imports RotationDemo
begin

text \<open>The ways into the concrete vault: a new vault, a new password, a recovery and a remote access code succeed there.\<close>

section \<open>What these operations need to succeed\<close>

lemma demo_derive: "derive_master_key (prims demo) password (h_kdf (demo_header e)) = Inr (replicate 32 CHR ''a'')"
  by (simp add: derive_master_key_def kdf_salt_def demo_header_def demo_def demo_primitives_def)

lemma recovery_derives:
  assumes "hkdf_total c" "length secret = RECOVERY_SECRET_LEN"
  shows "\<exists>k. derive_recovery_key (prims c) (generate_recovery_secret secret) = Inr k"
proof -
  have "secret \<noteq> []" using assms(2) by (auto simp: RECOVERY_SECRET_LEN_def)
  with normalize_generated [of secret "[]" "[]"]
  have "normalize_recovery_secret (generate_recovery_secret secret) = hex_encode_upper secret" by simp
  moreover obtain k where "hkdf_sha256 (prims c) None secret ''aipass recovery root key wrap v1'' KEY_LEN = Some k"
    using assms(1) unfolding hkdf_total_def by blast
  ultimately show ?thesis by (simp add: derive_recovery_key_def hex_decode_def hex_pairs_encode assms(2))
qed

lemma demo_recovery:
  assumes "length secret = RECOVERY_SECRET_LEN"
  shows "derive_recovery_key (prims demo) (generate_recovery_secret secret) = Inr (replicate 32 CHR ''k'')"
proof -
  obtain k where k: "derive_recovery_key (prims demo) (generate_recovery_secret secret) = Inr k"
    using recovery_derives [OF demo_hkdf assms] by blast
  then show ?thesis
    by (simp add: derive_recovery_key_def and_then_Inr demo_def demo_primitives_def KEY_LEN_def split: if_splits) blast
qed

lemma demo_ways_in:
  "unlocks_with demo (demo_session e) password"
  "length secret = RECOVERY_SECRET_LEN \<Longrightarrow> recovers_with demo (demo_session e) (generate_recovery_secret secret)"
  "length (root_key (demo_session e)) = KEY_LEN"
proof -
  have s: "s_header (demo_session e) = demo_header e" "root_key (demo_session e) = demo_root"
    "h_vault_id (demo_header e) = 7" "length demo_root = KEY_LEN"
    "wrapped_root_key (demo_header e) = demo_cipher (replicate 32 CHR ''a'') (root_key_aad demo 7) demo_root"
    "recovery_wrapped_root_key (demo_header e) = demo_cipher (replicate 32 CHR ''k'') (root_key_aad demo 7) demo_root"
    by (simp_all add: demo_session_def demo_header_def demo_root_def KEY_LEN_def)
  show "unlocks_with demo (demo_session e) password"
    by (simp add: unlocks_with_def demo_derive s decrypt_root_key_def replace_error_def)
  show "recovers_with demo (demo_session e) (generate_recovery_secret secret)" if "length secret = RECOVERY_SECRET_LEN"
    by (simp add: recovers_with_def demo_recovery [OF that] s decrypt_root_key_def replace_error_def)
  show "length (root_key (demo_session e)) = KEY_LEN" by (simp add: s)
qed

lemma password_rewrap_succeeds:
  assumes "sealing_total c" "derive_master_key (prims c) password kdf = Inr pk"
  shows "\<exists>h' w'. rewrap_root_key_for_new_password c s h password kdf w = (Inr h', w') \<and> files w' = files w \<and> faults w' = faults w"
proof -
  obtain x w' where x: "seal_bytes c pk (root_key_aad c (h_vault_id (s_header s))) (root_key s) w = (Inr x, w')"
    using seal_succeeds [OF assms(1)] by blast
  with seal_files [OF x] assms(2) show ?thesis
    by (auto simp: rewrap_root_key_for_new_password_def bind_def lift_def crypto_def yield_def)
qed

lemma rewrap_recovery_succeeds:
  assumes "platform_ok c" "sealing_total c" "hkdf_total c" "derive_master_key (prims c) password kdf = Inr pk"
  shows "\<exists>h' kit w'. rewrap_root_key_for_new_password_and_recovery c s h password kdf w = (Inr (h', kit), w') \<and>
    files w' = files w \<and> faults w' = faults w"
proof -
  obtain h1 w1 where r: "rewrap_root_key_for_new_password c s h password kdf w = (Inr h1, w1)" "files w1 = files w"
      "faults w1 = faults w" using password_rewrap_succeeds [OF assms(2,4)] by blast
  let ?secret = "random_bytes c (draws w1) RECOVERY_SECRET_LEN"
  have "length ?secret = RECOVERY_SECRET_LEN" using assms(1) by (simp add: platform_ok_def)
  then obtain k where k: "derive_recovery_key (prims c) (generate_recovery_secret ?secret) = Inr k"
    using recovery_derives [OF assms(3)] by blast
  obtain x w' where x: "seal_bytes c k (root_key_aad c (h_vault_id (s_header s))) (root_key s) (w1\<lparr>draws := Suc (draws w1)\<rparr>)
      = (Inr x, w')"
    using seal_succeeds [OF assms(2)] by blast
  from seal_files [OF x] r k x show ?thesis
    by (auto simp: rewrap_root_key_for_new_password_and_recovery_def bind_def random_draw_def lift_def crypto_def yield_def)
qed

lemma rewrap_same_lock:
  assumes "rewrap_root_key_for_new_password c s h password kdf w = (Inr h', w')" "same_lock h0 h" "validate_import_kdf kdf = Inr ()"
  shows "same_lock h0 h'"
  using assms by (auto simp: rewrap_root_key_for_new_password_def bind_Inr same_lock_def validate_header_def split: if_splits)

lemma rewrap_recovery_same_lock:
  assumes "rewrap_root_key_for_new_password_and_recovery c s h password kdf w = (Inr (h', kit), w')" "same_lock h0 h"
    "validate_import_kdf kdf = Inr ()"
  shows "same_lock h0 h'"
proof -
  obtain h1 w1 wk where r: "rewrap_root_key_for_new_password c s h password kdf w = (Inr h1, w1)"
    and h': "h' = h1\<lparr>recovery_wrapped_root_key := wk\<rparr>"
    using assms(1) by (auto simp: rewrap_root_key_for_new_password_and_recovery_def bind_Inr)
  from rewrap_same_lock [OF r assms(2,3)] show ?thesis by (simp add: h' same_lock_def validate_header_def)
qed

theorem changed_password_opens_witness:
  "\<exists>s' w'. change_master_password demo (demo_session 0) ''new'' (h_kdf (demo_header 0)) (demo_world 0) = (Inr (), s', w') \<and>
    ready demo s' w' \<and> unlocks_with demo s' ''new''"
proof -
  let ?s = "demo_session 0" and ?kdf = "h_kdf (demo_header 0)"
  obtain h w1 where r: "rewrap_root_key_for_new_password demo ?s (s_header ?s) ''new'' ?kdf (demo_world 0) = (Inr h, w1)"
      "files w1 = files (demo_world 0)" "faults w1 = faults (demo_world 0)"
    using password_rewrap_succeeds [OF demo_ok(2) demo_derive] by blast
  have rdy: "ready demo ?s w1" "faults w1 = []" "\<not> path_exists PENDING w1"
      "\<And>p. in_audit p \<Longrightarrow> hm_get (files w1) p = None"
    using demo_ready [of 0] demo_calm demo_no_journal demo_no_audit r(2,3) by (simp_all add: ready_def path_exists_def)
  obtain s' w' where "commit_epoch_rotation demo ?s h ''vault.password_changed'' None w1 = (Inr (), s', w')"
    using commit_succeeds [OF demo_ok demo_hkdf rdy rewrap_same_lock [OF r(1) ready_same_lock [OF demo_ready] demo_header_valid(2)]]
    by blast
  with r(1) have k: "change_master_password demo ?s ''new'' ?kdf (demo_world 0) = (Inr (), s', w')"
    by (simp add: change_master_password_def)
  from changed_password_opens [OF demo_ok(1) demo_ready demo_ways_in(3) k] k show ?thesis by blast
qed

section \<open>Recovery\<close>

text \<open>Retention on a vault without audit files leaves it without any, and without a journal.\<close>

lemma prunes_none:
  assumes "prunes w w'" "\<And>p. in_audit p \<Longrightarrow> hm_get (files w) p = None" "\<not> path_exists PENDING w"
  shows "in_audit p \<Longrightarrow> hm_get (files w') p = None" "\<not> path_exists PENDING w'"
proof -
  have "\<not> in_audit retention_marker" "PENDING \<noteq> retention_marker"
    by (simp_all add: in_audit_def retention_marker_def PENDING_def)
  then show "in_audit p \<Longrightarrow> hm_get (files w') p = None" "\<not> path_exists PENDING w'"
    using assms unfolding prunes_def path_exists_def by metis+
qed

lemma recover_succeeds:
  assumes c: "platform_ok c" "sealing_total c" "hkdf_total c" "ready c s w"
    and w: "faults w = []" "\<not> path_exists PENDING w" "\<And>p. in_audit p \<Longrightarrow> hm_get (files w) p = None"
    and code: "recovers_with c s code" and kdf: "derive_master_key (prims c) password kdf = Inr pk" "validate_import_kdf kdf = Inr ()"
  shows "\<exists>s' kit w'. recover_master_password c (maintain parse stat now) code password kdf w = (Inr (s', kit), w')"
proof -
  let ?up = "maintain parse stat now"
  obtain ck where ck: "derive_recovery_key (prims c) code = Inr ck"
      "decrypt_root_key c ck (recovery_wrapped_root_key (s_header s)) (h_vault_id (s_header s)) RecoveryFailed = Inr (root_key s)"
    using code by (auto simp: recovers_with_def)
  note hdr = ready_header [OF c(4)]
  have "header_parse c (header_pretty c (s_header s)) = Some (s_header s)" using c(1) by (simp add: platform_ok_def)
  then have r: "read_header c manifest w = (Inr (s_header s), w)"
    using hdr(5) w(1) by (simp add: read_header_def bind_def lift_def)
  have m: "path_exists manifest w" using hdr(5) by (simp add: path_exists_def)
  obtain d w1 where o: "open_with_root_key c ?up (s_header s) (root_key s) RecoveryFailed w = (Inr (s\<lparr>s_device := d\<rparr>), snd (?up w1))"
      "files w1 = files w" "faults w1 = faults w"
    using open_root_key [OF c(1,4) w(2), of ?up RecoveryFailed] by blast
  let ?s = "s\<lparr>s_device := d\<rparr>" and ?w2 = "snd (?up w1)"
  have p: "prunes w1 ?w2" using maintain_prunes by (simp add: prunes_only_def)
  have w1: "\<And>p. in_audit p \<Longrightarrow> hm_get (files w1) p = None" "\<not> path_exists PENDING w1" "ready c s w1" "faults w1 = []"
    using w c(4) o(2,3) by (simp_all add: path_exists_def ready_def)
  have f2: "faults ?w2 = []" using quiet_maintain w1(4) by (simp add: quiet_def)
  have rdy2: "ready c ?s ?w2" using prunes_ready [OF p w1(3)] by (simp add: ready_def)
  obtain h' kit w3 where rw: "rewrap_root_key_for_new_password_and_recovery c ?s (s_header ?s) password kdf ?w2
      = (Inr (h', kit), w3)" "files w3 = files ?w2" "faults w3 = faults ?w2"
    using rewrap_recovery_succeeds [OF c(1-3) kdf(1)] by blast
  have w3: "ready c ?s w3" "faults w3 = []" "\<not> path_exists PENDING w3" "\<And>p. in_audit p \<Longrightarrow> hm_get (files w3) p = None"
    using rdy2 f2 rw(2,3) prunes_none [OF p w1(1,2)] by (simp_all add: ready_def path_exists_def)
  obtain s' w' where "commit_epoch_rotation c ?s h' ''vault.recovered'' None w3 = (Inr (), s', w')"
    using commit_succeeds [OF c(1-3) w3 rewrap_recovery_same_lock [OF rw(1) ready_same_lock [OF rdy2] kdf(2)]] by blast
  then show ?thesis
    using m r hdr(1) ck o(1) rw(1) w(1)
    by (simp add: recover_master_password_def bind_def lift_def require_manifest_def create_dirs_def replace_error_def)
qed

theorem recovered_vault_opens_witness:
  "\<exists>code s' kit w'. recover_master_password demo (maintain (\<lambda>_. None) (\<lambda>_. (0, 0)) 0) code ''new'' (h_kdf (demo_header 0))
      (demo_world 0) = (Inr (s', kit), w') \<and> ready demo s' w' \<and> unlocks_with demo s' ''new'' \<and> recovers_with demo s' kit"
proof -
  have "length (replicate 32 CHR ''z'') = RECOVERY_SECRET_LEN" by (simp add: RECOVERY_SECRET_LEN_def)
  then have code: "recovers_with demo (demo_session 0) (generate_recovery_secret (replicate 32 CHR ''z''))"
    by (rule demo_ways_in)
  obtain s' kit w' where k: "recover_master_password demo (maintain (\<lambda>_. None) (\<lambda>_. (0, 0)) 0)
      (generate_recovery_secret (replicate 32 CHR ''z'')) ''new'' (h_kdf (demo_header 0)) (demo_world 0) = (Inr (s', kit), w')"
    using recover_succeeds [OF demo_ok demo_hkdf demo_ready demo_calm demo_no_journal demo_no_audit code demo_derive demo_header_valid(2)]
    by blast
  from recovered_vault_opens [OF demo_ok(1) demo_ready demo_no_journal code k] k show ?thesis by blast
qed

section \<open>A remote access code\<close>

theorem remote_unlock_follows_the_password_witness:
  "\<exists>ru w' d w''. seal_remote_unlock demo (\<lambda>_ _ x. ciphertext_b64 x) (\<lambda>_ _ r _. r) Some (\<lambda>_. []) (demo_session 0)
      (replicate 32 CHR ''c'') (demo_world 0) = (Inr ru, w') \<and>
    open_with_remote_unlock demo (maintain (\<lambda>_. None) (\<lambda>_. (0, 0)) 0) (\<lambda>_ _ x. ciphertext_b64 x) (\<lambda>_ _ r _. r) Some (\<lambda>_. [])
      (replicate 32 CHR ''c'') ru w' = (Inr ((demo_session 0)\<lparr>s_device := d\<rparr>), w'')"
proof -
  let ?c = "replicate 32 CHR ''c''" and ?u = "random_uuid demo (draws (demo_world 0))"
    and ?r = "ciphertext_b64 (wrapped_root_key (s_header (demo_session 0)))"
  have key: "derive_remote_unlock_key (prims demo) Some ?c (x :: bytes) = Inr (replicate 32 CHR ''k'')" for x
    by (simp add: derive_remote_unlock_key_def KEY_LEN_def demo_def demo_primitives_def)
  obtain wk w' where wk: "seal_bytes demo (replicate 32 CHR ''k'') ?r (root_key (demo_session 0))
      ((demo_world 0)\<lparr>draws := Suc (draws (demo_world 0))\<rparr>) = (Inr wk, w')"
    using seal_succeeds [OF demo_ok(2)] by blast
  then obtain ru where ru: "seal_remote_unlock demo (\<lambda>_ _ x. ciphertext_b64 x) (\<lambda>_ _ r _. r) Some (\<lambda>_. []) (demo_session 0)
      ?c (demo_world 0) = (Inr ru, w')"
    using demo_no_journal key
    by (simp add: seal_remote_unlock_def bind_def ensure_sync_ready_def new_uuid_def lift_def crypto_def yield_def Let_def)
  from seal_files [OF wk] have "faults w' = []" by (simp add: demo_calm)
  with remote_unlock_follows_the_password [OF demo_ok(1) demo_ready demo_ways_in(3) ru,
      of "maintain (\<lambda>_. None) (\<lambda>_. (0, 0)) 0"] ru show ?thesis by blast
qed

section \<open>A new vault\<close>

lemma seal_header_succeeds:
  assumes "sealing_total c"
  shows "\<exists>h w'. seal_header c vid now kdf pk ck rk ek ik w = (Inr h, w')"
proof -
  obtain a w1 where "seal_bytes c pk (root_key_aad c vid) rk w = (Inr a, w1)" using seal_succeeds [OF assms] by blast
  moreover obtain b w2 where "seal_bytes c ck (root_key_aad c vid) rk w1 = (Inr b, w2)" using seal_succeeds [OF assms] by blast
  moreover obtain d w3 where "seal_bytes c rk (header_key_aad c vid ''epoch'') (epoch_bytes ek) w2 = (Inr d, w3)"
    using seal_succeeds [OF assms] by blast
  moreover obtain e w4 where "seal_bytes c rk (header_key_aad c vid ''index'') ik w3 = (Inr e, w4)"
    using seal_succeeds [OF assms] by blast
  ultimately show ?thesis by (simp add: seal_header_def bind_def yield_def)
qed

lemma draw_session_succeeds:
  assumes "platform_ok c" "sealing_total c" "hkdf_total c" "derive_master_key (prims c) password kdf = Inr pk"
  shows "\<exists>h rk ek ik code w'. draw_session c password kdf w = (Inr ((h, rk, ek, ik), code), w')"
proof -
  let ?secret = "random_bytes c (Suc (draws w)) RECOVERY_SECRET_LEN"
  have "length ?secret = RECOVERY_SECRET_LEN" using assms(1) by (simp add: platform_ok_def)
  then obtain ck where ck: "derive_recovery_key (prims c) (generate_recovery_secret ?secret) = Inr ck"
    using recovery_derives [OF assms(3)] by blast
  have "\<exists>h v'. bind (seal_header c vid now kdf pk ck rk ek ik) (\<lambda>h. yield ((h, rk, ek, ik), code)) v
      = (Inr ((h, rk, ek, ik), code), v')" for vid now rk ek ik code v
  proof -
    obtain h v' where "seal_header c vid now kdf pk ck rk ek ik v = (Inr h, v')" using seal_header_succeeds [OF assms(2)] by blast
    then show ?thesis by (simp add: bind_def yield_def)
  qed
  then show ?thesis
    using assms(4) ck by (fastforce simp: draw_session_def new_epoch_key_def bind_draws crypto_def)
qed

lemma create_succeeds:
  assumes c: "platform_ok c" "sealing_total c" "hkdf_total c" "derive_master_key (prims c) password kdf = Inr pk"
    and w: "faults w = []" "\<not> path_exists manifest w"
  shows "\<exists>s code w'. create_vault c lowercase upkeep password name kdf w = (Inr (s, code), w')"
proof -
  obtain h rk ek ik code w1 where d: "draw_session c password kdf w = (Inr ((h, rk, ek, ik), code), w1)"
    using draw_session_succeeds [OF c] by blast
  have f1: "faults w1 = []" using draw_session_Inr [OF c(1) d] w(1) by simp
  then obtain w2 where m: "write_header c manifest h w1 = (Inr (), w2)" "faults w2 = []" by (simp add: write_header_def)
  have say: "\<exists>v'. announce c lowercase upkeep name s v = (Inr (), v')" if v: "faults v = []" for s v
  proof -
    let ?d = "\<lparr>device_id = s_device s, device_name = name, trusted = True, first_seen_at = h_created_at (s_header s),
      last_seen_at = h_created_at (s_header s), revoked_at = None, last_epoch = 0\<rparr>"
    obtain v1 where v1: "write_device c s ?d v = (Inr (), v1)" "faults v1 = []"
      unfolding write_device_def using write_succeeds [OF c(2) v] by blast
    let ?v2 = "v1\<lparr>draws := Suc (Suc (draws v1))\<rparr>" and ?u = "random_uuid c (draws v1)"
    let ?e = "event_json c \<lparr>event_id = ?u, event_at = now_utc c (Suc (draws v1)), event_action = ''vault.create'', event_record = None,
        event_detail = None\<rparr>"
    have "faults ?v2 = []" using v1(2) by simp
    from write_succeeds [OF c(2) this, of s "audit_path c ?u" ?u "''audit_event''" 1 ?e]
    obtain v3 where "write_envelope c s (audit_path c ?u) ?u ''audit_event'' 1 ?e ?v2 = (Inr (), v3)" by blast
    with v1(1) show ?thesis
      by (simp add: announce_def bind_def audit_def new_uuid_def read_clock_def ignoring_def)
  qed
  let ?s = "\<lparr>s_header = h, root_key = rk, epoch_key = ek, index_key = ik, s_device = random_uuid c (draws w2)\<rparr>"
  obtain w3 where "announce c lowercase upkeep name ?s (w2\<lparr>draws := Suc (draws w2)\<rparr>) = (Inr (), w3)"
    using say [of "w2\<lparr>draws := Suc (draws w2)\<rparr>" ?s] m(2) by auto
  with d m(1) w show ?thesis by (simp add: create_vault_def bind_def create_dirs_def new_uuid_def yield_def)
qed

theorem created_vault_opens_witness:
  "\<exists>s code w'. create_vault demo id (maintain (\<lambda>_. None) (\<lambda>_. (0, 0)) 0) ''pw'' ''laptop'' (h_kdf (demo_header 0))
      \<lparr>files = [], faults = [], draws = 0\<rparr> = (Inr (s, code), w') \<and>
    ready demo s w' \<and> unlocks_with demo s ''pw'' \<and> recovers_with demo s code"
proof -
  let ?w = "\<lparr>files = [], faults = [], draws = 0\<rparr> :: world"
  have w: "faults ?w = []" "\<not> path_exists manifest ?w" "hm_wf (files ?w)" "hm_get (files ?w) p = None" for p
    by (simp_all add: path_exists_def hm_get_def hm_wf_def)
  obtain s code w' where k: "create_vault demo id (maintain (\<lambda>_. None) (\<lambda>_. (0, 0)) 0) ''pw'' ''laptop'' (h_kdf (demo_header 0)) ?w
      = (Inr (s, code), w')"
    using create_succeeds [OF demo_ok demo_hkdf demo_derive w(1,2)] by blast
  from created_vault_opens [OF demo_ok(1) w(3,4) demo_header_valid(2) k] k show ?thesis by blast
qed

theorem migration_keeps_the_password_witness:
  "\<exists>s' w' h. migrate_legacy_password_kdf demo (demo_session 0) ''pw'' ((h_kdf (demo_header 0))\<lparr>iterations := 2\<rparr>) (demo_world 0)
      = (Inr True, s', w') \<and> ready demo s' w' \<and> unlocks_with demo s' ''pw'' \<and> iterations (h_kdf (s_header s')) = 2"
proof -
  let ?s = "demo_session 0" and ?kdf = "(h_kdf (demo_header 0))\<lparr>iterations := 2\<rparr>"
  have d: "derive_master_key (prims demo) ''pw'' ?kdf = Inr (replicate 32 CHR ''a'')" "validate_import_kdf ?kdf = Inr ()"
    "uses_legacy_interactive_policy (h_kdf (s_header ?s))"
    by (simp_all add: derive_master_key_def kdf_salt_def demo_session_def demo_header_def demo_def demo_primitives_def
        validate_import_kdf_def uses_legacy_interactive_policy_def)
  obtain x w1 where x: "seal_bytes demo (replicate 32 CHR ''a'') (root_key_aad demo (h_vault_id (s_header ?s))) (root_key ?s)
      (demo_world 0) = (Inr x, w1)"
    using seal_succeeds [OF demo_ok(2)] by blast
  from seal_files [OF x] have "faults w1 = []" by (simp add: demo_calm)
  then obtain s' w' where k: "migrate_legacy_password_kdf demo ?s ''pw'' ?kdf (demo_world 0) = (Inr True, s', w')"
    using d x by (simp add: migrate_legacy_password_kdf_def migrated_header_def bind_def lift_def crypto_def read_clock_def
        yield_def write_header_def)
  from migration_keeps_the_password [OF demo_ok(1) demo_ready demo_ways_in(3) d(2) demo_ways_in(1) k]
  obtain h where h: "ready demo (?s\<lparr>s_header := h\<rparr>) w'" "unlocks_with demo (?s\<lparr>s_header := h\<rparr>) ''pw''" "h_kdf h = ?kdf"
    and s': "s' = ?s\<lparr>s_header := h\<rparr>" by blast
  then have "iterations (h_kdf (s_header s')) = 2" by simp
  with k h s' show ?thesis by blast
qed

end
