(* ===== verification/Entries.thy ===== *)
theory Entries
  imports Access
begin

text \<open>
  Provider entries and their keys (\<open>crates/aipass-vault/src/lib.rs\<close>,
  \<open>subscription_binding.rs\<close>, the data of \<open>crates/aipass-provider-registry/src/lib.rs\<close>).  An entry
  is one encrypted record: its description, the keys it refers to, and the secrets themselves.
  Every operation reads the record, changes its plaintext and writes it back, then records an
  audit event.  The change itself is a function on the plaintext, so that what an operation keeps
  of a record is a fact about that function.
\<close>

section \<open>The data of an entry\<close>

datatype provider_kind = Official | ThirdParty | SelfHosted | Unknown

datatype interface_type = OpenAiCompatible | AnthropicMessages | GeminiInterface | AzureOpenAi | Bedrock | CustomHttp

datatype auth_scheme = Bearer | XApiKey | GoogleApiKey | AzureApiKey | AwsProfile | CustomHeader

datatype credential_kind = Api | OAuth

datatype oauth_provider = Codex | Grok

datatype endpoint_kind = ApiEndpoint | Console | Auth | Usage | Custom

record provider_endpoint =
  ep_id :: string
  ep_kind :: endpoint_kind
  ep_url :: "string option"
  ep_region :: "string option"
  ep_deployment :: "string option"
  ep_api_version :: "string option"

record billing_rule =
  rate :: "string option"
  currency :: "string option"
  unit_price :: "string option"
  billing_note :: "string option"

record secret_ref =
  sr_id :: string
  sr_label :: string
  masked :: string
  fingerprint :: string
  sr_group :: "string option"
  sr_interface_type :: "interface_type option"
  sr_endpoint :: "string option"
  sr_default_model :: "string option"
  sr_billing :: "billing_rule option"

record quota_info =
  q_unit :: "string option"
  q_label :: "string option"
  q_limit :: "string option"
  q_used :: "string option"
  q_remaining :: "string option"
  q_reset_at :: "string option"

record gateway_metadata =
  g_group :: "string option"
  g_rate :: "string option"

record websocket_warning =
  ww_reason :: string
  ww_status :: u16
  ww_detected_at :: int
  ww_config_key :: bytes

text \<open>An \<open>f64\<close> is its 64 bits.\<close>

record subscription_window =
  win_id :: string
  win_label :: string
  used_percent :: "u64 option"
  win_resets_at :: "string option"
  window_minutes :: "u64 option"
  win_source :: "string option"

record subscription_snapshot =
  sub_plan :: "string option"
  sub_status :: "string option"
  sub_console_url :: "string option"
  quota_unavailable :: bool
  subscription_expires_at :: "string option"
  subscription_renews_at :: "string option"
  billing_period_ends_at :: "string option"
  credential_expires_at :: "string option"
  credits_remaining :: "string option"
  credits_currency :: "string option"
  sub_windows :: "subscription_window list"
  observed_at :: string
  sub_source :: string
  sub_stale :: bool
  sub_error :: "string option"

record provider_entry =
  e_id :: uuid
  e_title :: string
  e_favorite :: bool
  e_provider_kind :: provider_kind
  e_provider_id :: "string option"
  e_credential_kind :: credential_kind
  e_account_identity :: "string option"
  e_domains :: "string list"
  e_favicon_url :: "string option"
  e_endpoints :: "provider_endpoint list"
  e_interface_type :: interface_type
  e_max_concurrent_requests :: "u32 option"
  e_supports_websockets :: "bool option"
  e_websocket_warning :: "websocket_warning option"
  e_auth_scheme :: auth_scheme
  secret_refs :: "secret_ref list"
  e_default_model :: "string option"
  e_model_aliases :: "(string \<times> string) list"
  e_headers :: "(string \<times> string) list"
  e_quota :: "quota_info option"
  e_subscription :: "subscription_snapshot option"
  e_gateway :: "gateway_metadata option"
  e_usage_source :: "string option"
  e_tags :: "string list"
  e_notes :: "string option"
  e_created_at :: int
  e_updated_at :: int
  e_last_used_at :: "int option"
  e_archived_at :: "int option"
  e_deleted_at :: "int option"

record provider_record =
  entry :: provider_entry
  secrets :: "(string, string) hmap"
  runtime_extensions :: "(string, string) hmap"

record secret_metadata =
  md_group :: "string option"
  md_interface_type :: "interface_type option"
  md_endpoint :: "string option"
  md_default_model :: "string option"
  md_billing :: "billing_rule option"

record entry_input =
  in_title :: string
  in_provider_kind :: provider_kind
  in_provider_id :: "string option"
  in_credential_kind :: credential_kind
  in_account_identity :: "string option"
  in_domains :: "string list"
  in_favicon_url :: "string option"
  in_endpoints :: "provider_endpoint list"
  in_interface_type :: interface_type
  in_max_concurrent_requests :: "u32 option"
  in_supports_websockets :: "bool option"
  in_auth_scheme :: auth_scheme
  in_api_key :: string
  in_secret_label :: "string option"
  in_default_model :: "string option"
  in_model_aliases :: "(string \<times> string) list"
  in_headers :: "(string \<times> string) list"
  in_quota :: "quota_info option"
  in_subscription :: "subscription_snapshot option"
  in_gateway :: "gateway_metadata option"
  in_tags :: "string list"
  in_notes :: "string option"
  in_secret_metadata :: secret_metadata

record entry_update =
  up_title :: string
  up_provider_kind :: provider_kind
  up_provider_id :: "string option"
  up_credential_kind :: "credential_kind option"
  up_account_identity :: "string option"
  up_domains :: "string list"
  up_favicon_url :: "string option"
  up_endpoints :: "provider_endpoint list"
  up_interface_type :: interface_type
  up_max_concurrent_requests :: "u32 option"
  up_supports_websockets :: "bool option"
  up_auth_scheme :: auth_scheme
  up_api_key :: "string option"
  up_secret_label :: "string option"
  up_default_model :: "string option"
  up_model_aliases :: "(string \<times> string) list"
  up_headers :: "(string \<times> string) list option"
  up_quota :: "quota_info option"
  up_subscription :: "subscription_snapshot option"
  up_gateway :: "gateway_metadata option"
  up_tags :: "string list"
  up_notes :: "string option"
  up_secret_metadata :: secret_metadata

text \<open>The JSON of a record, full Unicode lower casing, and the retention pass behind every audit event.\<close>

record entry_tools =
  record_json :: "provider_record \<Rightarrow> bytes"
  record_parse :: "bytes \<Rightarrow> provider_record option"
  to_lowercase :: "string \<Rightarrow> string"
  upkeep_pass :: "unit act"

section \<open>Characters\<close>

text \<open>A \<open>String\<close> is valid UTF-8: a character is a byte and the continuation bytes after it.\<close>

definition continuation_byte :: "char \<Rightarrow> bool" where
  "continuation_byte c = (128 \<le> byte_val c \<and> byte_val c \<le> 191)"

function utf8_chars :: "string \<Rightarrow> string list" where
  "utf8_chars [] = []"
| "utf8_chars (b # bs) = (b # takeWhile continuation_byte bs) # utf8_chars (dropWhile continuation_byte bs)"
  by pat_completeness auto
termination by (relation "measure length") (auto simp: le_imp_less_Suc length_dropWhile_le)

definition is_control :: "string \<Rightarrow> bool" where
  "is_control ch =
    (case ch of [b] \<Rightarrow> byte_val b < 32 \<or> byte_val b = 127
     | [b, d] \<Rightarrow> byte_val b = 0xC2 \<and> 128 \<le> byte_val d \<and> byte_val d \<le> 159
     | _ \<Rightarrow> False)"

definition mask_secret :: "string \<Rightarrow> string" where
  "mask_secret secret =
    (let chars = utf8_chars secret; n = length chars in
     if chars = [] then ''****''
     else if n \<le> 8 then concat (take 2 chars) @ ''...'' @ concat (drop (n - 2) chars)
     else concat (take 6 chars) @ ''...'' @ concat (drop (n - 4) chars))"

section \<open>Labels and optional text\<close>

definition clean_optional :: "string option \<Rightarrow> string option" where
  "clean_optional v = Option.bind v (\<lambda>t. if trim t = [] then None else Some (trim t))"

definition patch_optional :: "string option \<Rightarrow> string option \<Rightarrow> string option" where
  "patch_optional patch current = (case patch of Some v \<Rightarrow> clean_optional (Some v) | None \<Rightarrow> current)"

text \<open>The Chinese words for key and token, in UTF-8.\<close>

definition chinese_placeholders :: "string list" where
  "chinese_placeholders =
    [map char_of [0xE5, 0xAF, 0x86, 0xE9, 0x92, 0xA5 :: nat], map char_of [0xE4, 0xBB, 0xA4, 0xE7, 0x89, 0x8C :: nat]]"

definition clean_secret_label :: "string option \<Rightarrow> string option" where
  "clean_secret_label v = Option.bind v (\<lambda>t.
    let value = trim t in
    if value = [] \<or> 64 < length value \<or> list_ex is_control (utf8_chars value) \<or>
       eq_ignore_ascii_case value ''api key'' \<or> eq_ignore_ascii_case value ''token'' \<or>
       eq_ignore_ascii_case value ''secret'' \<or> value \<in> set chinese_placeholders
    then None else Some value)"

definition normalize_user_secret_label :: "string \<Rightarrow> string option" where
  "normalize_user_secret_label v =
    (let value = trim v in
     if value \<noteq> [] \<and> length value \<le> 64 \<and> \<not> list_ex is_control (utf8_chars value) then Some value else None)"

definition PRIMARY_SECRET_FIELD :: string where "PRIMARY_SECRET_FIELD = ''primary''"

text \<open>An exact identifier wins, then an exact label, then the word for the first key.\<close>

definition find_secret_ref_position :: "secret_ref list \<Rightarrow> string \<Rightarrow> nat option" where
  "find_secret_ref_position refs sel =
    or_else (position (\<lambda>r. sr_id r = sel) refs)
      (or_else (position (\<lambda>r. sr_label r = sel) refs)
        (if sel = PRIMARY_SECRET_FIELD \<and> refs \<noteq> [] then Some 0 else None))"

definition new_secret_ref :: "string \<Rightarrow> string \<Rightarrow> string \<Rightarrow> string \<Rightarrow> secret_ref" where
  "new_secret_ref i label m f = \<lparr>sr_id = i, sr_label = label, masked = m, fingerprint = f, sr_group = None,
    sr_interface_type = None, sr_endpoint = None, sr_default_model = None, sr_billing = None\<rparr>"

definition billing_empty :: "billing_rule \<Rightarrow> bool" where
  "billing_empty b = list_all (\<lambda>x. is_none_or x (\<lambda>v. trim v = [])) [rate b, currency b, unit_price b, billing_note b]"

definition merged_billing :: "billing_rule \<Rightarrow> billing_rule option \<Rightarrow> billing_rule option" where
  "merged_billing b previous =
    (let old = (\<lambda>f. Option.bind previous f);
         merged = \<lparr>rate = patch_optional (rate b) (old rate), currency = patch_optional (currency b) (old currency),
           unit_price = patch_optional (unit_price b) (old unit_price),
           billing_note = patch_optional (billing_note b) (old billing_note)\<rparr>
     in if billing_empty merged then None else Some merged)"

text \<open>\<open>SecretMetadataInput::apply_to\<close>: the new key and whether anything changed.\<close>

definition apply_metadata :: "secret_metadata \<Rightarrow> secret_ref \<Rightarrow> secret_ref \<times> bool" where
  "apply_metadata md r =
    (let endpoint = patch_optional (md_endpoint md) (sr_endpoint r);
         model = patch_optional (md_default_model md) (sr_default_model r);
         group = (case md_group md of None \<Rightarrow> sr_group r | Some g \<Rightarrow> clean_optional (Some g));
         interface = or_else (md_interface_type md) (sr_interface_type r);
         bill = (case md_billing md of None \<Rightarrow> sr_billing r | Some b \<Rightarrow> merged_billing b (sr_billing r))
     in (r\<lparr>sr_group := group, sr_interface_type := interface, sr_endpoint := endpoint, sr_default_model := model,
           sr_billing := bill\<rparr>,
         endpoint \<noteq> sr_endpoint r \<or> model \<noteq> sr_default_model r \<or> group \<noteq> sr_group r \<or>
         interface \<noteq> sr_interface_type r \<or> bill \<noteq> sr_billing r))"

section \<open>What each operation writes\<close>

abbreviation refs :: "provider_record \<Rightarrow> secret_ref list" where
  "refs r \<equiv> secret_refs (entry r)"

definition set_entry :: "(provider_entry \<Rightarrow> provider_entry) \<Rightarrow> provider_record \<Rightarrow> provider_record" where
  "set_entry f r = r\<lparr>entry := f (entry r)\<rparr>"

text \<open>The mask and fingerprint every stored key carries.\<close>

definition sealed_ref :: "platform \<Rightarrow> bytes \<Rightarrow> string \<Rightarrow> secret_ref \<Rightarrow> secret_ref" where
  "sealed_ref c ik secret x = x\<lparr>masked := mask_secret secret, fingerprint := hmac_fingerprint (prims c) ik secret\<rparr>"

definition new_record ::
  "platform \<Rightarrow> bytes \<Rightarrow> entry_input \<Rightarrow> (string, string) hmap \<Rightarrow> int \<Rightarrow> uuid \<Rightarrow> string \<Rightarrow> provider_record" where
  "new_record c ik i ext now ident sid =
    (let label = unwrap_or (or_else (clean_secret_label (in_secret_label i))
           (clean_optional (md_group (in_secret_metadata i)))) ''primary'';
         primary = fst (apply_metadata (in_secret_metadata i)
           (new_secret_ref sid label (mask_secret (in_api_key i)) (hmac_fingerprint (prims c) ik (in_api_key i))))
     in \<lparr>entry = \<lparr>e_id = ident, e_title = in_title i, e_favorite = False, e_provider_kind = in_provider_kind i,
          e_provider_id = in_provider_id i, e_credential_kind = in_credential_kind i,
          e_account_identity = clean_optional (in_account_identity i), e_domains = in_domains i,
          e_favicon_url = in_favicon_url i, e_endpoints = in_endpoints i, e_interface_type = in_interface_type i,
          e_max_concurrent_requests = Option.bind (in_max_concurrent_requests i) (\<lambda>n. if 0 < n then Some n else None),
          e_supports_websockets = in_supports_websockets i, e_websocket_warning = None,
          e_auth_scheme = in_auth_scheme i, secret_refs = [primary], e_default_model = in_default_model i,
          e_model_aliases = in_model_aliases i, e_headers = in_headers i, e_quota = in_quota i,
          e_subscription = in_subscription i, e_gateway = in_gateway i, e_usage_source = None, e_tags = in_tags i,
          e_notes = in_notes i, e_created_at = now, e_updated_at = now, e_last_used_at = None, e_archived_at = None,
          e_deleted_at = None\<rparr>,
        secrets = [(sid, in_api_key i)], runtime_extensions = ext\<rparr>)"

definition push_secret ::
  "platform \<Rightarrow> bytes \<Rightarrow> secret_metadata \<Rightarrow> int \<Rightarrow> string \<Rightarrow> string \<Rightarrow> string \<Rightarrow> provider_record \<Rightarrow> provider_record" where
  "push_secret c ik md now sid label secret r =
    (let x = fst (apply_metadata md (new_secret_ref sid label (mask_secret secret) (hmac_fingerprint (prims c) ik secret)))
     in set_entry (\<lambda>e. e\<lparr>secret_refs := secret_refs e @ [x], e_updated_at := now\<rparr>) r
       \<lparr>secrets := hm_put sid secret (secrets r)\<rparr>)"

text \<open>The first key with an identifier, changed in place.\<close>

fun change_ref :: "string \<Rightarrow> (secret_ref \<Rightarrow> secret_ref) \<Rightarrow> secret_ref list \<Rightarrow> secret_ref list" where
  "change_ref i f [] = []"
| "change_ref i f (x # xs) = (if sr_id x = i then f x # xs else x # change_ref i f xs)"

text \<open>\<open>update_secret\<close> after its checks: the record it would write and whether it changed.\<close>

definition changed_secret ::
  "platform \<Rightarrow> bytes \<Rightarrow> string \<Rightarrow> string \<Rightarrow> string option \<Rightarrow> secret_ref \<Rightarrow> provider_record \<Rightarrow> provider_record \<times> bool" where
  "changed_secret c ik sid label secret x r =
    (let r1 = set_entry (\<lambda>e. e\<lparr>secret_refs := change_ref sid (\<lambda>y. y\<lparr>sr_label := label\<rparr>) (secret_refs e)\<rparr>) r in
     case secret of
       None \<Rightarrow> (r1, sr_label x \<noteq> label)
     | Some v \<Rightarrow>
         (set_entry (\<lambda>e. e\<lparr>secret_refs := change_ref sid (sealed_ref c ik v) (secret_refs e)\<rparr>) r1
            \<lparr>secrets := hm_put sid v (secrets r)\<rparr>, True))"

text \<open>The key at position \<open>n\<close> with other metadata.\<close>

definition with_metadata :: "secret_metadata \<Rightarrow> nat \<Rightarrow> int \<Rightarrow> provider_record \<Rightarrow> provider_record" where
  "with_metadata md n now r =
    set_entry (\<lambda>e. e\<lparr>secret_refs := (secret_refs e)[n := fst (apply_metadata md (secret_refs e ! n))],
      e_updated_at := now\<rparr>) r"

definition without_secret :: "string \<Rightarrow> int \<Rightarrow> provider_record \<Rightarrow> provider_record" where
  "without_secret sid now r =
    set_entry (\<lambda>e. e\<lparr>secret_refs := filter (\<lambda>x. sr_id x \<noteq> sid) (secret_refs e), e_updated_at := now\<rparr>) r
      \<lparr>secrets := hm_del sid (secrets r)\<rparr>"

text \<open>
  \<open>update_provider\<close> edits the first key only, and only when a secret is given or stored for it:
  \<open>sid\<close> is its identifier, a fresh one when there is no key.
\<close>

definition updated_refs ::
  "platform \<Rightarrow> bytes \<Rightarrow> secret_metadata \<Rightarrow> string \<Rightarrow> string option \<Rightarrow> string option \<Rightarrow> secret_ref list \<Rightarrow> secret_ref list" where
  "updated_refs c ik md sid label api_key xs =
    (case api_key of
       None \<Rightarrow> xs
     | Some v \<Rightarrow>
         (case xs of
            [] \<Rightarrow> [fst (apply_metadata md (new_secret_ref sid (unwrap_or label ''primary'') (mask_secret v)
                     (hmac_fingerprint (prims c) ik v)))]
          | x # ys \<Rightarrow>
              fst (apply_metadata md (sealed_ref c ik v
                (case label of None \<Rightarrow> x | Some l \<Rightarrow> x\<lparr>sr_label := l\<rparr>))) # ys))"

definition updated_label :: "entry_update \<Rightarrow> secret_ref list \<Rightarrow> vault_error + string option" where
  "updated_label u xs =
    and_then (case up_secret_label u of
                None \<Rightarrow> Inr None
              | Some l \<Rightarrow> map_sum id Some (ok_or InvalidSecretLabel (normalize_user_secret_label l)))
      (\<lambda>label. if is_some_and label (\<lambda>l. list_ex (\<lambda>x. sr_label x = l) (drop 1 xs)) then Inl DuplicateSecretLabel
        else Inr label)"

definition updated_record ::
  "platform \<Rightarrow> bytes \<Rightarrow> entry_update \<Rightarrow> int \<Rightarrow> uuid \<Rightarrow> string \<Rightarrow> string option \<Rightarrow> provider_record \<Rightarrow> provider_record" where
  "updated_record c ik u now ident sid label r =
    (let old = entry r;
         api_key = or_else (up_api_key u) (hm_get (secrets r) sid)
     in \<lparr>entry = \<lparr>e_id = ident, e_title = up_title u, e_favorite = e_favorite old, e_provider_kind = up_provider_kind u,
          e_provider_id = up_provider_id u,
          e_credential_kind = unwrap_or (up_credential_kind u) (e_credential_kind old),
          e_account_identity = patch_optional (up_account_identity u) (e_account_identity old),
          e_domains = up_domains u, e_favicon_url = up_favicon_url u, e_endpoints = up_endpoints u,
          e_interface_type = up_interface_type u,
          e_max_concurrent_requests =
            Option.bind (or_else (up_max_concurrent_requests u) (e_max_concurrent_requests old))
              (\<lambda>n. if 0 < n then Some n else None),
          e_supports_websockets = or_else (up_supports_websockets u) (e_supports_websockets old),
          e_websocket_warning = (if up_supports_websockets u = Some True then None else e_websocket_warning old),
          e_auth_scheme = up_auth_scheme u,
          secret_refs = updated_refs c ik (up_secret_metadata u) sid label api_key (secret_refs old),
          e_default_model = up_default_model u, e_model_aliases = up_model_aliases u,
          e_headers = unwrap_or (up_headers u) (e_headers old), e_quota = up_quota u,
          e_subscription = or_else (up_subscription u) (e_subscription old), e_gateway = up_gateway u,
          e_usage_source = e_usage_source old, e_tags = up_tags u, e_notes = up_notes u,
          e_created_at = e_created_at old, e_updated_at = now, e_last_used_at = e_last_used_at old,
          e_archived_at = e_archived_at old, e_deleted_at = e_deleted_at old\<rparr>,
        secrets = (case api_key of None \<Rightarrow> secrets r | Some v \<Rightarrow> hm_put sid v (secrets r)),
        runtime_extensions = runtime_extensions r\<rparr>)"

definition quota_empty :: "quota_info \<Rightarrow> bool" where
  "quota_empty q = list_all (\<lambda>x. x = None) [q_label q, q_limit q, q_used q, q_remaining q, q_reset_at q]"

definition updated_usage :: "quota_info option \<Rightarrow> gateway_metadata option \<Rightarrow> string option \<Rightarrow> provider_entry \<Rightarrow> provider_entry" where
  "updated_usage quota gateway source e =
    e\<lparr>e_usage_source := (case Option.bind source (\<lambda>v. if trim v = [] then None else Some (trim v)) of
         None \<Rightarrow> e_usage_source e | Some v \<Rightarrow> Some v),
       e_quota := (case quota of None \<Rightarrow> e_quota e | Some q \<Rightarrow> if quota_empty q then None else Some q),
       e_gateway := (case gateway of None \<Rightarrow> e_gateway e
         | Some g \<Rightarrow> if g_group g = None \<and> g_rate g = None then None else Some g)\<rparr>"

text \<open>The equality of \<open>f64\<close>: no NaN equals anything and the two zeros are equal.\<close>

definition is_nan :: "u64 \<Rightarrow> bool" where
  "is_nan w = (0x7FF0000000000000 < take_bit 63 w)"

definition f64_eq :: "u64 \<Rightarrow> u64 \<Rightarrow> bool" where
  "f64_eq a b = (\<not> is_nan a \<and> \<not> is_nan b \<and> (a = b \<or> take_bit 63 a = 0 \<and> take_bit 63 b = 0))"

definition window_eq :: "subscription_window \<Rightarrow> subscription_window \<Rightarrow> bool" where
  "window_eq a b = (a\<lparr>used_percent := None\<rparr> = b\<lparr>used_percent := None\<rparr> \<and>
    (case (used_percent a, used_percent b) of
       (None, None) \<Rightarrow> True | (Some x, Some y) \<Rightarrow> f64_eq x y | _ \<Rightarrow> False))"

definition subscription_eq :: "subscription_snapshot \<Rightarrow> subscription_snapshot \<Rightarrow> bool" where
  "subscription_eq a b = (a\<lparr>sub_windows := []\<rparr> = b\<lparr>sub_windows := []\<rparr> \<and>
    list_all2 window_eq (sub_windows a) (sub_windows b))"

definition same_subscription :: "subscription_snapshot option \<Rightarrow> subscription_snapshot option \<Rightarrow> bool" where
  "same_subscription a b =
    (case (a, b) of (None, None) \<Rightarrow> True | (Some x, Some y) \<Rightarrow> subscription_eq x y | _ \<Rightarrow> False)"

section \<open>Well-formed records\<close>

text \<open>
  Keys have identifiers and labels of their own, every stored secret belongs to a key that shows
  its mask and fingerprint, and no limit is zero.
\<close>

definition secret_shown :: "platform \<Rightarrow> bytes \<Rightarrow> secret_ref list \<Rightarrow> string \<Rightarrow> string \<Rightarrow> bool" where
  "secret_shown c ik xs i v \<longleftrightarrow>
    (\<exists>x\<in>set xs. sr_id x = i \<and> masked x = mask_secret v \<and> fingerprint x = hmac_fingerprint (prims c) ik v)"

definition record_wf :: "platform \<Rightarrow> bytes \<Rightarrow> provider_record \<Rightarrow> bool" where
  "record_wf c ik r \<longleftrightarrow>
    distinct (map sr_id (refs r)) \<and> distinct (map sr_label (refs r)) \<and>
    (\<forall>i v. hm_get (secrets r) i = Some v \<longrightarrow> secret_shown c ik (refs r) i v) \<and>
    e_max_concurrent_requests (entry r) \<noteq> Some 0"

lemma apply_metadata_keeps [simp]:
  "sr_id (fst (apply_metadata md x)) = sr_id x" "sr_label (fst (apply_metadata md x)) = sr_label x"
  "masked (fst (apply_metadata md x)) = masked x" "fingerprint (fst (apply_metadata md x)) = fingerprint x"
  by (simp_all add: apply_metadata_def Let_def)

lemma sealed_ref_simps [simp]:
  "sr_id (sealed_ref c ik v x) = sr_id x" "sr_label (sealed_ref c ik v x) = sr_label x"
  "masked (sealed_ref c ik v x) = mask_secret v" "fingerprint (sealed_ref c ik v x) = hmac_fingerprint (prims c) ik v"
  by (simp_all add: sealed_ref_def)

lemma new_secret_ref_simps [simp]:
  "sr_id (new_secret_ref i l m f) = i" "sr_label (new_secret_ref i l m f) = l"
  "masked (new_secret_ref i l m f) = m" "fingerprint (new_secret_ref i l m f) = f"
  by (simp_all add: new_secret_ref_def)

lemma set_entry_simps [simp]:
  "entry (set_entry f r) = f (entry r)" "secrets (set_entry f r) = secrets r"
  "runtime_extensions (set_entry f r) = runtime_extensions r"
  by (simp_all add: set_entry_def)

text \<open>An edit that leaves keys and limit alone.\<close>

lemma record_wf_set_entry:
  assumes "record_wf c ik r" "\<And>e. secret_refs (f e) = secret_refs e"
    "\<And>e. e_max_concurrent_requests (f e) = e_max_concurrent_requests e"
  shows "record_wf c ik (set_entry f r)"
  using assms by (simp add: record_wf_def)

lemma record_wf_same:
  assumes "record_wf c ik r" "refs r' = refs r" "secrets r' = secrets r"
    "e_max_concurrent_requests (entry r') = e_max_concurrent_requests (entry r)"
  shows "record_wf c ik r'"
  using assms by (simp add: record_wf_def)

lemma new_record_wf: "record_wf c ik (new_record c ik i ext now ident sid)"
  by (auto simp: record_wf_def new_record_def Let_def secret_shown_def hm_get_def split: if_splits option.splits
      Option.bind_splits)

lemma push_secret_wf:
  assumes "record_wf c ik r" "sid \<notin> sr_id ` set (refs r)" "\<not> list_ex (\<lambda>x. sr_label x = label) (refs r)"
  shows "record_wf c ik (push_secret c ik md now sid label v r)"
  using assms by (auto simp: record_wf_def push_secret_def Let_def secret_shown_def list_ex_iff)

lemma change_ref_map: "(\<And>x. g (f x) = g x) \<Longrightarrow> map g (change_ref i f xs) = map g xs"
  by (induction xs) auto

lemma change_ref_set:
  assumes "distinct (map sr_id xs)"
  shows "set (change_ref i f xs) = (\<lambda>x. if sr_id x = i then f x else x) ` set xs"
  using assms by (induction xs) (auto simp: image_iff)

lemma change_ref_none: "i \<notin> sr_id ` set xs \<Longrightarrow> change_ref i f xs = xs"
  by (induction xs) auto

lemma change_label_distinct:
  assumes "distinct (map sr_id xs)" "distinct (map sr_label xs)" "\<not> list_ex (\<lambda>x. sr_id x \<noteq> i \<and> sr_label x = l) xs"
  shows "distinct (map sr_label (change_ref i (\<lambda>y. y\<lparr>sr_label := l\<rparr>) xs))"
  using assms
proof (induction xs)
  case (Cons x xs)
  show ?case
  proof (cases "sr_id x = i")
    case True
    with Cons.prems have "change_ref i (\<lambda>y. y\<lparr>sr_label := l\<rparr>) xs = xs" by (intro change_ref_none) auto
    moreover have "l \<notin> sr_label ` set xs"
      using Cons.prems(1,3) True by (auto simp: list_ex_iff image_iff) metis
    ultimately show ?thesis using Cons.prems(2) True by simp
  next
    case False
    have "sr_label x \<notin> sr_label ` set (change_ref i (\<lambda>y. y\<lparr>sr_label := l\<rparr>) xs)"
      using Cons.prems False by (auto simp: change_ref_set list_ex_iff image_iff)
    with Cons False show ?thesis by auto
  qed
qed simp

lemma secret_shown_change:
  assumes "distinct (map sr_id xs)" "\<And>x. sr_id (f x) = sr_id x"
    and "secret_shown c ik xs i v" "\<And>x. sr_id x = j \<Longrightarrow> i = j \<Longrightarrow> masked x = mask_secret v \<Longrightarrow>
      fingerprint x = hmac_fingerprint (prims c) ik v \<Longrightarrow>
      masked (f x) = mask_secret v \<and> fingerprint (f x) = hmac_fingerprint (prims c) ik v"
  shows "secret_shown c ik (change_ref j f xs) i v"
proof -
  obtain x where x: "x \<in> set xs" "sr_id x = i" "masked x = mask_secret v" "fingerprint x = hmac_fingerprint (prims c) ik v"
    using assms(3) by (auto simp: secret_shown_def)
  have "(if sr_id x = j then f x else x) \<in> set (change_ref j f xs)"
    using x(1) assms(1) by (simp add: change_ref_set)
  moreover have "sr_id (if sr_id x = j then f x else x) = i \<and> masked (if sr_id x = j then f x else x) = mask_secret v \<and>
      fingerprint (if sr_id x = j then f x else x) = hmac_fingerprint (prims c) ik v"
    using x assms(2,4) by simp
  ultimately show ?thesis unfolding secret_shown_def by blast
qed

lemma secret_shown_sealed:
  assumes "distinct (map sr_id xs)" "i \<in> sr_id ` set xs"
  shows "secret_shown c ik (change_ref i (sealed_ref c ik v) xs) i v"
proof -
  obtain x where "x \<in> set xs" "sr_id x = i" using assms(2) by auto
  then have "sealed_ref c ik v x \<in> set (change_ref i (sealed_ref c ik v) xs)" "sr_id (sealed_ref c ik v x) = i"
    using assms(1) by (auto simp: change_ref_set)
  then show ?thesis unfolding secret_shown_def by (intro bexI [of _ "sealed_ref c ik v x"]) simp_all
qed

lemma changed_secret_wf:
  assumes "record_wf c ik r" "\<not> list_ex (\<lambda>x. sr_id x \<noteq> sid \<and> sr_label x = label) (refs r)" "sid \<in> sr_id ` set (refs r)"
  shows "record_wf c ik (fst (changed_secret c ik sid label secret x r))"
proof -
  let ?l = "\<lambda>y :: secret_ref. y\<lparr>sr_label := label\<rparr>"
  let ?xs = "change_ref sid ?l (refs r)"
  have d: "distinct (map sr_id (refs r))" "distinct (map sr_label (refs r))" using assms(1) by (simp_all add: record_wf_def)
  have ids: "map sr_id ?xs = map sr_id (refs r)" by (rule change_ref_map) simp
  have d1: "distinct (map sr_id ?xs)" using d(1) ids by simp
  have l1: "distinct (map sr_label ?xs)" by (rule change_label_distinct [OF d assms(2)])
  have s1: "secret_shown c ik ?xs i v" if "hm_get (secrets r) i = Some v" for i v
    by (rule secret_shown_change [OF d(1)]) (use assms(1) that in \<open>auto simp: record_wf_def\<close>)
  show ?thesis
  proof (cases secret)
    case None
    with assms(1) d1 l1 s1 show ?thesis by (simp add: changed_secret_def record_wf_def Let_def)
  next
    case (Some v)
    let ?ys = "change_ref sid (sealed_ref c ik v) ?xs"
    have "map sr_id ?ys = map sr_id ?xs" "map sr_label ?ys = map sr_label ?xs" by (rule change_ref_map; simp)+
    moreover have "sid \<in> sr_id ` set ?xs" using assms(3) arg_cong [OF ids, of set] by simp
    then have "secret_shown c ik ?ys sid v" by (rule secret_shown_sealed [OF d1])
    moreover have "secret_shown c ik ?ys i w" if "hm_get (secrets r) i = Some w" "i \<noteq> sid" for i w
      by (rule secret_shown_change [OF d1 _ s1 [OF that(1)]]) (use that in simp_all)
    ultimately show ?thesis using assms(1) d1 l1 Some by (auto simp: changed_secret_def record_wf_def Let_def)
  qed
qed

lemma without_secret_wf: "record_wf c ik r \<Longrightarrow> record_wf c ik (without_secret sid now r)"
proof -
  assume wf: "record_wf c ik r"
  have "secret_shown c ik (filter (\<lambda>x. sr_id x \<noteq> sid) (refs r)) i v" if "hm_get (secrets r) i = Some v" "i \<noteq> sid" for i v
  proof -
    have "secret_shown c ik (refs r) i v" using wf that(1) by (simp add: record_wf_def)
    with that(2) show ?thesis unfolding secret_shown_def by fastforce
  qed
  moreover have "distinct (map sr_id (filter P (refs r)))" "distinct (map sr_label (filter P (refs r)))" for P
    using wf by (simp_all add: record_wf_def distinct_map_filter)
  ultimately show ?thesis using wf by (simp add: record_wf_def without_secret_def)
qed

lemma updated_refs_wf:
  assumes "record_wf c ik r" "\<not> is_some_and label (\<lambda>l. list_ex (\<lambda>x. sr_label x = l) (drop 1 (refs r)))"
    and "refs r \<noteq> [] \<Longrightarrow> sid = sr_id (hd (refs r))"
    and key: "api_key = or_else given (hm_get (secrets r) sid)"
  shows "let xs = updated_refs c ik md sid label api_key (refs r) in
    distinct (map sr_id xs) \<and> distinct (map sr_label xs) \<and>
    (\<forall>i v. hm_get (case api_key of None \<Rightarrow> secrets r | Some v \<Rightarrow> hm_put sid v (secrets r)) i = Some v \<longrightarrow>
      secret_shown c ik xs i v)"
proof (cases api_key)
  case None
  with assms(1) show ?thesis by (simp add: updated_refs_def record_wf_def)
next
  case key: (Some v)
  show ?thesis
  proof (cases "refs r")
    case Nil
    then have "hm_get (secrets r) i = None" for i
      using assms(1) by (cases "hm_get (secrets r) i") (auto simp: record_wf_def secret_shown_def)
    with Nil key show ?thesis by (auto simp: updated_refs_def secret_shown_def Let_def)
  next
    case (Cons x ys)
    let ?x = "fst (apply_metadata md (sealed_ref c ik v (case label of None \<Rightarrow> x | Some l \<Rightarrow> x\<lparr>sr_label := l\<rparr>)))"
    have x: "sr_id ?x = sr_id x" "masked ?x = mask_secret v" "fingerprint ?x = hmac_fingerprint (prims c) ik v"
      by (simp_all split: option.split)
    have sid: "sid = sr_id x" using assms(3) Cons by simp
    have "sr_label ?x \<notin> sr_label ` set ys"
      using assms(1,2) Cons by (cases label) (auto simp: record_wf_def list_ex_iff)
    moreover have "secret_shown c ik (?x # ys) i w" if "hm_get (secrets r) i = Some w" "i \<noteq> sid" for i w
      using assms(1) that Cons sid by (auto simp: record_wf_def secret_shown_def)
    moreover have "secret_shown c ik (?x # ys) sid v" using x sid by (auto simp: secret_shown_def)
    moreover have "distinct (map sr_id (?x # ys))" using assms(1) Cons x(1) by (simp add: record_wf_def)
    moreover have "distinct (map sr_label ys)" using assms(1) Cons by (simp add: record_wf_def)
    moreover have "updated_refs c ik md sid label api_key (refs r) = ?x # ys" by (simp add: updated_refs_def key Cons)
    ultimately show ?thesis by (simp add: key del: apply_metadata_keeps)
  qed
qed

lemma updated_record_wf:
  assumes "record_wf c ik r" "updated_label u (refs r) = Inr label" "refs r \<noteq> [] \<Longrightarrow> sid = sr_id (hd (refs r))"
  shows "record_wf c ik (updated_record c ik u now ident sid label r)"
proof -
  have "\<not> is_some_and label (\<lambda>l. list_ex (\<lambda>x. sr_label x = l) (drop 1 (refs r)))"
    using assms(2) by (auto simp: updated_label_def and_then_Inr split: if_splits)
  note x = updated_refs_wf [OF assms(1) this assms(3) refl, where given = "up_api_key u" and md = "up_secret_metadata u"]
  moreover have "Option.bind a (\<lambda>n. if 0 < n then Some n else None) \<noteq> Some 0" for a :: "u32 option"
    by (cases a) auto
  ultimately show ?thesis by (simp add: record_wf_def updated_record_def Let_def)
qed

lemma with_metadata_wf:
  assumes "record_wf c ik r" "n < length (refs r)"
  shows "record_wf c ik (with_metadata md n now r)"
proof -
  let ?x = "fst (apply_metadata md (refs r ! n))"
  have m: "map g ((refs r)[n := ?x]) = map g (refs r)" if "g ?x = g (refs r ! n)" for g :: "secret_ref \<Rightarrow> string"
    using that assms(2) by (simp add: map_update list_update_same_conv)
  have "secret_shown c ik ((refs r)[n := ?x]) i v \<longleftrightarrow> secret_shown c ik (refs r) i v" for i v
  proof -
    have "secret_shown c ik xs i v \<longleftrightarrow> (\<exists>k<length xs. map sr_id xs ! k = i \<and> map masked xs ! k = mask_secret v \<and>
        map fingerprint xs ! k = hmac_fingerprint (prims c) ik v)" for xs
      by (auto simp: secret_shown_def in_set_conv_nth Bex_def)
    from this [of "(refs r)[n := ?x]"] this [of "refs r"] show ?thesis by (simp add: m del: nth_map)
  qed
  then show ?thesis using assms(1) by (simp add: record_wf_def with_metadata_def m)
qed

text \<open>The first key's secret replaced.\<close>

definition replace_first :: "platform \<Rightarrow> bytes \<Rightarrow> string \<Rightarrow> provider_record \<Rightarrow> provider_record" where
  "replace_first c ik v r =
    (case refs r of [] \<Rightarrow> r
     | x # xs \<Rightarrow> set_entry (\<lambda>e. e\<lparr>secret_refs := sealed_ref c ik v x # xs\<rparr>) r\<lparr>secrets := hm_put (sr_id x) v (secrets r)\<rparr>)"

lemma replace_first_wf: "record_wf c ik r \<Longrightarrow> record_wf c ik (replace_first c ik v r)"
  by (cases "refs r") (auto simp: record_wf_def replace_first_def secret_shown_def)

end
