(* ===== verification/EntryOps.thy ===== *)
theory EntryOps
  imports Entries Calm
begin

text \<open>
  The operations on provider entries (\<open>crates/aipass-vault/src/lib.rs\<close>,
  \<open>subscription_binding.rs\<close>): each reads the encrypted record, checks, writes the record back and
  records an audit event.  Whatever fails on the way, the records on disk stay well formed.
\<close>

section \<open>Reading and writing a record\<close>

definition decrypt_provider_path :: "platform \<Rightarrow> entry_tools \<Rightarrow> session \<Rightarrow> path \<Rightarrow> provider_record act" where
  "decrypt_provider_path c t s p w =
    (if \<not> path_exists p w then (Inl RecordNotFound, w)
     else bind (read_envelope c p) (\<lambda>e.
          if tombstone e \<or> object_type e \<noteq> ''provider_entry'' then lift (Inl RecordNotFound)
          else bind (decrypt_envelope_path c s p) (\<lambda>b. lift (ok_or JsonError (record_parse t b)))) w)"

definition write_provider_record :: "platform \<Rightarrow> entry_tools \<Rightarrow> session \<Rightarrow> uuid \<Rightarrow> provider_record \<Rightarrow> unit act" where
  "write_provider_record c t s i r = write_envelope c s (record_path c i) i ''provider_entry'' 1 (record_json t r)"

definition note_event :: "platform \<Rightarrow> entry_tools \<Rightarrow> session \<Rightarrow> string \<Rightarrow> uuid option \<Rightarrow> string option \<Rightarrow> unit act" where
  "note_event c t s = audit c (to_lowercase t) (upkeep_pass t) s"

text \<open>A record changed at the present time, written and noted.\<close>

definition store :: "platform \<Rightarrow> entry_tools \<Rightarrow> session \<Rightarrow> uuid \<Rightarrow> (int \<Rightarrow> provider_record) \<Rightarrow> string \<Rightarrow> unit act" where
  "store c t s i f action =
    bind (read_clock c) (\<lambda>now.
    bind (write_provider_record c t s i (f now)) (\<lambda>_. note_event c t s action (Some i) None))"

abbreviation at_time :: "(provider_entry \<Rightarrow> provider_entry) \<Rightarrow> provider_record \<Rightarrow> int \<Rightarrow> provider_record" where
  "at_time f r now \<equiv> set_entry (\<lambda>e. (f e)\<lparr>e_updated_at := now\<rparr>) r"

section \<open>Entries and their keys\<close>

definition add_provider_record ::
  "platform \<Rightarrow> entry_tools \<Rightarrow> session \<Rightarrow> entry_input \<Rightarrow> (string, string) hmap \<Rightarrow> uuid act" where
  "add_provider_record c t s input ext =
    bind (read_clock c) (\<lambda>now.
    bind (new_uuid c) (\<lambda>i.
    bind (new_uuid c) (\<lambda>sid.
    bind (write_provider_record c t s i (new_record c (index_key s) input ext now i (uuid_text c sid))) (\<lambda>_.
    bind (note_event c t s ''provider.create'' (Some i) None) (\<lambda>_. yield i)))))"

definition add_secret_with_metadata ::
  "platform \<Rightarrow> entry_tools \<Rightarrow> session \<Rightarrow> uuid \<Rightarrow> string \<Rightarrow> string \<Rightarrow> secret_metadata \<Rightarrow> string act" where
  "add_secret_with_metadata c t s i label secret md =
    bind (lift (ok_or InvalidSecretLabel (normalize_user_secret_label label))) (\<lambda>l.
    if secret = [] then lift (Inl InvalidSecretValue)
    else bind (decrypt_provider_path c t s (record_path c i)) (\<lambda>r.
         if list_ex (\<lambda>x. sr_label x = l) (refs r) then lift (Inl DuplicateSecretLabel)
         else bind (new_uuid c) (\<lambda>u.
              bind (store c t s i (\<lambda>now. push_secret c (index_key s) md now (uuid_text c u) l secret r) ''secret.add'')
                (\<lambda>_. yield (uuid_text c u)))))"

definition update_secret ::
  "platform \<Rightarrow> entry_tools \<Rightarrow> session \<Rightarrow> uuid \<Rightarrow> string \<Rightarrow> string \<Rightarrow> string option \<Rightarrow> bool act" where
  "update_secret c t s i sid label secret =
    bind (lift (ok_or InvalidSecretLabel (normalize_user_secret_label label))) (\<lambda>l.
    if secret = Some [] then lift (Inl InvalidSecretValue)
    else bind (decrypt_provider_path c t s (record_path c i)) (\<lambda>r.
         if list_ex (\<lambda>x. sr_id x \<noteq> sid \<and> sr_label x = l) (refs r) then lift (Inl DuplicateSecretLabel)
         else bind (lift (ok_or RecordNotFound (find (\<lambda>x. sr_id x = sid) (refs r)))) (\<lambda>x.
              case changed_secret c (index_key s) sid l secret x r of
                (r', False) \<Rightarrow> yield False
              | (r', True) \<Rightarrow> bind (store c t s i (at_time id r') ''secret.update'') (\<lambda>_. yield True))))"

definition set_secret_metadata ::
  "platform \<Rightarrow> entry_tools \<Rightarrow> session \<Rightarrow> uuid \<Rightarrow> string \<Rightarrow> secret_metadata \<Rightarrow> bool act" where
  "set_secret_metadata c t s i sel md =
    bind (decrypt_provider_path c t s (record_path c i)) (\<lambda>r.
    bind (lift (ok_or RecordNotFound (find_secret_ref_position (refs r) sel))) (\<lambda>n.
    if \<not> snd (apply_metadata md (refs r ! n)) then yield False
    else bind (store c t s i (\<lambda>now. with_metadata md n now r) ''secret.metadata.update'') (\<lambda>_. yield True)))"

definition find_secret_id_by_value :: "platform \<Rightarrow> entry_tools \<Rightarrow> session \<Rightarrow> uuid \<Rightarrow> string \<Rightarrow> string option act" where
  "find_secret_id_by_value c t s i secret =
    bind (decrypt_provider_path c t s (record_path c i)) (\<lambda>r.
    yield (map_option sr_id (find (\<lambda>x. fingerprint x = hmac_fingerprint (prims c) (index_key s) secret) (refs r))))"

definition remove_secret :: "platform \<Rightarrow> entry_tools \<Rightarrow> session \<Rightarrow> uuid \<Rightarrow> string \<Rightarrow> string act" where
  "remove_secret c t s i sel =
    bind (decrypt_provider_path c t s (record_path c i)) (\<lambda>r.
    bind (lift (ok_or RecordNotFound (find_secret_ref_position (refs r) sel))) (\<lambda>n.
    let sid = sr_id (refs r ! n) in
    if length (filter (\<lambda>x. sr_id x \<noteq> sid) (refs r)) = length (refs r) then lift (Inl RecordNotFound)
    else bind (store c t s i (\<lambda>now. without_secret sid now r) ''secret.remove'') (\<lambda>_. yield sid)))"

definition update_provider :: "platform \<Rightarrow> entry_tools \<Rightarrow> session \<Rightarrow> uuid \<Rightarrow> entry_update \<Rightarrow> unit act" where
  "update_provider c t s i u =
    bind (decrypt_provider_path c t s (record_path c i)) (\<lambda>r.
    bind (read_clock c) (\<lambda>now.
    bind (case refs r of x # _ \<Rightarrow> yield (sr_id x) | [] \<Rightarrow> bind (new_uuid c) (\<lambda>v. yield (uuid_text c v))) (\<lambda>sid.
    bind (lift (updated_label u (refs r))) (\<lambda>label.
    bind (write_provider_record c t s i (updated_record c (index_key s) u now i sid label r)) (\<lambda>_.
    note_event c t s ''provider.update'' (Some i) None)))))"

section \<open>Fields the agent maintains\<close>

definition disable_provider_websocket ::
  "platform \<Rightarrow> entry_tools \<Rightarrow> session \<Rightarrow> uuid \<Rightarrow> websocket_warning \<Rightarrow> unit act" where
  "disable_provider_websocket c t s i warning =
    bind (decrypt_provider_path c t s (record_path c i)) (\<lambda>r.
    if e_supports_websockets (entry r) = Some False then yield ()
    else store c t s i (at_time (\<lambda>e. e\<lparr>e_supports_websockets := Some False, e_websocket_warning := Some warning\<rparr>) r)
           ''provider.websocket.disable'')"

definition update_provider_usage ::
  "platform \<Rightarrow> entry_tools \<Rightarrow> session \<Rightarrow> uuid \<Rightarrow> quota_info option \<Rightarrow> gateway_metadata option \<Rightarrow> string option \<Rightarrow> unit act" where
  "update_provider_usage c t s i quota gateway source =
    bind (decrypt_provider_path c t s (record_path c i)) (\<lambda>r.
    let e = updated_usage quota gateway source (entry r) in
    if e_usage_source e = e_usage_source (entry r) \<and> e_quota e = e_quota (entry r) \<and> e_gateway e = e_gateway (entry r)
    then yield ()
    else bind (read_clock c) (\<lambda>now.
         write_provider_record c t s i (at_time (updated_usage quota gateway source) r now)))"

definition update_provider_subscription ::
  "platform \<Rightarrow> entry_tools \<Rightarrow> session \<Rightarrow> uuid \<Rightarrow> subscription_snapshot option \<Rightarrow> unit act" where
  "update_provider_subscription c t s i snapshot =
    bind (decrypt_provider_path c t s (record_path c i)) (\<lambda>r.
    if same_subscription (e_subscription (entry r)) snapshot then yield ()
    else bind (read_clock c) (\<lambda>now.
         write_provider_record c t s i (at_time (\<lambda>e. e\<lparr>e_subscription := snapshot\<rparr>) r now)))"

definition set_provider_favorite :: "platform \<Rightarrow> entry_tools \<Rightarrow> session \<Rightarrow> uuid \<Rightarrow> bool \<Rightarrow> unit act" where
  "set_provider_favorite c t s i favorite =
    bind (decrypt_provider_path c t s (record_path c i)) (\<lambda>r.
    if e_favorite (entry r) = favorite then yield ()
    else store c t s i (at_time (\<lambda>e. e\<lparr>e_favorite := favorite\<rparr>) r)
           (if favorite then ''provider.favorite'' else ''provider.unfavorite''))"

text \<open>Both return the record whose summary the caller gets, when they changed it.\<close>

definition set_provider_favicon_url ::
  "platform \<Rightarrow> entry_tools \<Rightarrow> session \<Rightarrow> uuid \<Rightarrow> string \<Rightarrow> provider_record option act" where
  "set_provider_favicon_url c t s i url =
    (let u = trim url in
     if u = [] then yield None
     else bind (decrypt_provider_path c t s (record_path c i)) (\<lambda>r.
          if is_some_and (e_favicon_url (entry r)) (\<lambda>v. trim v \<noteq> []) then yield None
          else bind (read_clock c) (\<lambda>now.
               let r' = at_time (\<lambda>e. e\<lparr>e_favicon_url := Some u\<rparr>) r now in
               bind (write_provider_record c t s i r') (\<lambda>_.
               bind (note_event c t s ''provider.favicon_backfill'' (Some i) None) (\<lambda>_. yield (Some r'))))))"

definition replace_provider_favicon_url ::
  "platform \<Rightarrow> entry_tools \<Rightarrow> session \<Rightarrow> uuid \<Rightarrow> string \<Rightarrow> provider_record option act" where
  "replace_provider_favicon_url c t s i url =
    (let u = trim url in
     if u = [] then yield None
     else bind (decrypt_provider_path c t s (record_path c i)) (\<lambda>r.
          if e_favicon_url (entry r) = Some u then yield None
          else bind (read_clock c) (\<lambda>now.
               let r' = at_time (\<lambda>e. e\<lparr>e_favicon_url := Some u\<rparr>) r now in
               bind (write_provider_record c t s i r') (\<lambda>_.
               bind (note_event c t s ''provider.favicon_refresh'' (Some i) None) (\<lambda>_. yield (Some r'))))))"

definition archive_provider :: "platform \<Rightarrow> entry_tools \<Rightarrow> session \<Rightarrow> uuid \<Rightarrow> unit act" where
  "archive_provider c t s i =
    bind (decrypt_provider_path c t s (record_path c i)) (\<lambda>r.
    bind (read_clock c) (\<lambda>at. store c t s i (at_time (\<lambda>e. e\<lparr>e_archived_at := Some at\<rparr>) r) ''provider.archive''))"

definition restore_provider :: "platform \<Rightarrow> entry_tools \<Rightarrow> session \<Rightarrow> uuid \<Rightarrow> unit act" where
  "restore_provider c t s i =
    bind (decrypt_provider_path c t s (record_path c i)) (\<lambda>r.
    store c t s i (at_time (\<lambda>e. e\<lparr>e_archived_at := None, e_deleted_at := None\<rparr>) r) ''provider.restore'')"

definition trash_provider :: "platform \<Rightarrow> entry_tools \<Rightarrow> session \<Rightarrow> uuid \<Rightarrow> unit act" where
  "trash_provider c t s i =
    bind (decrypt_provider_path c t s (record_path c i)) (\<lambda>r.
    bind (read_clock c) (\<lambda>at. store c t s i (at_time (\<lambda>e. e\<lparr>e_deleted_at := Some at\<rparr>) r) ''provider.trash''))"

definition touch_provider_last_used :: "platform \<Rightarrow> entry_tools \<Rightarrow> session \<Rightarrow> uuid \<Rightarrow> unit act" where
  "touch_provider_last_used c t s i =
    bind (decrypt_provider_path c t s (record_path c i)) (\<lambda>r.
    bind (read_clock c) (\<lambda>at. write_provider_record c t s i (set_entry (\<lambda>e. e\<lparr>e_last_used_at := Some at\<rparr>) r)))"

section \<open>Handing secrets out\<close>

definition reveal_selected_secret :: "platform \<Rightarrow> entry_tools \<Rightarrow> session \<Rightarrow> uuid \<Rightarrow> string \<Rightarrow> bool \<Rightarrow> string act" where
  "reveal_selected_secret c t s i sel exact =
    bind (decrypt_provider_path c t s (record_path c i)) (\<lambda>r.
    bind (lift (ok_or RecordNotFound
      (if exact then position (\<lambda>x. sr_id x = sel) (refs r) else find_secret_ref_position (refs r) sel))) (\<lambda>n.
    bind (lift (ok_or RecordNotFound (hm_get (secrets r) (sr_id (refs r ! n))))) (\<lambda>secret.
    bind (read_clock c) (\<lambda>at.
    bind (write_provider_record c t s i (set_entry (\<lambda>e. e\<lparr>e_last_used_at := Some at\<rparr>) r)) (\<lambda>_.
    bind (note_event c t s ''secret.reveal'' (Some i) None) (\<lambda>_. yield secret))))))"

definition reveal_provider_headers :: "platform \<Rightarrow> entry_tools \<Rightarrow> session \<Rightarrow> uuid \<Rightarrow> (string \<times> string) list act" where
  "reveal_provider_headers c t s i =
    bind (decrypt_provider_path c t s (record_path c i)) (\<lambda>r.
    bind (note_event c t s ''provider.headers.reveal'' (Some i) None) (\<lambda>_. yield (e_headers (entry r))))"

definition runtime_provider_credentials ::
  "platform \<Rightarrow> entry_tools \<Rightarrow> session \<Rightarrow> uuid \<Rightarrow> string \<Rightarrow> (string \<times> (string \<times> string) list) act" where
  "runtime_provider_credentials c t s i sid =
    bind ensure_sync_ready (\<lambda>_.
    bind (decrypt_provider_path c t s (record_path c i)) (\<lambda>r.
    if e_archived_at (entry r) \<noteq> None \<or> e_deleted_at (entry r) \<noteq> None then lift (Inl RecordNotFound)
    else bind (lift (ok_or RecordNotFound (hm_get (secrets r) sid))) (\<lambda>secret. yield (secret, e_headers (entry r)))))"

section \<open>Subscriptions bound to an entry\<close>

definition provider_runtime_extension :: "platform \<Rightarrow> entry_tools \<Rightarrow> session \<Rightarrow> uuid \<Rightarrow> string \<Rightarrow> string option act" where
  "provider_runtime_extension c t s i key =
    bind (decrypt_provider_path c t s (record_path c i)) (\<lambda>r. yield (hm_get (runtime_extensions r) key))"

definition set_provider_runtime_extension ::
  "platform \<Rightarrow> entry_tools \<Rightarrow> session \<Rightarrow> uuid \<Rightarrow> string \<Rightarrow> string option \<Rightarrow> unit act" where
  "set_provider_runtime_extension c t s i key v =
    bind (decrypt_provider_path c t s (record_path c i)) (\<lambda>r.
    store c t s i (at_time id (r\<lparr>runtime_extensions :=
      (case v of None \<Rightarrow> hm_del key (runtime_extensions r) | Some x \<Rightarrow> hm_put key x (hm_del key (runtime_extensions r)))\<rparr>))
      ''provider.runtime.update'')"

definition migrate_subscription_scope ::
  "platform \<Rightarrow> entry_tools \<Rightarrow> session \<Rightarrow> uuid \<Rightarrow> string \<Rightarrow> string \<Rightarrow> string \<Rightarrow> string \<Rightarrow> string \<Rightarrow> unit act" where
  "migrate_subscription_scope c t s i expected_marker expected_bundle identity marker bundle =
    bind (decrypt_provider_path c t s (record_path c i)) (\<lambda>r.
    case refs r of [] \<Rightarrow> lift (Inl RecordNotFound)
    | x # _ \<Rightarrow>
        if e_provider_id (entry r) \<noteq> Some ''devin'' \<or> hm_get (secrets r) (sr_id x) \<noteq> Some expected_marker \<or>
           hm_get (runtime_extensions r) ''community_account_v1'' \<noteq> Some expected_bundle \<or>
           hm_get (runtime_extensions r) ''community_account_v2'' \<noteq> None
        then lift (Inl InvalidSecretValue)
        else store c t s i (at_time (\<lambda>e. e\<lparr>e_account_identity := Some identity, e_subscription := None, e_quota := None\<rparr>)
          ((replace_first c (index_key s) marker r)\<lparr>runtime_extensions :=
            hm_put ''community_account_v2'' bundle
              (hm_del ''community_usage_v1'' (hm_del ''community_account_v1'' (runtime_extensions r)))\<rparr>))
          ''provider.scope.migrate'')"

definition bind_cli_subscription ::
  "platform \<Rightarrow> entry_tools \<Rightarrow> session \<Rightarrow> uuid \<Rightarrow> string \<Rightarrow> string \<Rightarrow> string \<Rightarrow> string \<Rightarrow> string \<Rightarrow> unit act" where
  "bind_cli_subscription c t s i provider identity marker extension_key reference =
    bind (decrypt_provider_path c t s (record_path c i)) (\<lambda>r.
    case refs r of [] \<Rightarrow> lift (Inl RecordNotFound)
    | x # _ \<Rightarrow>
        let own = (provider = ''devin'' \<or> extension_key = ''community_account_v3'');
            ext = (if own then hm_del ''community_usage_v1'' (runtime_extensions r) else runtime_extensions r);
            gone = [''claude_native'', ''copilot_auth_v1'', ''community_account_v1'', ''community_account_v2'',
              ''community_account_v3'', extension_key]
        in store c t s i (at_time (\<lambda>e. (if own then e\<lparr>e_subscription := None, e_quota := None\<rparr> else e)
             \<lparr>e_provider_id := Some provider, e_credential_kind := OAuth, e_account_identity := Some identity,
              e_supports_websockets := Some False\<rparr>)
             ((replace_first c (index_key s) marker r)\<lparr>runtime_extensions :=
               hm_put extension_key reference (fold hm_del gone ext)\<rparr>))
             ''provider.cli.bind'')"

section \<open>The records on disk\<close>

definition record_in :: "platform \<Rightarrow> entry_tools \<Rightarrow> session \<Rightarrow> bytes \<Rightarrow> provider_record option" where
  "record_in c t s b =
    (case envelope_parse c b of None \<Rightarrow> None
     | Some e \<Rightarrow> if tombstone e \<or> object_type e \<noteq> ''provider_entry'' then None
         else (case decrypt_envelope_with_epoch c e (epoch_key s) of Inl _ \<Rightarrow> None | Inr m \<Rightarrow> record_parse t m))"

definition record_at :: "platform \<Rightarrow> entry_tools \<Rightarrow> session \<Rightarrow> world \<Rightarrow> uuid \<Rightarrow> provider_record option" where
  "record_at c t s w i = Option.bind (hm_get (files w) (record_path c i)) (record_in c t s)"

text \<open>
  What is relied on of the JSON of a record: parsing gives back the record that was printed, but
  for the numbers of its subscription snapshot, which need not survive as decimals.
\<close>

definition tools_ok :: "entry_tools \<Rightarrow> bool" where
  "tools_ok t \<longleftrightarrow> (\<forall>r. \<exists>x. record_parse t (record_json t r) = Some (set_entry (\<lambda>e. e\<lparr>e_subscription := x\<rparr>) r))"

definition entries_wf :: "platform \<Rightarrow> entry_tools \<Rightarrow> session \<Rightarrow> world \<Rightarrow> bool" where
  "entries_wf c t s w \<longleftrightarrow> (\<forall>i r. record_at c t s w i = Some r \<longrightarrow> record_wf c (index_key s) r)"

definition keeps :: "platform \<Rightarrow> entry_tools \<Rightarrow> session \<Rightarrow> 'a act \<Rightarrow> bool" where
  "keeps c t s f \<longleftrightarrow> (\<forall>w. entries_wf c t s w \<longrightarrow> entries_wf c t s (snd (f w)))"

text \<open>Operations that leave every record alone.\<close>

definition frames :: "platform \<Rightarrow> 'a act \<Rightarrow> bool" where
  "frames c f \<longleftrightarrow> (\<forall>w i. hm_get (files (snd (f w))) (record_path c i) = hm_get (files w) (record_path c i))"

lemma framesD: "frames c f \<Longrightarrow> f w = (r, w') \<Longrightarrow> record_at c t s w' i = record_at c t s w i"
  unfolding frames_def record_at_def by (metis snd_conv)

lemma frames_keeps: "frames c f \<Longrightarrow> keeps c t s f"
  by (simp add: frames_def keeps_def entries_wf_def record_at_def)

lemma frames_bind:
  assumes "frames c f" "\<And>x. frames c (g x)"
  shows "frames c (bind f g)"
  unfolding frames_def
proof (intro allI)
  fix w i
  obtain r v where f: "f w = (r, v)" by (cases "f w")
  with assms show "hm_get (files (snd (bind f g w))) (record_path c i) = hm_get (files w) (record_path c i)"
    unfolding frames_def by (cases r) (auto simp: bind_def dest!: spec [of _ w])
qed

lemma touches_frames: "touches R f \<Longrightarrow> (\<And>i. record_path c i \<notin> R) \<Longrightarrow> frames c f"
  unfolding frames_def touches_def same_outside_def by blast

lemma prunes_frames: "prunes_only f \<Longrightarrow> frames c f"
proof -
  have "record_path c i \<noteq> retention_marker" "\<not> in_audit (record_path c i)" for i
    by (simp_all add: record_path_def retention_marker_def in_audit_def)
  then show "prunes_only f \<Longrightarrow> frames c f" unfolding prunes_only_def prunes_def frames_def by blast
qed

lemma frames_basic:
  "frames c (yield x)" "frames c (lift v)" "frames c (new_uuid c')" "frames c (read_clock c')" "frames c (ignoring f) = frames c f"
  by (simp_all add: frames_def yield_def lift_def new_uuid_def read_clock_def ignoring_def)

lemma note_frames: "prunes_only (upkeep_pass t) \<Longrightarrow> frames c (note_event c t s a i d)"
proof -
  assume up: "prunes_only (upkeep_pass t)"
  have "frames c (write_envelope c s (audit_path c u) u ty sc m)" for u ty sc m
    unfolding write_envelope_def write_envelope_json_def
    by (rule touches_frames, intro act) (auto simp: audit_path_def record_path_def)
  then show ?thesis unfolding note_event_def audit_def
    by (intro frames_bind) (simp_all add: frames_basic prunes_frames [OF up])
qed

lemma decrypt_provider_frames: "frames c (decrypt_provider_path c t s p)"
proof -
  have "frames c (bind (read_envelope c p) (\<lambda>e. if tombstone e \<or> object_type e \<noteq> ''provider_entry''
      then lift (Inl RecordNotFound)
      else bind (decrypt_envelope_path c s p) (\<lambda>b. lift (ok_or JsonError (record_parse t b)))))"
    unfolding decrypt_envelope_path_def by (rule touches_frames [where R = "{}"], intro act) (auto intro!: act)
  then show ?thesis by (simp add: frames_def decrypt_provider_path_def)
qed

lemma draws_read_envelope: "read_envelope c p w = (x, w') \<Longrightarrow> draws w' = draws w"
  by (auto simp: read_envelope_def bind_def lift_def read_file_def next_fault_def split: list.splits if_splits sum.splits)

lemma decrypt_provider_Inr:
  assumes "decrypt_provider_path c t s (record_path c i) w = (Inr r, w')"
  shows "record_at c t s w i = Some r" "files w' = files w" "draws w' = draws w"
proof -
  show "record_at c t s w i = Some r" "files w' = files w"
    using assms
    by (auto simp: decrypt_provider_path_def decrypt_envelope_path_def bind_Inr ok_or_Inr record_at_def record_in_def
        split: if_splits dest!: read_envelope_Inr)
  show "draws w' = draws w"
    using assms
    by (auto simp: decrypt_provider_path_def decrypt_envelope_path_def bind_Inr split: if_splits dest!: draws_read_envelope)
qed

lemma keeps_bind:
  assumes "keeps c t s f" "\<And>x. keeps c t s (g x)"
  shows "keeps c t s (bind f g)"
  unfolding keeps_def
proof (intro allI impI)
  fix w assume w: "entries_wf c t s w"
  obtain r v where f: "f w = (r, v)" by (cases "f w")
  have "entries_wf c t s v" using assms(1) w f unfolding keeps_def by (metis snd_conv)
  with f assms(2) show "entries_wf c t s (snd (bind f g w))" unfolding keeps_def by (cases r) (simp_all add: bind_def)
qed

text \<open>After reading a record the rest may rely on what it read.\<close>

lemma keeps_read:
  assumes "\<And>r. record_wf c (index_key s) r \<Longrightarrow> keeps c t s (g r)"
  shows "keeps c t s (bind (decrypt_provider_path c t s (record_path c i)) g)"
  unfolding keeps_def
proof (intro allI impI)
  fix w assume w: "entries_wf c t s w"
  obtain x v where d: "decrypt_provider_path c t s (record_path c i) w = (x, v)"
    by (cases "decrypt_provider_path c t s (record_path c i) w")
  have v: "entries_wf c t s v"
    using frames_keeps [OF decrypt_provider_frames] w d unfolding keeps_def by (metis snd_conv)
  show "entries_wf c t s (snd (bind (decrypt_provider_path c t s (record_path c i)) g w))"
  proof (cases x)
    case (Inl e)
    with d v show ?thesis by (simp add: bind_def)
  next
    case (Inr r)
    have "record_wf c (index_key s) r"
      using decrypt_provider_Inr(1) [OF d [unfolded Inr]] w by (simp add: entries_wf_def)
    with assms v d Inr show ?thesis by (simp add: bind_def keeps_def)
  qed
qed

lemma written_record:
  assumes "platform_ok c" "tools_ok t"
    and "build_envelope c s p i ''provider_entry'' n (record_json t r) w = (Inr e, w')"
  shows "\<exists>x. record_in c t s (envelope_pretty c e) = Some (set_entry (\<lambda>e. e\<lparr>e_subscription := x\<rparr>) r)"
  using build_envelope_Inr [OF assms(1,3)] assms(1,2)
  by (auto simp: record_in_def platform_ok_def tools_ok_def)

lemma keeps_write:
  assumes "platform_ok c" "tools_ok t" "record_wf c (index_key s) r"
  shows "keeps c t s (write_provider_record c t s i r)"
  unfolding keeps_def
proof (intro allI impI)
  fix w assume w: "entries_wf c t s w"
  let ?p = "record_path c i"
  obtain x w1 where b: "build_envelope c s ?p i ''provider_entry'' 1 (record_json t r) w = (x, w1)"
    by (cases "build_envelope c s ?p i ''provider_entry'' 1 (record_json t r) w")
  have "frames c (build_envelope c s ?p i ''provider_entry'' 1 (record_json t r))"
    by (rule touches_frames [where R = "{}"]) (simp_all add: touches_build)
  then have w1: "entries_wf c t s w1" using frames_keeps w b unfolding keeps_def by (metis snd_conv)
  show "entries_wf c t s (snd (write_provider_record c t s i r w))"
  proof (cases x)
    case (Inl e)
    with b w1 show ?thesis by (simp add: write_provider_record_def write_envelope_def bind_def)
  next
    case (Inr e)
    obtain y w2 where wr: "atomic_write_bytes ?p (envelope_pretty c e) w1 = (y, w2)"
      by (cases "atomic_write_bytes ?p (envelope_pretty c e) w1")
    obtain z where z: "record_in c t s (envelope_pretty c e) = Some (set_entry (\<lambda>e. e\<lparr>e_subscription := z\<rparr>) r)"
      using written_record [OF assms(1,2) b [unfolded Inr]] by blast
    have "record_wf c (index_key s) (set_entry (\<lambda>e. e\<lparr>e_subscription := z\<rparr>) r)"
      by (rule record_wf_set_entry [OF assms(3)]) simp_all
    moreover have "files w2 = files w1 \<or> files w2 = hm_put ?p (envelope_pretty c e) (files w1)"
      using wr write_Inr [of ?p _ w1 _ w2] write_Inl [of ?p _ w1 _ w2] by (cases y) auto
    ultimately have "entries_wf c t s w2"
      using w1 z by (auto simp: entries_wf_def record_at_def split: if_splits)
    with b Inr wr show ?thesis by (simp add: write_provider_record_def write_envelope_def write_envelope_json_def bind_def)
  qed
qed

lemma keeps_store:
  assumes "platform_ok c" "tools_ok t" "prunes_only (upkeep_pass t)" "\<And>now. record_wf c (index_key s) (f now)"
  shows "keeps c t s (store c t s i f action)"
  unfolding store_def
  by (intro keeps_bind keeps_write assms frames_keeps [OF note_frames [OF assms(3)]] frames_keeps [OF frames_basic(4)])

section \<open>Records stay well formed\<close>

datatype entry_op =
    AddProvider entry_input "(string, string) hmap"
  | AddSecret uuid string string secret_metadata
  | UpdateSecret uuid string string "string option"
  | SetMetadata uuid string secret_metadata
  | RemoveSecret uuid string
  | UpdateProvider uuid entry_update
  | DisableWebsocket uuid websocket_warning
  | UpdateUsage uuid "quota_info option" "gateway_metadata option" "string option"
  | UpdateSubscription uuid "subscription_snapshot option"
  | SetFavorite uuid bool
  | SetFavicon uuid string
  | ReplaceFavicon uuid string
  | Archive uuid
  | Restore uuid
  | Trash uuid
  | Touch uuid
  | Reveal uuid string bool
  | RevealHeaders uuid
  | SetExtension uuid string "string option"
  | MigrateScope uuid string string string string string
  | BindCli uuid string string string string string

definition discard :: "'a act \<Rightarrow> unit act" where
  "discard f = bind f (\<lambda>_. yield ())"

fun run_entry_op :: "platform \<Rightarrow> entry_tools \<Rightarrow> session \<Rightarrow> entry_op \<Rightarrow> unit act" where
  "run_entry_op c t s (AddProvider input ext) = discard (add_provider_record c t s input ext)"
| "run_entry_op c t s (AddSecret i label secret md) = discard (add_secret_with_metadata c t s i label secret md)"
| "run_entry_op c t s (UpdateSecret i sid label secret) = discard (update_secret c t s i sid label secret)"
| "run_entry_op c t s (SetMetadata i sel md) = discard (set_secret_metadata c t s i sel md)"
| "run_entry_op c t s (RemoveSecret i sel) = discard (remove_secret c t s i sel)"
| "run_entry_op c t s (UpdateProvider i u) = update_provider c t s i u"
| "run_entry_op c t s (DisableWebsocket i warning) = disable_provider_websocket c t s i warning"
| "run_entry_op c t s (UpdateUsage i q g src) = update_provider_usage c t s i q g src"
| "run_entry_op c t s (UpdateSubscription i snapshot) = update_provider_subscription c t s i snapshot"
| "run_entry_op c t s (SetFavorite i b) = set_provider_favorite c t s i b"
| "run_entry_op c t s (SetFavicon i u) = discard (set_provider_favicon_url c t s i u)"
| "run_entry_op c t s (ReplaceFavicon i u) = discard (replace_provider_favicon_url c t s i u)"
| "run_entry_op c t s (Archive i) = archive_provider c t s i"
| "run_entry_op c t s (Restore i) = restore_provider c t s i"
| "run_entry_op c t s (Trash i) = trash_provider c t s i"
| "run_entry_op c t s (Touch i) = touch_provider_last_used c t s i"
| "run_entry_op c t s (Reveal i sel exact) = discard (reveal_selected_secret c t s i sel exact)"
| "run_entry_op c t s (RevealHeaders i) = discard (reveal_provider_headers c t s i)"
| "run_entry_op c t s (SetExtension i key v) = set_provider_runtime_extension c t s i key v"
| "run_entry_op c t s (MigrateScope i m0 b0 identity m b) = migrate_subscription_scope c t s i m0 b0 identity m b"
| "run_entry_op c t s (BindCli i p identity m key ref) = bind_cli_subscription c t s i p identity m key ref"

text \<open>The next identifier drawn differs from those of the entry's keys.\<close>

definition fresh_keys :: "platform \<Rightarrow> entry_tools \<Rightarrow> session \<Rightarrow> world \<Rightarrow> uuid \<Rightarrow> bool" where
  "fresh_keys c t s w i \<longleftrightarrow> (\<forall>r. record_at c t s w i = Some r \<longrightarrow>
    uuid_text c (random_uuid c (draws w)) \<notin> sr_id ` set (refs r))"

lemma keeps_simps:
  "keeps c t s (yield x)" "keeps c t s (lift v)" "keeps c t s (new_uuid c')" "keeps c t s (read_clock c')"
  by (simp_all add: frames_keeps frames_basic)

lemma keeps_discard: "keeps c t s f \<Longrightarrow> keeps c t s (discard f)"
  unfolding discard_def by (intro keeps_bind keeps_simps)

lemma keeps_let: "keeps c t s (f x) \<Longrightarrow> keeps c t s (let y = x in f y)"
  by simp

lemma keeps_if: "(b \<Longrightarrow> keeps c t s f) \<Longrightarrow> (\<not> b \<Longrightarrow> keeps c t s g) \<Longrightarrow> keeps c t s (if b then f else g)"
  by simp

lemma keeps_lift_bind: "(\<And>x. v = Inr x \<Longrightarrow> keeps c t s (g x)) \<Longrightarrow> keeps c t s (bind (lift v) g)"
  by (cases v) (simp_all add: bind_def lift_def keeps_def)

lemma record_wf_at_time:
  "record_wf c ik r \<Longrightarrow> (\<And>e. secret_refs (f e) = secret_refs e) \<Longrightarrow>
    (\<And>e. e_max_concurrent_requests (f e) = e_max_concurrent_requests e) \<Longrightarrow> record_wf c ik (at_time f r now)"
  by (rule record_wf_set_entry) simp_all

lemma record_wf_extensions: "record_wf c ik (r\<lparr>runtime_extensions := x\<rparr>) = record_wf c ik r"
  by (simp add: record_wf_def)

lemma find_ref_id: "find (\<lambda>x. sr_id x = i) xs = Some x \<Longrightarrow> i \<in> sr_id ` set xs"
  by (auto dest!: find_SomeD)

lemma find_position_less: "find_secret_ref_position xs sel = Some n \<Longrightarrow> n < length xs"
  by (auto simp: find_secret_ref_position_def or_else_def dest!: position_Some split: option.splits if_splits)

lemma keeps_add_secret:
  assumes c: "platform_ok c" and t: "tools_ok t" and up: "prunes_only (upkeep_pass t)"
    and w: "entries_wf c t s w" "fresh_keys c t s w i"
  shows "entries_wf c t s (snd (add_secret_with_metadata c t s i label secret md w))"
proof (cases "normalize_user_secret_label label")
  case None
  with w show ?thesis by (simp add: add_secret_with_metadata_def bind_def lift_def)
next
  case (Some l)
  obtain x v where d: "decrypt_provider_path c t s (record_path c i) w = (x, v)"
    by (cases "decrypt_provider_path c t s (record_path c i) w")
  have v: "entries_wf c t s v" using frames_keeps [OF decrypt_provider_frames] w(1) d unfolding keeps_def by (metis snd_conv)
  show ?thesis
  proof (cases "secret = [] \<or> (\<exists>e. x = Inl e) \<or> (\<exists>r. x = Inr r \<and> list_ex (\<lambda>x. sr_label x = l) (refs r))")
    case True
    with Some d v w show ?thesis by (auto simp: add_secret_with_metadata_def bind_def lift_def)
  next
    case False
    then obtain r where r: "x = Inr r" "\<not> list_ex (\<lambda>x. sr_label x = l) (refs r)" "secret \<noteq> []" by (cases x) auto
    note read = decrypt_provider_Inr [OF d [unfolded r(1)]]
    let ?sid = "uuid_text c (random_uuid c (draws v))"
    have "record_wf c (index_key s) r" using w(1) read(1) by (simp add: entries_wf_def)
    moreover have "?sid \<notin> sr_id ` set (refs r)" using w(2) read by (simp add: fresh_keys_def)
    ultimately have "keeps c t s (bind (store c t s i (\<lambda>now. push_secret c (index_key s) md now ?sid l secret r) ''secret.add'')
        (\<lambda>_. yield ?sid))"
      using r(2) by (intro keeps_bind keeps_store [OF c t up] push_secret_wf keeps_simps)
    moreover have "entries_wf c t s (v\<lparr>draws := Suc (draws v)\<rparr>)" using v by (simp add: entries_wf_def record_at_def)
    ultimately show ?thesis using Some d r by (simp add: add_secret_with_metadata_def bind_draws bind_def lift_def keeps_def
          new_uuid_def)
  qed
qed

lemmas keeps_steps = keeps_simps keeps_read keeps_if keeps_let keeps_lift_bind keeps_discard keeps_bind

lemmas wf_edits = record_wf_at_time record_wf_set_entry new_record_wf without_secret_wf with_metadata_wf updated_record_wf
  replace_first_wf

lemma keeps_keys:
  assumes "platform_ok c" "tools_ok t" "prunes_only (upkeep_pass t)"
  shows "keeps c t s (add_provider_record c t s input ext)" "keeps c t s (set_secret_metadata c t s i sel md)"
    "keeps c t s (remove_secret c t s i sel)"
proof -
  note io = keeps_write [OF assms(1,2)] keeps_store [OF assms] frames_keeps [OF note_frames [OF assms(3)]] keeps_steps
  show "keeps c t s (add_provider_record c t s input ext)" unfolding add_provider_record_def by (intro io wf_edits)
  show "keeps c t s (set_secret_metadata c t s i sel md)"
    unfolding set_secret_metadata_def by (intro io wf_edits) (auto simp: ok_or_Inr dest: find_position_less)
  show "keeps c t s (remove_secret c t s i sel)" unfolding remove_secret_def by (intro io wf_edits)
qed

lemma keeps_fields:
  assumes "platform_ok c" "tools_ok t" "prunes_only (upkeep_pass t)"
  shows "keeps c t s (disable_provider_websocket c t s i x)" "keeps c t s (update_provider_usage c t s i q g src)"
    "keeps c t s (update_provider_subscription c t s i y)" "keeps c t s (set_provider_favorite c t s i b)"
    "keeps c t s (set_provider_favicon_url c t s i u)" "keeps c t s (replace_provider_favicon_url c t s i u)"
    "keeps c t s (archive_provider c t s i)" "keeps c t s (restore_provider c t s i)" "keeps c t s (trash_provider c t s i)"
    "keeps c t s (touch_provider_last_used c t s i)" "keeps c t s (reveal_selected_secret c t s i sel exact)"
    "keeps c t s (reveal_provider_headers c t s i)"
  unfolding disable_provider_websocket_def update_provider_usage_def update_provider_subscription_def updated_usage_def
    set_provider_favorite_def set_provider_favicon_url_def replace_provider_favicon_url_def archive_provider_def
    restore_provider_def trash_provider_def touch_provider_last_used_def reveal_selected_secret_def
    reveal_provider_headers_def
  by (intro keeps_write [OF assms(1,2)] keeps_store [OF assms] frames_keeps [OF note_frames [OF assms(3)]] keeps_steps
      wf_edits; simp)+

lemma keeps_bindings:
  assumes "platform_ok c" "tools_ok t" "prunes_only (upkeep_pass t)"
  shows "keeps c t s (set_provider_runtime_extension c t s i key v)"
    "keeps c t s (migrate_subscription_scope c t s i m0 b0 identity m b)"
    "keeps c t s (bind_cli_subscription c t s i p identity m key ref)"
proof -
  note io = keeps_write [OF assms(1,2)] keeps_store [OF assms] keeps_steps
  show "keeps c t s (set_provider_runtime_extension c t s i key v)"
    unfolding set_provider_runtime_extension_def by (intro io wf_edits) (simp_all add: record_wf_extensions)
  have m: "keeps c t s (case refs r of [] \<Rightarrow> lift e | x # xs \<Rightarrow> f x)" if "\<And>x. keeps c t s (f x)" for r e f
    using that by (cases "refs r") (simp_all add: keeps_simps)
  show "keeps c t s (migrate_subscription_scope c t s i m0 b0 identity m b)"
    unfolding migrate_subscription_scope_def
    by (intro io m wf_edits) (simp_all add: record_wf_extensions replace_first_wf)
  show "keeps c t s (bind_cli_subscription c t s i p identity m key ref)"
    unfolding bind_cli_subscription_def
    by (intro io m wf_edits) (simp_all add: record_wf_extensions replace_first_wf)
qed

lemma keeps_update_secret:
  assumes "platform_ok c" "tools_ok t" "prunes_only (upkeep_pass t)"
  shows "keeps c t s (update_secret c t s i sid label secret)"
proof -
  note io = keeps_store [OF assms] keeps_steps
  have one: "keeps c t s (case changed_secret c (index_key s) sid l secret x r of
        (r', False) \<Rightarrow> yield False
      | (r', True) \<Rightarrow> bind (store c t s i (at_time id r') ''secret.update'') (\<lambda>_. yield True))"
    if "record_wf c (index_key s) r" "\<not> list_ex (\<lambda>x. sr_id x \<noteq> sid \<and> sr_label x = l) (refs r)"
      "find (\<lambda>x. sr_id x = sid) (refs r) = Some x" for l x r
  proof -
    obtain r' b where b: "changed_secret c (index_key s) sid l secret x r = (r', b)"
      by (cases "changed_secret c (index_key s) sid l secret x r")
    have "record_wf c (index_key s) r'"
      using changed_secret_wf [OF that(1,2) find_ref_id [OF that(3)], of secret x] b by simp
    then have "keeps c t s (bind (store c t s i (at_time id r') ''secret.update'') (\<lambda>_. yield True))"
      by (intro io wf_edits) simp_all
    then show ?thesis by (cases b) (simp_all add: b keeps_simps)
  qed
  show ?thesis unfolding update_secret_def by (intro io one) (auto simp: ok_or_Inr)
qed

lemma keeps_update_provider:
  assumes "platform_ok c" "tools_ok t" "prunes_only (upkeep_pass t)"
  shows "keeps c t s (update_provider c t s i u)"
proof -
  note io = keeps_write [OF assms(1,2)] frames_keeps [OF note_frames [OF assms(3)]] keeps_steps
  let ?rest = "\<lambda>r now sid. bind (lift (updated_label u (refs r))) (\<lambda>label.
    bind (write_provider_record c t s i (updated_record c (index_key s) u now i sid label r)) (\<lambda>_.
    note_event c t s ''provider.update'' (Some i) None))"
  have rest: "keeps c t s (?rest r now sid)"
    if "record_wf c (index_key s) r" "refs r \<noteq> [] \<Longrightarrow> sid = sr_id (hd (refs r))" for r now sid
    using that by (intro io wf_edits) simp_all
  have "keeps c t s (bind (case refs r of x # _ \<Rightarrow> yield (sr_id x) | [] \<Rightarrow> bind (new_uuid c) (\<lambda>v. yield (uuid_text c v)))
      (?rest r now))" if r: "record_wf c (index_key s) r" for r now
  proof (cases "refs r")
    case Nil
    then have empty: "keeps c t s (?rest r now sid)" for sid using r by (intro rest) simp_all
    have "keeps c t s (bind (bind (new_uuid c) (\<lambda>v. yield (uuid_text c v))) (?rest r now))"
      by (rule keeps_bind [OF _ empty]) (intro io)
    with Nil show ?thesis by simp
  next
    case (Cons x xs)
    then have "keeps c t s (?rest r now (sr_id x))" using r by (intro rest) simp_all
    with Cons show ?thesis by (simp add: bind_draws keeps_def)
  qed
  from keeps_read [OF keeps_bind [OF keeps_simps(4) this]] show ?thesis unfolding update_provider_def .
qed

text \<open>
  Provider records stay well formed: started on a vault whose readable records all are, any
  operation on an entry leaves them so, wherever the disk fails and whatever the operation
  reports: keys keep identifiers and labels of their own, every stored secret belongs to a key
  that shows its mask and fingerprint, and no concurrency limit is zero.  A new key's identifier
  is assumed to differ from those in use.
\<close>

theorem entries_stay_well_formed:
  assumes "platform_ok c" "tools_ok t" "prunes_only (upkeep_pass t)" "entries_wf c t s w"
    and "\<And>i label secret md. op = AddSecret i label secret md \<Longrightarrow> fresh_keys c t s w i"
  shows "entries_wf c t s (snd (run_entry_op c t s op w))"
proof (cases "\<exists>i label secret md. op = AddSecret i label secret md")
  case True
  then obtain i label secret md where op: "op = AddSecret i label secret md" by blast
  have "entries_wf c t s (snd (discard f w))" if "entries_wf c t s (snd (f w))" for f :: "string act"
    using that by (cases "f w"; cases "fst (f w)") (simp_all add: discard_def bind_def yield_def)
  with keeps_add_secret [OF assms(1-4) assms(5) [OF op]] show ?thesis by (simp add: op)
next
  case False
  note ops = keeps_keys [OF assms(1-3)] keeps_fields [OF assms(1-3)] keeps_bindings [OF assms(1-3)]
    keeps_update_secret [OF assms(1-3)] keeps_update_provider [OF assms(1-3)]
  have "keeps c t s (run_entry_op c t s op)"
    using False by (cases op) (simp_all add: ops keeps_discard)
  then show ?thesis using assms(4) by (simp add: keeps_def)
qed

section \<open>A stored key is the key handed out\<close>

abbreviation with_subscription :: "subscription_snapshot option \<Rightarrow> provider_record \<Rightarrow> provider_record" where
  "with_subscription x r \<equiv> set_entry (\<lambda>e. e\<lparr>e_subscription := x\<rparr>) r"

lemma decrypt_provider_calm:
  assumes "record_at c t s w i = Some r" "faults w = []"
  shows "decrypt_provider_path c t s (record_path c i) w = (Inr r, w)"
proof -
  obtain b e m where b: "hm_get (files w) (record_path c i) = Some b" "envelope_parse c b = Some e" "\<not> tombstone e"
      "object_type e = ''provider_entry''" "decrypt_envelope_with_epoch c e (epoch_key s) = Inr m" "record_parse t m = Some r"
    using assms(1)
    by (cases "hm_get (files w) (record_path c i)")
      (auto simp: record_at_def record_in_def split: option.splits sum.splits if_splits)
  then have "read_envelope c (record_path c i) w = (Inr e, w)"
    using assms(2) by (simp add: read_envelope_def bind_def lift_def)
  with b show ?thesis
    by (simp add: decrypt_provider_path_def path_exists_def bind_def lift_def decrypt_envelope_path_def)
qed

lemma write_provider_Inr:
  assumes "platform_ok c" "tools_ok t" "write_provider_record c t s i r w = (Inr (), w')"
  shows "\<exists>x. record_at c t s w' i = Some (with_subscription x r)"
proof -
  from assms(3) obtain e w1 where b: "build_envelope c s (record_path c i) i ''provider_entry'' 1 (record_json t r) w = (Inr e, w1)"
    and wr: "atomic_write_bytes (record_path c i) (envelope_pretty c e) w1 = (Inr (), w')"
    by (auto simp: write_provider_record_def write_envelope_def write_envelope_json_def bind_Inr)
  from written_record [OF assms(1,2) b] write_Inr [OF wr] show ?thesis by (auto simp: record_at_def)
qed

lemma write_provider_other:
  assumes "write_provider_record c t s i r w = (x, w')" "record_path c j \<noteq> record_path c i"
  shows "record_at c t s w' j = record_at c t s w j"
proof -
  have "touches {record_path c i} (write_provider_record c t s i r)"
    unfolding write_provider_record_def write_envelope_def write_envelope_json_def by (intro act) simp
  from same_outsideD(1) [OF touchesD [OF this assms(1)], of "record_path c j"] assms(2) show ?thesis by (simp add: record_at_def)
qed

lemma write_provider_succeeds:
  assumes "sealing_total c" "faults w = []"
  shows "\<exists>w'. write_provider_record c t s i r w = (Inr (), w') \<and> faults w' = []"
  unfolding write_provider_record_def by (rule write_succeeds [OF assms])

lemma store_Inr:
  assumes c: "platform_ok c" "tools_ok t" "prunes_only (upkeep_pass t)" and st: "store c t s i f action w = (Inr (), w')"
  shows "\<exists>x. record_at c t s w' i = Some (with_subscription x (f (now_utc c (draws w))))"
proof -
  from st obtain w1 where w1: "write_provider_record c t s i (f (now_utc c (draws w))) (w\<lparr>draws := Suc (draws w)\<rparr>) = (Inr (), w1)"
    and n: "note_event c t s action (Some i) None w1 = (Inr (), w')"
    by (auto simp: store_def bind_Inr read_clock_def)
  from write_provider_Inr [OF c(1,2) w1] framesD [OF note_frames [OF c(3)] n] show ?thesis by simp
qed

lemma reveal_succeeds:
  assumes "sealing_total c" "quiet (upkeep_pass t)" "faults w = []" "record_at c t s w i = Some r"
    and "(if exact then position (\<lambda>x. sr_id x = sel) (refs r) else find_secret_ref_position (refs r) sel) = Some n"
    and "hm_get (secrets r) (sr_id (refs r ! n)) = Some v"
  shows "\<exists>w'. reveal_selected_secret c t s i sel exact w = (Inr v, w') \<and> faults w' = []"
proof -
  let ?r = "set_entry (\<lambda>e. e\<lparr>e_last_used_at := Some (now_utc c (draws w))\<rparr>) r"
  have "faults (w\<lparr>draws := Suc (draws w)\<rparr>) = []" using assms(3) by simp
  from write_provider_succeeds [OF assms(1) this, of t s i ?r]
  obtain w1 where w1: "write_provider_record c t s i ?r (w\<lparr>draws := Suc (draws w)\<rparr>) = (Inr (), w1)" "faults w1 = []"
    by blast
  obtain w2 where "note_event c t s ''secret.reveal'' (Some i) None w1 = (Inr (), w2)" "faults w2 = []"
    using audit_succeeds [OF assms(1) w1(2) assms(2)] unfolding note_event_def by blast
  with w1(1) decrypt_provider_calm [OF assms(4,3)] assms(5,6) show ?thesis
    by (simp add: reveal_selected_secret_def bind_def lift_def read_clock_def yield_def)
qed

lemma position_mem: "x \<in> set xs \<Longrightarrow> P x \<Longrightarrow> \<exists>n. position P xs = Some n \<and> n < length xs \<and> P (xs ! n)"
  using position_None [of P xs] position_Some [of P xs] by (cases "position P xs") auto

text \<open>
  C9. A key that was added is the key handed out: after an addition that reports success the
  entry has its old keys and one more, every other secret is what it was, and on a working disk
  revealing the returned identifier gives the secret.
\<close>

theorem added_secret_is_revealed:
  assumes "platform_ok c" "tools_ok t" "prunes_only (upkeep_pass t)"
    and "add_secret_with_metadata c t s i label secret md w = (Inr sid, w')"
  shows "\<exists>r r'. record_at c t s w i = Some r \<and> record_at c t s w' i = Some r' \<and>
    map sr_id (refs r') = map sr_id (refs r) @ [sid] \<and>
    (\<forall>k. hm_get (secrets r') k = (if k = sid then Some secret else hm_get (secrets r) k)) \<and>
    (sealing_total c \<and> quiet (upkeep_pass t) \<and> faults w' = [] \<longrightarrow>
      (\<exists>w''. reveal_selected_secret c t s i sid True w' = (Inr secret, w'')))"
proof -
  from assms(4) obtain l r w1 w2 where d: "decrypt_provider_path c t s (record_path c i) w = (Inr r, w1)"
    and st: "store c t s i (\<lambda>now. push_secret c (index_key s) md now sid l secret r) ''secret.add'' w2 = (Inr (), w')"
    by (auto simp: add_secret_with_metadata_def bind_Inr new_uuid_def split: if_splits)
  obtain x where x: "record_at c t s w' i =
      Some (with_subscription x (push_secret c (index_key s) md (now_utc c (draws w2)) sid l secret r))"
    using store_Inr [OF assms(1-3) st] by blast
  define r' where "r' = with_subscription x (push_secret c (index_key s) md (now_utc c (draws w2)) sid l secret r)"
  have r': "map sr_id (refs r') = map sr_id (refs r) @ [sid]"
    "hm_get (secrets r') k = (if k = sid then Some secret else hm_get (secrets r) k)" for k
    by (simp_all add: r'_def push_secret_def Let_def)
  have "\<exists>w''. reveal_selected_secret c t s i sid True w' = (Inr secret, w'')"
    if ok: "sealing_total c" "quiet (upkeep_pass t)" "faults w' = []"
  proof -
    have "sid \<in> sr_id ` set (refs r')" using arg_cong [OF r'(1), of set] by simp
    then obtain n where n: "position (\<lambda>x. sr_id x = sid) (refs r') = Some n" "sr_id (refs r' ! n) = sid"
      using position_mem [of _ "refs r'" "\<lambda>x. sr_id x = sid"] by auto
    with reveal_succeeds [OF ok(1,2,3) x [folded r'_def], of True sid n secret] r'(2) show ?thesis by auto
  qed
  with decrypt_provider_Inr(1) [OF d] x r' show ?thesis unfolding r'_def by blast
qed

lemma position_first:
  assumes "x \<in> set xs" "P x" "\<And>y z. y \<in> set xs \<Longrightarrow> z \<in> set xs \<Longrightarrow> P y \<Longrightarrow> P z \<Longrightarrow> y = z"
  shows "\<exists>n. position P xs = Some n \<and> xs ! n = x"
proof -
  obtain n where n: "position P xs = Some n" "n < length xs" "P (xs ! n)" using position_mem [of x xs P] assms(1,2) by blast
  then have "xs ! n = x" using assms(1-3) by (metis nth_mem)
  with n show ?thesis by blast
qed

lemma updated_label_not_taken:
  assumes "updated_label u (x # xs) = Inr label" "y \<in> set xs" "label = Some l"
  shows "l \<noteq> sr_label y"
  using assms by (auto simp: updated_label_def and_then_Inr list_ex_iff split: if_splits)

text \<open>
  C16. An update of the credential can miss the key the entry calls primary: when a later key has
  the label "primary", an update of the entry with a new secret that reports success stores it in
  the first key, and revealing "primary" still hands out the old secret of the labelled key.
\<close>

theorem update_misses_the_labelled_primary:
  assumes "platform_ok c" "tools_ok t" "prunes_only (upkeep_pass t)"
    and "record_at c t s w i = Some r" "record_wf c (index_key s) r"
    and "refs r = x # xs" "y \<in> set xs" "sr_label y = ''primary''" "''primary'' \<notin> sr_id ` set (refs r)"
    and "hm_get (secrets r) (sr_id y) = Some old" "up_api_key u = Some v"
    and "update_provider c t s i u w = (Inr (), w')"
  shows "(\<exists>r'. record_at c t s w' i = Some r' \<and> hm_get (secrets r') (sr_id x) = Some v) \<and>
    (sealing_total c \<and> quiet (upkeep_pass t) \<and> faults w' = [] \<longrightarrow>
      (\<exists>w''. reveal_selected_secret c t s i ''primary'' False w' = (Inr old, w'')))"
proof -
  obtain q v1 where q: "decrypt_provider_path c t s (record_path c i) w = (q, v1)"
    by (cases "decrypt_provider_path c t s (record_path c i) w")
  obtain r0 where r0: "q = Inr r0" using assms(12) q by (cases q) (simp_all add: update_provider_def bind_def)
  have r: "q = Inr r" using decrypt_provider_Inr(1) [OF q [unfolded r0]] assms(4) r0 by simp
  then obtain label w2 where label: "updated_label u (x # xs) = Inr label"
    and wr: "write_provider_record c t s i (updated_record c (index_key s) u (now_utc c (draws v1)) i (sr_id x) label r)
        (v1\<lparr>draws := Suc (draws v1)\<rparr>) = (Inr (), w2)"
    and n: "note_event c t s ''provider.update'' (Some i) None w2 = (Inr (), w')"
    using assms(12) q assms(6)
    by (auto simp: update_provider_def bind_Inr [of "decrypt_provider_path c t s (record_path c i)"] bind_draws
        bind_Inr [of "lift (updated_label u (x # xs))"] bind_Inr [of "write_provider_record c t s i r" for r])
  obtain z where z: "record_at c t s w2 i =
      Some (with_subscription z (updated_record c (index_key s) u (now_utc c (draws v1)) i (sr_id x) label r))"
    using write_provider_Inr [OF assms(1,2) wr] by blast
  define r' where "r' = with_subscription z (updated_record c (index_key s) u (now_utc c (draws v1)) i (sr_id x) label r)"
  have at: "record_at c t s w' i = Some r'" using z framesD [OF note_frames [OF assms(3)] n] by (simp add: r'_def)
  have key: "or_else (up_api_key u) k = Some v" for k using assms(11) by simp
  obtain x' where x': "refs r' = x' # xs" "sr_id x' = sr_id x"
    "sr_label x' = (case label of None \<Rightarrow> sr_label x | Some l \<Rightarrow> l)"
    using assms(6) by (auto simp: r'_def updated_record_def Let_def key updated_refs_def split: option.splits)
  have s': "hm_get (secrets r') k = (if k = sr_id x then Some v else hm_get (secrets r) k)" for k
    by (simp add: r'_def updated_record_def Let_def key)
  have wf: "distinct (map sr_id (x # xs))" "distinct (map sr_label (x # xs))" using assms(5,6) by (simp_all add: record_wf_def)
  have "sr_label x \<noteq> ''primary''" using wf(2) assms(7,8) by (auto simp: image_iff)
  then have "sr_label x' \<noteq> ''primary''"
    using x'(3) updated_label_not_taken [OF label assms(7)] assms(8) by (cases label) auto
  moreover have "z' = y" if "z' \<in> set xs" "sr_label z' = ''primary''" for z'
    using that wf(2) assms(7,8) by (simp add: distinct_map) (metis inj_onD)
  ultimately have one: "z' = y" if "z' \<in> set (refs r')" "sr_label z' = ''primary''" for z'
    using that by (simp only: x'(1) list.set) blast
  have "y \<in> set (refs r')" using assms(7) by (simp add: x'(1))
  from position_first [of y "refs r'" "\<lambda>q. sr_label q = ''primary''", OF this assms(8)] one
  obtain k where k: "position (\<lambda>q. sr_label q = ''primary'') (refs r') = Some k" "refs r' ! k = y" by metis
  have "''primary'' \<notin> sr_id ` set (refs r')" using assms(6,9) x' by auto
  then have "position (\<lambda>q. sr_id q = ''primary'') (refs r') = None" unfolding position_None by (metis imageI)
  with k have "find_secret_ref_position (refs r') ''primary'' = Some k" by (simp add: find_secret_ref_position_def)
  moreover have "sr_id y \<noteq> sr_id x" using wf(1) assms(7) by (auto simp: image_iff)
  then have "hm_get (secrets r') (sr_id y) = Some old" using s' assms(10) by simp
  ultimately have "\<exists>w''. reveal_selected_secret c t s i ''primary'' False w' = (Inr old, w'')"
    if "sealing_total c" "quiet (upkeep_pass t)" "faults w' = []"
    using reveal_succeeds [OF that at, of False "''primary''" k old] k(2) by auto
  moreover have "hm_get (secrets r') (sr_id x) = Some v" by (simp add: s')
  ultimately show ?thesis using at by blast
qed

end
