(* ===== verification/Grants.thy ===== *)
theory Grants
  imports EntryOps
begin

text \<open>
  Time-limited grants, permanent deletion and the check of a single encrypted object
  (\<open>crates/aipass-vault/src/lib.rs\<close>).  A grant is a copy of one secret under its own identifier;
  expiring it and deleting an entry leave a marker in place of the record.
\<close>

section \<open>Grants\<close>

record ttl_grant =
  gr_id :: uuid
  gr_purpose :: string
  gr_entry_id :: "uuid option"
  gr_field_id :: string
  gr_origin :: "string option"
  gr_secret :: string
  gr_created_at :: int
  gr_expires_at :: int

record grant_summary =
  gs_id :: uuid
  gs_purpose :: string
  gs_entry_id :: "uuid option"
  gs_secret_id :: "string option"
  gs_origin :: "string option"
  gs_expires_at :: int

text \<open>The JSON of a grant; parsing undoes printing.\<close>

record grant_codec =
  grant_json :: "ttl_grant \<Rightarrow> bytes"
  grant_parse :: "bytes \<Rightarrow> ttl_grant option"

definition codec_ok :: "grant_codec \<Rightarrow> bool" where
  "codec_ok g \<longleftrightarrow> (\<forall>x. grant_parse g (grant_json g x) = Some x)"

text \<open>Times are nanoseconds; a lifetime is at least one second.\<close>

definition expires_after :: "int \<Rightarrow> int \<Rightarrow> int" where
  "expires_after now ttl_seconds = now + max ttl_seconds 1 * 1000000000"

definition write_grant :: "platform \<Rightarrow> grant_codec \<Rightarrow> session \<Rightarrow> ttl_grant \<Rightarrow> unit act" where
  "write_grant c g s x = write_envelope c s (grant_path c (gr_id x)) (gr_id x) ''ttl_grant'' 1 (grant_json g x)"

definition create_secret_field_grant ::
  "platform \<Rightarrow> entry_tools \<Rightarrow> grant_codec \<Rightarrow> session \<Rightarrow> uuid \<Rightarrow> string \<Rightarrow> string \<Rightarrow> int \<Rightarrow> string option \<Rightarrow> grant_summary act" where
  "create_secret_field_grant c t g s e field purpose ttl origin =
    bind (reveal_selected_secret c t s e field False) (\<lambda>secret.
    bind (find_secret_id_by_value c t s e secret) (\<lambda>sid.
    bind (read_clock c) (\<lambda>now.
    bind (new_uuid c) (\<lambda>i.
    bind (write_grant c g s \<lparr>gr_id = i, gr_purpose = purpose, gr_entry_id = Some e, gr_field_id = field, gr_origin = origin,
      gr_secret = secret, gr_created_at = now, gr_expires_at = expires_after now ttl\<rparr>) (\<lambda>_.
    bind (note_event c t s ''grant.create'' (Some e) (Some purpose)) (\<lambda>_.
    yield \<lparr>gs_id = i, gs_purpose = purpose, gs_entry_id = Some e, gs_secret_id = sid, gs_origin = origin,
      gs_expires_at = expires_after now ttl\<rparr>))))))"

fun issue_grants ::
  "platform \<Rightarrow> grant_codec \<Rightarrow> session \<Rightarrow> uuid \<Rightarrow> string \<Rightarrow> int \<Rightarrow> int \<Rightarrow> string option \<Rightarrow> (string \<times> string) list \<Rightarrow>
    grant_summary list act" where
  "issue_grants c g s e purpose now expires origin [] = yield []"
| "issue_grants c g s e purpose now expires origin ((sid, secret) # rest) =
    bind (new_uuid c) (\<lambda>i.
    bind (write_grant c g s \<lparr>gr_id = i, gr_purpose = purpose, gr_entry_id = Some e, gr_field_id = sid, gr_origin = origin,
      gr_secret = secret, gr_created_at = now, gr_expires_at = expires\<rparr>) (\<lambda>_.
    bind (issue_grants c g s e purpose now expires origin rest) (\<lambda>more.
    yield (\<lparr>gs_id = i, gs_purpose = purpose, gs_entry_id = Some e, gs_secret_id = Some sid, gs_origin = origin,
      gs_expires_at = expires\<rparr> # more))))"

definition create_secret_grants_for_entry ::
  "platform \<Rightarrow> entry_tools \<Rightarrow> grant_codec \<Rightarrow> session \<Rightarrow> uuid \<Rightarrow> string \<Rightarrow> int \<Rightarrow> string option \<Rightarrow> nat \<Rightarrow> grant_summary list act" where
  "create_secret_grants_for_entry c t g s e purpose ttl origin limit =
    bind (decrypt_provider_path c t s (record_path c e)) (\<lambda>r.
    bind (read_clock c) (\<lambda>now.
    let targets = filter_map (\<lambda>x. map_option (\<lambda>v. (sr_id x, v)) (hm_get (secrets r) (sr_id x))) (take (max limit 1) (refs r)) in
    if targets = [] then yield []
    else bind (issue_grants c g s e purpose now (expires_after now ttl) origin targets) (\<lambda>summaries.
         bind (write_provider_record c t s e (set_entry (\<lambda>x. x\<lparr>e_last_used_at := Some now\<rparr>) r)) (\<lambda>_.
         bind (note_event c t s ''grant.create'' (Some e) (Some purpose)) (\<lambda>_. yield summaries)))))"

text \<open>The marker left of a grant keeps the encrypted payload; only its key goes.\<close>

definition expire_grant :: "platform \<Rightarrow> entry_tools \<Rightarrow> session \<Rightarrow> uuid \<Rightarrow> unit act" where
  "expire_grant c t s i w =
    (if \<not> path_exists (grant_path c i) w then (Inl GrantNotFound, w)
     else bind (read_envelope c (grant_path c i)) (\<lambda>e.
          bind (read_clock c) (\<lambda>now.
          bind (write_envelope_json c (grant_path c i)
            (e\<lparr>o_wrapped_dek := None, tombstone := True, o_updated_at := now, lamport := sat_add (lamport e) 1\<rparr>)) (\<lambda>_.
          note_event c t s ''grant.expire'' None (Some (uuid_text c i))))) w)"

definition decrypt_grant :: "platform \<Rightarrow> grant_codec \<Rightarrow> session \<Rightarrow> path \<Rightarrow> ttl_grant act" where
  "decrypt_grant c g s p w =
    (case bind (decrypt_envelope_path c s p) (\<lambda>b. lift (ok_or JsonError (grant_parse g b))) w of
       (Inl (CryptoFailure x), w') \<Rightarrow> (Inl GrantExpired, w')
     | z \<Rightarrow> z)"

definition consume_secret_grant :: "platform \<Rightarrow> entry_tools \<Rightarrow> grant_codec \<Rightarrow> session \<Rightarrow> uuid \<Rightarrow> string act" where
  "consume_secret_grant c t g s i w =
    (if \<not> path_exists (grant_path c i) w then (Inl GrantNotFound, w)
     else bind (decrypt_grant c g s (grant_path c i)) (\<lambda>x.
          bind (read_clock c) (\<lambda>now.
          if gr_expires_at x \<le> now then bind (expire_grant c t s i) (\<lambda>_. lift (Inl GrantExpired))
          else bind (case gr_entry_id x of None \<Rightarrow> yield () | Some e \<Rightarrow> ignoring (touch_provider_last_used c t s e)) (\<lambda>_.
               bind (note_event c t s ''grant.consume'' (gr_entry_id x) (Some (gr_purpose x))) (\<lambda>_.
               yield (gr_secret x))))) w)"

section \<open>Deletion\<close>

definition erased :: "int \<Rightarrow> object_envelope \<Rightarrow> object_envelope" where
  "erased now e = e\<lparr>o_wrapped_dek := None, o_payload := None, tombstone := True, o_updated_at := now,
    lamport := sat_add (lamport e) 1\<rparr>"

definition delete_provider_permanently :: "platform \<Rightarrow> entry_tools \<Rightarrow> session \<Rightarrow> uuid \<Rightarrow> unit act" where
  "delete_provider_permanently c t s i w =
    (if \<not> path_exists (record_path c i) w then (Inl RecordNotFound, w)
     else bind (read_envelope c (record_path c i)) (\<lambda>e.
          if object_id e \<noteq> i \<or> object_type e \<noteq> ''provider_entry'' then lift (Inl RecordNotFound)
          else bind (read_clock c) (\<lambda>now.
               bind (write_envelope_json c (record_path c i) (erased now e)) (\<lambda>_.
               note_event c t s ''provider.delete'' (Some i) None))) w)"

fun filter_act :: "('a \<Rightarrow> bool act) \<Rightarrow> 'a list \<Rightarrow> 'a list act" where
  "filter_act P [] = yield []"
| "filter_act P (x # xs) = bind (P x) (\<lambda>b. bind (filter_act P xs) (\<lambda>ys. yield (if b then x # ys else ys)))"

text \<open>A file that does not parse stays in the list, so that reading it reports the damage.\<close>

definition record_paths :: "platform \<Rightarrow> path list act" where
  "record_paths c =
    bind (encrypted_paths ''objects'' ''aipobj'') (filter_act (\<lambda>p.
      bind (read_ok p) (\<lambda>b. yield (case Option.bind b (envelope_parse c) of
        None \<Rightarrow> True | Some e \<Rightarrow> \<not> tombstone e \<and> object_type e = ''provider_entry''))))"

fun purge_paths :: "platform \<Rightarrow> entry_tools \<Rightarrow> session \<Rightarrow> int \<Rightarrow> path list \<Rightarrow> nat act" where
  "purge_paths c t s cutoff [] = yield 0"
| "purge_paths c t s cutoff (p # ps) =
    bind (decrypt_provider_path c t s p) (\<lambda>r.
    if is_some_and (e_deleted_at (entry r)) (\<lambda>at. at < cutoff)
    then bind (delete_provider_permanently c t s (e_id (entry r))) (\<lambda>_.
         bind (purge_paths c t s cutoff ps) (\<lambda>n. yield (Suc n)))
    else purge_paths c t s cutoff ps)"

definition purge_expired_trash :: "platform \<Rightarrow> entry_tools \<Rightarrow> session \<Rightarrow> int \<Rightarrow> nat act" where
  "purge_expired_trash c t s ttl =
    bind (read_clock c) (\<lambda>now. bind (record_paths c) (purge_paths c t s (now - ttl)))"

section \<open>Checking one object\<close>

definition validate_sync_object_bytes :: "platform \<Rightarrow> session \<Rightarrow> bytes \<Rightarrow> vault_error + unit" where
  "validate_sync_object_bytes c s b =
    and_then (ok_or JsonError (envelope_parse c b)) (\<lambda>e.
      if o_format e \<noteq> ''aipass-object'' \<or> o_version e \<noteq> 1 \<or> o_vault_id e \<noteq> h_vault_id (s_header s) \<or>
         schema_version e = 0 \<or> crypto_version e = 0
      then Inl UnsupportedVersion
      else if tombstone e then (if o_payload e \<noteq> None \<or> o_wrapped_dek e \<noteq> None then Inl UnlockFailed else Inr ())
      else if o_payload e = None \<or> o_wrapped_dek e = None then Inl UnlockFailed
      else and_then (decrypt_envelope_with_epoch c e (epoch_key s)) (\<lambda>_. Inr ()))"

text \<open>Everything the vault writes passes its own check.\<close>

lemma built_is_valid:
  assumes "platform_ok c" "build_envelope c s p i type schema m w = (Inr e, w')" "schema \<noteq> 0"
  shows "validate_sync_object_bytes c s (envelope_pretty c e) = Inr ()"
proof -
  note b = build_envelope_Inr [OF assms(1,2)]
  have "schema_version e = schema \<and> crypto_version e = 1"
    using assms(2) by (auto simp: build_envelope_def bind_Inr encrypt_envelope_def Let_def)
  moreover have "o_payload e \<noteq> None" "o_wrapped_dek e \<noteq> None"
    using b by (auto simp: decrypt_envelope_with_epoch_def and_then_Inr ok_or_Inr)
  moreover have "envelope_parse c (envelope_pretty c e) = Some e" using assms(1) by (simp add: platform_ok_def)
  ultimately show ?thesis using b assms(3) by (simp add: validate_sync_object_bytes_def)
qed

section \<open>What a marker leaves behind\<close>

text \<open>Files an audit event can touch.\<close>

definition bookkeeping :: "path \<Rightarrow> bool" where
  "bookkeeping p \<longleftrightarrow> in_audit p \<or> p = retention_marker"

lemma bookkeeping_records [simp]: "\<not> bookkeeping (record_path c i)" "\<not> bookkeeping (grant_path c i)"
  by (simp_all add: bookkeeping_def record_path_def grant_path_def retention_marker_def in_audit_def)

lemma note_files:
  assumes "prunes_only (upkeep_pass t)" "note_event c t s a i d w = (x, w')" "\<not> bookkeeping p"
  shows "hm_get (files w') p = hm_get (files w) p"
proof -
  let ?w = "w\<lparr>draws := Suc (Suc (draws w))\<rparr>" and ?u = "random_uuid c (draws w)"
  let ?m = "event_json c \<lparr>event_id = ?u, event_at = now_utc c (Suc (draws w)), event_action = a, event_record = i,
        event_detail = map_option (redact_detail (to_lowercase t)) d\<rparr>"
  obtain r w1 where wr: "write_envelope c s (audit_path c ?u) ?u ''audit_event'' 1 ?m ?w = (r, w1)"
    by (cases "write_envelope c s (audit_path c ?u) ?u ''audit_event'' 1 ?m ?w")
  have tch: "touches {audit_path c ?u} (write_envelope c s (audit_path c ?u) ?u ''audit_event'' 1 ?m)"
    unfolding write_envelope_def write_envelope_json_def by (intro act) simp
  have "p \<noteq> audit_path c ?u" using assms(3) by (auto simp: bookkeeping_def in_audit_def audit_path_def)
  then have one: "hm_get (files w1) p = hm_get (files w) p"
    using same_outsideD(1) [OF touchesD [OF tch wr], of p] by simp
  have "p \<noteq> retention_marker" "\<not> in_audit p" using assms(3) by (simp_all add: bookkeeping_def)
  then have "hm_get (files (snd (upkeep_pass t w1))) p = hm_get (files w1) p"
    using assms(1) unfolding prunes_only_def prunes_def by blast
  then show ?thesis
    using assms(2) wr one
    by (auto simp: note_event_def audit_def bind_def new_uuid_def read_clock_def ignoring_def split: sum.splits)
qed

lemma marked:
  assumes "platform_ok c" "prunes_only (upkeep_pass t)" "\<not> bookkeeping p"
    and "bind (write_envelope_json c p e) (\<lambda>_. note_event c t s a i d) w = (Inr (), w')"
  shows "hm_get (files w') p = Some (envelope_pretty c e)" "envelope_parse c (envelope_pretty c e) = Some e"
    "q \<noteq> p \<Longrightarrow> \<not> bookkeeping q \<Longrightarrow> hm_get (files w') q = hm_get (files w) q"
proof -
  from assms(4) obtain w1 where wr: "atomic_write_bytes p (envelope_pretty c e) w = (Inr (), w1)"
    and n: "note_event c t s a i d w1 = (Inr (), w')"
    by (auto simp: bind_Inr write_envelope_json_def)
  note files = note_files [OF assms(2) n] write_Inr [OF wr]
  show "hm_get (files w') p = Some (envelope_pretty c e)" using files assms(3) by simp
  show "envelope_parse c (envelope_pretty c e) = Some e" using assms(1) by (simp add: platform_ok_def)
  show "q \<noteq> p \<Longrightarrow> \<not> bookkeeping q \<Longrightarrow> hm_get (files w') q = hm_get (files w) q" using files by simp
qed

text \<open>
  A deleted entry is gone: after a permanent deletion that reports success the record is a
  marker without key and payload, which is accepted as an object of this vault whenever the
  record was; reading it finds no entry, and no other file but audit history has changed.
\<close>

theorem deleted_entry_is_gone:
  assumes "platform_ok c" "prunes_only (upkeep_pass t)" "hm_get (files w) (record_path c i) = Some b"
    and "delete_provider_permanently c t s i w = (Inr (), w')"
  shows "(\<exists>b' e'. hm_get (files w') (record_path c i) = Some b' \<and> envelope_parse c b' = Some e' \<and>
      tombstone e' \<and> o_payload e' = None \<and> o_wrapped_dek e' = None \<and>
      (validate_sync_object_bytes c s b = Inr () \<longrightarrow> validate_sync_object_bytes c s b' = Inr ())) \<and>
    record_at c t s w' i = None \<and>
    (faults w' = [] \<longrightarrow> fst (reveal_selected_secret c t s i sel exact w') = Inl RecordNotFound) \<and>
    (\<forall>q. q \<noteq> record_path c i \<and> \<not> bookkeeping q \<longrightarrow> hm_get (files w') q = hm_get (files w) q)"
proof -
  obtain x w1 where rd: "read_envelope c (record_path c i) w = (x, w1)" by (cases "read_envelope c (record_path c i) w")
  obtain e where x: "x = Inr e" and k: "bind (write_envelope_json c (record_path c i) (erased (now_utc c (draws w1)) e))
      (\<lambda>_. note_event c t s ''provider.delete'' (Some i) None) (w1\<lparr>draws := Suc (draws w1)\<rparr>) = (Inr (), w')"
    using assms(4) rd by (cases x) (auto simp: delete_provider_permanently_def bind_def read_clock_def split: if_splits)
  have e: "envelope_parse c b = Some e" "files w1 = files w"
    using read_envelope_Inr [OF rd [unfolded x]] assms(3) by auto
  let ?e = "erased (now_utc c (draws w1)) e"
  note m = marked [OF assms(1,2) bookkeeping_records(1) k]
  have "validate_sync_object_bytes c s (envelope_pretty c ?e) = Inr ()" if "validate_sync_object_bytes c s b = Inr ()"
    using that e(1) m(2) by (auto simp: validate_sync_object_bytes_def erased_def split: if_splits)
  moreover have "record_at c t s w' i = None" using m by (simp add: record_at_def record_in_def erased_def)
  moreover have "fst (reveal_selected_secret c t s i sel exact w') = Inl RecordNotFound" if "faults w' = []"
  proof -
    have "read_envelope c (record_path c i) w' = (Inr ?e, w')"
      using that m by (simp add: read_envelope_def bind_def lift_def)
    then show ?thesis
      using m by (simp add: reveal_selected_secret_def decrypt_provider_path_def path_exists_def bind_def lift_def erased_def)
  qed
  moreover have "tombstone ?e" "o_payload ?e = None" "o_wrapped_dek ?e = None" by (simp_all add: erased_def)
  ultimately show ?thesis using m e(2) by auto
qed

text \<open>
  An expired grant is not a valid object: expiring a grant that the vault accepted leaves a
  marker that keeps the encrypted payload, and the vault's own check of synchronised objects
  refuses such a marker.
\<close>

theorem expired_grant_is_refused:
  assumes "platform_ok c" "prunes_only (upkeep_pass t)" "hm_get (files w) (grant_path c i) = Some b"
    and "envelope_parse c b = Some e" "\<not> tombstone e" "validate_sync_object_bytes c s b = Inr ()"
    and "expire_grant c t s i w = (Inr (), w')"
  shows "\<exists>b' e'. hm_get (files w') (grant_path c i) = Some b' \<and> envelope_parse c b' = Some e' \<and>
    tombstone e' \<and> o_payload e' = o_payload e \<and> validate_sync_object_bytes c s b' = Inl UnlockFailed"
proof -
  obtain x w1 where rd: "read_envelope c (grant_path c i) w = (x, w1)" by (cases "read_envelope c (grant_path c i) w")
  let ?e = "\<lambda>e. e\<lparr>o_wrapped_dek := None, tombstone := True, o_updated_at := now_utc c (draws w1), lamport := sat_add (lamport e) 1\<rparr>"
  obtain e0 where x: "x = Inr e0" and k: "bind (write_envelope_json c (grant_path c i) (?e e0))
      (\<lambda>_. note_event c t s ''grant.expire'' None (Some (uuid_text c i))) (w1\<lparr>draws := Suc (draws w1)\<rparr>) = (Inr (), w')"
    using assms(7) rd by (cases x) (auto simp: expire_grant_def bind_def read_clock_def split: if_splits)
  have e0: "e0 = e" using read_envelope_Inr [OF rd [unfolded x]] assms(3,4) by auto
  note m = marked [OF assms(1,2) bookkeeping_records(2) k]
  have "validate_sync_object_bytes c s (envelope_pretty c (?e e0)) = Inl UnlockFailed"
    using assms(4-6) m(2) e0 by (auto simp: validate_sync_object_bytes_def split: if_splits)
  with m e0 show ?thesis by auto
qed

section \<open>The life of a grant\<close>

definition holds_grant :: "platform \<Rightarrow> grant_codec \<Rightarrow> session \<Rightarrow> world \<Rightarrow> uuid \<Rightarrow> ttl_grant \<Rightarrow> bool" where
  "holds_grant c g s w i x \<longleftrightarrow>
    (\<exists>b e m. hm_get (files w) (grant_path c i) = Some b \<and> envelope_parse c b = Some e \<and> \<not> tombstone e \<and>
      decrypt_envelope_with_epoch c e (epoch_key s) = Inr m \<and> grant_parse g m = Some x)"

lemma write_grant_Inr:
  assumes "platform_ok c" "codec_ok g" "write_grant c g s x w = (Inr (), w')"
  shows "holds_grant c g s w' (gr_id x) x"
proof -
  from assms(3) obtain e w1 where b: "build_envelope c s (grant_path c (gr_id x)) (gr_id x) ''ttl_grant'' 1 (grant_json g x) w
      = (Inr e, w1)"
    and wr: "atomic_write_bytes (grant_path c (gr_id x)) (envelope_pretty c e) w1 = (Inr (), w')"
    by (auto simp: write_grant_def write_envelope_def write_envelope_json_def bind_Inr)
  from build_envelope_Inr [OF assms(1) b] write_Inr [OF wr] assms(1,2) show ?thesis
    by (auto simp: holds_grant_def platform_ok_def codec_ok_def)
qed

lemma create_grant_Inr:
  assumes "platform_ok c" "codec_ok g" "prunes_only (upkeep_pass t)"
    and "create_secret_field_grant c t g s e field purpose ttl origin w = (Inr sm, w')"
  shows "\<exists>secret w1 x. reveal_selected_secret c t s e field False w = (Inr secret, w1) \<and>
    holds_grant c g s w' (gs_id sm) x \<and> gr_secret x = secret \<and> gr_expires_at x = gs_expires_at sm \<and>
    gs_expires_at sm = gr_created_at x + max ttl 1 * 1000000000"
proof -
  from assms(4) obtain secret w1 sid w2 now w3 i w4 w5 where rv: "reveal_selected_secret c t s e field False w = (Inr secret, w1)"
    and wr: "write_grant c g s \<lparr>gr_id = i, gr_purpose = purpose, gr_entry_id = Some e, gr_field_id = field, gr_origin = origin,
      gr_secret = secret, gr_created_at = now, gr_expires_at = expires_after now ttl\<rparr> w4 = (Inr (), w5)"
    and n: "note_event c t s ''grant.create'' (Some e) (Some purpose) w5 = (Inr (), w')"
    and sm: "sm = \<lparr>gs_id = i, gs_purpose = purpose, gs_entry_id = Some e, gs_secret_id = sid, gs_origin = origin,
      gs_expires_at = expires_after now ttl\<rparr>"
    by (auto simp: create_secret_field_grant_def bind_Inr)
  have "hm_get (files w') (grant_path c i) = hm_get (files w5) (grant_path c i)"
    by (rule note_files [OF assms(3) n]) simp
  with write_grant_Inr [OF assms(1,2) wr] rv sm show ?thesis
    by (auto simp: holds_grant_def expires_after_def)
qed

lemma decrypt_grant_calm:
  assumes "holds_grant c g s w i x" "faults w = []"
  shows "decrypt_grant c g s (grant_path c i) w = (Inr x, w)" "path_exists (grant_path c i) w"
proof -
  obtain b e m where b: "hm_get (files w) (grant_path c i) = Some b" "envelope_parse c b = Some e"
      "decrypt_envelope_with_epoch c e (epoch_key s) = Inr m" "grant_parse g m = Some x"
    using assms(1) by (auto simp: holds_grant_def)
  then have "read_envelope c (grant_path c i) w = (Inr e, w)" using assms(2) by (simp add: read_envelope_def bind_def lift_def)
  with b show "decrypt_grant c g s (grant_path c i) w = (Inr x, w)" "path_exists (grant_path c i) w"
    by (simp_all add: decrypt_grant_def decrypt_envelope_path_def bind_def lift_def path_exists_def)
qed

lemma quiet_decrypt_envelope [quiet_act]: "quiet (decrypt_envelope_path c s p)" "quiet (read_envelope c p)"
  unfolding decrypt_envelope_path_def read_envelope_def by (intro quiet_act)+

lemma quiet_if: "quiet f \<Longrightarrow> quiet g \<Longrightarrow> quiet (if b then f else g)"
  by simp

lemma quiet_touch: "quiet (touch_provider_last_used c t s i)"
proof -
  have "quiet (decrypt_provider_path c t s p)" for p
  proof -
    have "quiet (bind (read_envelope c p) (\<lambda>e. if tombstone e \<or> object_type e \<noteq> ''provider_entry''
        then lift (Inl RecordNotFound)
        else bind (decrypt_envelope_path c s p) (\<lambda>b. lift (ok_or JsonError (record_parse t b)))))"
      by (intro quiet_act quiet_if)
    then show ?thesis by (simp add: quiet_def decrypt_provider_path_def)
  qed
  then show ?thesis
    unfolding touch_provider_last_used_def write_provider_record_def write_envelope_def write_envelope_json_def
    by (intro quiet_act)
qed

lemma consume_live:
  assumes "sealing_total c" "quiet (upkeep_pass t)" "holds_grant c g s w i x" "faults w = []" "now_utc c (draws w) < gr_expires_at x"
  shows "\<exists>w'. consume_secret_grant c t g s i w = (Inr (gr_secret x), w')"
proof -
  note d = decrypt_grant_calm [OF assms(3,4)]
  let ?w = "w\<lparr>draws := Suc (draws w)\<rparr>"
  have f: "faults ?w = []" using assms(4) by simp
  have "\<exists>w1. (case gr_entry_id x of None \<Rightarrow> yield () | Some e \<Rightarrow> ignoring (touch_provider_last_used c t s e)) ?w
      = (Inr (), w1) \<and> faults w1 = []"
    using f quiet_touch [of c t s] by (cases "gr_entry_id x") (simp_all add: yield_def ignoring_def quiet_def)
  then obtain w1 where w1: "(case gr_entry_id x of None \<Rightarrow> yield () | Some e \<Rightarrow> ignoring (touch_provider_last_used c t s e)) ?w
      = (Inr (), w1)" "faults w1 = []" by blast
  obtain w2 where "note_event c t s ''grant.consume'' (gr_entry_id x) (Some (gr_purpose x)) w1 = (Inr (), w2)"
    using audit_succeeds [OF assms(1) w1(2) assms(2)] unfolding note_event_def by blast
  with d w1(1) assms(5) show ?thesis
    by (simp add: consume_secret_grant_def bind_def read_clock_def lift_def yield_def)
qed

lemma expire_succeeds:
  assumes "sealing_total c" "quiet (upkeep_pass t)" "faults w = []"
    and "hm_get (files w) (grant_path c i) = Some b" "envelope_parse c b = Some e"
  shows "\<exists>w'. expire_grant c t s i w = (Inr (), w')"
proof -
  have r: "read_envelope c (grant_path c i) w = (Inr e, w)" using assms(3-5) by (simp add: read_envelope_def bind_def lift_def)
  let ?e = "e\<lparr>o_wrapped_dek := None, tombstone := True, o_updated_at := now_utc c (draws w), lamport := sat_add (lamport e) 1\<rparr>"
  have "faults (w\<lparr>draws := Suc (draws w)\<rparr>) = []" using assms(3) by simp
  then obtain w1 where w1: "write_envelope_json c (grant_path c i) ?e (w\<lparr>draws := Suc (draws w)\<rparr>) = (Inr (), w1)" "faults w1 = []"
    by (simp add: write_envelope_json_def)
  obtain w2 where "note_event c t s ''grant.expire'' None (Some (uuid_text c i)) w1 = (Inr (), w2)"
    using audit_succeeds [OF assms(1) w1(2) assms(2)] unfolding note_event_def by blast
  with r w1(1) assms(4) show ?thesis by (simp add: expire_grant_def path_exists_def bind_def read_clock_def)
qed

lemma consume_marker:
  assumes "hm_get (files w) (grant_path c i) = Some b" "envelope_parse c b = Some e" "tombstone e" "faults w = []"
  shows "fst (consume_secret_grant c t g s i w) = Inl GrantExpired"
proof -
  have "read_envelope c (grant_path c i) w = (Inr e, w)" using assms by (simp add: read_envelope_def bind_def lift_def)
  with assms show ?thesis
    by (simp add: consume_secret_grant_def decrypt_grant_def decrypt_envelope_path_def bind_def lift_def path_exists_def
        decrypt_envelope_with_epoch_def)
qed

text \<open>
  A grant gives its secret until it expires and never after: a grant issued for a key holds
  the secret that key reveals; whenever its file is still there, consuming it on a working disk
  before its expiry returns that secret, and at or after its expiry reports that it has expired
  and leaves a marker that reports the same ever after.
\<close>

theorem grant_lives_until_it_expires:
  assumes "platform_ok c" "sealing_total c" "codec_ok g" "prunes_only (upkeep_pass t)" "quiet (upkeep_pass t)"
    and "create_secret_field_grant c t g s e field purpose ttl origin w = (Inr sm, w')"
    and "hm_get (files v) (grant_path c (gs_id sm)) = hm_get (files w') (grant_path c (gs_id sm))" "faults v = []"
  shows "\<exists>secret w1. reveal_selected_secret c t s e field False w = (Inr secret, w1) \<and>
    (if now_utc c (draws v) < gs_expires_at sm
     then \<exists>v'. consume_secret_grant c t g s (gs_id sm) v = (Inr secret, v')
     else \<exists>v'. consume_secret_grant c t g s (gs_id sm) v = (Inl GrantExpired, v') \<and>
       (\<forall>u. hm_get (files u) (grant_path c (gs_id sm)) = hm_get (files v') (grant_path c (gs_id sm)) \<and> faults u = [] \<longrightarrow>
         fst (consume_secret_grant c t g s (gs_id sm) u) = Inl GrantExpired))"
proof -
  obtain secret w1 x where rv: "reveal_selected_secret c t s e field False w = (Inr secret, w1)"
    and x: "holds_grant c g s w' (gs_id sm) x" "gr_secret x = secret" "gr_expires_at x = gs_expires_at sm"
    using create_grant_Inr [OF assms(1,3,4,6)] by blast
  have v: "holds_grant c g s v (gs_id sm) x" using x(1) assms(7) by (simp add: holds_grant_def)
  show ?thesis
  proof (cases "now_utc c (draws v) < gs_expires_at sm")
    case True
    with consume_live [OF assms(2,5) v assms(8)] x rv show ?thesis by auto
  next
    case False
    note d = decrypt_grant_calm [OF v assms(8)]
    obtain b en where b: "hm_get (files v) (grant_path c (gs_id sm)) = Some b" "envelope_parse c b = Some en"
      using v by (auto simp: holds_grant_def)
    let ?v = "v\<lparr>draws := Suc (draws v)\<rparr>"
    have calm: "faults ?v = []" "hm_get (files ?v) (grant_path c (gs_id sm)) = Some b" using assms(8) b by simp_all
    obtain v' where ex: "expire_grant c t s (gs_id sm) ?v = (Inr (), v')"
      using expire_succeeds [OF assms(2,5) calm b(2)] by blast
    have k: "consume_secret_grant c t g s (gs_id sm) v = (Inl GrantExpired, v')"
      using d ex False x(3) by (simp add: consume_secret_grant_def bind_def read_clock_def lift_def)
    have r: "read_envelope c (grant_path c (gs_id sm)) ?v = (Inr en, ?v)"
      using calm b(2) by (simp add: read_envelope_def bind_def lift_def)
    let ?e = "en\<lparr>o_wrapped_dek := None, tombstone := True, o_updated_at := now_utc c (draws ?v), lamport := sat_add (lamport en) 1\<rparr>"
    have m: "bind (write_envelope_json c (grant_path c (gs_id sm)) ?e)
        (\<lambda>_. note_event c t s ''grant.expire'' None (Some (uuid_text c (gs_id sm)))) (?v\<lparr>draws := Suc (draws ?v)\<rparr>) = (Inr (), v')"
      using ex r b by (simp add: expire_grant_def path_exists_def bind_def read_clock_def)
    note mk = marked [OF assms(1,4) bookkeeping_records(2) m]
    have "fst (consume_secret_grant c t g s (gs_id sm) u) = Inl GrantExpired"
      if "hm_get (files u) (grant_path c (gs_id sm)) = hm_get (files v') (grant_path c (gs_id sm))" "faults u = []" for u
      using mk(1,2) that by (intro consume_marker [of u c "gs_id sm" "envelope_pretty c ?e" ?e]) simp_all
    with rv k False show ?thesis by auto
  qed
qed

end
