(* ===== verification/Lookup.thy ===== *)
theory Lookup
  imports Grants "HOL-Library.Multiset"
begin

text \<open>
  Finding entries (\<open>crates/aipass-vault/src/lib.rs\<close>): the summary that leaves the vault, the
  lists, the search and the lookup by web origin, and the grants the agent issues for a browser
  (\<open>crates/aipass-agent/src/handlers.rs\<close>).
\<close>

section \<open>Summaries\<close>

record entry_summary =
  sum_id :: uuid
  sum_title :: string
  sum_favorite :: bool
  sum_provider_id :: "string option"
  sum_provider_kind :: provider_kind
  sum_credential_kind :: credential_kind
  sum_account_identity :: "string option"
  sum_domains :: "string list"
  sum_favicon_url :: "string option"
  sum_endpoints :: "provider_endpoint list"
  sum_interface_type :: interface_type
  sum_max_concurrent_requests :: "u32 option"
  sum_supports_websockets :: "bool option"
  sum_websocket_warning :: "websocket_warning option"
  sum_auth_scheme :: auth_scheme
  sum_masked_secret :: string
  sum_fingerprint :: string
  sum_secret_refs :: "secret_ref list"
  sum_default_model :: "string option"
  sum_model_aliases :: "(string \<times> string) list"
  sum_quota :: "quota_info option"
  sum_subscription :: "subscription_snapshot option"
  sum_gateway :: "gateway_metadata option"
  sum_usage_source :: "string option"
  sum_tags :: "string list"
  sum_notes :: "string option"
  sum_header_names :: "string list"
  sum_created_at :: int
  sum_updated_at :: int
  sum_last_used_at :: "int option"
  sum_archived_at :: "int option"
  sum_deleted_at :: "int option"

definition summary_from_plaintext :: "provider_record \<Rightarrow> entry_summary" where
  "summary_from_plaintext r =
    (let e = entry r in
     \<lparr>sum_id = e_id e, sum_title = e_title e, sum_favorite = e_favorite e, sum_provider_id = e_provider_id e,
      sum_provider_kind = e_provider_kind e, sum_credential_kind = e_credential_kind e,
      sum_account_identity = e_account_identity e, sum_domains = e_domains e, sum_favicon_url = e_favicon_url e,
      sum_endpoints = e_endpoints e, sum_interface_type = e_interface_type e,
      sum_max_concurrent_requests = e_max_concurrent_requests e, sum_supports_websockets = e_supports_websockets e,
      sum_websocket_warning = e_websocket_warning e, sum_auth_scheme = e_auth_scheme e,
      sum_masked_secret = (case secret_refs e of [] \<Rightarrow> ''****'' | x # _ \<Rightarrow> masked x),
      sum_fingerprint = (case secret_refs e of [] \<Rightarrow> '''' | x # _ \<Rightarrow> fingerprint x),
      sum_secret_refs = secret_refs e, sum_default_model = e_default_model e, sum_model_aliases = e_model_aliases e,
      sum_quota = e_quota e, sum_subscription = e_subscription e, sum_gateway = e_gateway e,
      sum_usage_source = e_usage_source e, sum_tags = e_tags e, sum_notes = e_notes e,
      sum_header_names = map fst (e_headers e), sum_created_at = e_created_at e, sum_updated_at = e_updated_at e,
      sum_last_used_at = e_last_used_at e, sum_archived_at = e_archived_at e, sum_deleted_at = e_deleted_at e\<rparr>)"

definition get_provider_summary :: "platform \<Rightarrow> entry_tools \<Rightarrow> session \<Rightarrow> uuid \<Rightarrow> entry_summary act" where
  "get_provider_summary c t s i =
    bind (decrypt_provider_path c t s (record_path c i)) (\<lambda>r. yield (summary_from_plaintext r))"

section \<open>Lists\<close>

text \<open>The loop all lists share: every record is read, in path order, and one that cannot be read fails the list.\<close>

fun summaries_of ::
  "platform \<Rightarrow> entry_tools \<Rightarrow> session \<Rightarrow> (provider_record \<Rightarrow> bool) \<Rightarrow> path list \<Rightarrow> entry_summary list act" where
  "summaries_of c t s P [] = yield []"
| "summaries_of c t s P (p # ps) =
    bind (decrypt_provider_path c t s p) (\<lambda>r.
    bind (summaries_of c t s P ps) (\<lambda>rest. yield (if P r then summary_from_plaintext r # rest else rest)))"

definition listed :: "provider_record \<Rightarrow> bool" where
  "listed r = (e_deleted_at (entry r) = None \<and> e_archived_at (entry r) = None)"

definition archived :: "provider_record \<Rightarrow> bool" where
  "archived r = (e_deleted_at (entry r) = None \<and> e_archived_at (entry r) \<noteq> None)"

definition trashed :: "provider_record \<Rightarrow> bool" where
  "trashed r = (e_deleted_at (entry r) \<noteq> None)"

definition by_title :: "entry_tools \<Rightarrow> entry_summary list \<Rightarrow> entry_summary list" where
  "by_title t = sort_key (\<lambda>e. to_lowercase t (sum_title e))"

definition list_provider_summaries :: "platform \<Rightarrow> entry_tools \<Rightarrow> session \<Rightarrow> entry_summary list act" where
  "list_provider_summaries c t s =
    bind (record_paths c) (\<lambda>ps. bind (summaries_of c t s listed ps) (\<lambda>es. yield (by_title t es)))"

definition list_archived_provider_summaries :: "platform \<Rightarrow> entry_tools \<Rightarrow> session \<Rightarrow> entry_summary list act" where
  "list_archived_provider_summaries c t s =
    bind (record_paths c) (\<lambda>ps. bind (summaries_of c t s archived ps) (\<lambda>es. yield (by_title t es)))"

definition list_favorite_provider_summaries :: "platform \<Rightarrow> entry_tools \<Rightarrow> session \<Rightarrow> entry_summary list act" where
  "list_favorite_provider_summaries c t s =
    bind (record_paths c) (\<lambda>ps.
    bind (summaries_of c t s (\<lambda>r. listed r \<and> e_favorite (entry r)) ps) (\<lambda>es. yield (by_title t es)))"

definition list_trash_provider_summaries :: "platform \<Rightarrow> entry_tools \<Rightarrow> session \<Rightarrow> entry_summary list act" where
  "list_trash_provider_summaries c t s =
    bind (record_paths c) (\<lambda>ps.
    bind (summaries_of c t s trashed ps) (\<lambda>es. yield (rev (sort_key (\<lambda>e. unwrap_or (sum_deleted_at e) 0) es))))"

section \<open>Search\<close>

definition provider_kind_debug :: "provider_kind \<Rightarrow> string" where
  "provider_kind_debug k = (case k of Official \<Rightarrow> ''Official'' | ThirdParty \<Rightarrow> ''ThirdParty'' | SelfHosted \<Rightarrow> ''SelfHosted''
    | Unknown \<Rightarrow> ''Unknown'')"

definition interface_debug :: "interface_type \<Rightarrow> string" where
  "interface_debug i = (case i of OpenAiCompatible \<Rightarrow> ''OpenAiCompatible'' | AnthropicMessages \<Rightarrow> ''AnthropicMessages''
    | GeminiInterface \<Rightarrow> ''Gemini'' | AzureOpenAi \<Rightarrow> ''AzureOpenAi'' | Bedrock \<Rightarrow> ''Bedrock'' | CustomHttp \<Rightarrow> ''CustomHttp'')"

definition auth_debug :: "auth_scheme \<Rightarrow> string" where
  "auth_debug a = (case a of Bearer \<Rightarrow> ''Bearer'' | XApiKey \<Rightarrow> ''XApiKey'' | GoogleApiKey \<Rightarrow> ''GoogleApiKey''
    | AzureApiKey \<Rightarrow> ''AzureApiKey'' | AwsProfile \<Rightarrow> ''AwsProfile'' | CustomHeader \<Rightarrow> ''CustomHeader'')"

definition plaintext_matches_query :: "entry_tools \<Rightarrow> provider_record \<Rightarrow> string \<Rightarrow> string option \<Rightarrow> bool" where
  "plaintext_matches_query t r query candidate =
    (let e = entry r;
         has = (\<lambda>text. contains_part query (to_lowercase t text));
         has_some = (\<lambda>text. has (unwrap_or text ''''))
     in query = [] \<or>
        has (e_title e) \<or> has_some (e_provider_id e) \<or> has (provider_kind_debug (e_provider_kind e)) \<or>
        list_ex has (e_domains e) \<or>
        list_ex (\<lambda>p. has (ep_id p) \<or> has_some (ep_url p) \<or> has_some (ep_region p) \<or> has_some (ep_deployment p) \<or>
          has_some (ep_api_version p)) (e_endpoints e) \<or>
        has (interface_debug (e_interface_type e) @ '' '' @ auth_debug (e_auth_scheme e)) \<or>
        has_some (e_default_model e) \<or>
        list_ex (\<lambda>(alias, model). has alias \<or> has model) (e_model_aliases e) \<or>
        list_ex has (e_tags e) \<or> has_some (e_notes e) \<or> list_ex (\<lambda>(name, _). has name) (e_headers e) \<or>
        is_some_and (e_quota e) (\<lambda>q. has_some (q_label q) \<or> has_some (q_limit q) \<or> has_some (q_remaining q) \<or>
          has_some (q_reset_at q)) \<or>
        is_some_and (e_gateway e) (\<lambda>g. has_some (g_group g) \<or> has_some (g_rate g)) \<or>
        list_ex (\<lambda>x. has (masked x) \<or> has (fingerprint x) \<or> candidate = Some (fingerprint x)) (secret_refs e))"

definition looks_like_secret :: "entry_tools \<Rightarrow> string \<Rightarrow> bool" where
  "looks_like_secret t v =
    (contains_part ''sk-'' v \<or> contains_part ''sk-ant-'' v \<or> contains_part ''AIza'' v \<or>
     contains_part ''api_key'' (to_lowercase t v) \<or> contains_part ''authorization'' (to_lowercase t v))"

definition search :: "platform \<Rightarrow> entry_tools \<Rightarrow> session \<Rightarrow> string \<Rightarrow> entry_summary list act" where
  "search c t s query =
    (let q = to_lowercase t (trim query);
         candidate = (if looks_like_secret t query \<or> 20 \<le> length query
           then Some (hmac_fingerprint (prims c) (index_key s) (trim query)) else None)
     in bind (record_paths c) (\<lambda>ps.
        bind (summaries_of c t s (\<lambda>r. listed r \<and> plaintext_matches_query t r q candidate) ps) (\<lambda>es. yield (by_title t es))))"

section \<open>Lookup by origin\<close>

definition host_from_origin :: "entry_tools \<Rightarrow> string \<Rightarrow> string" where
  "host_from_origin t v =
    (let trimmed = to_lowercase t (trim v);
         without_scheme = unwrap_or (or_else (strip_prefix ''https://'' trimmed) (strip_prefix ''http://'' trimmed)) trimmed
     in hd (split_on CHR '':'' (last (split_on CHR ''@'' (hd (split_on CHR ''/'' without_scheme))))))"

definition origin_matches :: "entry_tools \<Rightarrow> string \<Rightarrow> entry_summary \<Rightarrow> bool" where
  "origin_matches t host e =
    (list_ex (\<lambda>d. host = to_lowercase t d \<or> ends_with (CHR ''.'' # to_lowercase t d) host) (sum_domains e) \<or>
     list_ex (\<lambda>p. is_some_and (ep_url p) (\<lambda>u. host_from_origin t u = host)) (sum_endpoints e))"

definition lookup_by_origin :: "platform \<Rightarrow> entry_tools \<Rightarrow> session \<Rightarrow> string \<Rightarrow> entry_summary list act" where
  "lookup_by_origin c t s origin =
    (let host = host_from_origin t origin in
     bind (list_provider_summaries c t s) (\<lambda>es. yield (filter (origin_matches t host) es)))"

section \<open>Grants for a browser\<close>

definition BROWSER_FILL_GRANT_LIMIT :: nat where "BROWSER_FILL_GRANT_LIMIT = 5"

fun create_browser_fill_grants ::
  "platform \<Rightarrow> entry_tools \<Rightarrow> grant_codec \<Rightarrow> session \<Rightarrow> string \<Rightarrow> entry_summary list \<Rightarrow> grant_summary list act" where
  "create_browser_fill_grants c t g s origin [] = yield []"
| "create_browser_fill_grants c t g s origin (e # es) =
    bind (create_secret_grants_for_entry c t g s (sum_id e) ''chrome.fill'' 120 (Some origin) BROWSER_FILL_GRANT_LIMIT) (\<lambda>issued.
    bind (if issued = [] then bind (create_secret_field_grant c t g s (sum_id e) PRIMARY_SECRET_FIELD ''chrome.fill'' 120 (Some origin))
            (\<lambda>x. yield [x]) else yield issued) (\<lambda>xs.
    bind (create_browser_fill_grants c t g s origin es) (\<lambda>rest. yield (xs @ rest))))"

definition browser_context_lookup ::
  "platform \<Rightarrow> entry_tools \<Rightarrow> grant_codec \<Rightarrow> session \<Rightarrow> string \<Rightarrow> string \<Rightarrow> (entry_summary list \<times> grant_summary list) act" where
  "browser_context_lookup c t g s origin url =
    bind (lookup_by_origin c t s origin) (\<lambda>es0.
    bind (if es0 = [] then lookup_by_origin c t s url else yield es0) (\<lambda>es.
    let shown = take BROWSER_FILL_GRANT_LIMIT es in
    bind (create_browser_fill_grants c t g s origin shown) (\<lambda>grants. yield (shown, grants))))"

section \<open>The lists divide the records\<close>

lemma summaries_of_read:
  assumes "list_all2 (\<lambda>p r. decrypt_provider_path c t s p w = (Inr r, w)) ps rs"
  shows "summaries_of c t s P ps w = (Inr (map summary_from_plaintext (filter P rs)), w)"
  using assms by (induction rule: list_all2_induct) (simp_all add: bind_def yield_def)

lemma by_title_props [simp]:
  "mset (by_title t es) = mset es" "set (by_title t es) = set es"
  "sorted (map (\<lambda>e. to_lowercase t (sum_title e)) (by_title t es))"
  by (simp_all add: by_title_def)

lemma summary_state [simp]:
  "sum_deleted_at (summary_from_plaintext r) = e_deleted_at (entry r)"
  "sum_archived_at (summary_from_plaintext r) = e_archived_at (entry r)"
  "sum_favorite (summary_from_plaintext r) = e_favorite (entry r)"
  by (simp_all add: summary_from_plaintext_def Let_def)


section \<open>An entry without keys\<close>

definition keyless :: "platform \<Rightarrow> entry_tools \<Rightarrow> session \<Rightarrow> world \<Rightarrow> uuid \<Rightarrow> bool" where
  "keyless c t s w i \<longleftrightarrow> (\<exists>r. record_at c t s w i = Some r \<and> refs r = [])"

lemma issue_grants_frames: "frames c (issue_grants c g s e purpose now expires origin ts)"
proof -
  have "frames c (write_grant c g s x)" for x
    unfolding write_grant_def write_envelope_def write_envelope_json_def
    by (rule touches_frames, intro act) (auto simp: grant_path_def record_path_def)
  then show ?thesis by (induction ts) (auto simp: frames_basic intro!: frames_bind)
qed

lemma keyless_frames: "frames c f \<Longrightarrow> f w = (x, w') \<Longrightarrow> keyless c t s w i \<Longrightarrow> keyless c t s w' i"
  by (simp add: keyless_def framesD)

lemma keyless_files: "files w' = files w \<Longrightarrow> keyless c t s w' i = keyless c t s w i"
  by (simp add: keyless_def record_at_def)

lemma keyless_path: "keyless c t s w i \<Longrightarrow> record_at c t s w e = Some r \<Longrightarrow> refs r \<noteq> [] \<Longrightarrow> record_path c e \<noteq> record_path c i"
  by (auto simp: keyless_def record_at_def)

lemma keyless_write:
  assumes "keyless c t s w i" "record_path c e \<noteq> record_path c i" "write_provider_record c t s e r w = (x, w')"
  shows "keyless c t s w' i"
  using assms write_provider_other [OF assms(3), of i] by (simp add: keyless_def)

lemma entry_grants_cases:
  assumes "create_secret_grants_for_entry c t g s e purpose ttl origin limit w = (Inr issued, w')"
  shows "\<exists>r w1. decrypt_provider_path c t s (record_path c e) w = (Inr r, w1) \<and>
    (issued = [] \<and> files w' = files w1 \<or>
     refs r \<noteq> [] \<and> (\<exists>ts now v1 v2. issue_grants c g s e purpose now (expires_after now ttl) origin ts
         (w1\<lparr>draws := Suc (draws w1)\<rparr>) = (Inr issued, v1) \<and>
       write_provider_record c t s e (set_entry (\<lambda>x. x\<lparr>e_last_used_at := Some now\<rparr>) r) v1 = (Inr (), v2) \<and>
       note_event c t s ''grant.create'' (Some e) (Some purpose) v2 = (Inr (), w')))"
proof -
  obtain x w1 where d: "decrypt_provider_path c t s (record_path c e) w = (x, w1)"
    by (cases "decrypt_provider_path c t s (record_path c e) w")
  obtain r where x: "x = Inr r" using assms d by (cases x) (simp_all add: create_secret_grants_for_entry_def bind_def)
  define ts where "ts = filter_map (\<lambda>x. map_option (\<lambda>v. (sr_id x, v)) (hm_get (secrets r) (sr_id x))) (take (max limit 1) (refs r))"
  define now where "now = now_utc c (draws w1)"
  have run: "(if ts = [] then yield []
    else bind (issue_grants c g s e purpose now (expires_after now ttl) origin ts) (\<lambda>ss.
        bind (write_provider_record c t s e (set_entry (\<lambda>x. x\<lparr>e_last_used_at := Some now\<rparr>) r)) (\<lambda>_.
        bind (note_event c t s ''grant.create'' (Some e) (Some purpose)) (\<lambda>_. yield ss))))
      (w1\<lparr>draws := Suc (draws w1)\<rparr>) = (Inr issued, w')"
    using assms d x unfolding create_secret_grants_for_entry_def Let_def ts_def now_def
    by (simp only: bind_def [of "decrypt_provider_path c t s (record_path c e)"] prod.case sum.case bind_draws)
  show ?thesis
  proof (cases "ts = []")
    case True
    with run d x show ?thesis by (auto simp: yield_def)
  next
    case False
    then have "refs r \<noteq> []" by (auto simp: ts_def)
    moreover from run False obtain v1 v2 where
      "issue_grants c g s e purpose now (expires_after now ttl) origin ts (w1\<lparr>draws := Suc (draws w1)\<rparr>) = (Inr issued, v1)"
      "write_provider_record c t s e (set_entry (\<lambda>x. x\<lparr>e_last_used_at := Some now\<rparr>) r) v1 = (Inr (), v2)"
      "note_event c t s ''grant.create'' (Some e) (Some purpose) v2 = (Inr (), w')"
      by (auto simp: bind_Inr yield_def)
    ultimately show ?thesis using d x by blast
  qed
qed

lemma entry_grants_keyless:
  assumes up: "prunes_only (upkeep_pass t)" and k: "keyless c t s w i"
    and r: "create_secret_grants_for_entry c t g s e purpose ttl origin limit w = (Inr issued, w')"
  shows "keyless c t s w' i \<and> (e = i \<longrightarrow> issued = [])"
proof -
  obtain r w1 where d: "decrypt_provider_path c t s (record_path c e) w = (Inr r, w1)"
    and run: "issued = [] \<and> files w' = files w1 \<or>
     refs r \<noteq> [] \<and> (\<exists>ts now v1 v2. issue_grants c g s e purpose now (expires_after now ttl) origin ts
         (w1\<lparr>draws := Suc (draws w1)\<rparr>) = (Inr issued, v1) \<and>
       write_provider_record c t s e (set_entry (\<lambda>x. x\<lparr>e_last_used_at := Some now\<rparr>) r) v1 = (Inr (), v2) \<and>
       note_event c t s ''grant.create'' (Some e) (Some purpose) v2 = (Inr (), w'))"
    using entry_grants_cases [OF r] by blast
  note rd = decrypt_provider_Inr [OF d]
  have k1: "keyless c t s w1 i" using k by (simp add: keyless_files [OF rd(2)])
  from run show ?thesis
  proof (elim disjE conjE exE)
    assume "issued = []" "files w' = files w1"
    with k1 show ?thesis by (simp add: keyless_files [of w' w1])
  next
    fix ts now v1 v2
    assume ne: "refs r \<noteq> []"
      and iss: "issue_grants c g s e purpose now (expires_after now ttl) origin ts (w1\<lparr>draws := Suc (draws w1)\<rparr>) = (Inr issued, v1)"
      and wr: "write_provider_record c t s e (set_entry (\<lambda>x. x\<lparr>e_last_used_at := Some now\<rparr>) r) v1 = (Inr (), v2)"
      and n: "note_event c t s ''grant.create'' (Some e) (Some purpose) v2 = (Inr (), w')"
    note path = keyless_path [OF k rd(1) ne]
    have "keyless c t s (w1\<lparr>draws := Suc (draws w1)\<rparr>) i" using k1 by (simp add: keyless_def record_at_def)
    then have "keyless c t s v1 i" by (rule keyless_frames [OF issue_grants_frames iss])
    then have "keyless c t s v2 i" by (rule keyless_write [OF _ path wr])
    then have "keyless c t s w' i" by (rule keyless_frames [OF note_frames [OF up] n])
    with path show ?thesis by auto
  qed
qed

lemma reveal_steps:
  assumes "reveal_selected_secret c t s e sel False w = (Inr secret, w')"
  shows "\<exists>r v1 n now v2 v3. decrypt_provider_path c t s (record_path c e) w = (Inr r, v1) \<and>
    find_secret_ref_position (refs r) sel = Some n \<and> read_clock c v1 = (Inr now, v2) \<and>
    write_provider_record c t s e (set_entry (\<lambda>e. e\<lparr>e_last_used_at := Some now\<rparr>) r) v2 = (Inr (), v3) \<and>
    note_event c t s ''secret.reveal'' (Some e) None v3 = (Inr (), w')"
  using assms unfolding reveal_selected_secret_def bind_Inr lift_eq ok_or_Inr yield_eq by auto

lemma reveal_keyless:
  assumes up: "prunes_only (upkeep_pass t)" and k: "keyless c t s w i"
    and r: "reveal_selected_secret c t s e sel False w = (Inr secret, w')"
  shows "keyless c t s w' i \<and> e \<noteq> i"
proof -
  obtain r v1 n now v2 v3 where d: "decrypt_provider_path c t s (record_path c e) w = (Inr r, v1)"
    and p: "find_secret_ref_position (refs r) sel = Some n" and cl: "read_clock c v1 = (Inr now, v2)"
    and wr: "write_provider_record c t s e (set_entry (\<lambda>e. e\<lparr>e_last_used_at := Some now\<rparr>) r) v2 = (Inr (), v3)"
    and n: "note_event c t s ''secret.reveal'' (Some e) None v3 = (Inr (), w')"
    using reveal_steps [OF r] by blast
  note rd = decrypt_provider_Inr [OF d]
  have path: "record_path c e \<noteq> record_path c i"
    by (rule keyless_path [OF k rd(1)]) (use find_position_less [OF p] in auto)
  have "keyless c t s v1 i" using k by (simp add: keyless_files [OF rd(2)])
  then have "keyless c t s v2 i" by (rule keyless_frames [OF frames_basic(4) cl])
  then have "keyless c t s v3 i" by (rule keyless_write [OF _ path wr])
  then have "keyless c t s w' i" by (rule keyless_frames [OF note_frames [OF up] n])
  with path show ?thesis by auto
qed

lemma field_grant_keyless:
  assumes up: "prunes_only (upkeep_pass t)" and k: "keyless c t s w i"
    and r: "create_secret_field_grant c t g s e sel purpose ttl origin w = (Inr x, w')"
  shows "keyless c t s w' i \<and> e \<noteq> i"
proof -
  obtain y w1 where y: "reveal_selected_secret c t s e sel False w = (y, w1)"
    by (cases "reveal_selected_secret c t s e sel False w")
  obtain secret where rv: "y = Inr secret" using r y by (cases y) (simp_all add: create_secret_field_grant_def bind_def)
  note k1 = reveal_keyless [OF up k y [unfolded rv]]
  have wg: "frames c (write_grant c g s y)" for y
    unfolding write_grant_def write_envelope_def write_envelope_json_def
    by (rule touches_frames, intro act) (auto simp: grant_path_def record_path_def)
  have "frames c (find_secret_id_by_value c t s e secret)"
    unfolding find_secret_id_by_value_def by (intro frames_bind decrypt_provider_frames frames_basic(1))
  then have fr: "frames c (bind (find_secret_id_by_value c t s e secret) (\<lambda>sid.
    bind (read_clock c) (\<lambda>now.
    bind (new_uuid c) (\<lambda>i.
    bind (write_grant c g s \<lparr>gr_id = i, gr_purpose = purpose, gr_entry_id = Some e, gr_field_id = sel, gr_origin = origin,
      gr_secret = secret, gr_created_at = now, gr_expires_at = expires_after now ttl\<rparr>) (\<lambda>_.
    bind (note_event c t s ''grant.create'' (Some e) (Some purpose)) (\<lambda>_.
    yield \<lparr>gs_id = i, gs_purpose = purpose, gs_entry_id = Some e, gs_secret_id = sid, gs_origin = origin,
      gs_expires_at = expires_after now ttl\<rparr>))))))"
    by (intro frames_bind wg note_frames [OF up] frames_basic)
  have "keyless c t s w' i"
    by (rule keyless_frames [OF fr, of w1 "Inr x"]) (use r y rv k1 in \<open>simp_all add: create_secret_field_grant_def bind_def\<close>)
  with k1 show ?thesis by blast
qed

text \<open>
  An entry without keys blocks the browser: when an entry among those to offer has no key
  left, the grants for a browser are never issued, for that entry or for any other.
\<close>

theorem keyless_entry_blocks_the_browser:
  assumes "prunes_only (upkeep_pass t)" "record_at c t s w i = Some r" "refs r = []" "i \<in> sum_id ` set es"
  shows "\<exists>e. fst (create_browser_fill_grants c t g s origin es w) = Inl e"
proof -
  have "create_browser_fill_grants c t g s origin es w \<noteq> (Inr gs, w')" if "keyless c t s w i" for gs w'
    using that assms(4)
  proof (induction es arbitrary: w gs)
    case (Cons e es)
    show ?case
    proof
      assume "create_browser_fill_grants c t g s origin (e # es) w = (Inr gs, w')"
      then obtain issued w1 xs w2 rest where
        a: "create_secret_grants_for_entry c t g s (sum_id e) ''chrome.fill'' 120 (Some origin) BROWSER_FILL_GRANT_LIMIT w
          = (Inr issued, w1)"
        and b: "issued = [] \<Longrightarrow> \<exists>x. create_secret_field_grant c t g s (sum_id e) ''primary'' ''chrome.fill'' 120 (Some origin) w1
          = (Inr x, w2)" "issued \<noteq> [] \<Longrightarrow> w2 = w1"
        and d: "create_browser_fill_grants c t g s origin es w2 = (Inr rest, w')"
        by (auto simp: bind_Inr PRIMARY_SECRET_FIELD_def split: if_splits)
      note one = entry_grants_keyless [OF assms(1) Cons.prems(1) a]
      have "keyless c t s w2 i \<and> sum_id e \<noteq> i"
        using one b field_grant_keyless [OF assms(1)] by (cases "issued = []") blast+
      with Cons.IH [of w2 rest] Cons.prems(2) d show False by auto
    qed
  qed simp
  moreover have "keyless c t s w i" using assms(2,3) by (simp add: keyless_def)
  ultimately show ?thesis
    by (cases "create_browser_fill_grants c t g s origin es w"; cases "fst (create_browser_fill_grants c t g s origin es w)") auto
qed

section \<open>Hosts\<close>

lemma hd_split_on: "hd (split_on x s) = takeWhile (\<lambda>y. y \<noteq> x) s"
proof (induction s)
  case (Cons a s)
  then show ?case by (cases "split_on x s") (auto simp: split_on_not_Nil)
qed simp

lemma split_on_absent: "x \<notin> set s \<Longrightarrow> split_on x s = [s]"
  by (induction s) auto

lemma ipv6_host:
  assumes "to_lowercase t u = u" "trim u = u" "u = ''http://['' @ g @ '':'' @ r"
    and "CHR ''/'' \<notin> set g" "CHR '':'' \<notin> set g" "CHR ''@'' \<notin> set g" "CHR ''@'' \<notin> set r"
  shows "host_from_origin t u = ''['' @ g"
proof -
  let ?x = "''['' @ g @ '':'' @ r" and ?y = "''['' @ g @ '':'' @ takeWhile (\<lambda>y. y \<noteq> CHR ''/'') r"
  have "strip_prefix ''https://'' u = None" "strip_prefix ''http://'' u = Some ?x"
    by (simp_all add: assms(3) strip_prefix_def)
  moreover have "hd (split_on CHR ''/'' ?x) = ?y" unfolding hd_split_on using assms(4) by (simp add: takeWhile_append)
  moreover have "CHR ''@'' \<notin> set ?y" using assms(6,7) by (auto dest: set_takeWhileD)
  then have "last (split_on CHR ''@'' ?y) = ?y" by (simp only: split_on_absent last.simps if_True simp_thms)
  moreover have "hd (split_on CHR '':'' ?y) = ''['' @ g" unfolding hd_split_on using assms(5) by (simp add: takeWhile_append)
  ultimately show ?thesis by (simp only: host_from_origin_def Let_def assms(1,2) or_else_simps unwrap_or_simps)
qed


definition six_tools :: entry_tools where
  "six_tools = \<lparr>record_json = (\<lambda>_. []), record_parse = (\<lambda>_. None), to_lowercase = to_ascii_lowercase, upkeep_pass = yield ()\<rparr>"

definition six_record :: provider_record where
  "six_record =
    \<lparr>entry = \<lparr>e_id = 1, e_title = ''lab'', e_favorite = False, e_provider_kind = SelfHosted, e_provider_id = None,
       e_credential_kind = Api, e_account_identity = None, e_domains = [], e_favicon_url = None,
       e_endpoints = [\<lparr>ep_id = ''api'', ep_kind = ApiEndpoint, ep_url = Some ''http://[2001:db8::1]:80'', ep_region = None,
         ep_deployment = None, ep_api_version = None\<rparr>],
       e_interface_type = OpenAiCompatible, e_max_concurrent_requests = None, e_supports_websockets = None,
       e_websocket_warning = None, e_auth_scheme = Bearer, secret_refs = [], e_default_model = None, e_model_aliases = [],
       e_headers = [], e_quota = None, e_subscription = None, e_gateway = None, e_usage_source = None, e_tags = [],
       e_notes = None, e_created_at = 0, e_updated_at = 0, e_last_used_at = None, e_archived_at = None, e_deleted_at = None\<rparr>,
     secrets = [], runtime_extensions = []\<rparr>"


end
