(* ===== verification/EntryDemo.thy ===== *)
theory EntryDemo
  imports AccessDemo Lookup
begin

text \<open>
  A concrete record format and the theorems about entries and grants at the concrete vault.  A
  record prints as a tag and a number that codes its fields; the subscription snapshot is left
  out, as the law of the format allows.
\<close>

section \<open>Records as numbers\<close>

instance provider_kind :: countable by countable_datatype
instance interface_type :: countable by countable_datatype
instance auth_scheme :: countable by countable_datatype
instance credential_kind :: countable by countable_datatype
instance endpoint_kind :: countable by countable_datatype

definition ep_tuple where
  "ep_tuple x = (ep_id x, ep_kind x, ep_url x, ep_region x, ep_deployment x,
    ep_api_version x)"

definition tuple_ep where
  "tuple_ep z = (case z of (a0, a1, a2, a3, a4, a5) \<Rightarrow>
   \<lparr>ep_id = a0, ep_kind = a1, ep_url = a2, ep_region = a3, ep_deployment = a4,
    ep_api_version = a5\<rparr>)"

lemma ep_tuple [simp]: "tuple_ep (ep_tuple x) = x"
  by (simp add: ep_tuple_def tuple_ep_def comp_def option.map_comp option.map_ident)

definition bill_tuple where
  "bill_tuple x = (rate x, currency x, unit_price x, billing_note x)"

definition tuple_bill where
  "tuple_bill z = (case z of (a0, a1, a2, a3) \<Rightarrow>
   \<lparr>rate = a0, currency = a1, unit_price = a2, billing_note = a3\<rparr>)"

lemma bill_tuple [simp]: "tuple_bill (bill_tuple x) = x"
  by (simp add: bill_tuple_def tuple_bill_def comp_def option.map_comp option.map_ident)

definition ref_tuple where
  "ref_tuple x = (sr_id x, sr_label x, masked x, fingerprint x, sr_group x,
    sr_interface_type x, sr_endpoint x, sr_default_model x, map_option bill_tuple (sr_billing x))"

definition tuple_ref where
  "tuple_ref z = (case z of (a0, a1, a2, a3, a4, a5, a6, a7, a8) \<Rightarrow>
   \<lparr>sr_id = a0, sr_label = a1, masked = a2, fingerprint = a3, sr_group = a4,
    sr_interface_type = a5, sr_endpoint = a6, sr_default_model = a7, sr_billing = map_option tuple_bill a8\<rparr>)"

lemma ref_tuple [simp]: "tuple_ref (ref_tuple x) = x"
  by (simp add: ref_tuple_def tuple_ref_def comp_def option.map_comp option.map_ident)

definition quota_tuple where
  "quota_tuple x = (q_unit x, q_label x, q_limit x, q_used x, q_remaining x,
    q_reset_at x)"

definition tuple_quota where
  "tuple_quota z = (case z of (a0, a1, a2, a3, a4, a5) \<Rightarrow>
   \<lparr>q_unit = a0, q_label = a1, q_limit = a2, q_used = a3, q_remaining = a4,
    q_reset_at = a5\<rparr>)"

lemma quota_tuple [simp]: "tuple_quota (quota_tuple x) = x"
  by (simp add: quota_tuple_def tuple_quota_def comp_def option.map_comp option.map_ident)

definition gate_tuple where
  "gate_tuple x = (g_group x, g_rate x)"

definition tuple_gate where
  "tuple_gate z = (case z of (a0, a1) \<Rightarrow>
   \<lparr>g_group = a0, g_rate = a1\<rparr>)"

lemma gate_tuple [simp]: "tuple_gate (gate_tuple x) = x"
  by (simp add: gate_tuple_def tuple_gate_def comp_def option.map_comp option.map_ident)

definition warn_tuple where
  "warn_tuple x = (ww_reason x, ww_status x, ww_detected_at x, ww_config_key x)"

definition tuple_warn where
  "tuple_warn z = (case z of (a0, a1, a2, a3) \<Rightarrow>
   \<lparr>ww_reason = a0, ww_status = a1, ww_detected_at = a2, ww_config_key = a3\<rparr>)"

lemma warn_tuple [simp]: "tuple_warn (warn_tuple x) = x"
  by (simp add: warn_tuple_def tuple_warn_def comp_def option.map_comp option.map_ident)

definition entry_tuple where
  "entry_tuple x = (e_id x, e_title x, e_favorite x, e_provider_kind x, e_provider_id x,
    e_credential_kind x, e_account_identity x, e_domains x, e_favicon_url x, map ep_tuple (e_endpoints x),
    e_interface_type x, e_max_concurrent_requests x, e_supports_websockets x, map_option warn_tuple (e_websocket_warning x), e_auth_scheme x,
    map ref_tuple (secret_refs x), e_default_model x, e_model_aliases x, e_headers x, map_option quota_tuple (e_quota x),
    map_option gate_tuple (e_gateway x), e_usage_source x, e_tags x, e_notes x, e_created_at x,
    e_updated_at x, e_last_used_at x, e_archived_at x, e_deleted_at x)"

definition tuple_entry where
  "tuple_entry z = (case z of (a0, a1, a2, a3, a4, a5, a6, a7, a8, a9, a10, a11, a12, a13, a14, a15, a16, a17, a18, a19, a20, a21, a22, a23, a24, a25, a26, a27, a28) \<Rightarrow>
   \<lparr>e_id = a0, e_title = a1, e_favorite = a2, e_provider_kind = a3, e_provider_id = a4,
    e_credential_kind = a5, e_account_identity = a6, e_domains = a7, e_favicon_url = a8, e_endpoints = map tuple_ep a9,
    e_interface_type = a10, e_max_concurrent_requests = a11, e_supports_websockets = a12, e_websocket_warning = map_option tuple_warn a13, e_auth_scheme = a14,
    secret_refs = map tuple_ref a15, e_default_model = a16, e_model_aliases = a17, e_headers = a18, e_quota = map_option tuple_quota a19, e_subscription = None,
    e_gateway = map_option tuple_gate a20, e_usage_source = a21, e_tags = a22, e_notes = a23, e_created_at = a24,
    e_updated_at = a25, e_last_used_at = a26, e_archived_at = a27, e_deleted_at = a28\<rparr>)"

lemma entry_tuple [simp]: "tuple_entry (entry_tuple x) = x\<lparr>e_subscription := None\<rparr>"
  by (simp add: entry_tuple_def tuple_entry_def comp_def option.map_comp option.map_ident)

definition demo_tools :: entry_tools where
  "demo_tools = \<lparr>record_json = (\<lambda>r. unary CHR ''R'' (to_nat (entry_tuple (entry r), secrets r, runtime_extensions r))),
    record_parse = read_unary CHR ''R'' (\<lambda>n. case from_nat n of (e, s, x) \<Rightarrow>
      \<lparr>entry = tuple_entry e, secrets = s, runtime_extensions = x\<rparr>),
    to_lowercase = to_ascii_lowercase, upkeep_pass = maintain (\<lambda>_. None) (\<lambda>_. (0, 0)) 0\<rparr>"

lemma demo_tools_ok: "tools_ok demo_tools" "prunes_only (upkeep_pass demo_tools)" "quiet (upkeep_pass demo_tools)"
proof -
  show "tools_ok demo_tools"
    unfolding tools_ok_def by (intro allI exI [of _ None]) (simp add: demo_tools_def set_entry_def)
  show "prunes_only (upkeep_pass demo_tools)" "quiet (upkeep_pass demo_tools)"
    by (simp_all add: demo_tools_def maintain_prunes quiet_maintain)
qed

section \<open>What these operations need to succeed\<close>

lemma store_succeeds:
  assumes "sealing_total c" "quiet (upkeep_pass t)" "faults w = []"
  shows "\<exists>w'. store c t s i f action w = (Inr (), w') \<and> faults w' = []"
proof -
  have "faults (w\<lparr>draws := Suc (draws w)\<rparr>) = []" using assms(3) by simp
  from write_provider_succeeds [OF assms(1) this, of t s i "f (now_utc c (draws w))"]
  obtain w1 where w1: "write_provider_record c t s i (f (now_utc c (draws w))) (w\<lparr>draws := Suc (draws w)\<rparr>) = (Inr (), w1)"
      "faults w1 = []" by blast
  obtain w2 where "note_event c t s action (Some i) None w1 = (Inr (), w2)" "faults w2 = []"
    using audit_succeeds [OF assms(1) w1(2) assms(2)] unfolding note_event_def by blast
  with w1(1) show ?thesis by (simp add: store_def bind_def read_clock_def)
qed

lemma add_secret_succeeds:
  assumes "sealing_total c" "quiet (upkeep_pass t)" "faults w = []" "record_at c t s w i = Some r"
    and "normalize_user_secret_label label = Some l" "\<not> list_ex (\<lambda>x. sr_label x = l) (refs r)" "secret \<noteq> []"
  shows "\<exists>sid w'. add_secret_with_metadata c t s i label secret md w = (Inr sid, w') \<and> faults w' = []"
proof -
  let ?sid = "uuid_text c (random_uuid c (draws w))"
  have "faults (w\<lparr>draws := Suc (draws w)\<rparr>) = []" using assms(3) by simp
  from store_succeeds [OF assms(1,2) this, of s i "\<lambda>now. push_secret c (index_key s) md now ?sid l secret r" "''secret.add''"]
  obtain w' where "store c t s i (\<lambda>now. push_secret c (index_key s) md now ?sid l secret r) ''secret.add''
      (w\<lparr>draws := Suc (draws w)\<rparr>) = (Inr (), w')" "faults w' = []" by blast
  with decrypt_provider_calm [OF assms(4,3)] assms(5-7) show ?thesis
    by (simp add: add_secret_with_metadata_def bind_def lift_def new_uuid_def yield_def)
qed

lemma update_provider_succeeds:
  assumes "sealing_total c" "quiet (upkeep_pass t)" "faults w = []" "record_at c t s w i = Some r"
    and "refs r = x # xs" "updated_label u (refs r) = Inr label"
  shows "\<exists>w'. update_provider c t s i u w = (Inr (), w') \<and> faults w' = []"
proof -
  let ?r = "updated_record c (index_key s) u (now_utc c (draws w)) i (sr_id x) label r"
  have "faults (w\<lparr>draws := Suc (draws w)\<rparr>) = []" using assms(3) by simp
  from write_provider_succeeds [OF assms(1) this, of t s i ?r]
  obtain w1 where w1: "write_provider_record c t s i ?r (w\<lparr>draws := Suc (draws w)\<rparr>) = (Inr (), w1)" "faults w1 = []" by blast
  obtain w2 where "note_event c t s ''provider.update'' (Some i) None w1 = (Inr (), w2)" "faults w2 = []"
    using audit_succeeds [OF assms(1) w1(2) assms(2)] unfolding note_event_def by blast
  with w1(1) decrypt_provider_calm [OF assms(4,3)] assms(5,6) show ?thesis
    by (simp add: update_provider_def bind_def lift_def read_clock_def yield_def)
qed

lemma delete_succeeds:
  assumes "sealing_total c" "quiet (upkeep_pass t)" "faults w = []" "hm_get (files w) (record_path c i) = Some b"
    and "envelope_parse c b = Some e" "object_id e = i" "object_type e = ''provider_entry''"
  shows "\<exists>w'. delete_provider_permanently c t s i w = (Inr (), w') \<and> faults w' = []"
proof -
  have r: "read_envelope c (record_path c i) w = (Inr e, w)" using assms(3-5) by (simp add: read_envelope_def bind_def lift_def)
  obtain w1 where w1: "write_envelope_json c (record_path c i) (erased (now_utc c (draws w)) e) (w\<lparr>draws := Suc (draws w)\<rparr>)
      = (Inr (), w1)" "faults w1 = []"
    using assms(3) by (simp add: write_envelope_json_def)
  obtain w2 where "note_event c t s ''provider.delete'' (Some i) None w1 = (Inr (), w2)" "faults w2 = []"
    using audit_succeeds [OF assms(1) w1(2) assms(2)] unfolding note_event_def by blast
  with r w1(1) assms(4,6,7) show ?thesis
    by (simp add: delete_provider_permanently_def path_exists_def bind_def read_clock_def)
qed

lemma create_grant_succeeds:
  assumes "sealing_total c" "platform_ok c" "tools_ok t" "prunes_only (upkeep_pass t)" "quiet (upkeep_pass t)"
    and "faults w = []" "record_at c t s w i = Some r" "find_secret_ref_position (refs r) sel = Some n"
    and "hm_get (secrets r) (sr_id (refs r ! n)) = Some v"
  shows "\<exists>sm w' now. create_secret_field_grant c t g s i sel purpose ttl origin w = (Inr sm, w') \<and> faults w' = [] \<and>
    gs_expires_at sm = expires_after (now_utc c now) ttl"
proof -
  obtain w1 where rv: "reveal_selected_secret c t s i sel False w = (Inr v, w1)" "faults w1 = []"
    using reveal_succeeds [OF assms(1,5,6,7), of False sel n v] assms(8,9) by auto
  obtain q v1 n1 now v2 v3 where st: "write_provider_record c t s i q v2 = (Inr (), v3)"
    and n: "note_event c t s ''secret.reveal'' (Some i) None v3 = (Inr (), w1)"
    using reveal_steps [OF rv(1)] by blast
  obtain r1 where r1: "record_at c t s w1 i = Some r1"
    using write_provider_Inr [OF assms(2,3) st] framesD [OF note_frames [OF assms(4)] n] by auto
  let ?sid = "map_option sr_id (find (\<lambda>x. fingerprint x = hmac_fingerprint (prims c) (index_key s) v) (refs r1))"
  have f: "find_secret_id_by_value c t s i v w1 = (Inr ?sid, w1)"
    using decrypt_provider_calm [OF r1 rv(2)] by (simp add: find_secret_id_by_value_def bind_def yield_def)
  let ?x = "\<lparr>gr_id = random_uuid c (Suc (draws w1)), gr_purpose = purpose, gr_entry_id = Some i, gr_field_id = sel,
    gr_origin = origin, gr_secret = v, gr_created_at = now_utc c (draws w1),
    gr_expires_at = expires_after (now_utc c (draws w1)) ttl\<rparr>" and ?w = "w1\<lparr>draws := Suc (Suc (draws w1))\<rparr>"
  have "faults ?w = []" using rv(2) by simp
  then obtain w2 where w2: "write_grant c g s ?x ?w = (Inr (), w2)" "faults w2 = []"
    unfolding write_grant_def using write_succeeds [OF assms(1)] by blast
  obtain w3 where "note_event c t s ''grant.create'' (Some i) (Some purpose) w2 = (Inr (), w3)" "faults w3 = []"
    using audit_succeeds [OF assms(1) w2(2) assms(5)] unfolding note_event_def by blast
  with rv(1) f w2(1) show ?thesis
    by (auto simp: create_secret_field_grant_def bind_def read_clock_def new_uuid_def yield_def)
qed

section \<open>An entry in the concrete vault\<close>

abbreviation vault0 :: session where "vault0 \<equiv> demo_session 0"

definition demo_ref :: "string \<Rightarrow> string \<Rightarrow> string \<Rightarrow> secret_ref" where
  "demo_ref i l v = sealed_ref demo demo_index v (new_secret_ref i l '''' '''')"

text \<open>An entry with the keys \<open>k1\<close>, labelled \<open>main\<close>, and \<open>k2\<close>, labelled \<open>primary\<close>.\<close>

definition demo_input :: entry_input where
  "demo_input = \<lparr>in_title = ''Relay'', in_provider_kind = ThirdParty, in_provider_id = None, in_credential_kind = Api,
    in_account_identity = None, in_domains = [''relay.example''], in_favicon_url = None, in_endpoints = [],
    in_interface_type = OpenAiCompatible, in_max_concurrent_requests = None, in_supports_websockets = None,
    in_auth_scheme = Bearer, in_api_key = ''sk-first'', in_secret_label = Some ''main'', in_default_model = None,
    in_model_aliases = [], in_headers = [], in_quota = None, in_subscription = None, in_gateway = None, in_tags = [],
    in_notes = None, in_secret_metadata = \<lparr>md_group = None, md_interface_type = None, md_endpoint = None,
      md_default_model = None, md_billing = None\<rparr>\<rparr>"

definition demo_entry :: "secret_ref list \<Rightarrow> (string, string) hmap \<Rightarrow> provider_record" where
  "demo_entry xs ss = (set_entry (\<lambda>e. e\<lparr>secret_refs := xs\<rparr>) (new_record demo demo_index demo_input [] 0 9 ''k1''))
    \<lparr>secrets := ss\<rparr>"

definition two_keys :: provider_record where
  "two_keys = demo_entry [demo_ref ''k1'' ''main'' ''sk-first'', demo_ref ''k2'' ''primary'' ''sk-second'']
    [(''k1'', ''sk-first''), (''k2'', ''sk-second'')]"

lemma two_keys_simps [simp]:
  "refs two_keys = [demo_ref ''k1'' ''main'' ''sk-first'', demo_ref ''k2'' ''primary'' ''sk-second'']"
  "hm_get (secrets two_keys) ''k1'' = Some ''sk-first''" "hm_get (secrets two_keys) ''k2'' = Some ''sk-second''"
  "e_max_concurrent_requests (entry two_keys) = None"
  "sr_id (demo_ref i l v) = i" "sr_label (demo_ref i l v) = l"
  by (simp_all add: two_keys_def demo_entry_def hm_get_def demo_ref_def new_record_def Let_def demo_input_def)

lemma two_keys_wf: "record_wf demo demo_index (with_subscription x two_keys)"
proof -
  have "secret_shown demo demo_index (refs two_keys) i v" if "hm_get (secrets two_keys) i = Some v" for i v
    using that by (auto simp: two_keys_def demo_entry_def hm_get_def secret_shown_def demo_ref_def split: if_splits)
  then show ?thesis by (simp add: record_wf_def del: set_entry_simps) (simp add: set_entry_def)
qed

text \<open>A vault that holds one entry.\<close>

lemma demo_holds:
  obtains w x where "record_at demo demo_tools vault0 w 9 = Some (with_subscription x r)" "faults w = []"
    "\<And>j. record_path demo j \<noteq> record_path demo 9 \<Longrightarrow> record_at demo demo_tools vault0 w j = None"
    "\<And>p. p \<noteq> record_path demo 9 \<Longrightarrow> p \<noteq> manifest \<Longrightarrow> hm_get (files w) p = None" "draws w = 7"
proof -
  obtain w where w: "write_provider_record demo demo_tools vault0 9 r (empty_vault 0) = (Inr (), w)" "faults w = []"
    using write_provider_succeeds [OF demo_ok(2) empty_calm] by blast
  obtain x where x: "record_at demo demo_tools vault0 w 9 = Some (with_subscription x r)"
    using write_provider_Inr [OF demo_ok(1) demo_tools_ok(1) w(1)] by blast
  have "touches {record_path demo 9} (write_provider_record demo demo_tools vault0 9 r)"
    unfolding write_provider_record_def by (rule write_touches)
  then have o: "same_outside {record_path demo 9} (empty_vault 0) w" using w(1) by (rule touchesD)
  have get: "hm_get (files w) p = None" if "p \<noteq> record_path demo 9" "p \<noteq> manifest" for p
    using same_outsideD(1) [OF o, of p] that by (simp add: empty_vault_def hm_get_def)
  have "record_path demo j \<noteq> manifest" for j by (simp add: record_path_def manifest_def)
  then have none: "record_at demo demo_tools vault0 w j = None" if "record_path demo j \<noteq> record_path demo 9" for j
    using get [OF that] by (simp add: record_at_def)
  define v where "v = w\<lparr>draws := 7\<rparr>"
  have "record_at demo demo_tools vault0 v j = record_at demo demo_tools vault0 w j" for j by (simp add: v_def record_at_def)
  with that [of v x] w(2) x none get show ?thesis by (simp add: v_def)
qed

lemma demo_index_key [simp]: "index_key vault0 = demo_index"
  by (simp add: demo_session_def)

lemma demo_fresh: "record_at demo demo_tools vault0 w 9 = Some (with_subscription x two_keys) \<Longrightarrow> draws w = 7 \<Longrightarrow>
  fresh_keys demo demo_tools vault0 w 9"
proof -
  assume a: "record_at demo demo_tools vault0 w 9 = Some (with_subscription x two_keys)" "draws w = 7"
  have "uuid_text demo (random_uuid demo 7) = show_nat 7" by (simp add: demo_def)
  moreover have "show_nat 7 = ''7''" by code_simp
  ultimately show ?thesis using a by (simp add: fresh_keys_def)
qed

theorem entries_stay_well_formed_witness:
  "\<exists>w. record_at demo demo_tools vault0 w 9 \<noteq> None \<and> entries_wf demo demo_tools vault0
    (snd (run_entry_op demo demo_tools vault0 (AddSecret 9 ''team'' ''sk-third'' (in_secret_metadata demo_input)) w))"
proof -
  obtain w x where w: "record_at demo demo_tools vault0 w 9 = Some (with_subscription x two_keys)" "draws w = 7"
    and none: "\<And>j. record_path demo j \<noteq> record_path demo 9 \<Longrightarrow> record_at demo demo_tools vault0 w j = None"
    using demo_holds [of two_keys] by metis
  have "entries_wf demo demo_tools vault0 w"
    unfolding entries_wf_def demo_index_key
  proof (intro allI impI)
    fix i r assume r: "record_at demo demo_tools vault0 w i = Some r"
    then have "record_path demo i = record_path demo 9" using none by fastforce
    with r w(1) two_keys_wf show "record_wf demo demo_index r" by (auto simp: record_at_def)
  qed
  from entries_stay_well_formed [OF demo_ok(1) demo_tools_ok(1,2) this,
      of "AddSecret 9 ''team'' ''sk-third'' (in_secret_metadata demo_input)"] demo_fresh [OF w] w(1)
  show ?thesis by (auto simp del: run_entry_op.simps)
qed

theorem added_secret_is_revealed_witness:
  "\<exists>w sid w' w''. add_secret_with_metadata demo demo_tools vault0 9 ''team'' ''sk-third'' (in_secret_metadata demo_input) w
      = (Inr sid, w') \<and> reveal_selected_secret demo demo_tools vault0 9 sid True w' = (Inr ''sk-third'', w'')"
proof -
  obtain w x where w: "record_at demo demo_tools vault0 w 9 = Some (with_subscription x two_keys)" "faults w = []"
    using demo_holds [of two_keys] by metis
  have "normalize_user_secret_label ''team'' = Some ''team''" by code_simp
  then obtain sid w' where a: "add_secret_with_metadata demo demo_tools vault0 9 ''team'' ''sk-third''
      (in_secret_metadata demo_input) w = (Inr sid, w')" "faults w' = []"
    using add_secret_succeeds [OF demo_ok(2) demo_tools_ok(3) w(2,1), of "''team''" "''team''" "''sk-third''" "in_secret_metadata demo_input"] by auto
  with added_secret_is_revealed [OF demo_ok(1) demo_tools_ok(1,2) a(1)] demo_ok(2) demo_tools_ok(3) show ?thesis by blast
qed

text \<open>An update of the credential alone.\<close>

definition new_key :: entry_update where
  "new_key = \<lparr>up_title = ''Relay'', up_provider_kind = ThirdParty, up_provider_id = None, up_credential_kind = None,
    up_account_identity = None, up_domains = [''relay.example''], up_favicon_url = None, up_endpoints = [],
    up_interface_type = OpenAiCompatible, up_max_concurrent_requests = None, up_supports_websockets = None,
    up_auth_scheme = Bearer, up_api_key = Some ''sk-third'', up_secret_label = None, up_default_model = None,
    up_model_aliases = [], up_headers = None, up_quota = None, up_subscription = None, up_gateway = None, up_tags = [],
    up_notes = None, up_secret_metadata = in_secret_metadata demo_input\<rparr>"

theorem update_misses_the_labelled_primary_witness:
  "\<exists>w w' w''. update_provider demo demo_tools vault0 9 new_key w = (Inr (), w') \<and>
    reveal_selected_secret demo demo_tools vault0 9 ''primary'' False w' = (Inr ''sk-second'', w'')"
proof -
  obtain w x where w: "record_at demo demo_tools vault0 w 9 = Some (with_subscription x two_keys)" "faults w = []"
    using demo_holds [of two_keys] by metis
  have r: "refs (with_subscription x two_keys) = [demo_ref ''k1'' ''main'' ''sk-first'', demo_ref ''k2'' ''primary'' ''sk-second'']"
    by simp
  have "updated_label new_key (refs (with_subscription x two_keys)) = Inr None"
    by (simp add: updated_label_def new_key_def)
  then obtain w' where u: "update_provider demo demo_tools vault0 9 new_key w = (Inr (), w')" "faults w' = []"
    using update_provider_succeeds [OF demo_ok(2) demo_tools_ok(3) w(2,1) r] by blast
  have wf: "record_wf demo (index_key vault0) (with_subscription x two_keys)" using two_keys_wf by simp
  have "up_api_key new_key = Some ''sk-third''" by (simp add: new_key_def)
  from update_misses_the_labelled_primary [OF demo_ok(1) demo_tools_ok(1,2) w(1) wf r _ _ _ _ this u(1),
      of "demo_ref ''k2'' ''primary'' ''sk-second''" "''sk-second''"] u demo_ok(2) demo_tools_ok(3)
  show ?thesis by auto
qed

section \<open>Deletion and expiry in the concrete vault\<close>

text \<open>Whatever is built and written in the empty vault is there.\<close>

lemma demo_written:
  obtains w e where "write_envelope demo vault0 p i ty sc m (empty_vault 0) = (Inr (), w)" "faults w = []"
    "hm_get (files w) p = Some (envelope_pretty demo e)" "envelope_parse demo (envelope_pretty demo e) = Some e"
    "\<not> tombstone e" "object_id e = i" "object_type e = ty"
    "sc \<noteq> 0 \<Longrightarrow> validate_sync_object_bytes demo vault0 (envelope_pretty demo e) = Inr ()"
proof -
  obtain w where w: "write_envelope demo vault0 p i ty sc m (empty_vault 0) = (Inr (), w)" "faults w = []"
    using write_succeeds [OF demo_ok(2) empty_calm] by blast
  from w(1) obtain e w1 where b: "build_envelope demo vault0 p i ty sc m (empty_vault 0) = (Inr e, w1)"
    and wr: "atomic_write_bytes p (envelope_pretty demo e) w1 = (Inr (), w)"
    by (auto simp: write_envelope_def write_envelope_json_def bind_Inr)
  have "envelope_parse demo (envelope_pretty demo e) = Some e" using demo_ok(1) by (simp add: platform_ok_def)
  with that w write_Inr [OF wr] build_envelope_Inr [OF demo_ok(1) b] built_is_valid [OF demo_ok(1) b] show ?thesis by auto
qed

theorem deleted_entry_is_gone_witness:
  "\<exists>w w'. path_exists (record_path demo 9) w \<and> delete_provider_permanently demo demo_tools vault0 9 w = (Inr (), w') \<and>
    record_at demo demo_tools vault0 w' 9 = None"
proof -
  obtain w :: world and e where w: "faults w = []" "hm_get (files w) (record_path demo 9) = Some (envelope_pretty demo e)"
      "envelope_parse demo (envelope_pretty demo e) = Some e" "object_id e = 9" "object_type e = ''provider_entry''"
    by (rule demo_written [of "record_path demo 9" 9 "''provider_entry''" 1 "[]"]) (rule that, assumption, assumption, simp+)
  obtain w' where d: "delete_provider_permanently demo demo_tools vault0 9 w = (Inr (), w')"
    using delete_succeeds [OF demo_ok(2) demo_tools_ok(3) w] by blast
  with deleted_entry_is_gone [OF demo_ok(1) demo_tools_ok(2) w(2) d] w(2) show ?thesis by (auto simp: path_exists_def)
qed

theorem expired_grant_is_refused_witness:
  "\<exists>w w' b. expire_grant demo demo_tools vault0 3 w = (Inr (), w') \<and> hm_get (files w') (grant_path demo 3) = Some b \<and>
    validate_sync_object_bytes demo vault0 b = Inl UnlockFailed"
proof -
  obtain w :: world and e where w: "faults w = []" "hm_get (files w) (grant_path demo 3) = Some (envelope_pretty demo e)"
      "envelope_parse demo (envelope_pretty demo e) = Some e" "\<not> tombstone e"
      "validate_sync_object_bytes demo vault0 (envelope_pretty demo e) = Inr ()"
    by (rule demo_written [of "grant_path demo 3" 3 "''ttl_grant''" 1 "[]"]) (rule that, assumption, assumption, simp+)
  obtain w' where x: "expire_grant demo demo_tools vault0 3 w = (Inr (), w')"
    using expire_succeeds [OF demo_ok(2) demo_tools_ok(3) w(1,2,3)] by blast
  with expired_grant_is_refused [OF demo_ok(1) demo_tools_ok(2) w(2,3,4,5) x] show ?thesis by blast
qed

section \<open>A grant in the concrete vault\<close>

definition grant_tuple where
  "grant_tuple x = (gr_id x, gr_purpose x, gr_entry_id x, gr_field_id x, gr_origin x, gr_secret x, gr_created_at x,
    gr_expires_at x)"

definition tuple_grant where
  "tuple_grant z = (case z of (a0, a1, a2, a3, a4, a5, a6, a7) \<Rightarrow>
   \<lparr>gr_id = a0, gr_purpose = a1, gr_entry_id = a2, gr_field_id = a3, gr_origin = a4, gr_secret = a5,
    gr_created_at = a6, gr_expires_at = a7\<rparr>)"

lemma grant_tuple [simp]: "tuple_grant (grant_tuple x) = x"
  by (simp add: grant_tuple_def tuple_grant_def)

definition demo_codec :: grant_codec where
  "demo_codec = \<lparr>grant_json = (\<lambda>x. unary CHR ''G'' (to_nat (grant_tuple x))),
    grant_parse = read_unary CHR ''G'' (\<lambda>n. tuple_grant (from_nat n))\<rparr>"

lemma demo_codec_ok: "codec_ok demo_codec"
  by (simp add: codec_ok_def demo_codec_def)

text \<open>A grant for the second key, consumed while it lasts and again when it has run out.\<close>

theorem grant_lives_until_it_expires_witness:
  "\<exists>w sm w' v1 v2. create_secret_field_grant demo demo_tools demo_codec vault0 9 ''primary'' ''chrome.fill'' 120 None w
      = (Inr sm, w') \<and>
    fst (consume_secret_grant demo demo_tools demo_codec vault0 (gs_id sm) v1) \<noteq> Inl GrantExpired \<and>
    fst (consume_secret_grant demo demo_tools demo_codec vault0 (gs_id sm) v2) = Inl GrantExpired"
proof -
  obtain w x where w: "record_at demo demo_tools vault0 w 9 = Some (with_subscription x two_keys)" "faults w = []"
    using demo_holds [of two_keys] by metis
  have "find_secret_ref_position (refs (with_subscription x two_keys)) ''primary'' = Some 1"
    by (simp add: find_secret_ref_position_def PRIMARY_SECRET_FIELD_def position_def)
  then obtain sm w' now where g: "create_secret_field_grant demo demo_tools demo_codec vault0 9 ''primary'' ''chrome.fill'' 120
      None w = (Inr sm, w')" "faults w' = []" and e: "gs_expires_at sm = expires_after (now_utc demo now) 120"
    using create_grant_succeeds [OF demo_ok(2,1) demo_tools_ok(1,2,3) w(2,1), of "''primary''" 1 "''sk-second''" demo_codec "''chrome.fill''" 120 None] by auto
  have time: "now_utc demo = int" by (simp add: demo_def)
  let ?v = "\<lambda>n. w'\<lparr>draws := n\<rparr>"
  have v: "hm_get (files (?v n)) (grant_path demo (gs_id sm)) = hm_get (files w') (grant_path demo (gs_id sm))"
    "faults (?v n) = []" for n using g(2) by simp_all
  note life = grant_lives_until_it_expires [OF demo_ok demo_codec_ok demo_tools_ok(2,3) g(1) v]
  have "now_utc demo (draws (?v 0)) < gs_expires_at sm" using e by (simp add: time expires_after_def)
  then have one: "fst (consume_secret_grant demo demo_tools demo_codec vault0 (gs_id sm) (?v 0)) \<noteq> Inl GrantExpired"
    using life [of 0] by auto
  have "\<not> now_utc demo (draws (?v (nat (gs_expires_at sm)))) < gs_expires_at sm" by (simp add: time)
  then have "fst (consume_secret_grant demo demo_tools demo_codec vault0 (gs_id sm) (?v (nat (gs_expires_at sm)))) = Inl GrantExpired"
    using life [of "nat (gs_expires_at sm)"] by auto
  with g(1) one show ?thesis by blast
qed

section \<open>Lists and browser grants in the concrete vault\<close>

lemma filter_act_pure: "(\<And>x. x \<in> set xs \<Longrightarrow> P x w = (Inr (Q x), w)) \<Longrightarrow> filter_act P xs w = (Inr (filter Q xs), w)"
  by (induction xs) (simp_all add: bind_def yield_def)

lemma record_paths_calm:
  assumes "faults w = []"
  shows "record_paths c w = (Inr (filter (\<lambda>p. case Option.bind (hm_get (files w) p) (envelope_parse c) of
      None \<Rightarrow> True | Some e \<Rightarrow> \<not> tombstone e \<and> object_type e = ''provider_entry'')
    (encrypted_names ''objects'' ''aipobj'' w)), w)"
proof -
  have "read_ok p w = (Inr (hm_get (files w) p), w)" for p
    using assms by (cases "hm_get (files w) p") (simp_all add: read_ok_def)
  then show ?thesis using assms unfolding record_paths_def
    by (simp add: bind_def [of "encrypted_paths ''objects'' ''aipobj''"])
      (rule filter_act_pure, simp add: bind_def yield_def)
qed

lemma demo_entry_id: "e_id (entry (demo_entry xs ss)) = 9"
  by (simp add: demo_entry_def new_record_def Let_def)

lemma summary_id:
  "sum_id (summary_from_plaintext r) = e_id (entry r)" "e_id (entry (with_subscription x r)) = e_id (entry r)"
  by (simp add: summary_from_plaintext_def Let_def) (simp only: set_entry_simps, simp)

lemma divided_constant:
  assumes "mset as + mset bs + mset cs = mset (map f (map (\<lambda>_. r) ps))" "ps \<noteq> []"
  shows "set (as @ bs @ cs) = {f r}"
proof -
  have "set (as @ bs @ cs) = set (map f (map (\<lambda>_. r) ps))"
    using arg_cong [OF assms(1), of set_mset] by (simp add: Un_assoc)
  also have "\<dots> = {f r}" using assms(2) by (cases ps) auto
  finally show ?thesis .
qed


theorem keyless_entry_blocks_the_browser_witness:
  "\<exists>w e. record_at demo demo_tools vault0 w 9 \<noteq> None \<and>
    fst (create_browser_fill_grants demo demo_tools demo_codec vault0 ''https://relay.example''
      [summary_from_plaintext (demo_entry [] [])] w) = Inl e"
proof -
  obtain w x where w: "record_at demo demo_tools vault0 w 9 = Some (with_subscription x (demo_entry [] []))"
    using demo_holds [of "demo_entry [] []"] by metis
  have "refs (with_subscription x (demo_entry [] [])) = []" by (simp add: demo_entry_def)
  moreover have "9 \<in> sum_id ` set [summary_from_plaintext (demo_entry [] [])]" by (simp add: summary_id demo_entry_id)
  ultimately show ?thesis
    using keyless_entry_blocks_the_browser [OF demo_tools_ok(2) w, of "[summary_from_plaintext (demo_entry [] [])]"] w by blast
qed

end
