(* ===== verification/Spec2Isabelle.thy ===== *)
theory Spec2Isabelle
  imports Guards EntryDemo
begin

text \<open>
  aipass keeps the credentials of AI providers in an encrypted vault on disk and serves them to
  local programs, either as time-limited grants or through a proxy that picks a target for each
  request.  Two subsystems carry its logic and are modelled here: the vault (crates
  \<open>aipass-crypto\<close>, \<open>aipass-storage\<close>, \<open>aipass-vault\<close>, with the data of
  \<open>aipass-provider-registry\<close> and the browser grants of \<open>aipass-agent\<close>) and the routing core of the
  proxy (\<open>aipass-proxy\<close>, with the usage accounting of \<open>aipass-proxy-conversion\<close>).  They meet in the
  agent, which resolves routes from vault entries and hands them to the proxy; that glue is not
  modelled.

  Shared vocabulary.  \<open>Prelude\<close>: machine integers at their width with saturating operations,
  durations, hash maps as association lists.  \<open>Text\<close>: the operations of \<open>str\<close> on bytes and JSON
  values.  \<open>Http\<close>: header maps and the calendar arithmetic of \<open>util.rs\<close>.

  The vault.  \<open>Crypto\<close> models \<open>aipass-crypto\<close> over a record of primitives whose laws are the
  predicate \<open>primitives_ok\<close>.  \<open>Disk\<close> models the directory: a \<open>world\<close> holds the files, the list of
  faults the disk has in store, one entry per access, and the number of draws from the random
  source and the clock, which are functions of that number.  An operation is a function from the
  world to a result and a world, an error being a value; a write may fail before or after it has
  taken effect.  \<open>Vault\<close> holds the header, the object envelope, audit events and their retention
  (\<open>audit_retention.rs\<close>); \<open>VaultSync\<close> the snapshots, their three-way merge and the journal
  (\<open>sync_snapshot.rs\<close>); \<open>Rotation\<close> the entry points that unlock a vault, epoch rotation, change of
  password, recovery and encrypted backups; \<open>Access\<close> the creation of a vault, remote access
  envelopes and the migration of the password policy.  \<open>Journal\<close>, \<open>Unlock\<close>, \<open>Records\<close>, \<open>Epochs\<close>
  and \<open>Calm\<close> hold what is proved about them: the journal phase by phase under any faults, recovery
  on a working disk, writes that keep the vault in order, the effect of a committed rotation, and
  what succeeds when the disk works.  \<open>Entries\<close> models the plaintext of an entry and every edit of
  it as a function on records, \<open>EntryOps\<close> the operations that read, change, write and audit,
  \<open>Grants\<close> the grants, permanent deletion and the check of one object, \<open>Lookup\<close> the summaries, the
  lists, the search, the lookup by origin and the grants for a browser.  \<open>VaultDemo\<close>,
  \<open>RotationDemo\<close>, \<open>AccessDemo\<close> and \<open>EntryDemo\<close> build a platform, a vault and a record format at
  which the theorems are applied.

  The proxy.  \<open>Search\<close>, \<open>Config\<close>: configuration, resolved routes and targets, quota windows
  (\<open>config.rs\<close>, \<open>state.rs\<close>, \<open>search/config.rs\<close>).  \<open>Health\<close>, \<open>Recovery\<close>: the circuit breaker of a
  target and the probes that reopen it (\<open>routing.rs\<close>).  \<open>Permits\<close>: the guards that count live
  requests (\<open>concurrency.rs\<close>, \<open>state.rs\<close>).  \<open>Sessions\<close>, \<open>Capability\<close>: session affinity and the
  evidence about WebSocket support.  \<open>History\<close>: the history of hidden search rounds.  \<open>State\<close>: the
  shared state, a field per mutex, and its statistics.  \<open>Selection\<close>, \<open>Ordering\<close>: the route of a
  request, the order of its targets and the effect of an outcome (\<open>selection.rs\<close>).  \<open>Reload\<close>:
  validation and reload (\<open>runtime.rs\<close>).  \<open>Accounting\<close>, \<open>Sse\<close>, \<open>Tracking\<close>: token usage, cost and
  summaries, server-sent events, and the task that follows a response body (\<open>usage.rs\<close>,
  \<open>sse.rs\<close>).  \<open>Headers\<close>, \<open>Response\<close>, \<open>Prepare\<close>, \<open>Models\<close>, \<open>Forward\<close>, \<open>Guards\<close>: what is sent
  upstream, one attempt over HTTP, the preparation of a request, groups of models and bound
  history, the forwarding loop, and its guards over a whole request (\<open>upstream.rs\<close>, \<open>forward.rs\<close>
  and \<open>forward/\<close>, \<open>provider.rs\<close>, \<open>model_routes.rs\<close>).

  Interfaces.  \<open>occupancy\<close> (\<open>Permits\<close>) is the contract of the three counters of live guards,
  \<open>session_store\<close> (\<open>Sessions\<close>) that of the two bounded maps that expire, \<open>loop_invariant\<close> and
  \<open>run_invariant\<close> (\<open>Forward\<close>) lift a fact about one attempt to the whole forwarding loop; each is
  interpreted on the definitions of the model.  Concurrent requests are a step relation
  (\<open>probe_step\<close>, \<open>permit_step\<close>) or, in the forwarding loop, an argument that may change the shared
  state whenever the loop waits.

  What is shown.  The vault: a snapshot is applied whole or not at all or leaves a journal that
  the next unlock on a working disk finishes; a merge keeps what each side changed; a rotation
  carries every record to the new key; passwords, recovery keys and remote access codes open
  the vault they were made for; records stay well formed under every operation
  and any faults; keys, grants and deletions mean what they say.  The proxy: a request is never
  sent again after it was submitted, the loop ends, every guard is released, history never reaches
  another account, attempts, concurrency and probes are bounded, the order of targets is a
  permutation of the eligible ones, and the accounting is conservative and independent of how a
  stream is cut into chunks.  Some theorems state what the code does where it falls short: an
  unreadable audit file blocks a vault for good, an expired grant fails the vault's own check, an
  entry without keys blocks a browser lookup, IPv6 sites are confused, an update misses the key
  labelled primary.

  Bounds.  The hold loop takes fuel; each of its rounds pauses at least a millisecond, so the
  budget in milliseconds and one is enough, which is the theorem \<open>forwarding_ends\<close>.  All other
  recursion is total.  Integers have the width of the source where they can wrap or saturate;
  instants and dates are unbounded integers, in nanoseconds, so the panic of a date beyond the
  year 9999 is not seen.

  Not modelled.  The WebSocket transport, the vendor adapters and the conversion of payloads, the
  SQL of the usage database, the accept loop and diagnostics of the proxy; managed OAuth accounts,
  the folder and WebDAV protocols of \<open>aipass-sync\<close>, and the agent but for its browser grants; the
  zeroing of memory.  Existence checks on the disk do not fail and the temporary file of an atomic
  write is not visible.  Printing a record as JSON may lose decimals of its subscription snapshot:
  the law of the format allows any change there and none elsewhere.
\<close>

end
